(* ===== verification/Prelude.thy ===== *)
theory Prelude
  imports Complex_Main
begin

text \<open>
  Shared vocabulary of the development.

  \<^item> Strings. A JavaScript string is modelled as the \<^typ>\<open>string\<close> of its UTF-8 bytes. The
    literals of the source that are not ASCII (dashes, dots, quotation marks) are the byte
    strings named below. Everything the source does with strings here (comparison,
    concatenation, splitting at an ASCII character, trimming, matching ASCII classes, the
    200-byte clamp) is defined on bytes; no operation counts UTF-16 units.
  \<^item> Numbers. Counts, indices and offsets are \<^typ>\<open>int\<close> (the source's safe integers); the
    \<open>bigint\<close>s of the decimal kit are \<^typ>\<open>int\<close> as well.
  \<^item> \<open>null\<close> and \<open>undefined\<close> are \<^const>\<open>None\<close> wherever the code only ever tests them together
    (\<open>== null\<close>, \<open>??\<close>, \<open>?.\<close>).
\<close>

named_theorems loop_simps "unfolding rules of the loops of the source"
named_theorems wf_intros "well-formedness facts of the model's operations"

subsection \<open>Characters and decimal digits\<close>

definition is_digit :: "char \<Rightarrow> bool" where
  "is_digit c \<longleftrightarrow> 48 \<le> (of_char c :: nat) \<and> (of_char c :: nat) \<le> 57"

definition digit_char :: "nat \<Rightarrow> char" where
  "digit_char d = char_of (48 + d)"

definition digit_val :: "char \<Rightarrow> nat" where
  "digit_val c = of_char c - 48"

text \<open>\<open>String(n)\<close> of a non-negative integer.\<close>

fun show_nat :: "nat \<Rightarrow> string" where
  "show_nat n = (if n < 10 then [digit_char n] else show_nat (n div 10) @ [digit_char (n mod 10)])"

declare show_nat.simps [simp del]

definition show_int :: "int \<Rightarrow> string" where
  "show_int i = (if i < 0 then ''-'' @ show_nat (nat (- i)) else show_nat (nat i))"

text \<open>The value of a run of digits, as \<open>BigInt(...)\<close> and \<open>Number(...)\<close> read it.\<close>

definition digits_val :: "string \<Rightarrow> nat" where
  "digits_val ds = foldl (\<lambda>a c. 10 * a + digit_val c) 0 ds"

lemma of_char_digit_char [simp]: "d < 10 \<Longrightarrow> (of_char (digit_char d) :: nat) = 48 + d"
  by (simp add: digit_char_def)

lemma is_digit_digit_char [simp]: "d < 10 \<Longrightarrow> is_digit (digit_char d)"
  by (simp add: is_digit_def)

lemma digit_val_digit_char [simp]: "d < 10 \<Longrightarrow> digit_val (digit_char d) = d"
  by (simp add: digit_val_def)

lemma digit_char_eq_iff [simp]: "d < 10 \<Longrightarrow> e < 10 \<Longrightarrow> digit_char d = digit_char e \<longleftrightarrow> d = e"
  by (metis digit_val_digit_char)

lemma digit_char_0: "digit_char 0 = CHR ''0''"
  by code_simp

lemma digit_char_values [simp]:
  "digit_char 0 = CHR ''0''" "digit_char (Suc 0) = CHR ''1''" "digit_char 2 = CHR ''2''"
  "digit_char 3 = CHR ''3''" "digit_char 4 = CHR ''4''" "digit_char 5 = CHR ''5''"
  "digit_char 6 = CHR ''6''" "digit_char 7 = CHR ''7''" "digit_char 8 = CHR ''8''"
  "digit_char 9 = CHR ''9''"
  by code_simp+

lemma is_digit_0 [simp]: "is_digit CHR ''0''"
  by (simp add: is_digit_def)

lemma digit_val_0 [simp]: "digit_val CHR ''0'' = 0"
  by (simp add: digit_val_def)

lemma digit_val_less: "is_digit c \<Longrightarrow> digit_val c < 10"
  by (auto simp: is_digit_def digit_val_def)

lemma digit_char_digit_val [simp]: "is_digit c \<Longrightarrow> digit_char (digit_val c) = c"
  by (simp add: is_digit_def digit_val_def digit_char_def)

lemma digits_val_Nil [simp]: "digits_val [] = 0"
  by (simp add: digits_val_def)

lemma digits_val_snoc [simp]: "digits_val (ds @ [c]) = 10 * digits_val ds + digit_val c"
  by (simp add: digits_val_def)

lemma digits_val_single [simp]: "digits_val [c] = digit_val c"
  by (simp add: digits_val_def)

lemma digits_val_append: "digits_val (xs @ ys) = digits_val xs * 10 ^ length ys + digits_val ys"
proof (induction ys rule: rev_induct)
  case Nil
  show ?case by simp
next
  case (snoc y ys)
  have "digits_val (xs @ ys @ [y]) = 10 * digits_val (xs @ ys) + digit_val y"
    using digits_val_snoc [of "xs @ ys" y] by simp
  then show ?case using snoc by (simp add: algebra_simps)
qed

lemma digits_val_zeros: "digits_val (replicate n CHR ''0'' @ ds) = digits_val ds"
proof -
  have "digits_val (replicate n CHR ''0'') = 0"
    by (induction n) (simp_all add: digits_val_append flip: replicate_append_same)
  then show ?thesis by (simp add: digits_val_append)
qed

lemma digits_val_show_nat [simp]: "digits_val (show_nat n) = n"
proof (induction n rule: show_nat.induct)
  case (1 n)
  then show ?case by (cases "n < 10") (simp_all add: show_nat.simps [of n])
qed

lemma show_nat_inject [simp]: "show_nat m = show_nat n \<longleftrightarrow> m = n"
  by (metis digits_val_show_nat)

lemma show_nat_digits: "list_all is_digit (show_nat n)"
proof (induction n rule: show_nat.induct)
  case (1 n)
  then show ?case by (cases "n < 10") (simp_all add: show_nat.simps [of n])
qed

lemma show_nat_not_Nil [simp]: "show_nat n \<noteq> []"
  by (subst show_nat.simps) simp

lemma show_nat_lead: "0 < n \<Longrightarrow> hd (show_nat n) \<noteq> CHR ''0''"
proof (induction n rule: show_nat.induct)
  case (1 n)
  show ?case
  proof (cases "n < 10")
    case True
    with "1.prems" show ?thesis
      using digit_char_eq_iff [of n 0] by (simp add: show_nat.simps [of n] digit_char_0)
  next
    case False
    then have "hd (show_nat (n div 10)) \<noteq> CHR ''0''" using "1.IH" by simp
    with False show ?thesis by (simp add: show_nat.simps [of n])
  qed
qed

lemma show_nat_0: "show_nat 0 = ''0''"
  by (simp add: show_nat.simps [of 0] digit_char_0)

lemma is_digit_minus [simp]: "\<not> is_digit CHR ''-''"
  by (simp add: is_digit_def)

lemma is_digit_dot [simp]: "\<not> is_digit CHR ''.''"
  by (simp add: is_digit_def)

lemma show_nat_hd_digit: "is_digit (hd (show_nat n))"
  using show_nat_digits [of n] by (cases "show_nat n") auto

lemma show_int_inject [simp]: "show_int i = show_int j \<longleftrightarrow> i = j"
proof -
  have no_minus: "show_nat m \<noteq> CHR ''-'' # xs" for m xs
    using show_nat_hd_digit [of m] by (metis is_digit_minus list.sel(1))
  show ?thesis
    by (auto simp: show_int_def no_minus split: if_splits) (metis no_minus)+
qed

lemma show_nat_snoc:
  assumes "is_digit c" "0 < n"
  shows "show_nat (10 * n + digit_val c) = show_nat n @ [c]"
proof -
  have "digit_val c < 10" using assms(1) by (rule digit_val_less)
  then show ?thesis using assms by (subst show_nat.simps) simp
qed

text \<open>A run of digits without a leading zero is the decimal text of its value.\<close>

lemma show_nat_digits_val:
  "list_all is_digit ds \<Longrightarrow> ds \<noteq> [] \<Longrightarrow> hd ds \<noteq> CHR ''0'' \<Longrightarrow>
   show_nat (digits_val ds) = ds \<and> 0 < digits_val ds"
proof (induction ds rule: rev_induct)
  case (snoc c ds)
  show ?case
  proof (cases "ds = []")
    case True
    with snoc.prems have c: "is_digit c" "c \<noteq> CHR ''0''" by simp_all
    then have "digit_val c \<noteq> 0" by (metis digit_char_0 digit_char_digit_val)
    moreover have "digit_val c < 10" using c(1) by (rule digit_val_less)
    ultimately show ?thesis using True c by (simp add: show_nat.simps [of "digit_val c"])
  next
    case False
    then show ?thesis using snoc show_nat_snoc [of c "digits_val ds"] by (simp add: hd_append)
  qed
qed simp

subsection \<open>Scanning\<close>

text \<open>A maximal run of a character class and what follows it.\<close>

definition span :: "('a \<Rightarrow> bool) \<Rightarrow> 'a list \<Rightarrow> 'a list \<times> 'a list" where
  "span p xs = (takeWhile p xs, dropWhile p xs)"

lemma span_append:
  "list_all p xs \<Longrightarrow> (ys = [] \<or> \<not> p (hd ys)) \<Longrightarrow> span p (xs @ ys) = (xs, ys)"
  by (induction xs) (cases ys; auto simp: span_def)+

lemma span_all: "list_all p xs \<Longrightarrow> span p xs = (xs, [])"
  using span_append [of p xs "[]"] by simp

lemma span_fst_all: "span p xs = (a, b) \<Longrightarrow> list_all p a"
  by (auto simp: span_def list_all_iff dest: set_takeWhileD)

lemma span_append_eq: "span p xs = (a, b) \<Longrightarrow> xs = a @ b"
  by (auto simp: span_def)

subsection \<open>Joining\<close>

text \<open>\<open>parts.join(sep)\<close>.\<close>

fun join :: "string \<Rightarrow> string list \<Rightarrow> string" where
  "join sep [] = []"
| "join sep [x] = x"
| "join sep (x # y # zs) = x @ sep @ join sep (y # zs)"

subsection \<open>Trimming\<close>

text \<open>
  \<open>String.prototype.trim\<close> removes ECMAScript white space and line terminators at both ends:
  TAB, LF, VT, FF, CR, SP, NBSP, the Unicode space separators and U+FEFF. Each is listed with
  its UTF-8 encoding, first as it stands and (for the end of the string) reversed.
\<close>

definition bytes :: "nat list \<Rightarrow> string" where
  "bytes ns = map char_of ns"

definition js_space :: "string list" where
  "js_space =
     map (\<lambda>n. bytes [n]) [9, 10, 11, 12, 13, 32] @
     [bytes [0xC2, 0xA0], bytes [0xE1, 0x9A, 0x80]] @
     map (\<lambda>n. bytes [0xE2, 0x80, n])
       [0x80, 0x81, 0x82, 0x83, 0x84, 0x85, 0x86, 0x87, 0x88, 0x89, 0x8A, 0xA8, 0xA9, 0xAF] @
     [bytes [0xE2, 0x81, 0x9F], bytes [0xE3, 0x80, 0x80], bytes [0xEF, 0xBB, 0xBF]]"

definition starts_with :: "'a list \<Rightarrow> 'a list \<Rightarrow> bool" where
  "starts_with p s \<longleftrightarrow> take (length p) s = p"

definition strip_one :: "string list \<Rightarrow> string \<Rightarrow> string option" where
  "strip_one ws s = (case find (\<lambda>w. starts_with w s) ws of
      None \<Rightarrow> None | Some w \<Rightarrow> Some (drop (length w) s))"

fun strip_fuel :: "nat \<Rightarrow> string list \<Rightarrow> string \<Rightarrow> string" where
  "strip_fuel 0 ws s = s"
| "strip_fuel (Suc n) ws s = (case strip_one ws s of None \<Rightarrow> s | Some s' \<Rightarrow> strip_fuel n ws s')"

text \<open>Every step removes at least one byte, so the length of the string is enough fuel.\<close>

definition strip :: "string list \<Rightarrow> string \<Rightarrow> string" where
  "strip ws s = strip_fuel (length s) ws s"

definition trim :: "string \<Rightarrow> string" where
  "trim s = rev (strip (map rev js_space) (rev (strip js_space s)))"

lemma trim_Nil [simp]: "trim [] = []"
  by (simp add: trim_def strip_def)

lemma starts_with_append [simp]: "starts_with p (p @ s)"
  by (simp add: starts_with_def)

lemma starts_withE: "starts_with p s \<Longrightarrow> (\<And>r. s = p @ r \<Longrightarrow> P) \<Longrightarrow> P"
  unfolding starts_with_def by (metis append_take_drop_id)

lemma starts_with_iff: "starts_with p s \<longleftrightarrow> (\<exists>r. s = p @ r)"
  by (auto elim: starts_withE)

lemma js_space_not_Nil: "w \<in> set js_space \<Longrightarrow> w \<noteq> []"
  by (auto simp: js_space_def bytes_def)

lemma strip_one_shorter:
  "strip_one ws s = Some s' \<Longrightarrow> (\<And>w. w \<in> set ws \<Longrightarrow> w \<noteq> []) \<Longrightarrow> length s' < length s"
  unfolding strip_one_def
  by (auto split: option.splits simp: find_Some_iff elim!: starts_withE)

lemma strip_fuel_stuck:
  assumes ne: "\<And>w. w \<in> set ws \<Longrightarrow> w \<noteq> []" and "length s \<le> n"
  shows "strip_one ws (strip_fuel n ws s) = None"
  using assms(2)
proof (induction n arbitrary: s)
  case 0
  have "strip_one ws [] = None"
    using ne by (fastforce simp: strip_one_def starts_with_def find_None_iff split: option.splits
        dest: find_Some_iff [THEN iffD1])
  with 0 show ?case by simp
next
  case (Suc n)
  show ?case
  proof (cases "strip_one ws s")
    case (Some s')
    then have "length s' < length s" using ne by (rule strip_one_shorter)
    with Suc Some show ?thesis by simp
  qed simp
qed

lemma strip_stuck: "(\<And>w. w \<in> set ws \<Longrightarrow> w \<noteq> []) \<Longrightarrow> strip_one ws (strip ws s) = None"
  unfolding strip_def by (rule strip_fuel_stuck) simp_all

lemma strip_unchanged: "strip_one ws s = None \<Longrightarrow> strip ws s = s"
  by (cases s) (simp_all add: strip_def)

subsection \<open>Lists\<close>

text \<open>\<open>arr.find(p)?.f\<close> and friends are \<^const>\<open>find\<close> and \<^const>\<open>map_option\<close>; the index of the
  first match is \<open>findIndex\<close> (\<^const>\<open>None\<close> for -1).\<close>

fun find_index :: "('a \<Rightarrow> bool) \<Rightarrow> 'a list \<Rightarrow> nat option" where
  "find_index p [] = None"
| "find_index p (x # xs) = (if p x then Some 0 else map_option Suc (find_index p xs))"

lemma find_index_Some:
  "find_index p xs = Some i \<Longrightarrow> i < length xs \<and> p (xs ! i) \<and> (\<forall>j < i. \<not> p (xs ! j))"
  by (induction xs arbitrary: i) (auto split: if_splits simp: less_Suc_eq_0_disj)

lemma find_index_None: "find_index p xs = None \<longleftrightarrow> (\<forall>x \<in> set xs. \<not> p x)"
  by (induction xs) auto

text \<open>Removing the element at a position, \<open>filter((_, i) => i !== at)\<close>.\<close>

definition remove_at :: "nat \<Rightarrow> 'a list \<Rightarrow> 'a list" where
  "remove_at i xs = take i xs @ drop (Suc i) xs"

definition insert_at :: "nat \<Rightarrow> 'a \<Rightarrow> 'a list \<Rightarrow> 'a list" where
  "insert_at i x xs = take i xs @ x # drop i xs"

lemma set_remove_at: "set (remove_at i xs) \<subseteq> set xs"
  by (auto simp: remove_at_def dest: in_set_takeD in_set_dropD)

lemma length_remove_at: "i < length xs \<Longrightarrow> length (remove_at i xs) = length xs - 1"
  by (simp add: remove_at_def)

lemma map_remove_at: "map f (remove_at i xs) = remove_at i (map f xs)"
  by (simp add: remove_at_def take_map drop_map)

lemma distinct_remove_at: "distinct xs \<Longrightarrow> distinct (remove_at i xs)"
  by (simp add: remove_at_def set_take_disj_set_drop_if_distinct)

lemma set_insert_at [simp]: "set (insert_at i x xs) = insert x (set xs)"
  by (metis Un_insert_right append_take_drop_id insert_at_def list.simps(15) set_append)

lemma length_insert_at [simp]: "length (insert_at i x xs) = Suc (length xs)"
  by (simp add: insert_at_def)

lemma nth_insert_at: "i \<le> length xs \<Longrightarrow> insert_at i x xs ! i = x"
  by (simp add: insert_at_def nth_append)

lemma remove_at_insert_at: "i \<le> length xs \<Longrightarrow> remove_at i (insert_at i x xs) = xs"
  by (simp add: remove_at_def insert_at_def)

lemma filter_filter_absorb: "(\<And>x. p x \<Longrightarrow> q x) \<Longrightarrow> filter p (filter q xs) = filter p xs"
  by (induction xs) auto

text \<open>Comparing two lists position by position.\<close>

lemma list_all_zip_eq:
  "length xs = length ys \<Longrightarrow> list_all (\<lambda>(x, y). f x = g y) (zip xs ys) \<longleftrightarrow> map f xs = map g ys"
  by (induction xs ys rule: list_induct2) simp_all

lemma map_of_tabulate: "map_of (map (\<lambda>k. (k, g k)) ks) k = (if k \<in> set ks then Some (g k) else None)"
  by (induction ks) auto

subsection \<open>Association lists\<close>

text \<open>
  A JavaScript \<open>Map\<close> or object keeps the insertion order of its keys; setting an existing key
  changes the value in place, a new key goes to the end.
\<close>

fun al_set :: "'k \<Rightarrow> 'v \<Rightarrow> ('k \<times> 'v) list \<Rightarrow> ('k \<times> 'v) list" where
  "al_set k v [] = [(k, v)]"
| "al_set k v ((k', v') # m) = (if k' = k then (k, v) # m else (k', v') # al_set k v m)"

lemma map_of_al_set [simp]: "map_of (al_set k v m) = (map_of m)(k \<mapsto> v)"
  by (induction k v m rule: al_set.induct) auto

lemma keys_al_set:
  "map fst (al_set k v m) = map fst m @ (if k \<in> fst ` set m then [] else [k])"
  by (induction k v m rule: al_set.induct) auto

lemma set_keys_al_set [simp]: "fst ` set (al_set k v m) = insert k (fst ` set m)"
  by (induction k v m rule: al_set.induct) auto

lemma distinct_al_set: "distinct (map fst m) \<Longrightarrow> distinct (map fst (al_set k v m))"
  by (auto simp: keys_al_set)

subsection \<open>Literals of the source outside ASCII\<close>

definition em_dash :: string where "em_dash = bytes [0xE2, 0x80, 0x94]"
definition en_dash :: string where "en_dash = bytes [0xE2, 0x80, 0x93]"
definition middle_dot :: string where "middle_dot = bytes [0xC2, 0xB7]"
definition ellipsis :: string where "ellipsis = bytes [0xE2, 0x80, 0xA6]"
definition left_quote :: string where "left_quote = bytes [0xE2, 0x80, 0x9C]"
definition right_quote :: string where "right_quote = bytes [0xE2, 0x80, 0x9D]"

subsection \<open>Interface: a text form that reads back\<close>

text \<open>
  What a pair of a printer and a reader promises: on the values in range, reading the printed
  form gives the value back. The clients use that printed forms then identify values.
\<close>

locale partial_codec =
  fixes ok :: "'a \<Rightarrow> bool" and enc :: "'a \<Rightarrow> 'b" and dec :: "'b \<Rightarrow> 'a option"
  assumes dec_enc: "ok x \<Longrightarrow> dec (enc x) = Some x"
begin

lemma enc_eq_iff: "ok x \<Longrightarrow> ok y \<Longrightarrow> enc x = enc y \<longleftrightarrow> x = y"
  by (metis dec_enc option.inject)

lemma distinct_enc: "\<forall>x \<in> set xs. ok x \<Longrightarrow> distinct xs \<Longrightarrow> distinct (map enc xs)"
  by (induction xs) (auto simp: enc_eq_iff)

lemma those_dec: "\<forall>x \<in> set xs. ok x \<Longrightarrow> those (map (dec \<circ> enc) xs) = Some xs"
  by (induction xs) (auto simp: dec_enc)

end

subsection \<open>Interface: a machine that keeps an invariant\<close>

text \<open>
  A component that holds a state and answers events one at a time. What it promises is that its
  initial state is good and that no event leaves the good states; whatever the events, it is then
  never found in another state.
\<close>

locale machine =
  fixes start :: 's and step :: "'s \<Rightarrow> 'e \<Rightarrow> 's" and good :: "'s \<Rightarrow> bool"
  assumes good_start: "good start"
    and good_step: "good s \<Longrightarrow> good (step s e)"
begin

lemma good_run_from: "good s \<Longrightarrow> good (foldl step s es)"
  by (induction es arbitrary: s) (simp_all add: good_step)

lemma good_run: "good (foldl step start es)"
  by (rule good_run_from [OF good_start])

end

subsection \<open>Looking up\<close>

lemma find_distinct:
  "distinct (map f xs) \<Longrightarrow> x \<in> set xs \<Longrightarrow> find (\<lambda>y. f y = f x) xs = Some x"
  by (induction xs) (auto dest: map_of_SomeD simp: rev_image_eqI)

lemma find_SomeD: "find p xs = Some x \<Longrightarrow> x \<in> set xs \<and> p x"
  by (induction xs) (auto split: if_splits)

subsection \<open>Interface: a selection over rows\<close>

text \<open>
  A list surface with checkboxes: each row has an id and is selectable or not; the selection is a
  list of ids. The operations of the contract toggle an id and drop the ids that are no longer
  selectable.
\<close>

locale row_selection =
  fixes row_id :: "'r \<Rightarrow> string" and selectable :: "'r \<Rightarrow> bool"
    and toggle :: "string list \<Rightarrow> string \<Rightarrow> string list"
    and prune :: "string list \<Rightarrow> 'r list \<Rightarrow> string list"
  assumes toggle_eq: "toggle sel i = (if i \<in> set sel then filter (\<lambda>s. s \<noteq> i) sel else sel @ [i])"
    and prune_eq: "prune sel rows = filter (\<lambda>i. \<exists>r \<in> set rows. selectable r \<and> row_id r = i) sel"
begin

lemma set_toggle: "set (toggle sel i) = (if i \<in> set sel then set sel - {i} else insert i (set sel))"
  by (auto simp: toggle_eq)

lemma distinct_toggle: "distinct sel \<Longrightarrow> distinct (toggle sel i)"
  by (auto simp: toggle_eq)

lemma toggle_toggle: "set (toggle (toggle sel i) i) = set sel"
  by (auto simp: set_toggle)

lemma set_prune: "set (prune sel rows) = set sel \<inter> row_id ` {r \<in> set rows. selectable r}"
  by (auto simp: prune_eq)

lemma distinct_prune: "distinct sel \<Longrightarrow> distinct (prune sel rows)"
  by (simp add: prune_eq)

lemma prune_prune: "prune (prune sel rows) rows = prune sel rows"
  by (simp add: prune_eq)

lemma prune_only_selectable:
  "i \<in> set (prune sel rows) \<Longrightarrow> \<exists>r \<in> set rows. selectable r \<and> row_id r = i"
  by (simp add: prune_eq)

end

end
