(* ===== verification/Decimals.thy ===== *)
theory Decimals
  imports Prelude
begin

text \<open>
  The exact-decimal kit: \<open>Scaled\<close>, \<open>parseScaled\<close>, \<open>mulScaled\<close>, \<open>addScaled\<close>, \<open>renderScaled\<close> and
  \<open>computedLineSum\<close> of \<open>lib/invoices.ts\<close>, and \<open>subScaled\<close>, \<open>cmpScaled\<close>, \<open>absScaled\<close> and
  \<open>exceedsTolerance\<close> of \<open>lib/lineItems.ts\<close>. The abstract value of a \<open>Scaled\<close> is the rational
  \<open>scaled_val\<close>; every operation is shown exact with respect to it, and \<open>renderScaled\<close> is shown to
  print a canonical text that \<open>parseScaled\<close> reads back. The exponent of the source is a
  JavaScript number; it is an \<^typ>\<open>int\<close> here, which agrees with it up to 2 to the 53.
\<close>

record scaled =
  sc_u :: int
  sc_s :: int

definition Scaled :: "int \<Rightarrow> int \<Rightarrow> scaled" where
  "Scaled u s = \<lparr>sc_u = u, sc_s = s\<rparr>"

definition scaled_val :: "scaled \<Rightarrow> rat" where
  "scaled_val a = of_int (sc_u a) / 10 ^ nat (sc_s a)"

definition wf_scaled :: "scaled \<Rightarrow> bool" where
  "wf_scaled a \<longleftrightarrow> 0 \<le> sc_s a"

subsection \<open>The grammar of \<open>DECIMAL_RE\<close>\<close>

text \<open>The capture groups: the sign, the integer part, the fraction with its dot, the exponent with
  its letter.\<close>

definition re_int :: "string \<Rightarrow> (string \<times> string) option" where
  "re_int s = (case s of
      [] \<Rightarrow> None
    | c # cs \<Rightarrow> if c = CHR ''0'' then Some (''0'', cs)
               else if is_digit c then Some (span is_digit s) else None)"

definition re_frac :: "string \<Rightarrow> string option \<times> string" where
  "re_frac s = (case s of
      [] \<Rightarrow> (None, s)
    | c # cs \<Rightarrow> if c = CHR ''.'' \<and> takeWhile is_digit cs \<noteq> []
               then (Some (c # takeWhile is_digit cs), dropWhile is_digit cs) else (None, s))"

definition sign_split :: "string \<Rightarrow> string \<times> string" where
  "sign_split s = (case s of
      [] \<Rightarrow> ([], s)
    | c # cs \<Rightarrow> if c = CHR ''+'' \<or> c = CHR ''-'' then ([c], cs) else ([], s))"

definition re_exp :: "string \<Rightarrow> string option \<times> string" where
  "re_exp s = (case s of
      [] \<Rightarrow> (None, s)
    | c # cs \<Rightarrow>
        (let (sg, ds) = sign_split cs in
         if (c = CHR ''e'' \<or> c = CHR ''E'') \<and> takeWhile is_digit ds \<noteq> []
         then (Some (c # sg @ takeWhile is_digit ds), dropWhile is_digit ds) else (None, s)))"

definition DECIMAL_RE :: "string \<Rightarrow> (string \<times> string \<times> string option \<times> string option) option" where
  "DECIMAL_RE raw =
    (let (m1, r1) = (if starts_with ''-'' raw then (''-'', drop 1 raw) else ([], raw)) in
     case re_int r1 of
       None \<Rightarrow> None
     | Some (m2, r2) \<Rightarrow>
         (let (m3, r3) = re_frac r2; (m4, r4) = re_exp r3 in
          if r4 = [] then Some (m1, m2, m3, m4) else None))"

text \<open>\<open>Number(text)\<close> on an optionally signed run of digits.\<close>

definition number_of_signed :: "string \<Rightarrow> int" where
  "number_of_signed t = (let (sg, ds) = sign_split t in
     if sg = ''-'' then - int (digits_val ds) else int (digits_val ds))"

definition parseScaled :: "string \<Rightarrow> scaled option" where
  "parseScaled raw = (case DECIMAL_RE raw of
      None \<Rightarrow> None
    | Some (m1, m2, m3, m4) \<Rightarrow>
        (let fracDigits = (case m3 of Some f \<Rightarrow> drop 1 f | None \<Rightarrow> []);
             exponent = (case m4 of Some e \<Rightarrow> number_of_signed (drop 1 e) | None \<Rightarrow> 0);
             u = int (digits_val (m2 @ fracDigits));
             s = int (length fracDigits) - exponent;
             (u, s) = (if s < 0 then (u * 10 ^ nat (- s), 0) else (u, s))
         in Some (Scaled (if m1 = ''-'' then - u else u) s)))"

subsection \<open>Arithmetic\<close>

definition mulScaled :: "scaled \<Rightarrow> scaled \<Rightarrow> scaled" where
  "mulScaled a b = Scaled (sc_u a * sc_u b) (sc_s a + sc_s b)"

definition addScaled :: "scaled \<Rightarrow> scaled \<Rightarrow> scaled" where
  "addScaled a b =
    (let s = max (sc_s a) (sc_s b) in
     Scaled (sc_u a * 10 ^ nat (s - sc_s a) + sc_u b * 10 ^ nat (s - sc_s b)) s)"

definition subScaled :: "scaled \<Rightarrow> scaled \<Rightarrow> scaled" where
  "subScaled a b = addScaled a (Scaled (- sc_u b) (sc_s b))"

definition cmpScaled :: "scaled \<Rightarrow> scaled \<Rightarrow> int" where
  "cmpScaled a b =
    (let s = max (sc_s a) (sc_s b);
         au = sc_u a * 10 ^ nat (s - sc_s a);
         bu = sc_u b * 10 ^ nat (s - sc_s b)
     in if au < bu then -1 else if au > bu then 1 else 0)"

definition absScaled :: "scaled \<Rightarrow> scaled" where
  "absScaled a = (if sc_u a < 0 then Scaled (- sc_u a) (sc_s a) else a)"

definition LINE_TOLERANCE :: string where
  "LINE_TOLERANCE = ''0.01''"

definition exceedsTolerance :: "scaled \<Rightarrow> bool" where
  "exceedsTolerance diff = (case parseScaled LINE_TOLERANCE of
      None \<Rightarrow> False
    | Some tolerance \<Rightarrow> cmpScaled (absScaled diff) tolerance > 0)"

subsection \<open>Rendering\<close>

text \<open>The loop of \<open>renderScaled\<close>; \<open>mantissa /= 10n\<close> is exact where it runs, so truncation and
  flooring agree.\<close>

function strip_zeros :: "int \<Rightarrow> int \<Rightarrow> int \<times> int" where
  "strip_zeros mantissa scale =
    (if scale > 2 \<and> mantissa mod 10 = 0 then strip_zeros (mantissa div 10) (scale - 1)
     else (mantissa, scale))"
  by pat_completeness auto
termination by (relation "measure (\<lambda>(m, s). nat s)") auto

declare strip_zeros.simps [simp del, loop_simps]

definition padStart :: "nat \<Rightarrow> char \<Rightarrow> string \<Rightarrow> string" where
  "padStart n c s = replicate (n - length s) c @ s"

definition render_norm :: "scaled \<Rightarrow> int \<times> int" where
  "render_norm a =
    (let (mantissa, scale) =
       (if sc_s a < 2 then (sc_u a * 10 ^ nat (2 - sc_s a), 2) else (sc_u a, sc_s a))
     in strip_zeros mantissa scale)"

definition renderScaled :: "scaled \<Rightarrow> string" where
  "renderScaled a =
    (let (mantissa, scale) = render_norm a;
         negative = mantissa < 0;
         digits = padStart (nat scale + 1) CHR ''0'' (show_nat (nat \<bar>mantissa\<bar>));
         cut = length digits - nat scale
     in (if negative then ''-'' else []) @ take cut digits @ ''.'' @ drop cut digits)"

subsection \<open>The sum of the lines\<close>

text \<open>A line as \<open>computedLineSum\<close> reads it: its unit price and its quantity.\<close>

record priced_line =
  pl_unit_price :: "string option"
  pl_quantity :: "string option"

fun line_sum_loop :: "scaled \<Rightarrow> priced_line list \<Rightarrow> scaled option" where
  "line_sum_loop acc [] = Some acc"
| "line_sum_loop acc (line # rest) =
    (case pl_unit_price line of
       None \<Rightarrow> None
     | Some up \<Rightarrow>
         (case parseScaled up of
            None \<Rightarrow> None
          | Some amount \<Rightarrow>
              (case pl_quantity line of
                 None \<Rightarrow> line_sum_loop (addScaled acc (mulScaled amount (Scaled 1 0))) rest
               | Some q \<Rightarrow>
                   (case parseScaled q of
                      None \<Rightarrow> None
                    | Some weight \<Rightarrow>
                        line_sum_loop (addScaled acc (mulScaled amount weight)) rest))))"

definition computedLineSum :: "priced_line list \<Rightarrow> string option" where
  "computedLineSum lines =
    (if lines = [] then None else map_option renderScaled (line_sum_loop (Scaled 0 0) lines))"

subsection \<open>Exactness of the arithmetic\<close>

lemma Scaled_sel [simp]: "sc_u (Scaled u s) = u" "sc_s (Scaled u s) = s"
  by (simp_all add: Scaled_def)

lemma Scaled_eq_iff [simp]: "Scaled u s = Scaled v t \<longleftrightarrow> u = v \<and> s = t"
  by (simp add: Scaled_def)

lemma scaled_val_Scaled [simp]: "scaled_val (Scaled u s) = of_int u / 10 ^ nat s"
  by (simp add: scaled_val_def)

text \<open>Bringing a decimal to a larger scale keeps its value.\<close>

lemma rescale:
  assumes "0 \<le> s" "s \<le> t"
  shows "(of_int (u * 10 ^ nat (t - s)) :: rat) / 10 ^ nat t = of_int u / 10 ^ nat s"
proof -
  have "nat t = nat (t - s) + nat s" using assms by simp
  then show ?thesis by (simp add: power_add)
qed

lemma wf_mulScaled [wf_intros]: "wf_scaled a \<Longrightarrow> wf_scaled b \<Longrightarrow> wf_scaled (mulScaled a b)"
  by (simp add: wf_scaled_def mulScaled_def)

lemma wf_addScaled [wf_intros]: "wf_scaled a \<Longrightarrow> wf_scaled b \<Longrightarrow> wf_scaled (addScaled a b)"
  by (simp add: wf_scaled_def addScaled_def Let_def)

lemma wf_Scaled [wf_intros, simp]: "0 \<le> s \<Longrightarrow> wf_scaled (Scaled u s)"
  by (simp add: wf_scaled_def)

lemma wf_absScaled [wf_intros]: "wf_scaled a \<Longrightarrow> wf_scaled (absScaled a)"
  by (simp add: wf_scaled_def absScaled_def)

lemma wf_subScaled [wf_intros]: "wf_scaled a \<Longrightarrow> wf_scaled b \<Longrightarrow> wf_scaled (subScaled a b)"
  unfolding subScaled_def by (rule wf_addScaled) (simp_all add: wf_scaled_def)

lemma mulScaled_val:
  "wf_scaled a \<Longrightarrow> wf_scaled b \<Longrightarrow> scaled_val (mulScaled a b) = scaled_val a * scaled_val b"
  by (simp add: wf_scaled_def mulScaled_def scaled_val_def nat_add_distrib power_add)

lemma addScaled_val:
  "wf_scaled a \<Longrightarrow> wf_scaled b \<Longrightarrow> scaled_val (addScaled a b) = scaled_val a + scaled_val b"
  unfolding wf_scaled_def addScaled_def Let_def scaled_val_Scaled of_int_add add_divide_distrib
  by (simp only: rescale max.cobounded1 max.cobounded2 scaled_val_def)

lemma subScaled_val:
  "wf_scaled a \<Longrightarrow> wf_scaled b \<Longrightarrow> scaled_val (subScaled a b) = scaled_val a - scaled_val b"
  unfolding subScaled_def by (subst addScaled_val) (simp_all add: scaled_val_def wf_scaled_def)

lemma absScaled_val: "scaled_val (absScaled a) = \<bar>scaled_val a\<bar>"
  by (simp add: absScaled_def scaled_val_def)

lemmas scaled_vals = mulScaled_val addScaled_val subScaled_val absScaled_val

lemma cmpScaled_val:
  assumes "wf_scaled a" "wf_scaled b"
  shows "cmpScaled a b = (if scaled_val a < scaled_val b then -1
                          else if scaled_val a > scaled_val b then 1 else 0)"
proof -
  define s where "s = max (sc_s a) (sc_s b)"
  have a: "scaled_val a = of_int (sc_u a * 10 ^ nat (s - sc_s a)) / 10 ^ nat s"
    and b: "scaled_val b = of_int (sc_u b * 10 ^ nat (s - sc_s b)) / 10 ^ nat s"
    using assms by (simp_all only: s_def rescale wf_scaled_def max.cobounded1 max.cobounded2 scaled_val_def)
  show ?thesis
    unfolding cmpScaled_def Let_def a b s_def [symmetric]
    by (simp only: divide_less_cancel of_int_less_iff) simp
qed

subsection \<open>What \<open>parseScaled\<close> accepts\<close>

text \<open>The language of \<open>DECIMAL_RE\<close>, part by part.\<close>

definition int_part :: "string \<Rightarrow> bool" where
  "int_part i \<longleftrightarrow> i = ''0'' \<or> (i \<noteq> [] \<and> list_all is_digit i \<and> hd i \<noteq> CHR ''0'')"

definition frac_part :: "string option \<Rightarrow> bool" where
  "frac_part f = (case f of None \<Rightarrow> True
     | Some f \<Rightarrow> \<exists>ds. f = CHR ''.'' # ds \<and> ds \<noteq> [] \<and> list_all is_digit ds)"

definition exp_part :: "string option \<Rightarrow> bool" where
  "exp_part e = (case e of None \<Rightarrow> True
     | Some e \<Rightarrow> \<exists>c sg ds. e = c # sg @ ds \<and> c \<in> {CHR ''e'', CHR ''E''} \<and> sg \<in> {[], ''+'', ''-''}
                   \<and> ds \<noteq> [] \<and> list_all is_digit ds)"

definition part :: "string option \<Rightarrow> string" where
  "part p = (case p of None \<Rightarrow> [] | Some t \<Rightarrow> t)"

lemma char_consts [simp]:
  "\<not> is_digit CHR ''e''" "\<not> is_digit CHR ''E''" "\<not> is_digit CHR ''+''"
  by (simp_all add: is_digit_def)

lemma takeWhile_all: "list_all p (takeWhile p xs)"
  by (induction xs) auto

lemma dropWhile_hd: "dropWhile p xs = [] \<or> \<not> p (hd (dropWhile p xs))"
  by (induction xs) auto

lemma re_int_sound: "re_int s = Some (i, r) \<Longrightarrow> int_part i \<and> s = i @ r"
  by (auto simp: re_int_def int_part_def span_def takeWhile_all split: list.splits if_splits)

lemma re_frac_sound: "re_frac s = (f, r) \<Longrightarrow> frac_part f \<and> s = part f @ r"
  by (auto simp: re_frac_def frac_part_def part_def takeWhile_all split: list.splits if_splits)

lemma sign_split_sound: "sign_split s = (sg, r) \<Longrightarrow> sg \<in> {[], ''+'', ''-''} \<and> s = sg @ r"
  by (auto simp: sign_split_def split: list.splits if_splits)

lemma re_exp_sound:
  assumes "re_exp s = (e, r)"
  shows "exp_part e \<and> s = part e @ r"
proof (cases s)
  case Nil
  with assms show ?thesis by (simp add: re_exp_def exp_part_def part_def)
next
  case (Cons c cs)
  obtain sg ds where sp: "sign_split cs = (sg, ds)" by fastforce
  note sg = sign_split_sound [OF sp]
  show ?thesis
  proof (cases "(c = CHR ''e'' \<or> c = CHR ''E'') \<and> takeWhile is_digit ds \<noteq> []")
    case True
    with assms Cons sp have e: "e = Some (c # sg @ takeWhile is_digit ds)" "r = dropWhile is_digit ds"
      by (auto simp: re_exp_def)
    have "exp_part e"
      unfolding exp_part_def e using True sg takeWhile_all [of is_digit ds] by auto
    with e sg Cons show ?thesis by (simp add: part_def)
  next
    case False
    with assms Cons sp show ?thesis by (auto simp: re_exp_def exp_part_def part_def)
  qed
qed

lemma re_int_complete:
  assumes "int_part i" "r = [] \<or> \<not> is_digit (hd r)"
  shows "re_int (i @ r) = Some (i, r)"
proof (cases "i = ''0''")
  case False
  with assms obtain c cs where i: "i = c # cs" "is_digit c" "c \<noteq> CHR ''0''" "list_all is_digit cs"
    by (cases i) (auto simp: int_part_def)
  have "span is_digit (i @ r) = (i, r)"
    using i assms(2) by (intro span_append) simp_all
  with i show ?thesis by (simp add: re_int_def)
qed (simp add: re_int_def)

lemma re_frac_complete:
  assumes "frac_part f" "r = [] \<or> hd r \<noteq> CHR ''.'' \<and> \<not> is_digit (hd r)"
  shows "re_frac (part f @ r) = (f, r)"
proof (cases f)
  case None
  with assms show ?thesis by (cases r) (auto simp: re_frac_def part_def)
next
  case (Some t)
  with assms(1) obtain ds where ds: "t = CHR ''.'' # ds" "ds \<noteq> []" "list_all is_digit ds"
    by (auto simp: frac_part_def)
  have "span is_digit (ds @ r) = (ds, r)" using ds assms(2) by (intro span_append) auto
  with Some ds show ?thesis by (simp add: re_frac_def part_def span_def)
qed

lemma re_exp_complete:
  assumes "exp_part e"
  shows "re_exp (part e) = (e, [])"
proof (cases e)
  case (Some t)
  with assms obtain c sg ds where e: "t = c # sg @ ds" "c \<in> {CHR ''e'', CHR ''E''}"
    "sg \<in> {[], ''+'', ''-''}" "ds \<noteq> []" "list_all is_digit ds"
    by (auto simp: exp_part_def)
  have sp: "sign_split (sg @ ds) = (sg, ds)"
    using e(3,4,5) by (cases ds) (auto simp: sign_split_def is_digit_def)
  have tw: "takeWhile is_digit ds = ds" and dw: "dropWhile is_digit ds = []"
    using span_all [OF e(5)] by (simp_all add: span_def)
  have "re_exp t = (Some t, [])"
    using e(2,4) unfolding e(1) re_exp_def by (auto simp: sp tw dw)
  with Some show ?thesis by (simp add: part_def)
qed (simp add: re_exp_def part_def)

lemma exp_part_hd: "exp_part e \<Longrightarrow> part e = [] \<or> hd (part e) \<in> {CHR ''e'', CHR ''E''}"
  by (auto simp: exp_part_def part_def split: option.splits)

lemma frac_part_hd: "frac_part f \<Longrightarrow> part f = [] \<or> hd (part f) = CHR ''.''"
  by (auto simp: frac_part_def part_def split: option.splits)

lemma int_part_hd: "int_part i \<Longrightarrow> i \<noteq> [] \<and> is_digit (hd i)"
  by (cases i) (auto simp: int_part_def)

lemma DECIMAL_RE_iff:
  "DECIMAL_RE raw = Some (m1, m2, m3, m4) \<longleftrightarrow>
     raw = m1 @ m2 @ part m3 @ part m4 \<and> m1 \<in> {[], ''-''} \<and> int_part m2 \<and> frac_part m3 \<and> exp_part m4"
  (is "?L \<longleftrightarrow> ?R")
proof
  assume ?L
  then show ?R
    by (auto simp: DECIMAL_RE_def Let_def elim!: starts_withE split: if_splits option.splits prod.splits
        dest!: re_int_sound re_frac_sound re_exp_sound)
next
  assume R: ?R
  have e: "re_exp (part m4) = (m4, [])" using R by (intro re_exp_complete) simp
  have "re_frac (part m3 @ part m4) = (m3, part m4)"
    using R exp_part_hd [of m4] by (intro re_frac_complete) auto
  moreover have "re_int (m2 @ part m3 @ part m4) = Some (m2, part m3 @ part m4)"
  proof (rule re_int_complete)
    show "part m3 @ part m4 = [] \<or> \<not> is_digit (hd (part m3 @ part m4))"
      using R exp_part_hd [of m4] frac_part_hd [of m3] by (cases "part m3") auto
  qed (use R in simp)
  moreover have "\<not> starts_with ''-'' (m2 @ part m3 @ part m4)"
    using R int_part_hd [of m2] by (cases m2) (auto simp: starts_with_def)
  ultimately show ?L
    using R e by (auto simp: DECIMAL_RE_def starts_with_def)
qed

text \<open>The number a decimal text denotes.\<close>

definition decimal_val :: "string \<Rightarrow> string \<Rightarrow> string \<Rightarrow> int \<Rightarrow> rat" where
  "decimal_val sign i ds e =
     (if sign = ''-'' then -1 else 1) * of_nat (digits_val (i @ ds)) / 10 ^ length ds * power_int 10 e"

definition frac_digits :: "string option \<Rightarrow> string" where
  "frac_digits f = drop 1 (part f)"

definition exp_value :: "string option \<Rightarrow> int" where
  "exp_value e = (case e of None \<Rightarrow> 0 | Some t \<Rightarrow> number_of_signed (drop 1 t))"

lemma parseScaled_Some:
  assumes "DECIMAL_RE raw = Some (m1, m2, m3, m4)"
  obtains a where "parseScaled raw = Some a" "wf_scaled a"
    "scaled_val a = decimal_val m1 m2 (frac_digits m3) (exp_value m4)"
proof -
  define ds where "ds = frac_digits m3"
  define e where "e = exp_value m4"
  define u where "u = int (digits_val (m2 @ ds))"
  define s where "s = int (length ds) - e"
  define sg :: int where "sg = (if m1 = ''-'' then -1 else 1)"
  define a where "a = (if s < 0 then Scaled (sg * (u * 10 ^ nat (- s))) 0 else Scaled (sg * u) s)"
  have parse: "parseScaled raw = Some a"
    using assms by (auto simp: parseScaled_def Let_def a_def sg_def u_def s_def ds_def e_def
        frac_digits_def exp_value_def part_def split: option.splits)
  have wf: "wf_scaled a" by (simp add: a_def wf_scaled_def)
  have goal: "decimal_val m1 m2 ds e = of_int (sg * u) / 10 ^ length ds * power_int 10 e"
    by (simp add: decimal_val_def sg_def u_def)
  have "scaled_val a = of_int (sg * u) / 10 ^ length ds * power_int 10 e"
  proof (cases "s < 0")
    case True
    then have "e = int (length ds) + int (nat (- s))" by (simp add: s_def)
    then have "power_int (10::rat) e = 10 ^ length ds * 10 ^ nat (- s)"
      by (metis power_int_add power_int_of_nat zero_neq_numeral)
    with True show ?thesis by (simp add: a_def)
  next
    case False
    then have "int (length ds) = int (nat s) + e" by (simp add: s_def)
    then have "(10::rat) ^ length ds = 10 ^ nat s * power_int 10 e"
      by (metis power_int_add power_int_of_nat zero_neq_numeral)
    with False show ?thesis by (simp add: a_def)
  qed
  with parse wf goal show ?thesis using that by (simp add: ds_def e_def)
qed

lemma parseScaled_None: "parseScaled raw = None \<longleftrightarrow> DECIMAL_RE raw = None"
proof (cases "DECIMAL_RE raw")
  case (Some m)
  then show ?thesis by (cases m) (metis option.distinct(1) parseScaled_Some)
qed (simp add: parseScaled_def)

lemma parseScaled_wf [wf_intros]: "parseScaled raw = Some a \<Longrightarrow> wf_scaled a"
proof (cases "DECIMAL_RE raw")
  case (Some m)
  then show "parseScaled raw = Some a \<Longrightarrow> wf_scaled a"
    by (cases m) (metis option.inject parseScaled_Some)
qed (simp add: parseScaled_def)

subsection \<open>Rendering is canonical\<close>

lemma strip_zeros_val:
  "2 \<le> s \<Longrightarrow> strip_zeros m s = (m', s') \<Longrightarrow> (of_int m' :: rat) / 10 ^ nat s' = of_int m / 10 ^ nat s"
proof (induction m s rule: strip_zeros.induct)
  case (1 m s)
  show ?case
  proof (cases "s > 2 \<and> m mod 10 = 0")
    case True
    then obtain k where k: "m = 10 * k" by auto
    have "nat s = Suc (nat (s - 1))" using True by linarith
    then have "(of_int m :: rat) / 10 ^ nat s = of_int (m div 10) / 10 ^ nat (s - 1)"
      by (simp add: k)
    with 1 True show ?thesis by (simp add: strip_zeros.simps [of m s])
  qed (use 1 in \<open>auto simp: strip_zeros.simps [of m s]\<close>)
qed

lemma strip_zeros_norm:
  "2 \<le> s \<Longrightarrow> strip_zeros m s = (m', s') \<Longrightarrow> 2 \<le> s' \<and> s' \<le> s \<and> (s' = 2 \<or> m' mod 10 \<noteq> 0)"
proof (induction m s rule: strip_zeros.induct)
  case (1 m s)
  then show ?case
    by (cases "s > 2 \<and> m mod 10 = 0") (auto simp: strip_zeros.simps [of m s])
qed

lemma render_norm_val:
  assumes "wf_scaled a" "render_norm a = (m, s)"
  shows "of_int m / 10 ^ nat s = scaled_val a" "2 \<le> s" "s = 2 \<or> m mod 10 \<noteq> 0"
proof -
  show "2 \<le> s" "s = 2 \<or> m mod 10 \<noteq> 0"
    using assms strip_zeros_norm [of "sc_s a" "sc_u a" m s]
      strip_zeros_norm [of 2 "sc_u a * 10 ^ nat (2 - sc_s a)" m s]
    by (auto simp: render_norm_def split: if_splits)
  show "of_int m / 10 ^ nat s = scaled_val a"
  proof (cases "sc_s a < 2")
    case True
    then have "strip_zeros (sc_u a * 10 ^ nat (2 - sc_s a)) 2 = (m, s)"
      using assms by (simp add: render_norm_def)
    then have "of_int m / 10 ^ nat s = (of_int (sc_u a * 10 ^ nat (2 - sc_s a)) / 10 ^ nat 2 :: rat)"
      by (intro strip_zeros_val) simp_all
    also have "\<dots> = scaled_val a"
      using rescale [of "sc_s a" 2 "sc_u a"] assms True by (simp add: wf_scaled_def scaled_val_def)
    finally show ?thesis .
  next
    case False
    with assms have "strip_zeros (sc_u a) (sc_s a) = (m, s)" by (simp add: render_norm_def)
    with False strip_zeros_val [of "sc_s a" "sc_u a" m s] show ?thesis by (simp add: scaled_val_def)
  qed
qed

text \<open>Two normal forms of the same value are equal.\<close>

lemma norm_unique_le:
  fixes m n s t :: int
  assumes eq: "(of_int m :: rat) / 10 ^ nat s = of_int n / 10 ^ nat t"
    and "2 \<le> s" "s \<le> t" "t = 2 \<or> n mod 10 \<noteq> 0"
  shows "m = n \<and> s = t"
proof -
  have "(of_int (m * 10 ^ nat (t - s)) :: rat) / 10 ^ nat t = of_int n / 10 ^ nat t"
    using rescale [of s t m] assms by simp
  then have n: "n = m * 10 ^ nat (t - s)"
    by simp (metis of_int_eq_iff of_int_mult of_int_numeral of_int_power)
  show ?thesis
  proof (cases "s = t")
    case False
    with assms have "t \<noteq> 2" "nat (t - s) = Suc (nat (t - s - 1))" by linarith+
    then have "n mod 10 = 0" unfolding n by simp
    with \<open>t \<noteq> 2\<close> assms(4) show ?thesis by simp
  qed (simp add: n)
qed

lemma norm_unique:
  fixes m n s t :: int
  assumes "(of_int m :: rat) / 10 ^ nat s = of_int n / 10 ^ nat t"
    and "2 \<le> s" "s = 2 \<or> m mod 10 \<noteq> 0" "2 \<le> t" "t = 2 \<or> n mod 10 \<noteq> 0"
  shows "m = n \<and> s = t"
proof (cases "s \<le> t")
  case False
  then show ?thesis using norm_unique_le [of n t m s] assms by simp
qed (use norm_unique_le [of m s n t] assms in simp)

lemma length_padStart: "length (padStart n c s) = max n (length s)"
  by (simp add: padStart_def)

lemma int_part_take:
  assumes "s + 1 = k"
  shows "let ds = padStart k CHR ''0'' (show_nat m) in
    int_part (take (length ds - s) ds) \<and> list_all is_digit (drop (length ds - s) ds)
    \<and> length (drop (length ds - s) ds) = s \<and> digits_val ds = m"
proof (cases "length (show_nat m) \<le> s")
  case True
  define z where "z = s - length (show_nat m)"
  have "padStart k CHR ''0'' (show_nat m) = CHR ''0'' # replicate z CHR ''0'' @ show_nat m"
    using True assms by (auto simp: padStart_def z_def Suc_diff_le)
  moreover have "digits_val (CHR ''0'' # replicate z CHR ''0'' @ show_nat m) = m"
    using digits_val_zeros [of "Suc z" "show_nat m"] by simp
  ultimately show ?thesis
    using True show_nat_digits [of m]
    by (auto simp: z_def int_part_def list_all_iff)
next
  case False
  then have pad: "padStart k CHR ''0'' (show_nat m) = show_nat m"
    using assms by (simp add: padStart_def)
  have dig: "list_all is_digit (show_nat m)" by (rule show_nat_digits)
  have "int_part (take (length (show_nat m) - s) (show_nat m))"
  proof (cases "m = 0")
    case True
    with False show ?thesis by (simp add: show_nat_0 int_part_def)
  next
    case m: False
    let ?n = "length (show_nat m) - s"
    have "hd (take ?n (show_nat m)) = hd (show_nat m)" "take ?n (show_nat m) \<noteq> []"
      using False by (auto simp: hd_take)
    moreover have "list_all is_digit (take ?n (show_nat m))"
      using dig by (auto simp: list_all_iff dest: in_set_takeD)
    ultimately show ?thesis using m show_nat_lead [of m] by (simp add: int_part_def)
  qed
  moreover have "list_all is_digit (drop (length (show_nat m) - s) (show_nat m))"
    using dig by (auto simp: list_all_iff dest: in_set_dropD)
  ultimately show ?thesis using False by (simp add: pad)
qed

text \<open>\<open>parseScaled\<close> reads back exactly the normal form that was printed.\<close>

lemma parse_render_norm:
  assumes "render_norm a = (m, s)" "2 \<le> s"
  shows "parseScaled (renderScaled a) = Some (Scaled m s)"
proof -
  define ds where "ds = padStart (nat s + 1) CHR ''0'' (show_nat (nat \<bar>m\<bar>))"
  define i where "i = take (length ds - nat s) ds"
  define f where "f = drop (length ds - nat s) ds"
  have p: "int_part i" "list_all is_digit f" "length f = nat s" "digits_val (i @ f) = nat \<bar>m\<bar>"
    using int_part_take [of "nat s" "nat s + 1" "nat \<bar>m\<bar>"] by (simp_all add: Let_def ds_def i_def f_def)
  let ?sg = "if m < 0 then ''-'' else []"
  have r: "renderScaled a = ?sg @ i @ ''.'' @ f"
    using assms by (simp add: renderScaled_def Let_def ds_def i_def f_def)
  have "DECIMAL_RE (renderScaled a) = Some (?sg, i, Some (''.'' @ f), None)"
    unfolding DECIMAL_RE_iff r using p assms
    by (auto simp: part_def frac_part_def exp_part_def)
  with p assms show ?thesis by (auto simp: parseScaled_def Let_def)
qed

definition normal_scaled :: "scaled \<Rightarrow> bool" where
  "normal_scaled a \<longleftrightarrow> 2 \<le> sc_s a \<and> (sc_s a = 2 \<or> sc_u a mod 10 \<noteq> 0)"

definition normalize :: "scaled \<Rightarrow> scaled" where
  "normalize a = (let (m, s) = render_norm a in Scaled m s)"

lemma normalize_val:
  "wf_scaled a \<Longrightarrow> scaled_val (normalize a) = scaled_val a \<and> normal_scaled (normalize a)"
  using render_norm_val [of a] by (auto simp: normalize_def normal_scaled_def split: prod.splits)

lemma normal_norm: "normal_scaled a \<Longrightarrow> render_norm a = (sc_u a, sc_s a)"
  by (auto simp: normal_scaled_def render_norm_def strip_zeros.simps [of "sc_u a" "sc_s a"]
      strip_zeros.simps [of "sc_u a" 2])

lemma renderScaled_normalize: "wf_scaled a \<Longrightarrow> renderScaled (normalize a) = renderScaled a"
  using normalize_val [of a] normal_norm [of "normalize a"]
  by (auto simp: renderScaled_def normalize_def split: prod.splits)

lemma normal_unique:
  "normal_scaled a \<Longrightarrow> normal_scaled b \<Longrightarrow> scaled_val a = scaled_val b \<Longrightarrow> a = b"
  using norm_unique [of "sc_u a" "sc_s a" "sc_u b" "sc_s b"]
  by (cases a; cases b) (auto simp: normal_scaled_def scaled_val_def)

interpretation decimal_text: partial_codec normal_scaled renderScaled parseScaled
proof
  fix a assume "normal_scaled a"
  then show "parseScaled (renderScaled a) = Some a"
    using parse_render_norm [OF normal_norm [of a]] by (simp add: normal_scaled_def Scaled_def)
qed

lemma renderScaled_eq_iff:
  assumes "wf_scaled a" "wf_scaled b"
  shows "renderScaled a = renderScaled b \<longleftrightarrow> scaled_val a = scaled_val b"
proof -
  have "renderScaled a = renderScaled b \<longleftrightarrow> normalize a = normalize b"
    using assms decimal_text.enc_eq_iff [of "normalize a" "normalize b"] normalize_val
    by (simp add: renderScaled_normalize)
  also have "\<dots> \<longleftrightarrow> scaled_val a = scaled_val b"
    by (metis assms normal_unique normalize_val)
  finally show ?thesis .
qed

subsection \<open>The value of a list of lines\<close>

definition line_value :: "priced_line \<Rightarrow> rat option" where
  "line_value l = (case (Option.bind (pl_unit_price l) parseScaled) of
      None \<Rightarrow> None
    | Some p \<Rightarrow> (case pl_quantity l of
        None \<Rightarrow> Some (scaled_val p)
      | Some q \<Rightarrow> map_option (\<lambda>w. scaled_val p * scaled_val w) (parseScaled q)))"

definition line_scaled :: "priced_line \<Rightarrow> scaled option" where
  "line_scaled l = (case (Option.bind (pl_unit_price l) parseScaled) of
      None \<Rightarrow> None
    | Some p \<Rightarrow> (case pl_quantity l of
        None \<Rightarrow> Some (mulScaled p (Scaled 1 0))
      | Some q \<Rightarrow> map_option (mulScaled p) (parseScaled q)))"

lemma line_sum_loop_step:
  "line_sum_loop acc (l # rest) = (case line_scaled l of
     None \<Rightarrow> None | Some x \<Rightarrow> line_sum_loop (addScaled acc x) rest)"
  by (simp add: line_scaled_def split: option.split)

lemma line_scaled_value:
  "line_scaled l = Some x \<Longrightarrow> wf_scaled x \<and> line_value l = Some (scaled_val x)"
  "line_scaled l = None \<Longrightarrow> line_value l = None"
  by (auto simp: line_scaled_def line_value_def scaled_vals wf_intros split: option.splits
      bind_split_asm bind_split)

lemma line_sum_loop_spec:
  "wf_scaled acc \<Longrightarrow>
   (case line_sum_loop acc ls of
      None \<Rightarrow> \<exists>l \<in> set ls. line_value l = None
    | Some a \<Rightarrow> wf_scaled a \<and> (\<forall>l \<in> set ls. line_value l \<noteq> None) \<and>
        scaled_val a = scaled_val acc + sum_list (map (the \<circ> line_value) ls))"
proof (induction ls arbitrary: acc)
  case (Cons l ls)
  show ?case
  proof (cases "line_scaled l")
    case (Some x)
    note x = line_scaled_value(1) [OF Some]
    with Cons.IH [of "addScaled acc x"] Cons.prems Some show ?thesis
      by (simp add: line_sum_loop_step wf_addScaled addScaled_val comp_def del: line_sum_loop.simps
          split: option.splits)
  qed (use line_scaled_value(2) in \<open>simp add: line_sum_loop_step del: line_sum_loop.simps\<close>)
qed simp

text \<open>\<open>parseScaled\<close> accepts exactly the texts of the JSON number grammar
  (\<open>-?(0|[1-9][0-9]*)(.[0-9]+)?([eE][+-]?[0-9]+)?\<close>), and on one of them it returns a decimal of
  non-negative scale whose value is the number the text denotes.\<close>

theorem parseScaled_spec:
  "(case parseScaled raw of
      None \<Rightarrow> \<nexists>sg i f e. raw = sg @ i @ part f @ part e \<and> sg \<in> {[], ''-''} \<and>
                int_part i \<and> frac_part f \<and> exp_part e
    | Some a \<Rightarrow> wf_scaled a \<and> (\<exists>sg i f e. raw = sg @ i @ part f @ part e \<and> sg \<in> {[], ''-''} \<and>
                int_part i \<and> frac_part f \<and> exp_part e \<and>
                scaled_val a = decimal_val sg i (frac_digits f) (exp_value e)))"
proof (cases "DECIMAL_RE raw")
  case None
  then have "parseScaled raw = None" by (simp add: parseScaled_None)
  moreover have "\<not> (raw = sg @ i @ part f @ part e \<and> sg \<in> {[], ''-''} \<and> int_part i \<and>
      frac_part f \<and> exp_part e)" for sg i f e
    unfolding DECIMAL_RE_iff [symmetric] using None by simp
  ultimately show ?thesis by (simp only: option.case) blast
next
  case (Some m)
  obtain m1 m2 m3 m4 where m: "DECIMAL_RE raw = Some (m1, m2, m3, m4)" using Some by (cases m) auto
  note parts = DECIMAL_RE_iff [THEN iffD1, OF m]
  obtain a where "parseScaled raw = Some a" "wf_scaled a"
    "scaled_val a = decimal_val m1 m2 (frac_digits m3) (exp_value m4)"
    using parseScaled_Some [OF m] .
  with parts show ?thesis by (simp only: option.case) blast
qed

text \<open>C30: printing is canonical and loses nothing: two decimals print alike exactly when they
  have the same value, and \<open>parseScaled\<close> reads the printed text back with that value, at two
  decimal places or more.\<close>

theorem renderScaled_canonical:
  assumes "wf_scaled a" "wf_scaled b"
  shows "(renderScaled a = renderScaled b \<longleftrightarrow> scaled_val a = scaled_val b) \<and>
    (\<exists>c. parseScaled (renderScaled a) = Some c \<and> scaled_val c = scaled_val a \<and> 2 \<le> sc_s c)"
  using assms renderScaled_eq_iff [of a b] decimal_text.dec_enc [of "normalize a"] normalize_val [of a]
  by (auto simp: renderScaled_normalize normal_scaled_def)

theorem renderScaled_canonical_witness:
  "renderScaled (Scaled 2500000 4) = renderScaled (Scaled 250 0) \<and>
   renderScaled (Scaled 250 0) = ''250.00''"
proof
  show "renderScaled (Scaled 2500000 4) = renderScaled (Scaled 250 0)"
    using renderScaled_canonical [of "Scaled 2500000 4" "Scaled 250 0"] by simp
  show "renderScaled (Scaled 250 0) = ''250.00''"
  proof -
    have "render_norm (Scaled 250 0) = (25000, 2)"
      by (simp add: render_norm_def strip_zeros.simps [of 25000 2])
    moreover have "show_nat 25000 = ''25000''" by (simp add: show_nat.simps)
    ultimately show ?thesis by (simp add: renderScaled_def padStart_def)
  qed
qed

text \<open>The computed line sum is refused exactly when there is no line or some line has no
  readable price or a present, unreadable quantity; otherwise it is the printed exact sum of
  price times quantity, an absent quantity counting as one.\<close>

theorem computedLineSum_spec:
  "(case computedLineSum lines of
      None \<Rightarrow> lines = [] \<or> list_ex (\<lambda>l. line_value l = None) lines
    | Some t \<Rightarrow> lines \<noteq> [] \<and> list_all (\<lambda>l. line_value l \<noteq> None) lines \<and>
        (\<exists>a. wf_scaled a \<and> t = renderScaled a \<and>
             scaled_val a = sum_list (map (the \<circ> line_value) lines)))"
  using line_sum_loop_spec [of "Scaled 0 0" lines]
  by (auto simp: computedLineSum_def list_all_iff list_ex_iff split: option.splits)

lemma computedLineSum_examples:
  "computedLineSum
     [\<lparr>pl_unit_price = Some ''1.1'', pl_quantity = Some ''2''\<rparr>,
      \<lparr>pl_unit_price = Some ''0.1'', pl_quantity = None\<rparr>] = Some ''2.30'' \<and>
   computedLineSum [\<lparr>pl_unit_price = Some ''1'', pl_quantity = Some ''''\<rparr>] = None"
  by code_simp

end
