(* ===== verification/Invoice_Fields.thy ===== *)
theory Invoice_Fields
  imports Prelude
begin

text \<open>
  The shared field list (\<open>lib/invoiceFields.gen.ts\<close>, \<open>lib/invoiceFields.ts\<close>) and the edit form
  built on it (\<open>lib/invoices.ts\<close>: \<open>EDIT_FIELD_KEYS\<close> to \<open>diffEditInput\<close>; \<open>toDateInputValue\<close> of
  \<open>lib/format.ts\<close>). An invoice is seen here as the value of each of its nullable text columns; a
  PATCH body is the ordered list of the keys it carries, \<^const>\<open>None\<close> standing for JSON \<open>null\<close>.
\<close>

subsection \<open>The field list\<close>

record invoice_field =
  f_key :: string
  f_label :: string
  f_type :: string
  f_line :: bool
  f_importKey :: "string option"
  f_required :: bool
  f_formKey :: "string option"
  f_edit :: bool
  f_extract :: bool

definition field ::
  "string \<Rightarrow> string \<Rightarrow> string \<Rightarrow> bool \<Rightarrow> string option \<Rightarrow> bool \<Rightarrow> string option \<Rightarrow> bool \<Rightarrow> bool \<Rightarrow> invoice_field"
where
  "field key label type line importKey required formKey edit extract =
     \<lparr>f_key = key, f_label = label, f_type = type, f_line = line, f_importKey = importKey,
      f_required = required, f_formKey = formKey, f_edit = edit, f_extract = extract\<rparr>"

definition INVOICE_FIELDS_1 :: "invoice_field list" where
  "INVOICE_FIELDS_1 = [
    field ''invoice_number'' ''Invoice number'' ''text'' False (Some ''invoice_number'') True (Some ''number'') False True,
    field ''issue_date'' ''Issue date'' ''date'' False (Some ''issue_date'') False (Some ''date'') True True,
    field ''supplier_tin'' ''Supplier TIN'' ''text'' False None False None True True,
    field ''supplier_name'' ''Supplier name'' ''text'' False None False None True True,
    field ''buyer_tin'' ''Buyer TIN'' ''text'' False (Some ''buyer_tin'') False (Some ''buyerTin'') True True,
    field ''buyer_name'' ''Buyer name'' ''text'' False (Some ''buyer_name'') False (Some ''buyer'') True True,
    field ''currency'' ''Currency'' ''text'' False (Some ''currency'') False (Some ''currency'') True True,
    field ''subtotal'' ''Subtotal'' ''money'' False (Some ''subtotal'') False None True True,
    field ''vat'' ''VAT'' ''money'' False (Some ''vat'') False None True True,
    field ''total'' ''Total'' ''money'' False (Some ''total'') False None True True,
    field ''invoice_kind'' ''Invoice kind'' ''code'' False (Some ''invoice_kind'') False (Some ''invoice_kind'') True False,
    field ''tax_currency_code'' ''Tax currency code'' ''code'' False (Some ''tax_currency_code'') False (Some ''tax_currency_code'') True False,
    field ''due_date'' ''Due date'' ''date'' False (Some ''due_date'') False (Some ''due_date'') True True]"

definition INVOICE_FIELDS_2 :: "invoice_field list" where
  "INVOICE_FIELDS_2 = [
    field ''issue_time'' ''Issue time'' ''time'' False (Some ''issue_time'') False (Some ''issue_time'') True False,
    field ''tax_point_date'' ''Tax point date'' ''date'' False (Some ''tax_point_date'') False (Some ''tax_point_date'') True False,
    field ''payment_status'' ''Payment status'' ''text'' False (Some ''payment_status'') False (Some ''payment_status'') True False,
    field ''supplier_email'' ''Supplier email'' ''text'' False None False (Some ''supplier_email'') True False,
    field ''supplier_telephone'' ''Supplier telephone'' ''text'' False None False (Some ''supplier_telephone'') True False,
    field ''supplier_street'' ''Supplier street'' ''text'' False None False (Some ''supplier_street'') True False,
    field ''supplier_city'' ''Supplier city'' ''text'' False None False (Some ''supplier_city'') True False,
    field ''supplier_postal_zone'' ''Supplier postal zone'' ''text'' False None False (Some ''supplier_postal_zone'') True False,
    field ''supplier_country'' ''Supplier country'' ''code'' False None False (Some ''supplier_country'') True False,
    field ''supplier_state'' ''Supplier state'' ''code'' False None False (Some ''supplier_state'') True False,
    field ''supplier_lga'' ''Supplier LGA'' ''code'' False None False (Some ''supplier_lga'') True False,
    field ''buyer_email'' ''Buyer email'' ''text'' False (Some ''buyer_email'') False (Some ''buyer_email'') True True,
    field ''buyer_telephone'' ''Buyer telephone'' ''text'' False (Some ''buyer_telephone'') False (Some ''buyer_telephone'') True True]"

definition INVOICE_FIELDS_3 :: "invoice_field list" where
  "INVOICE_FIELDS_3 = [
    field ''buyer_street'' ''Buyer street'' ''text'' False (Some ''buyer_street'') False (Some ''buyer_street'') True True,
    field ''buyer_city'' ''Buyer city'' ''text'' False (Some ''buyer_city'') False (Some ''buyer_city'') True True,
    field ''buyer_postal_zone'' ''Buyer postal zone'' ''text'' False (Some ''buyer_postal_zone'') False (Some ''buyer_postal_zone'') True True,
    field ''buyer_country'' ''Buyer country'' ''code'' False (Some ''buyer_country'') False (Some ''buyer_country'') True True,
    field ''buyer_state'' ''Buyer state'' ''code'' False (Some ''buyer_state'') False (Some ''buyer_state'') True True,
    field ''buyer_lga'' ''Buyer LGA'' ''code'' False (Some ''buyer_lga'') False (Some ''buyer_lga'') True True,
    field ''original_invoice_number'' ''Original invoice number'' ''text'' False None False None False True,
    field ''description'' ''Description'' ''text'' True (Some ''line_description'') False None True True,
    field ''quantity'' ''Quantity'' ''quantity'' True (Some ''line_quantity'') False None True True,
    field ''unit_price'' ''Unit price'' ''money'' True (Some ''line_unit_price'') False None True True,
    field ''line_total'' ''Line total'' ''money'' True (Some ''line_total'') False None True True,
    field ''line_tax'' ''Line tax'' ''money'' True (Some ''line_tax'') False None True True,
    field ''tax_category'' ''Tax category'' ''code'' True (Some ''line_tax_category'') False None True True]"

definition INVOICE_FIELDS_4 :: "invoice_field list" where
  "INVOICE_FIELDS_4 = [
    field ''hsn_code'' ''HSN code'' ''code'' True (Some ''line_hsn_code'') False None True True,
    field ''isic_code'' ''ISIC code'' ''code'' True (Some ''line_isic_code'') False None True True,
    field ''product_category'' ''Product category'' ''text'' True (Some ''line_product_category'') False None True False,
    field ''service_category'' ''Service category'' ''text'' True (Some ''line_service_category'') False None True False,
    field ''sellers_item_identification'' ''Seller's item identification'' ''text'' True (Some ''line_sellers_item_identification'') False None True True,
    field ''price_unit'' ''Price unit'' ''code'' True (Some ''line_price_unit'') False None True True,
    field ''tax_percent'' ''Tax percent'' ''percent'' True (Some ''line_tax_percent'') False None True False,
    field ''base_quantity'' ''Base quantity'' ''quantity'' True (Some ''line_base_quantity'') False None True False]"

definition INVOICE_FIELDS :: "invoice_field list" where
  "INVOICE_FIELDS = INVOICE_FIELDS_1 @ INVOICE_FIELDS_2 @ INVOICE_FIELDS_3 @ INVOICE_FIELDS_4"

definition IMPORT_KEYS :: "string list" where
  "IMPORT_KEYS = [
    ''invoice_number'', ''issue_date'', ''buyer_tin'', ''buyer_name'',
    ''currency'', ''subtotal'', ''vat'', ''total'',
    ''line_description'', ''line_quantity'', ''line_unit_price'', ''invoice_kind'',
    ''tax_currency_code'', ''due_date'', ''issue_time'', ''tax_point_date'',
    ''payment_status'', ''buyer_email'', ''buyer_telephone'', ''buyer_street'',
    ''buyer_city'', ''buyer_postal_zone'', ''buyer_country'', ''buyer_state'',
    ''buyer_lga'', ''line_total'', ''line_tax'', ''line_tax_category'',
    ''line_hsn_code'', ''line_isic_code'', ''line_product_category'', ''line_service_category'',
    ''line_sellers_item_identification'', ''line_price_unit'', ''line_tax_percent'', ''line_base_quantity'']"

definition labelOf :: "string \<Rightarrow> string option" where
  "labelOf key = map_option f_label (find (\<lambda>f. f_key f = key) INVOICE_FIELDS)"

definition EDIT_FIELD_KEYS :: "string list" where
  "EDIT_FIELD_KEYS = map f_key (filter (\<lambda>f. \<not> f_line f \<and> f_edit f) INVOICE_FIELDS)"

definition LINE_EDIT_FIELDS :: "string list" where
  "LINE_EDIT_FIELDS = map f_key (filter (\<lambda>f. f_line f \<and> f_edit f) INVOICE_FIELDS)"

definition LINE_WIRE_ROLES :: "string list" where
  "LINE_WIRE_ROLES = map f_key (filter (\<lambda>f. f_line f \<and> f_extract f) INVOICE_FIELDS)"

definition LEGACY_EDIT_KEYS :: "string list" where
  "LEGACY_EDIT_KEYS = [''issue_date'', ''supplier_tin'', ''supplier_name'', ''buyer_tin'',
     ''buyer_name'', ''currency'', ''subtotal'', ''vat'', ''total'']"

definition DATE_EDIT_KEYS :: "string list" where
  "DATE_EDIT_KEYS =
     map f_key (filter (\<lambda>f. \<not> f_line f \<and> f_edit f \<and> f_type f = ''date'') INVOICE_FIELDS)"

subsection \<open>Calendar days\<close>

text \<open>
  \<open>Date.UTC(y, m, d)\<close> followed by the UTC getters: years 0 to 99 are read as 1900 to 1999, a month
  outside 0 to 11 carries into the year, and a day outside the month carries into the months
  around it.
\<close>

definition leap_year :: "int \<Rightarrow> bool" where
  "leap_year y \<longleftrightarrow> y mod 4 = 0 \<and> (y mod 100 \<noteq> 0 \<or> y mod 400 = 0)"

definition month_days :: "int \<Rightarrow> int \<Rightarrow> int" where
  "month_days y m =
     (if m = 1 then (if leap_year y then 29 else 28)
      else if m \<in> {3, 5, 8, 10} then 30 else 31)"

function norm_day :: "int \<Rightarrow> int \<Rightarrow> int \<Rightarrow> int \<times> int \<times> int" where
  "norm_day y m d =
    (if d < 1 then
       (let (y', m') = (if m = 0 then (y - 1, 11) else (y, m - 1)) in norm_day y' m' (d + month_days y' m'))
     else if d > month_days y m then
       norm_day (if m = 11 then y + 1 else y) (if m = 11 then 0 else m + 1) (d - month_days y m)
     else (y, m, d))"
  by pat_completeness auto
termination
  by (relation "measure (\<lambda>(y, m, d). if d < 1 then nat (100 - d) else nat d)")
    (auto simp: month_days_def split: if_splits)

declare norm_day.simps [simp del, loop_simps]

definition date_utc :: "int \<Rightarrow> int \<Rightarrow> int \<Rightarrow> int \<times> int \<times> int" where
  "date_utc y m d =
     (let y = (if 0 \<le> y \<and> y \<le> 99 then 1900 + y else y)
      in norm_day (y + m div 12) (m mod 12) d)"

text \<open>The shape \<open>^(\d{4})-(\d{2})-(\d{2})$\<close>.\<close>

definition iso_shape :: "string \<Rightarrow> bool" where
  "iso_shape t \<longleftrightarrow> length t = 10 \<and> list_all is_digit (take 4 t) \<and> t ! 4 = CHR ''-''
     \<and> list_all is_digit (take 2 (drop 5 t)) \<and> t ! 7 = CHR ''-'' \<and> list_all is_digit (drop 8 t)"

definition isIsoDay :: "string \<Rightarrow> bool" where
  "isIsoDay text =
    (if \<not> iso_shape text then False
     else let y = int (digits_val (take 4 text));
              m = int (digits_val (take 2 (drop 5 text)));
              d = int (digits_val (drop 8 text))
          in date_utc y (m - 1) d = (y, m - 1, d))"

definition toDateInputValue :: "string option \<Rightarrow> string" where
  "toDateInputValue raw = (case raw of
      None \<Rightarrow> ''''
    | Some s \<Rightarrow> if iso_shape (take 10 s) then take 10 s else s)"

text \<open>\<open>labelOf\<close> throws on a key outside the list; the callers of \<open>nrsDateError\<close> pass only date keys of
  the list (\<open>date_keys_labelled\<close> below), so the branch without a label is never taken.\<close>

definition nrsDateError :: "string \<Rightarrow> string \<Rightarrow> string option" where
  "nrsDateError key value =
    (let t = trim value in
     if t = '''' \<or> key = ''issue_date'' \<or> isIsoDay t then None
     else Some ((case labelOf key of Some l \<Rightarrow> l | None \<Rightarrow> '''') @ '' must be a date as YYYY-MM-DD.''))"

subsection \<open>The edit form\<close>

type_synonym columns = "string \<Rightarrow> string option"
type_synonym edit_form = "string \<Rightarrow> string"
type_synonym wire_patch = "(string \<times> string option) list"

fun editDateError_loop :: "edit_form \<Rightarrow> string list \<Rightarrow> string option" where
  "editDateError_loop form [] = None"
| "editDateError_loop form (key # keys) =
    (case nrsDateError key (form key) of Some err \<Rightarrow> Some err | None \<Rightarrow> editDateError_loop form keys)"

definition editDateError :: "edit_form \<Rightarrow> string option" where
  "editDateError form = editDateError_loop form DATE_EDIT_KEYS"

definition formFromInvoice :: "columns \<Rightarrow> edit_form" where
  "formFromInvoice invoice = (\<lambda>key.
     if key \<in> set DATE_EDIT_KEYS then toDateInputValue (invoice key)
     else (case invoice key of None \<Rightarrow> '''' | Some v \<Rightarrow> v))"

text \<open>The outcome of \<open>editValueToWire\<close>: the key is left out, or sent with a string or \<open>null\<close>.\<close>

datatype wire_value = LeaveOut | Send "string option"

definition editValueToWire :: "string \<Rightarrow> string \<Rightarrow> wire_value" where
  "editValueToWire key value =
    (let date = key \<in> set DATE_EDIT_KEYS;
         t = (if date then trim value else value);
         tail = (if date \<and> iso_shape t then Send (Some (t @ ''T00:00:00Z'')) else Send (Some t))
     in if key \<in> set LEGACY_EDIT_KEYS
        then (if key \<noteq> ''issue_date'' then Send (Some value)
              else if t = '''' then LeaveOut else tail)
        else (if trim t = '''' then Send None else tail))"

definition stored_value :: "columns \<Rightarrow> string \<Rightarrow> string" where
  "stored_value original key =
    (if key \<in> set DATE_EDIT_KEYS then trim (toDateInputValue (original key))
     else (case original key of None \<Rightarrow> '''' | Some v \<Rightarrow> v))"

definition form_value :: "edit_form \<Rightarrow> string \<Rightarrow> string" where
  "form_value form key = (if key \<in> set DATE_EDIT_KEYS then trim (form key) else form key)"

fun diffEditInput_loop :: "columns \<Rightarrow> edit_form \<Rightarrow> string list \<Rightarrow> wire_patch" where
  "diffEditInput_loop original form [] = []"
| "diffEditInput_loop original form (key # keys) =
    (if form_value form key = stored_value original key then diffEditInput_loop original form keys
     else (case editValueToWire key (form key) of
             LeaveOut \<Rightarrow> diffEditInput_loop original form keys
           | Send wire \<Rightarrow> (key, wire) # diffEditInput_loop original form keys))"

definition diffEditInput :: "columns \<Rightarrow> edit_form \<Rightarrow> wire_patch" where
  "diffEditInput original form = diffEditInput_loop original form EDIT_FIELD_KEYS"

subsection \<open>Calendar arithmetic\<close>

definition valid_day :: "int \<Rightarrow> int \<Rightarrow> int \<Rightarrow> bool" where
  "valid_day y m d \<longleftrightarrow> 0 \<le> m \<and> m < 12 \<and> 1 \<le> d \<and> d \<le> month_days y m"

lemma norm_day_id: "valid_day y m d \<Longrightarrow> norm_day y m d = (y, m, d)"
  by (simp add: valid_day_def norm_day.simps [of y m d])

lemma norm_day_valid:
  "0 \<le> m \<Longrightarrow> m < 12 \<Longrightarrow> norm_day y m d = (y', m', d') \<Longrightarrow> valid_day y' m' d'"
proof (induction y m d rule: norm_day.induct)
  case (1 y m d)
  consider "d < 1" | "\<not> d < 1" "d > month_days y m" | "\<not> d < 1" "\<not> d > month_days y m" by linarith
  then show ?case
  proof cases
    case 1
    with "1.IH"(1) [OF 1 refl, of _ _] "1.prems" show ?thesis
      by (simp add: norm_day.simps [of y m d] split: if_splits)
  next
    case 2
    with "1.IH"(2) [OF 2] "1.prems" show ?thesis
      by (simp add: norm_day.simps [of y m d] split: if_splits)
  next
    case 3
    with "1.prems" show ?thesis by (simp add: norm_day.simps [of y m d] valid_day_def)
  qed
qed

lemma month_days_pos: "28 \<le> month_days y m" "month_days y m \<le> 31"
  by (auto simp: month_days_def)

lemma norm_day_year_pos: "1 \<le> d \<Longrightarrow> norm_day y m d = (y', m', d') \<Longrightarrow> y \<le> y'"
proof (induction y m d rule: norm_day.induct)
  case (1 y m d)
  then show ?case
    by (cases "d > month_days y m")
      (fastforce simp: norm_day.simps [of y m d] split: if_splits)+
qed

lemma norm_day_year: "0 \<le> d \<Longrightarrow> norm_day y m d = (y', m', d') \<Longrightarrow> y - 1 \<le> y'"
proof (cases "d = 0")
  case True
  assume r: "norm_day y m d = (y', m', d')"
  define ym where "ym = (if m = 0 then (y - 1, 11 :: int) else (y, m - 1))"
  have "norm_day (fst ym) (snd ym) (month_days (fst ym) (snd ym)) = (y', m', d')"
    using r True by (auto simp: ym_def norm_day.simps [of y m 0])
  moreover have "1 \<le> month_days (fst ym) (snd ym)"
    using month_days_pos(1) [of "fst ym" "snd ym"] by simp
  ultimately have "fst ym \<le> y'" by (metis norm_day_year_pos)
  then show ?thesis by (auto simp: ym_def split: if_splits)
qed (use norm_day_year_pos [of d y m y' m' d'] in auto)

lemma date_utc_roundtrip:
  assumes "0 \<le> y" "0 \<le> d"
  shows "date_utc y m d = (y, m, d) \<longleftrightarrow> 100 \<le> y \<and> valid_day y m d"
proof
  assume L: "date_utc y m d = (y, m, d)"
  define z where "z = (if y \<le> 99 then 1900 + y else y)"
  have n: "norm_day (z + m div 12) (m mod 12) d = (y, m, d)"
    using L assms by (simp add: date_utc_def z_def split: if_splits)
  have v: "valid_day y m d" using norm_day_valid [OF _ _ n] by simp
  then have "m div 12 = 0" by (simp add: valid_day_def)
  with norm_day_year [OF assms(2) n] have "z - 1 \<le> y" by simp
  then have "100 \<le> y" by (simp add: z_def split: if_splits)
  with v show "100 \<le> y \<and> valid_day y m d" by simp
next
  assume R: "100 \<le> y \<and> valid_day y m d"
  then have "m div 12 = 0" "m mod 12 = m" by (auto simp: valid_day_def)
  with R show "date_utc y m d = (y, m, d)" by (simp add: date_utc_def norm_day_id)
qed

lemma date_keys_labelled: "list_all (\<lambda>k. labelOf k \<noteq> None) DATE_EDIT_KEYS"
  by code_simp

subsection \<open>The changed fields\<close>

lemma form_value_untouched: "form_value (formFromInvoice original) k = stored_value original k"
  by (simp add: form_value_def stored_value_def formFromInvoice_def)

lemma diff_loop_untouched: "diffEditInput_loop original (formFromInvoice original) ks = []"
  by (induction ks) (simp_all add: form_value_untouched)

lemma diff_loop_keys:
  "map fst (diffEditInput_loop original form ks) =
   filter (\<lambda>k. form_value form k \<noteq> stored_value original k \<and> editValueToWire k (form k) \<noteq> LeaveOut) ks"
  by (induction ks) (auto split: wire_value.splits)

lemma diff_loop_values:
  "list_all (\<lambda>(k, w). editValueToWire k (form k) = Send w) (diffEditInput_loop original form ks)"
  by (induction ks) (auto split: wire_value.splits)

lemma editValueToWire_nrs:
  "k \<notin> set LEGACY_EDIT_KEYS \<Longrightarrow> editValueToWire k v = Send (Some x) \<Longrightarrow> x \<noteq> ''''"
  by (auto simp: editValueToWire_def Let_def split: if_splits)

lemma distinct_EDIT_FIELD_KEYS: "distinct EDIT_FIELD_KEYS"
  by code_simp

text \<open>\<open>isIsoDay\<close> accepts a text exactly when it is written YYYY-MM-DD and names a day of the
  Gregorian calendar from the year 100 on, although the code only compares what \<open>Date.UTC\<close> made
  of the three numbers (\<open>Date.UTC\<close> reads the years 0 to 99 as 1900 to 1999, so those are refused).\<close>

theorem isIsoDay_spec:
  "isIsoDay t \<longleftrightarrow> iso_shape t \<and> 100 \<le> digits_val (take 4 t) \<and>
     valid_day (int (digits_val (take 4 t))) (int (digits_val (take 2 (drop 5 t))) - 1)
       (int (digits_val (drop 8 t)))"
  by (simp add: isIsoDay_def Let_def date_utc_roundtrip)

text \<open>Saving the edit form. A form that was opened and not touched sends an empty PATCH; in
  general the PATCH carries exactly the keys whose value differs from the stored one (a date
  compared as its input value) and that \<open>editValueToWire\<close> does not leave out, each once, in field
  order, with the value \<open>editValueToWire\<close> gives; and a key outside the nine legacy ones is never
  sent the empty string.\<close>

theorem diffEditInput_spec:
  "diffEditInput original (formFromInvoice original) = [] \<and>
   map fst (diffEditInput original form) =
     filter (\<lambda>k. form_value form k \<noteq> stored_value original k \<and> editValueToWire k (form k) \<noteq> LeaveOut)
       EDIT_FIELD_KEYS \<and>
   distinct (map fst (diffEditInput original form)) \<and>
   list_all (\<lambda>(k, w). editValueToWire k (form k) = Send w \<and>
       (if k \<in> set LEGACY_EDIT_KEYS then True else w \<noteq> Some ''''))
     (diffEditInput original form)"
proof -
  have "list_all (\<lambda>(k, w). editValueToWire k (form k) = Send w) (diffEditInput original form)"
    unfolding diffEditInput_def by (rule diff_loop_values)
  then have "list_all (\<lambda>(k, w). editValueToWire k (form k) = Send w \<and>
       (if k \<in> set LEGACY_EDIT_KEYS then True else w \<noteq> Some '''')) (diffEditInput original form)"
    using editValueToWire_nrs by (fastforce simp: list_all_iff)
  then show ?thesis
    by (simp add: diffEditInput_def diff_loop_untouched diff_loop_keys distinct_EDIT_FIELD_KEYS)
qed

end
