(* ===== verification/Draft_Totals.thy ===== *)
theory Draft_Totals
  imports Decimals Invoice_Fields
begin

text \<open>
  The create form (\<open>lib/invoiceDraft.ts\<close>): the derived money of a draft (rounding, line amounts,
  the allocation of tax to lines, the totals), the supplier and buyer prefills, the body of
  \<open>POST /v1/invoices\<close>, the gate, and the one filing round trip.

  The numbers \<open>qty\<close> and \<open>price\<close> of a line are read by the code only through \<open>String(...)\<close>; the
  model holds that text. A \<open>Draft\<close> is the value of each form key together with its lines.
\<close>

record draft_line =
  li_desc :: string
  li_qty :: string
  li_price :: string
  li_tax_category :: string
  li_hsn_code :: string
  li_isic_code :: string
  li_product_category :: string
  li_service_category :: string
  li_sellers_item_identification :: string
  li_price_unit :: string
  li_tax_percent :: string

record draft =
  dr_field :: "string \<Rightarrow> string"
  dr_items :: "draft_line list"

definition VAT_RATE :: scaled where
  "VAT_RATE = Scaled 75 3"

definition round2 :: "scaled \<Rightarrow> scaled" where
  "round2 v =
    (if sc_s v \<le> 2 then v
     else let divisor = 10 ^ nat (sc_s v - 2);
              negative = sc_u v < 0;
              magnitude = (if negative then - sc_u v else sc_u v);
              truncated = magnitude div divisor;
              rounded = (if (magnitude mod divisor) * 2 \<ge> divisor then truncated + 1 else truncated)
          in Scaled (if negative then - rounded else rounded) 2)"

definition nullIfBlank :: "string \<Rightarrow> string option" where
  "nullIfBlank v = (if v = '''' then None else Some v)"

definition dateOrNull :: "string \<Rightarrow> string option" where
  "dateOrNull v = (let t = trim v in if t = '''' then None else Some (t @ ''T00:00:00Z''))"

definition lineAmount :: "draft_line \<Rightarrow> scaled option" where
  "lineAmount item =
    (case (parseScaled (li_qty item), parseScaled (li_price item)) of
       (Some quantity, Some unitPrice) \<Rightarrow> Some (mulScaled quantity unitPrice)
     | _ \<Rightarrow> None)"

fun sumAmounts_loop :: "scaled \<Rightarrow> scaled option list \<Rightarrow> scaled option" where
  "sumAmounts_loop acc [] = Some acc"
| "sumAmounts_loop acc (None # rest) = None"
| "sumAmounts_loop acc (Some a # rest) = sumAmounts_loop (addScaled acc a) rest"

definition sumAmounts :: "scaled option list \<Rightarrow> scaled option" where
  "sumAmounts amounts = (if amounts = [] then None else sumAmounts_loop (Scaled 0 0) amounts)"

definition koboString :: "int \<Rightarrow> string" where
  "koboString kobo = renderScaled (Scaled kobo 2)"

definition toKobo :: "scaled \<Rightarrow> int" where
  "toKobo v = sc_u v * 10 ^ nat (2 - sc_s v)"

text \<open>Division of \<open>bigint\<close>s truncates towards zero; on the non-negative numbers the code divides it
  is \<^const>\<open>divide\<close>.\<close>

definition floorDiv :: "int \<Rightarrow> int \<Rightarrow> int" where
  "floorDiv n d = (if n \<ge> 0 then n div d else - ((- n + d - 1) div d))"

subsection \<open>The tax of each line\<close>

record tax_group =
  tg_percent :: int
  tg_members :: "(nat \<times> int) list"

definition group_key :: "string \<Rightarrow> int \<Rightarrow> string" where
  "group_key category hundredths = category @ ''|'' @ show_int hundredths"

definition add_member ::
  "(string \<times> tax_group) list \<Rightarrow> nat \<times> draft_line \<Rightarrow> (string \<times> tax_group) list"
where
  "add_member groups = (\<lambda>(index, item).
    if li_tax_category item = '''' then groups
    else case (parseScaled (li_tax_percent item), lineAmount item) of
      (Some percent, Some amount) \<Rightarrow>
        (let hundredths = toKobo (round2 percent);
             key = group_key (li_tax_category item) hundredths;
             grp = (case map_of groups key of Some g \<Rightarrow> g | None \<Rightarrow> \<lparr>tg_percent = hundredths, tg_members = []\<rparr>)
         in al_set key (grp\<lparr>tg_members := tg_members grp @ [(index, toKobo (round2 amount))]\<rparr>) groups)
    | _ \<Rightarrow> groups)"

fun bump :: "int \<Rightarrow> nat list \<Rightarrow> int list \<Rightarrow> int list" where
  "bump leftover [] floors = floors"
| "bump leftover (i # order) floors =
    (if leftover \<le> 0 then floors else bump (leftover - 1) order (floors[i := floors ! i + 1]))"

text \<open>The array \<open>floors\<close> of one group when its loop is done. The comparator of the source orders the
  positions by decreasing remainder, ties by position: the stable sort by the negated remainder.\<close>

definition group_taxes :: "int \<Rightarrow> int list \<Rightarrow> int list" where
  "group_taxes percent bases =
    (let exact = map (\<lambda>b. b * percent) bases;
         total = sum_list exact;
         rounded = ((if total < 0 then - total else total) + 5000) div 10000;
         groupTax = (if total < 0 then - rounded else rounded);
         floors = map (\<lambda>e. floorDiv e 10000) exact;
         remainders = map (\<lambda>(e, f). e - f * 10000) (zip exact floors);
         leftover = groupTax - sum_list floors;
         byRemainder = sort_key (\<lambda>i. - (remainders ! i)) [0..<length bases]
     in bump leftover byRemainder floors)"

definition write_group :: "int option list \<Rightarrow> tax_group \<Rightarrow> int option list" where
  "write_group taxes g =
    foldl (\<lambda>t (m, v). t[fst m := Some v]) taxes
      (zip (tg_members g) (group_taxes (tg_percent g) (map snd (tg_members g))))"

definition lineTaxKobo :: "draft_line list \<Rightarrow> int option list" where
  "lineTaxKobo items =
    (let groups = foldl add_member [] (zip [0..<length items] items)
     in foldl write_group (replicate (length items) None) (map snd groups))"

definition draftLineTaxes :: "draft_line list \<Rightarrow> string option list" where
  "draftLineTaxes items = map (map_option koboString) (lineTaxKobo items)"

subsection \<open>The totals\<close>

record draft_totals =
  dt_subtotal :: "string option"
  dt_vat :: "string option"
  dt_total :: "string option"
  dt_vatLabel :: string

definition draft_subtotal :: "draft_line list \<Rightarrow> scaled option" where
  "draft_subtotal items = map_option round2 (sumAmounts (map lineAmount items))"

definition draft_categorised :: "draft_line list \<Rightarrow> bool" where
  "draft_categorised items \<longleftrightarrow> list_ex (\<lambda>item. li_tax_category item \<noteq> '''') items"

definition kobo_or_zero :: "int option \<Rightarrow> int" where
  "kobo_or_zero k = (case k of None \<Rightarrow> 0 | Some k \<Rightarrow> k)"

definition draft_vat :: "draft_line list \<Rightarrow> scaled option" where
  "draft_vat items = (case draft_subtotal items of
      None \<Rightarrow> None
    | Some subtotal \<Rightarrow> Some
        (if draft_categorised items
         then Scaled (foldl (\<lambda>acc kobo. acc + kobo_or_zero kobo) 0 (lineTaxKobo items)) 2
         else round2 (mulScaled subtotal VAT_RATE)))"

definition draft_total :: "draft_line list \<Rightarrow> scaled option" where
  "draft_total items = (case (draft_subtotal items, draft_vat items) of
      (Some subtotal, Some vat) \<Rightarrow> Some (round2 (addScaled subtotal vat))
    | _ \<Rightarrow> None)"

definition draftTotals :: "draft_line list \<Rightarrow> draft_totals" where
  "draftTotals items =
    \<lparr>dt_subtotal = map_option renderScaled (draft_subtotal items),
     dt_vat = map_option renderScaled (draft_vat items),
     dt_total = map_option renderScaled (draft_total items),
     dt_vatLabel = (if draft_categorised items then ''VAT''
                    else ''VAT '' @ middle_dot @ '' 7.5%'')\<rparr>"

subsection \<open>Rounding half away from zero\<close>

definition round_away :: "rat \<Rightarrow> int" where
  "round_away q = (if q < 0 then - \<lfloor>- q + 1 / 2\<rfloor> else \<lfloor>q + 1 / 2\<rfloor>)"

lemma floor_half:
  assumes "0 < d"
  shows "\<lfloor>(of_int n :: rat) / of_int d + 1 / 2\<rfloor> = (2 * n + d) div (2 * d)"
proof -
  have "(of_int n :: rat) / of_int d + 1 / 2 = of_int (2 * n + d) / of_int (2 * d)"
    using assms by (simp add: field_simps)
  then show ?thesis by (simp only: floor_divide_of_int_eq)
qed

lemma half_up_mod:
  fixes n d :: int
  assumes "0 < d"
  shows "(if (n mod d) * 2 \<ge> d then n div d + 1 else n div d) = (2 * n + d) div (2 * d)"
proof -
  have eq: "2 * n + d = (2 * (n mod d) + d) + (n div d) * (2 * d)"
  proof -
    define q r where "q = n div d" and "r = n mod d"
    have n: "n = d * q + r" by (simp add: q_def r_def)
    show ?thesis unfolding q_def [symmetric] r_def [symmetric] by (simp add: n algebra_simps)
  qed
  have "(2 * n + d) div (2 * d) = n div d + (2 * (n mod d) + d) div (2 * d)"
    unfolding eq using assms by simp
  moreover have "(2 * (n mod d) + d) div (2 * d) = (if (n mod d) * 2 \<ge> d then 1 else 0)"
  proof -
    have r: "0 \<le> n mod d" "n mod d < d" using assms by simp_all
    show ?thesis
    proof (cases "(n mod d) * 2 \<ge> d")
      case True
      then have "(2 * (n mod d) + d) div (2 * d) = 1 + (2 * (n mod d) - d) div (2 * d)"
        using assms div_add_self2 [of "2 * d" "2 * (n mod d) - d"] by (simp add: algebra_simps)
      moreover have "(2 * (n mod d) - d) div (2 * d) = 0"
        using True r by (intro div_pos_pos_trivial) linarith+
      ultimately show ?thesis using True by simp
    next
      case False
      then show ?thesis using r by (simp add: div_pos_pos_trivial)
    qed
  qed
  ultimately show ?thesis by simp
qed

lemma round_away_abs: "\<bar>of_int (round_away q) - q\<bar> \<le> 1 / 2"
proof (cases "q < 0")
  case True
  have "of_int \<lfloor>- q + 1 / 2\<rfloor> \<le> - q + 1 / 2" "- q + 1 / 2 < of_int \<lfloor>- q + 1 / 2\<rfloor> + 1"
    using floor_correct [of "- q + 1 / 2"] by simp_all
  then show ?thesis unfolding round_away_def if_P [OF True] of_int_minus by linarith
next
  case False
  have "of_int \<lfloor>q + 1 / 2\<rfloor> \<le> q + 1 / 2" "q + 1 / 2 < of_int \<lfloor>q + 1 / 2\<rfloor> + 1"
    using floor_correct [of "q + 1 / 2"] by simp_all
  then show ?thesis unfolding round_away_def if_not_P [OF False] by linarith
qed

lemma round_away_of_int [simp]: "round_away (of_int k) = k"
  unfolding round_away_def by (auto simp: floor_eq_iff)

lemma round_away_div:
  assumes "0 < d"
  shows "round_away (of_int n / of_int d) =
    (if n < 0 then - ((2 * (- n) + d) div (2 * d)) else (2 * n + d) div (2 * d))"
proof -
  have "(of_int n :: rat) / of_int d < 0 \<longleftrightarrow> n < 0" using assms by (simp add: divide_less_0_iff)
  moreover have "- ((of_int n :: rat) / of_int d) = of_int (- n) / of_int d" by simp
  ultimately show ?thesis
    using floor_half [OF assms, of n] floor_half [OF assms, of "- n"] by (simp add: round_away_def)
qed

lemma round2_val:
  assumes "wf_scaled v"
  shows "scaled_val (round2 v) = of_int (round_away (100 * scaled_val v)) / 100"
    and "0 \<le> sc_s (round2 v)" "sc_s (round2 v) \<le> 2"
proof -
  show "0 \<le> sc_s (round2 v)" "sc_s (round2 v) \<le> 2"
    using assms by (auto simp: round2_def Let_def wf_scaled_def)
  show "scaled_val (round2 v) = of_int (round_away (100 * scaled_val v)) / 100"
  proof (cases "sc_s v \<le> 2")
    case True
    then have "scaled_val v = of_int (sc_u v * 10 ^ nat (2 - sc_s v)) / 10 ^ nat 2"
      using rescale [of "sc_s v" 2 "sc_u v"] assms by (simp add: wf_scaled_def scaled_val_def)
    then have "100 * scaled_val v = of_int (sc_u v * 10 ^ nat (2 - sc_s v))" by simp
    with True show ?thesis
      by (metis nonzero_mult_div_cancel_left round2_def round_away_of_int zero_neq_numeral)
  next
    case False
    define d where "d = (10 :: int) ^ nat (sc_s v - 2)"
    have d: "0 < d" by (simp add: d_def)
    have "nat (sc_s v) = nat (sc_s v - 2) + 2" using False by linarith
    then have "(10 :: rat) ^ nat (sc_s v) = of_int d * 100" by (simp add: d_def power_add)
    then have q: "100 * scaled_val v = of_int (sc_u v) / of_int d"
      using d by (simp add: scaled_val_def)
    show ?thesis
      unfolding q round_away_div [OF d] half_up_mod [OF d, symmetric]
      using False by (simp add: round2_def Let_def flip: d_def)
  qed
qed

lemma wf_round2 [wf_intros]: "wf_scaled v \<Longrightarrow> wf_scaled (round2 v)"
  using round2_val(2) by (simp add: wf_scaled_def)

lemma toKobo_val: "0 \<le> sc_s v \<Longrightarrow> sc_s v \<le> 2 \<Longrightarrow> of_int (toKobo v) = 100 * scaled_val v"
  using rescale [of "sc_s v" 2 "sc_u v"] by (simp add: toKobo_def scaled_val_def)

text \<open>Whole kobo of a rounded decimal: the rational rounded to a hundredth.\<close>

lemma toKobo_round2: "wf_scaled v \<Longrightarrow> toKobo (round2 v) = round_away (100 * scaled_val v)"
  using toKobo_val [of "round2 v"] round2_val [of v]
  by (metis nonzero_mult_div_cancel_left of_int_eq_iff times_divide_eq_right zero_neq_numeral)

lemma wf_lineAmount [wf_intros]: "lineAmount item = Some a \<Longrightarrow> wf_scaled a"
  by (auto simp: lineAmount_def wf_intros split: option.splits)

subsection \<open>One group: nothing is lost and no line is off by more than a kobo\<close>

lemma floorDiv_div:
  assumes "0 < d"
  shows "floorDiv n d = n div d"
proof (cases "n \<ge> 0")
  case False
  define q r where "q = n div d" and "r = n mod d"
  have "n = d * q + r" "0 \<le> r" "r < d" using assms by (simp_all add: q_def r_def)
  then have "(- n + d - 1) div d = - q"
    by (intro int_div_pos_eq [of _ _ _ "d - 1 - r"]) (simp_all add: algebra_simps)
  with False show ?thesis by (simp add: floorDiv_def q_def)
qed (simp add: floorDiv_def)

lemma length_bump [simp]: "length (bump l order fl) = length fl"
  by (induction l order fl rule: bump.induct) auto

lemma sum_list_update_int:
  fixes xs :: "int list"
  shows "i < length xs \<Longrightarrow> sum_list (xs[i := x]) = sum_list xs - xs ! i + x"
  by (induction xs arbitrary: i) (auto simp: nth_Cons split: nat.splits)

lemma bump_sum:
  "0 \<le> l \<Longrightarrow> l \<le> int (length order) \<Longrightarrow> \<forall>i \<in> set order. i < length fl \<Longrightarrow>
   sum_list (bump l order fl) = sum_list fl + l"
proof (induction l order fl rule: bump.induct)
  case (2 l i order fl)
  then show ?case
    by (auto simp: sum_list_update_int)
qed simp

lemma bump_nth:
  "distinct order \<Longrightarrow> i < length fl \<Longrightarrow>
   bump l order fl ! i = fl ! i \<or> i \<in> set order \<and> bump l order fl ! i = fl ! i + 1"
proof (induction l order fl rule: bump.induct)
  case (2 l j order fl)
  then show ?case by (cases "j = i") (auto simp: nth_list_update)
qed simp

lemma sum_div_mod:
  fixes es :: "int list"
  shows "sum_list es = d * sum_list (map (\<lambda>e. e div d) es) + sum_list (map (\<lambda>e. e mod d) es)"
  by (induction es) (simp_all add: distrib_left)

lemma sum_mod_bounds:
  fixes es :: "int list"
  assumes "0 < d"
  shows "0 \<le> sum_list (map (\<lambda>e. e mod d) es)"
    "sum_list (map (\<lambda>e. e mod d) es) \<le> (d - 1) * int (length es)"
proof -
  have m: "0 \<le> e mod d" "e mod d \<le> d - 1" for e using assms by (simp_all add: pos_mod_bound)
  show "0 \<le> sum_list (map (\<lambda>e. e mod d) es)"
    by (induction es) (use m(1) in \<open>simp_all add: add_nonneg_nonneg\<close>)
  show "sum_list (map (\<lambda>e. e mod d) es) \<le> (d - 1) * int (length es)"
  proof (induction es)
    case (Cons e es)
    then show ?case using m(2) [of e] by (simp add: distrib_left)
  qed simp
qed

text \<open>The tax of a group as the code computes it is the exact tax rounded half away from zero.\<close>

definition group_tax :: "int \<Rightarrow> int list \<Rightarrow> int" where
  "group_tax percent bases = round_away (of_int (sum_list bases * percent) / 10000)"

lemma sum_list_mult_right: "sum_list (map (\<lambda>b. b * p) bs) = sum_list bs * (p :: int)"
  by (induction bs) (simp_all add: distrib_right)

lemma group_tax_code:
  "(let rounded = ((if t < 0 then - t else t) + 5000) div 10000 in if t < 0 then - rounded else rounded) =
   round_away (of_int t / 10000)"
proof -
  have "(2 * s + 10000) div (2 * 10000) = (s + 5000) div (10000 :: int)" for s
    using div_mult_mult1 [of 2 "s + 5000" 10000] by (simp add: algebra_simps)
  from this [of t] this [of "- t"] show ?thesis using round_away_div [of 10000 t] by (simp add: Let_def)
qed

lemma group_taxes_facts:
  defines "ex \<equiv> \<lambda>percent. map (\<lambda>b. b * percent)"
  shows "length (group_taxes percent bases) = length bases"
    and "sum_list (group_taxes percent bases) = group_tax percent bases"
    and "i < length bases \<Longrightarrow>
      group_taxes percent bases ! i - (bases ! i * percent) div 10000 \<in> {0, 1}"
proof -
  define es where "es = map (\<lambda>b. b * percent) bases"
  define fl where "fl = map (\<lambda>e. e div 10000) es"
  define T where "T = group_tax percent bases"
  define rs where "rs = map (\<lambda>(e, f). e - f * 10000) (zip es fl)"
  define order where "order = sort_key (\<lambda>i. - (rs ! i)) [0..<length bases]"
  have len: "length es = length bases" "length fl = length bases" by (simp_all add: es_def fl_def)
  have ord: "distinct order" "set order = {0..<length bases}" "length order = length bases"
    by (simp_all add: order_def)
  have T: "T = round_away (of_int (sum_list es) / 10000)"
    by (simp add: T_def group_tax_def es_def sum_list_mult_right)
  have g: "group_taxes percent bases = bump (T - sum_list fl) order fl"
    unfolding group_taxes_def T group_tax_code [symmetric]
    by (simp add: Let_def es_def fl_def rs_def order_def floorDiv_div cong: map_cong)
  define R where "R = sum_list (map (\<lambda>e. e mod 10000) es)"
  have R: "sum_list es = 10000 * sum_list fl + R" "0 \<le> R" "R \<le> 9999 * int (length bases)"
    using sum_div_mod [of es 10000] sum_mod_bounds [of 10000 es] len by (simp_all add: R_def fl_def)
  have "\<bar>of_int T - of_int (sum_list es) / (10000 :: rat)\<bar> \<le> 1 / 2"
    unfolding T by (rule round_away_abs)
  then have "of_int \<bar>10000 * T - sum_list es\<bar> \<le> (of_int 5000 :: rat)" by (simp add: abs_le_iff field_simps)
  then have "\<bar>10000 * T - sum_list es\<bar> \<le> 5000" by (simp only: of_int_le_iff)
  with R have l: "0 \<le> T - sum_list fl" "T - sum_list fl \<le> int (length order)"
    using ord(3) by linarith+
  show "length (group_taxes percent bases) = length bases" by (simp add: g len)
  show "sum_list (group_taxes percent bases) = group_tax percent bases"
    using bump_sum [OF l, of fl] ord len by (simp add: g T_def)
  assume i: "i < length bases"
  then have "fl ! i = (bases ! i * percent) div 10000" by (simp add: fl_def es_def)
  then show "group_taxes percent bases ! i - (bases ! i * percent) div 10000 \<in> {0, 1}"
    using bump_nth [OF ord(1), of i fl "T - sum_list fl"] i len by (auto simp: g)
qed

subsection \<open>All the lines\<close>

text \<open>The group a line belongs to and its base in kobo; \<^const>\<open>None\<close> for a line that gets no tax.\<close>

definition line_group :: "draft_line \<Rightarrow> (string \<times> int \<times> int) option" where
  "line_group item =
    (if li_tax_category item = '''' then None
     else case (parseScaled (li_tax_percent item), lineAmount item) of
       (Some p, Some a) \<Rightarrow>
         Some (li_tax_category item, round_away (100 * scaled_val p), round_away (100 * scaled_val a))
     | _ \<Rightarrow> None)"

definition in_group :: "string \<Rightarrow> int \<Rightarrow> nat \<times> draft_line \<Rightarrow> (nat \<times> int) list" where
  "in_group c h ie = (case line_group (snd ie) of
      Some (c', h', b) \<Rightarrow> if c' = c \<and> h' = h then [(fst ie, b)] else []
    | None \<Rightarrow> [])"

definition members :: "string \<Rightarrow> int \<Rightarrow> (nat \<times> draft_line) list \<Rightarrow> (nat \<times> int) list" where
  "members c h ies = concat (map (in_group c h) ies)"

lemma members_simps [simp]:
  "members c h [] = []"
  "members c h (ies @ [ie]) = members c h ies @ in_group c h ie"
  by (simp_all add: members_def)

lemma show_int_no_bar: "CHR ''|'' \<notin> set (show_int i)"
proof -
  have "CHR ''|'' \<notin> set (show_nat n)" for n
    using show_nat_digits [of n] by (auto simp: list_all_iff is_digit_def)
  then show ?thesis by (simp add: show_int_def)
qed

lemma group_key_inject [simp]: "group_key c h = group_key c' h' \<longleftrightarrow> c = c' \<and> h = h'"
proof
  have rev: "takeWhile (\<lambda>x. x \<noteq> CHR ''|'') (rev (group_key c h)) = rev (show_int h)" for c h
    using show_int_no_bar [of h] by (simp add: group_key_def takeWhile_append)
  assume eq: "group_key c h = group_key c' h'"
  then have "show_int h = show_int h'" using rev by (metis rev_rev_ident)
  with eq show "c = c' \<and> h = h'" by (simp add: group_key_def)
qed simp

lemma add_member_none: "line_group (snd ie) = None \<Longrightarrow> add_member G ie = G"
  by (cases ie) (auto simp: add_member_def line_group_def split: option.splits if_splits)

lemma add_member_some:
  assumes "line_group (snd ie) = Some (c, h, b)"
  shows "add_member G ie =
    al_set (group_key c h)
      (case map_of G (group_key c h) of
         Some g \<Rightarrow> g\<lparr>tg_members := tg_members g @ [(fst ie, b)]\<rparr>
       | None \<Rightarrow> \<lparr>tg_percent = h, tg_members = [(fst ie, b)]\<rparr>) G"
proof -
  obtain i item where ie: "ie = (i, item)" by (cases ie)
  obtain p a where p: "parseScaled (li_tax_percent item) = Some p" "lineAmount item = Some a"
    "li_tax_category item = c" "c \<noteq> ''''" "h = round_away (100 * scaled_val p)"
    "b = round_away (100 * scaled_val a)"
    using assms by (auto simp: ie line_group_def split: option.splits if_splits)
  have "toKobo (round2 p) = h" "toKobo (round2 a) = b"
    using p toKobo_round2 parseScaled_wf wf_lineAmount by simp_all
  with p show ?thesis by (simp add: add_member_def ie Let_def split: option.split)
qed

definition groups_ok :: "(nat \<times> draft_line) list \<Rightarrow> (string \<times> tax_group) list \<Rightarrow> bool" where
  "groups_ok ies G \<longleftrightarrow> distinct (map fst G) \<and> (\<forall>k \<in> fst ` set G. \<exists>c h. k = group_key c h) \<and>
     (\<forall>c h. map_of G (group_key c h) =
        (if members c h ies = [] then None
         else Some \<lparr>tg_percent = h, tg_members = members c h ies\<rparr>))"

lemma groups_ok_build: "groups_ok ies (foldl add_member [] ies)"
proof (induction ies rule: rev_induct)
  case Nil
  show ?case by (simp add: groups_ok_def)
next
  case (snoc ie ies)
  define G where "G = foldl add_member [] ies"
  have ok: "groups_ok ies G" using snoc by (simp add: G_def)
  show ?case
  proof (cases "line_group (snd ie)")
    case None
    then have "in_group c h ie = []" for c h by (simp add: in_group_def)
    with ok None show ?thesis by (simp add: add_member_none groups_ok_def flip: G_def)
  next
    case (Some x)
    then obtain c h b where x: "line_group (snd ie) = Some (c, h, b)" by (cases x) auto
    have in_g: "in_group c' h' ie = (if c' = c \<and> h' = h then [(fst ie, b)] else [])" for c' h'
      using x by (auto simp: in_group_def)
    show ?thesis
      using ok unfolding groups_ok_def foldl_append foldl.simps G_def [symmetric] add_member_some [OF x]
      by (auto simp: in_g distinct_al_set split: option.splits if_splits)
  qed
qed

definition put_at :: "'a option list \<Rightarrow> nat \<times> 'a \<Rightarrow> 'a option list" where
  "put_at t iv = t[fst iv := Some (snd iv)]"

lemma length_foldl_put_at [simp]: "length (foldl put_at t W) = length t"
  by (induction W arbitrary: t) (simp_all add: put_at_def)

lemma nth_foldl_put_at:
  "distinct (map fst W) \<Longrightarrow> \<forall>i \<in> fst ` set W. i < length t \<Longrightarrow> i < length t \<Longrightarrow>
   foldl put_at t W ! i = (case map_of W i of Some v \<Rightarrow> Some v | None \<Rightarrow> t ! i)"
proof (induction W arbitrary: t)
  case (Cons iv W)
  then have "map_of W (fst iv) = None" by (simp add: map_of_eq_None_iff)
  with Cons.IH [of "put_at t iv"] Cons.prems show ?case
    by (auto simp: put_at_def nth_list_update split: option.split)
qed simp

definition idx :: "tax_group \<Rightarrow> nat list" where
  "idx g = map fst (tg_members g)"

definition alloc :: "tax_group \<Rightarrow> int list" where
  "alloc g = group_taxes (tg_percent g) (map snd (tg_members g))"

lemma length_alloc [simp]: "length (alloc g) = length (idx g)"
  by (simp add: alloc_def idx_def group_taxes_facts)

lemma write_group_eq: "write_group t g = foldl put_at t (zip (idx g) (alloc g))"
proof -
  have "foldl (\<lambda>t (m, v). t[fst m := Some v]) t (zip ms vs) = foldl put_at t (zip (map fst ms) vs)"
    for t :: "int option list" and ms :: "(nat \<times> int) list" and vs
    by (induction ms vs arbitrary: t rule: list_induct2') (simp_all add: put_at_def)
  then show ?thesis by (simp add: write_group_def idx_def alloc_def)
qed

definition apart :: "tax_group \<Rightarrow> tax_group \<Rightarrow> bool" where
  "apart g g' \<longleftrightarrow> set (idx g) \<inter> set (idx g') = {}"

lemma length_write_groups [simp]: "length (foldl write_group t gs) = length t"
  by (induction gs arbitrary: t) (simp_all add: write_group_eq)

lemma nth_write_groups:
  assumes "sorted_wrt apart gs" "\<forall>g \<in> set gs. distinct (idx g) \<and> (\<forall>i \<in> set (idx g). i < length t)"
    "i < length t"
  shows "(\<forall>g \<in> set gs. i \<in> set (idx g) \<longrightarrow>
            foldl write_group t gs ! i = map_of (zip (idx g) (alloc g)) i) \<and>
         ((\<forall>g \<in> set gs. i \<notin> set (idx g)) \<longrightarrow> foldl write_group t gs ! i = t ! i)"
  using assms
proof (induction gs arbitrary: t)
  case (Cons g gs)
  define t' where "t' = write_group t g"
  have len: "length t' = length t" by (simp add: t'_def write_group_eq)
  have at: "t' ! i = (case map_of (zip (idx g) (alloc g)) i of Some v \<Rightarrow> Some v | None \<Rightarrow> t ! i)"
    unfolding t'_def write_group_eq using Cons.prems
    by (intro nth_foldl_put_at) (auto dest: set_zip_leftD)
  have dom: "map_of (zip (idx g) (alloc g)) i = None \<longleftrightarrow> i \<notin> set (idx g)"
    by (metis length_alloc map_fst_zip map_of_eq_None_iff set_map)
  have IH: "(\<forall>g \<in> set gs. i \<in> set (idx g) \<longrightarrow>
            foldl write_group t' gs ! i = map_of (zip (idx g) (alloc g)) i) \<and>
         ((\<forall>g \<in> set gs. i \<notin> set (idx g)) \<longrightarrow> foldl write_group t' gs ! i = t' ! i)"
    using Cons.prems len by (intro Cons.IH) auto
  have sep: "i \<in> set (idx g) \<Longrightarrow> \<forall>g' \<in> set gs. i \<notin> set (idx g')"
    using Cons.prems(1) by (auto simp: apart_def)
  show ?case
  proof (cases "map_of (zip (idx g) (alloc g)) i")
    case None
    with dom IH at show ?thesis by (simp flip: t'_def)
  next
    case (Some v)
    then have "i \<in> set (idx g)" using dom by (metis option.distinct(1))
    with Some sep IH at show ?thesis by (simp flip: t'_def)
  qed
qed simp

text \<open>The members of a group, with the positions of the lines.\<close>

lemma set_members:
  "(i, b) \<in> set (members c h (zip [0..<length items] items)) \<longleftrightarrow>
   i < length items \<and> line_group (items ! i) = Some (c, h, b)"
proof -
  have "(i, b) \<in> set (members c h ies) \<longleftrightarrow> (\<exists>item. (i, item) \<in> set ies \<and> line_group item = Some (c, h, b))"
    for ies by (force simp: members_def in_group_def split: option.splits if_splits)
  moreover have "(i, item) \<in> set (zip [0..<length items] items) \<longleftrightarrow> i < length items \<and> item = items ! i" for item
    by (auto simp: set_zip intro!: exI [of _ i])
  ultimately show ?thesis by simp
qed

lemma set_in_group: "fst ` set (in_group c h ie) \<subseteq> {fst ie}"
  by (auto simp: in_group_def split: option.splits)

lemma distinct_members: "distinct (map fst ies) \<Longrightarrow> distinct (map fst (members c h ies))"
proof (induction ies)
  case (Cons ie ies)
  have "fst ` set (members c h ies) = (\<Union>ie \<in> set ies. fst ` set (in_group c h ie))"
    by (auto simp: members_def)
  also have "\<dots> \<subseteq> (\<Union>ie \<in> set ies. {fst ie})" using set_in_group by blast
  finally have "fst ` set (members c h ies) \<subseteq> fst ` set ies" by auto
  with Cons show ?case
    by (auto simp: members_def in_group_def split: option.splits if_splits)
qed (simp add: members_def)

text \<open>The group of a category and a percent, over all the lines.\<close>

definition group_of :: "draft_line list \<Rightarrow> string \<Rightarrow> int \<Rightarrow> tax_group" where
  "group_of items c h =
     \<lparr>tg_percent = h, tg_members = members c h (zip [0..<length items] items)\<rparr>"

lemma distinct_idx: "distinct (idx (group_of items c h))"
  by (simp add: idx_def group_of_def distinct_members)

lemma set_idx:
  "set (idx (group_of items c h)) =
     {i. i < length items \<and> (\<exists>b. line_group (items ! i) = Some (c, h, b))}"
proof -
  have "set (idx (group_of items c h)) = {i. \<exists>b. (i, b) \<in> set (members c h (zip [0..<length items] items))}"
    by (force simp: idx_def group_of_def)
  then show ?thesis by (auto simp: set_members)
qed

lemma lineTaxKobo_nth:
  assumes "i < length items"
  shows "lineTaxKobo items ! i = (case line_group (items ! i) of
      None \<Rightarrow> None
    | Some (c, h, b) \<Rightarrow>
        map_of (zip (idx (group_of items c h)) (alloc (group_of items c h))) i)"
proof -
  define G where "G = foldl add_member [] (zip [0..<length items] items)"
  have ok: "groups_ok (zip [0..<length items] items) G" unfolding G_def by (rule groups_ok_build)
  have gof: "\<exists>c h. k = group_key c h \<and> g = group_of items c h" if "(k, g) \<in> set G" for k g
  proof -
    have "k \<in> fst ` set G" using that by force
    then obtain c h where k: "k = group_key c h" using ok by (auto simp: groups_ok_def)
    moreover have "map_of G k = Some g" using ok that by (simp add: groups_ok_def)
    ultimately show ?thesis using ok by (auto simp: groups_ok_def group_of_def split: if_splits)
  qed
  have sep: "sorted_wrt apart (map snd G)"
    unfolding sorted_wrt_iff_nth_less
  proof (intro allI impI)
    fix j l assume jl: "j < l" "l < length (map snd G)"
    obtain c h where j: "fst (G ! j) = group_key c h" "snd (G ! j) = group_of items c h"
      using gof [of "fst (G ! j)" "snd (G ! j)"] jl by auto
    obtain c' h' where l: "fst (G ! l) = group_key c' h'" "snd (G ! l) = group_of items c' h'"
      using gof [of "fst (G ! l)" "snd (G ! l)"] jl by auto
    have "fst (G ! j) \<noteq> fst (G ! l)"
      using ok jl nth_eq_iff_index_eq [of "map fst G" j l] by (simp add: groups_ok_def)
    then have "\<not> (c = c' \<and> h = h')" using j l by auto
    then show "apart (map snd G ! j) (map snd G ! l)"
      using jl j l by (auto simp: apart_def set_idx)
  qed
  have T: "lineTaxKobo items = foldl write_group (replicate (length items) None) (map snd G)"
    by (simp add: lineTaxKobo_def G_def)
  have w: "(\<forall>g \<in> set (map snd G). i \<in> set (idx g) \<longrightarrow>
        lineTaxKobo items ! i = map_of (zip (idx g) (alloc g)) i) \<and>
      ((\<forall>g \<in> set (map snd G). i \<notin> set (idx g)) \<longrightarrow> lineTaxKobo items ! i = replicate (length items) None ! i)"
    unfolding T using sep assms
  proof (intro nth_write_groups)
    show "\<forall>g \<in> set (map snd G). distinct (idx g) \<and>
        (\<forall>i \<in> set (idx g). i < length (replicate (length items) (None :: int option)))"
      using gof distinct_idx set_idx by fastforce
  qed simp_all
  show ?thesis
  proof (cases "line_group (items ! i)")
    case None
    then have "\<forall>g \<in> set (map snd G). i \<notin> set (idx g)" using gof by (fastforce simp: set_idx)
    with w None assms show ?thesis by simp
  next
    case (Some x)
    then obtain c h b where x: "line_group (items ! i) = Some (c, h, b)" by (cases x) auto
    then have "(i, b) \<in> set (members c h (zip [0..<length items] items))"
      using assms by (simp add: set_members)
    then have "members c h (zip [0..<length items] items) \<noteq> []" by auto
    then have "map_of G (group_key c h) = Some (group_of items c h)"
      using ok by (simp add: groups_ok_def group_of_def)
    then have "group_of items c h \<in> set (map snd G)" by (force dest: map_of_SomeD)
    moreover have "i \<in> set (idx (group_of items c h))" using x assms by (simp add: set_idx)
    ultimately have "lineTaxKobo items ! i =
        map_of (zip (idx (group_of items c h)) (alloc (group_of items c h))) i"
      using w by blast
    with x show ?thesis by simp
  qed
qed

lemma length_lineTaxKobo [simp]: "length (lineTaxKobo items) = length items"
  by (simp add: lineTaxKobo_def Let_def)

lemma sum_alloc:
  "(\<Sum>i \<in> set (idx g). the (map_of (zip (idx g) (alloc g)) i)) = group_tax (tg_percent g) (map snd (tg_members g))"
  if "distinct (idx g)"
proof -
  have "map (\<lambda>i. the (map_of (zip (idx g) (alloc g)) i)) (idx g) = alloc g"
    using that by (intro nth_equalityI) (simp_all add: map_of_zip_nth)
  then have "(\<Sum>i \<in> set (idx g). the (map_of (zip (idx g) (alloc g)) i)) = sum_list (alloc g)"
    using that by (simp add: sum.distinct_set_conv_list)
  then show ?thesis by (simp add: alloc_def group_taxes_facts)
qed

lemma sum_bases:
  "(\<Sum>i \<in> set (idx (group_of items c h)). snd (snd (the (line_group (items ! i))))) =
   sum_list (map snd (tg_members (group_of items c h)))"
proof -
  let ?ms = "tg_members (group_of items c h)"
  have "map (\<lambda>i. snd (snd (the (line_group (items ! i))))) (idx (group_of items c h)) = map snd ?ms"
    unfolding idx_def map_map
  proof (rule map_cong [OF refl])
    fix m assume "m \<in> set ?ms"
    then have "line_group (items ! fst m) = Some (c, h, snd m)"
      using set_members [of "fst m" "snd m" c h items] by (simp add: group_of_def)
    then show "((\<lambda>i. snd (snd (the (line_group (items ! i))))) \<circ> fst) m = snd m" by simp
  qed
  then show ?thesis by (simp add: sum.distinct_set_conv_list distinct_idx)
qed

text \<open>C23: the tax of the lines adds up. For every category and percent, the taxes of the lines of
  that group sum to the exact tax on the group's bases, rounded half away from zero to a kobo: the
  largest-remainder allocation neither loses nor invents a kobo.\<close>

theorem lineTaxKobo_sums:
  "(\<Sum>i | i < length items \<and> (\<exists>b. line_group (items ! i) = Some (c, h, b)). the (lineTaxKobo items ! i)) =
   round_away (of_int ((\<Sum>i | i < length items \<and> (\<exists>b. line_group (items ! i) = Some (c, h, b)).
                 snd (snd (the (line_group (items ! i))))) * h) / 10000)"
proof -
  let ?g = "group_of items c h"
  have "the (lineTaxKobo items ! i) = the (map_of (zip (idx ?g) (alloc ?g)) i)" if "i \<in> set (idx ?g)" for i
    using that lineTaxKobo_nth [of i items] by (auto simp: set_idx)
  then have "(\<Sum>i \<in> set (idx ?g). the (lineTaxKobo items ! i)) = group_tax h (map snd (tg_members ?g))"
    using sum_alloc [OF distinct_idx, of items c h] by (simp add: group_of_def)
  then show ?thesis by (simp add: set_idx group_tax_def flip: sum_bases)
qed

text \<open>C39: no line is off by more than a kobo. A line with a category, a readable percent and a
  readable amount gets a tax, and it differs from base times percent by at most one kobo; every
  other line gets none.\<close>

theorem lineTaxKobo_within_kobo:
  assumes "i < length items"
  shows "case line_group (items ! i) of
      None \<Rightarrow> lineTaxKobo items ! i = None
    | Some (c, h, b) \<Rightarrow> \<exists>t. lineTaxKobo items ! i = Some t \<and> \<bar>10000 * t - b * h\<bar> \<le> 10000"
proof (cases "line_group (items ! i)")
  case None
  with lineTaxKobo_nth [OF assms] show ?thesis by simp
next
  case (Some x)
  then obtain c h b where x: "line_group (items ! i) = Some (c, h, b)" by (cases x) auto
  let ?g = "group_of items c h"
  have "i \<in> set (idx ?g)" using x assms by (simp add: set_idx)
  then obtain j where j: "j < length (idx ?g)" "idx ?g ! j = i" by (auto simp: in_set_conv_nth)
  define bs where "bs = map snd (tg_members ?g)"
  have len: "length bs = length (idx ?g)" by (simp add: bs_def idx_def)
  have "lineTaxKobo items ! i = Some (alloc ?g ! j)"
    using lineTaxKobo_nth [OF assms] x j map_of_zip_nth [of "idx ?g" "alloc ?g" j] distinct_idx by simp
  moreover have "bs ! j = b"
  proof -
    have "tg_members ?g ! j \<in> set (tg_members ?g)" using j by (simp add: idx_def)
    moreover have "fst (tg_members ?g ! j) = i" using j by (simp add: idx_def)
    ultimately have "line_group (items ! i) = Some (c, h, snd (tg_members ?g ! j))"
      using set_members [of i "snd (tg_members ?g ! j)" c h items]
      by (simp add: group_of_def prod.collapse) (metis prod.collapse)
    with x j show ?thesis by (simp add: bs_def idx_def)
  qed
  moreover have "alloc ?g ! j - (b * h) div 10000 \<in> {0, 1}"
    using group_taxes_facts(3) [of j bs h] j len \<open>bs ! j = b\<close>
    by (simp add: alloc_def group_of_def bs_def)
  moreover have "\<bar>10000 * t - b * h\<bar> \<le> 10000" if "t - (b * h) div 10000 \<in> {0, 1}" for t
    using that mult_div_mod_eq [of 10000 "b * h"] pos_mod_bound [of 10000 "b * h"]
      pos_mod_sign [of 10000 "b * h"] by auto
  ultimately show ?thesis using x by simp
qed

definition tax_example :: "draft_line list" where
  "tax_example = replicate 3 \<lparr>li_desc = '''', li_qty = ''1'', li_price = ''0.1'', li_tax_category = ''S'',
     li_hsn_code = '''', li_isic_code = '''', li_product_category = '''', li_service_category = '''',
     li_sellers_item_identification = '''', li_price_unit = '''', li_tax_percent = ''7.5''\<rparr>"

theorem lineTaxKobo_within_kobo_witness:
  "\<exists>t. lineTaxKobo tax_example ! 2 = Some t \<and> \<bar>10000 * t - 10 * 750\<bar> \<le> 10000"
proof -
  have "line_group (tax_example ! 2) = Some (''S'', 750, 10)" by code_simp
  moreover have "2 < length tax_example" by (simp add: tax_example_def)
  ultimately show ?thesis using lineTaxKobo_within_kobo [of 2 tax_example] by simp
qed

subsection \<open>The totals are consistent\<close>

lemma sumAmounts_loop_spec:
  "wf_scaled acc \<Longrightarrow> list_all (\<lambda>a. case a of None \<Rightarrow> True | Some x \<Rightarrow> wf_scaled x) as \<Longrightarrow>
   (case sumAmounts_loop acc as of
      None \<Rightarrow> None \<in> set as
    | Some s \<Rightarrow> None \<notin> set as \<and> wf_scaled s \<and>
        scaled_val s = scaled_val acc + sum_list (map (scaled_val \<circ> the) as))"
proof (induction acc as rule: sumAmounts_loop.induct)
  case (3 acc a rest)
  then have "(case sumAmounts_loop (addScaled acc a) rest of
      None \<Rightarrow> None \<in> set rest
    | Some s \<Rightarrow> None \<notin> set rest \<and> wf_scaled s \<and>
        scaled_val s = scaled_val (addScaled acc a) + sum_list (map (scaled_val \<circ> the) rest))"
    by (simp add: wf_addScaled)
  with 3 show ?case by (simp add: addScaled_val split: option.splits)
qed simp_all

lemma foldl_kobo: "foldl (\<lambda>acc k. acc + kobo_or_zero k) a ks = a + sum_list (map kobo_or_zero ks)"
  by (induction ks arbitrary: a) simp_all

text \<open>The totals that cross the wire. There are none exactly when there is no line or a line
  amount is unreadable; otherwise the subtotal is the exact sum of quantity times price rounded
  once, half away from zero, to a hundredth; the VAT is the sum of the line taxes when some line is
  categorised and 7.5 percent of the rounded subtotal, rounded, when none is; and the total is
  exactly subtotal plus VAT.\<close>

theorem draftTotals_consistent:
  "case draft_subtotal items of
     None \<Rightarrow> (items = [] \<or> list_ex (\<lambda>l. lineAmount l = None) items) \<and>
       dt_subtotal (draftTotals items) = None \<and> dt_vat (draftTotals items) = None \<and>
       dt_total (draftTotals items) = None
   | Some s \<Rightarrow> (\<exists>v t. items \<noteq> [] \<and> list_all (\<lambda>l. lineAmount l \<noteq> None) items \<and>
       scaled_val s =
         of_int (round_away (100 * sum_list (map (scaled_val \<circ> the \<circ> lineAmount) items))) / 100 \<and>
       scaled_val v =
         (if draft_categorised items
          then of_int (sum_list (map kobo_or_zero (lineTaxKobo items))) / 100
          else of_int (round_away (100 * (scaled_val s * (3 / 40)))) / 100) \<and>
       scaled_val t = scaled_val s + scaled_val v \<and>
       dt_subtotal (draftTotals items) = Some (renderScaled s) \<and>
       dt_vat (draftTotals items) = Some (renderScaled v) \<and>
       dt_total (draftTotals items) = Some (renderScaled t))"
proof (cases "draft_subtotal items")
  case None
  have "list_all (\<lambda>a. case a of None \<Rightarrow> True | Some x \<Rightarrow> wf_scaled x) (map lineAmount items)"
    by (auto simp: list_all_iff wf_lineAmount split: option.splits)
  then have "items = [] \<or> list_ex (\<lambda>l. lineAmount l = None) items"
    using None sumAmounts_loop_spec [of "Scaled 0 0" "map lineAmount items"]
    by (auto simp: draft_subtotal_def sumAmounts_def list_ex_iff eq_commute [of None]
        split: option.splits if_splits)
  with None show ?thesis by (simp add: draftTotals_def draft_vat_def draft_total_def)
next
  case (Some s)
  have wfs: "list_all (\<lambda>a. case a of None \<Rightarrow> True | Some x \<Rightarrow> wf_scaled x) (map lineAmount items)"
    by (auto simp: list_all_iff wf_lineAmount split: option.splits)
  obtain e where e: "items \<noteq> []" "sumAmounts_loop (Scaled 0 0) (map lineAmount items) = Some e"
    "s = round2 e"
    using Some by (auto simp: draft_subtotal_def sumAmounts_def split: if_splits)
  then have sum: "None \<notin> set (map lineAmount items)" "wf_scaled e"
    "scaled_val e = sum_list (map (scaled_val \<circ> the \<circ> lineAmount) items)"
    using sumAmounts_loop_spec [OF _ wfs, of "Scaled 0 0"] by (simp_all add: comp_assoc)
  have s: "wf_scaled s" "sc_s s \<le> 2" using e sum round2_val by (auto simp: wf_round2)
  define v where "v = (if draft_categorised items
     then Scaled (foldl (\<lambda>acc kobo. acc + kobo_or_zero kobo) 0 (lineTaxKobo items)) 2
     else round2 (mulScaled s VAT_RATE))"
  have wm: "wf_scaled (mulScaled s VAT_RATE)" using s by (simp add: wf_mulScaled VAT_RATE_def)
  have v: "wf_scaled v" "sc_s v \<le> 2" using wm round2_val by (auto simp: v_def wf_round2)
  define t where "t = round2 (addScaled s v)"
  have "sc_s (addScaled s v) \<le> 2" using s v by (simp add: addScaled_def Let_def)
  then have t: "scaled_val t = scaled_val s + scaled_val v"
    using s v by (simp add: t_def round2_def addScaled_val)
  have "scaled_val (mulScaled s VAT_RATE) = scaled_val s * (3 / 40)"
    using s by (subst mulScaled_val) (simp_all add: VAT_RATE_def)
  note vat = round2_val(1) [OF wm, unfolded this]
  have vv: "scaled_val v = (if draft_categorised items
          then of_int (sum_list (map kobo_or_zero (lineTaxKobo items))) / 100
          else of_int (round_away (100 * (scaled_val s * (3 / 40)))) / 100)"
    using vat by (simp add: v_def foldl_kobo)
  have out: "draft_vat items = Some v" "draft_total items = Some t"
    using Some by (simp_all add: draft_vat_def draft_total_def v_def t_def)
  have ready: "list_all (\<lambda>l. lineAmount l \<noteq> None) items"
    using sum(1) unfolding list_all_iff set_map by force
  have sub: "scaled_val s =
      of_int (round_away (100 * sum_list (map (scaled_val \<circ> the \<circ> lineAmount) items))) / 100"
    using round2_val(1) [OF sum(2)] by (simp add: e(3) sum(3))
  show ?thesis
    unfolding Some option.case
    by (rule exI [of _ v], rule exI [of _ t])
      (use e(1) ready sub vv t out Some in \<open>simp add: draftTotals_def\<close>)
qed

end
