(* ===== verification/Draft_Filing.thy ===== *)
theory Draft_Filing
  imports Draft_Totals
begin

text \<open>
  The rest of \<open>lib/invoiceDraft.ts\<close>: prefills, buyer requirement, the body of
  \<open>POST /v1/invoices\<close>, the gate, and the filing round trips with their re-entrancy flag.

  A body is the ordered list of its keys, as \<open>JSON.stringify\<close> writes it. \<open>create\<close> and \<open>supply\<close> are
  code outside the library: a run of \<open>fileDraftInvoice\<close> is cut at its \<open>await\<close> into the part
  before the request and the part after the answer, and the answers are events of the environment.
\<close>

subsection \<open>Prefills\<close>

definition SUPPLIER_KEY_OF :: "(string \<times> string) list" where
  "SUPPLIER_KEY_OF = [
    (''email'', ''supplier_email''), (''telephone'', ''supplier_telephone''),
    (''street'', ''supplier_street''), (''city'', ''supplier_city''),
    (''postal_zone'', ''supplier_postal_zone''), (''country'', ''supplier_country''),
    (''state'', ''supplier_state''), (''lga'', ''supplier_lga'')]"

definition put_field :: "string \<Rightarrow> string \<Rightarrow> draft \<Rightarrow> draft" where
  "put_field k v d = d\<lparr>dr_field := (dr_field d)(k := v)\<rparr>"

definition withSupplierDefaults :: "draft \<Rightarrow> (string \<Rightarrow> string option) \<Rightarrow> draft" where
  "withSupplierDefaults draft entity =
    foldl (\<lambda>out (fld, key).
        case entity fld of
          None \<Rightarrow> out
        | Some value \<Rightarrow>
            if dr_field out key = '''' \<and> value \<noteq> '''' then put_field key value out else out)
      draft SUPPLIER_KEY_OF"

definition BUYER_KEY_OF :: "(string \<times> string) list" where
  "BUYER_KEY_OF = [
    (''buyer'', ''name''), (''invoice_kind'', ''buyer_type''), (''buyer_email'', ''email''),
    (''buyer_telephone'', ''telephone''), (''buyer_street'', ''street''), (''buyer_city'', ''city''),
    (''buyer_postal_zone'', ''postal_zone''), (''buyer_country'', ''country''),
    (''buyer_state'', ''state''), (''buyer_lga'', ''lga'')]"

type_synonym buyer_fill = "(string \<times> string) list"

definition applyBuyerRecord ::
  "draft \<Rightarrow> (string \<Rightarrow> string option) option \<Rightarrow> buyer_fill \<Rightarrow> draft \<times> buyer_fill"
where
  "applyBuyerRecord draft record lastFill =
    (case record of
       None \<Rightarrow>
         (foldl (\<lambda>out (key, _).
             case map_of lastFill key of
               None \<Rightarrow> out
             | Some v \<Rightarrow> if dr_field out key = v then put_field key '''' out else out)
           draft BUYER_KEY_OF, [])
     | Some rec \<Rightarrow>
         foldl (\<lambda>(out, fill) (key, col).
             let value = (case rec col of None \<Rightarrow> '''' | Some v \<Rightarrow> v)
             in (put_field key value out, al_set key value fill))
           (draft, []) BUYER_KEY_OF)"

datatype requirement_level = Required | Optional | Choose

definition BUYER_REQUIRED_DRAFT_KEYS :: "string list" where
  "BUYER_REQUIRED_DRAFT_KEYS = [
    ''buyerTin'', ''buyer'', ''buyer_email'', ''buyer_street'', ''buyer_city'',
    ''buyer_postal_zone'', ''buyer_country'', ''buyer_state'', ''buyer_lga'']"

definition BUYER_TYPE_NOTE :: "requirement_level \<Rightarrow> string" where
  "BUYER_TYPE_NOTE l = (case l of
      Choose \<Rightarrow> ''Choose the buyer type. Buyer details are required for B2B and B2G, optional for B2C.''
    | Required \<Rightarrow> ''Buyer TIN, name, email and address are required for a B2B or B2G invoice.''
    | Optional \<Rightarrow> ''Buyer details are optional for a B2C invoice.'')"

definition buyerRequirement :: "string \<Rightarrow> requirement_level \<times> string list" where
  "buyerRequirement kind =
    (if kind = ''B2B'' \<or> kind = ''B2G'' then (Required, BUYER_REQUIRED_DRAFT_KEYS)
     else (if kind = ''B2C'' then Optional else Choose, []))"

subsection \<open>The request body\<close>

datatype body_value =
    Text "string option"
  | Lines "(string \<times> string option) list list"

type_synonym body = "(string \<times> body_value) list"

record filing_entity =
  fe_id :: string
  fe_name :: string
  fe_tin :: "string option"

definition create_line :: "draft_line \<Rightarrow> scaled option \<Rightarrow> string option \<Rightarrow> (string \<times> string option) list" where
  "create_line item amount tax = [
    (''description'', nullIfBlank (li_desc item)),
    (''quantity'', Some (li_qty item)),
    (''unit_price'', Some (li_price item)),
    (''line_total'', map_option (\<lambda>a. renderScaled (round2 a)) amount),
    (''line_tax'', tax),
    (''tax_category'', nullIfBlank (li_tax_category item)),
    (''hsn_code'', nullIfBlank (li_hsn_code item)),
    (''isic_code'', nullIfBlank (li_isic_code item)),
    (''product_category'', nullIfBlank (li_product_category item)),
    (''service_category'', nullIfBlank (li_service_category item)),
    (''sellers_item_identification'', nullIfBlank (li_sellers_item_identification item)),
    (''price_unit'', nullIfBlank (li_price_unit item)),
    (''tax_percent'', nullIfBlank (li_tax_percent item)),
    (''base_quantity'', Some ''1'')]"

definition NRS_DRAFT_KEYS :: "string list" where
  "NRS_DRAFT_KEYS = [''payment_status'', ''supplier_email'', ''supplier_telephone'', ''supplier_street'',
    ''supplier_city'', ''supplier_postal_zone'', ''supplier_country'', ''supplier_state'', ''supplier_lga'',
    ''buyer_email'', ''buyer_telephone'', ''buyer_street'', ''buyer_city'', ''buyer_postal_zone'',
    ''buyer_country'', ''buyer_state'', ''buyer_lga'']"

definition draftToCreateRequest :: "draft \<Rightarrow> filing_entity \<Rightarrow> string option \<Rightarrow> body" where
  "draftToCreateRequest draft entity sourceDocumentId =
    (let f = dr_field draft;
         items = dr_items draft;
         totals = draftTotals items;
         lineItems = map (\<lambda>((item, amount), tax). create_line item amount tax)
           (zip (zip items (map lineAmount items)) (draftLineTaxes items))
     in [(''entity_id'', Text (Some (fe_id entity))),
         (''invoice_number'', Text (Some (f ''number''))),
         (''issue_date'', Text (if f ''date'' = '''' then None else Some (f ''date'' @ ''T00:00:00Z''))),
         (''supplier_tin'', Text (fe_tin entity)),
         (''supplier_name'', Text (Some (fe_name entity))),
         (''buyer_tin'', Text (nullIfBlank (f ''buyerTin''))),
         (''buyer_name'', Text (nullIfBlank (f ''buyer''))),
         (''currency'', Text (nullIfBlank (f ''currency''))),
         (''subtotal'', Text (dt_subtotal totals)),
         (''vat'', Text (dt_vat totals)),
         (''total'', Text (dt_total totals)),
         (''line_items'', Lines lineItems)]
        @ (case sourceDocumentId of None \<Rightarrow> []
             | Some d \<Rightarrow> [(''source_document_id'', Text (Some d))])
        @ [(''invoice_kind'', Text (nullIfBlank (f ''invoice_kind''))),
           (''tax_currency_code'', Text (nullIfBlank (f ''tax_currency_code''))),
           (''due_date'', Text (dateOrNull (f ''due_date''))),
           (''issue_time'', Text (nullIfBlank (f ''issue_time''))),
           (''tax_point_date'', Text (dateOrNull (f ''tax_point_date'')))]
        @ map (\<lambda>k. (k, Text (nullIfBlank (f k)))) NRS_DRAFT_KEYS)"

definition ENTITY_REQUIRED_REASON :: string where
  "ENTITY_REQUIRED_REASON = ''Filing needs a linked entity''"

text \<open>\<^const>\<open>None\<close> is \<open>{ canFile: true }\<close>, \<^const>\<open>Some\<close> the reason of a refusal.\<close>

definition fileDraftGate :: "draft \<Rightarrow> filing_entity option \<Rightarrow> string option" where
  "fileDraftGate draft entity =
    (if entity = None then Some ENTITY_REQUIRED_REASON
     else if dr_field draft ''number'' = '''' then Some ''Invoice number is required''
     else case nrsDateError ''due_date'' (dr_field draft ''due_date'') of
       Some e \<Rightarrow> Some e
     | None \<Rightarrow> nrsDateError ''tax_point_date'' (dr_field draft ''tax_point_date''))"

subsection \<open>The filing round trip\<close>

text \<open>What an observer sees of \<open>fileDraftInvoice\<close>, in order.\<close>

datatype ('req, 'err) observation =
    OnError "'err option"
  | OnPending bool
  | Request 'req
  | OnCreated string

record ('req, 'err) filing =
  fl_inFlight :: bool
  fl_open :: nat
  fl_log :: "('req, 'err) observation list"

datatype ('req, 'err) filing_event =
    Click 'req
  | Answer "'err + string"

definition filing_start :: "('req, 'err) filing" where
  "filing_start = \<lparr>fl_inFlight = False, fl_open = 0, fl_log = []\<rparr>"

text \<open>The synchronous part up to the request, and the part after its answer. \<open>toApiError\<close> has been
  applied to the error of an answer.\<close>

definition file_click :: "'req \<Rightarrow> ('req, 'err) filing \<Rightarrow> ('req, 'err) filing" where
  "file_click req s =
    (if fl_inFlight s then s
     else s\<lparr>fl_inFlight := True, fl_open := fl_open s + 1,
            fl_log := fl_log s @ [OnError None, OnPending True, Request req]\<rparr>)"

definition file_answer :: "'err + string \<Rightarrow> ('req, 'err) filing \<Rightarrow> ('req, 'err) filing" where
  "file_answer r s =
    s\<lparr>fl_inFlight := False, fl_open := fl_open s - 1,
      fl_log := fl_log s @ [case r of Inl e \<Rightarrow> OnError (Some e) | Inr invoiceId \<Rightarrow> OnCreated invoiceId,
                            OnPending False]\<rparr>"

text \<open>An answer can only arrive to a request that is open.\<close>

fun filing_step :: "('req, 'err) filing \<Rightarrow> ('req, 'err) filing_event \<Rightarrow> ('req, 'err) filing" where
  "filing_step s (Click req) = file_click req s"
| "filing_step s (Answer r) = (if fl_open s = 0 then s else file_answer r s)"

definition fileDraftInvoice ::
  "draft \<Rightarrow> filing_entity \<Rightarrow> string option \<Rightarrow> (body, 'err) filing \<Rightarrow> (body, 'err) filing"
where
  "fileDraftInvoice draft entity sourceDocumentId =
     file_click (draftToCreateRequest draft entity sourceDocumentId)"

definition fileSuppliedNumber ::
  "string \<Rightarrow> string \<Rightarrow> string \<Rightarrow> ((string \<times> string) list, 'err) filing \<Rightarrow> ((string \<times> string) list, 'err) filing"
where
  "fileSuppliedNumber invoiceNumber entityId documentId =
     file_click [(''entity_id'', entityId), (''document_id'', documentId), (''invoice_number'', invoiceNumber)]"

subsection \<open>At most one request is open\<close>

text \<open>Everything observed so far pairs up: each request is followed by its outcome and by
  \<open>OnPending False\<close> before the next one starts, and only the last may still be open.\<close>

inductive filed_log :: "bool \<Rightarrow> ('req, 'err) observation list \<Rightarrow> bool" where
  idle: "filed_log False []"
| opened: "filed_log False l \<Longrightarrow> filed_log True (l @ [OnError None, OnPending True, Request req])"
| created: "filed_log True l \<Longrightarrow> filed_log False (l @ [OnCreated i, OnPending False])"
| failed: "filed_log True l \<Longrightarrow> filed_log False (l @ [OnError (Some e), OnPending False])"

definition filing_ok :: "('req, 'err) filing \<Rightarrow> bool" where
  "filing_ok s \<longleftrightarrow> fl_open s = (if fl_inFlight s then 1 else 0) \<and> filed_log (fl_inFlight s) (fl_log s)"

interpretation filing_machine: machine filing_start filing_step filing_ok
proof
  show "filing_ok filing_start" by (simp add: filing_ok_def filing_start_def idle)
next
  fix s :: "('a, 'b) filing" and e
  assume "filing_ok s"
  then show "filing_ok (filing_step s e)"
    by (cases e) (auto simp: filing_ok_def file_click_def file_answer_def
        intro: filed_log.intros split: sum.splits)
qed

fun is_request :: "('req, 'err) observation \<Rightarrow> bool" where
  "is_request (Request _) = True"
| "is_request _ = False"

fun is_outcome :: "('req, 'err) observation \<Rightarrow> bool" where
  "is_outcome (OnCreated _) = True"
| "is_outcome (OnError e) = (e \<noteq> None)"
| "is_outcome _ = False"

text \<open>How many observations of each kind a log of the machine holds.\<close>

lemma filed_log_counts:
  "filed_log b l \<Longrightarrow>
   length (filter is_request l) =
     length (filter is_outcome l)
       + (if b then 1 else 0)"
  by (induction rule: filed_log.induct) simp_all

text \<open>Filing is single-flight. Whatever the clicks and the answers, at most one request is open,
  the flag is up exactly while one is, the requests made outnumber the outcomes reported by exactly
  the open one, and a success is never reported before the request was made and answered (the log is
  a sequence of complete round trips, the last one possibly open).\<close>

theorem fileDraftInvoice_single_flight:
  fixes events :: "('req, 'err) filing_event list"
  defines "s \<equiv> foldl filing_step filing_start events"
  shows "fl_open s = (if fl_inFlight s then 1 else 0) \<and> filed_log (fl_inFlight s) (fl_log s) \<and>
    length (filter is_request (fl_log s)) =
      length (filter is_outcome (fl_log s))
        + fl_open s"
  using filing_machine.good_run [of events] filed_log_counts [of "fl_inFlight s" "fl_log s"]
  by (simp add: s_def filing_ok_def)

subsection \<open>The prefills\<close>

lemma put_field_simps [simp]:
  "dr_field (put_field k v d) k' = (if k' = k then v else dr_field d k')"
  "dr_items (put_field k v d) = dr_items d"
  by (simp_all add: put_field_def)

text \<open>A draft is its fields and its lines.\<close>

lemma draft_eqI: "(\<And>k. dr_field d k = dr_field e k) \<Longrightarrow> dr_items d = dr_items e \<Longrightarrow> d = (e :: draft)"
  by (cases d; cases e) auto

lemma apply_record_loop:
  "distinct (map fst ks) \<Longrightarrow>
   (case foldl (\<lambda>(out, fill) (key, col).
             let value = (case rec col of None \<Rightarrow> '''' | Some v \<Rightarrow> v)
             in (put_field key value out, al_set key value fill)) (d, f) ks of
      (d', f') \<Rightarrow>
        dr_items d' = dr_items d \<and>
        (\<forall>k. dr_field d' k = (case map_of ks k of None \<Rightarrow> dr_field d k
              | Some col \<Rightarrow> (case rec col of None \<Rightarrow> '''' | Some v \<Rightarrow> v))) \<and>
        (\<forall>k. map_of f' k = (case map_of ks k of None \<Rightarrow> map_of f k
              | Some col \<Rightarrow> Some (case rec col of None \<Rightarrow> '''' | Some v \<Rightarrow> v))))"
proof (induction ks arbitrary: d f)
  case (Cons kc ks)
  obtain key col where kc: "kc = (key, col)" by (cases kc)
  have "map_of ks key = None" using Cons.prems by (simp add: kc map_of_eq_None_iff)
  with Cons.IH [of "put_field key (case rec col of None \<Rightarrow> '''' | Some v \<Rightarrow> v) d"
      "al_set key (case rec col of None \<Rightarrow> '''' | Some v \<Rightarrow> v) f"] Cons.prems
  show ?case by (auto simp: kc Let_def split: prod.splits option.splits)
qed simp

lemma clear_record_loop:
  "distinct (map fst ks) \<Longrightarrow>
   dr_items (foldl (\<lambda>out (key, _ :: string). case map_of lf key of None \<Rightarrow> out
       | Some v \<Rightarrow> if dr_field out key = v then put_field key '''' out else out) d ks) = dr_items d \<and>
   dr_field (foldl (\<lambda>out (key, _). case map_of lf key of None \<Rightarrow> out
       | Some v \<Rightarrow> if dr_field out key = v then put_field key '''' out else out) d ks) k =
     (if k \<in> fst ` set ks \<and> map_of lf k = Some (dr_field d k) then '''' else dr_field d k)"
proof (induction ks arbitrary: d)
  case (Cons kc ks)
  obtain key col where kc: "kc = (key, col)" by (cases kc)
  have "key \<notin> fst ` set ks" using Cons.prems by (simp add: kc)
  with Cons show ?case by (auto simp: kc split: option.splits)
qed simp

lemma distinct_BUYER_KEY_OF: "distinct (map fst BUYER_KEY_OF)"
  by code_simp

lemma buyerTin_not_buyer_key: "''buyerTin'' \<notin> fst ` set BUYER_KEY_OF"
  by code_simp

text \<open>Choosing a buyer and then none. Choosing a record sets exactly the ten buyer keys;
  clearing it afterwards with the fill that choice returned blanks exactly those of the ten keys
  that still hold what was filled in, so an edit made in between survives; the buyer TIN, every
  other key and the lines are never touched.\<close>

theorem applyBuyerRecord_undo:
  fixes d edited :: draft and rec :: "string \<Rightarrow> string option" and lf :: buyer_fill
  defines "filled \<equiv> fst (applyBuyerRecord d (Some rec) lf)"
    and "fill \<equiv> snd (applyBuyerRecord d (Some rec) lf)"
  defines "cleared \<equiv> fst (applyBuyerRecord edited None fill)"
  shows "dr_field filled k =
      (case map_of BUYER_KEY_OF k of None \<Rightarrow> dr_field d k
       | Some col \<Rightarrow> (case rec col of None \<Rightarrow> '''' | Some v \<Rightarrow> v)) \<and>
    dr_items filled = dr_items d \<and>
    dr_field cleared k =
      (if k \<in> fst ` set BUYER_KEY_OF \<and> dr_field edited k = dr_field filled k then ''''
       else dr_field edited k) \<and>
    dr_items cleared = dr_items edited \<and>
    dr_field filled ''buyerTin'' = dr_field d ''buyerTin'' \<and>
    dr_field cleared ''buyerTin'' = dr_field edited ''buyerTin''"
proof -
  have F: "dr_items filled = dr_items d"
    "\<And>k. dr_field filled k = (case map_of BUYER_KEY_OF k of None \<Rightarrow> dr_field d k
       | Some col \<Rightarrow> (case rec col of None \<Rightarrow> '''' | Some v \<Rightarrow> v))"
    "\<And>k. map_of fill k = (case map_of BUYER_KEY_OF k of None \<Rightarrow> None
       | Some col \<Rightarrow> Some (case rec col of None \<Rightarrow> '''' | Some v \<Rightarrow> v))"
    using apply_record_loop [OF distinct_BUYER_KEY_OF, where rec = rec and d = d and f = "[]"]
    by (auto simp: filled_def fill_def applyBuyerRecord_def split: prod.splits option.splits)
  have C: "dr_items cleared = dr_items edited"
    "\<And>k. dr_field cleared k =
       (if k \<in> fst ` set BUYER_KEY_OF \<and> map_of fill k = Some (dr_field edited k) then ''''
        else dr_field edited k)"
    using clear_record_loop [OF distinct_BUYER_KEY_OF, where lf = fill and d = edited]
    by (simp_all add: cleared_def applyBuyerRecord_def)
  have K: "k \<in> fst ` set BUYER_KEY_OF \<longleftrightarrow> map_of BUYER_KEY_OF k \<noteq> None" for k
    by (metis map_of_eq_None_iff)
  have "map_of BUYER_KEY_OF ''buyerTin'' = None" using K buyerTin_not_buyer_key by blast
  then show ?thesis
    using F C K buyerTin_not_buyer_key by (auto split: option.splits)
qed

end
