(* ===== verification/Line_Items.thy ===== *)
theory Line_Items
  imports Decimals Invoice_Fields
begin

text \<open>
  The line-item layer of a reviewed document (\<open>lib/lineItems.ts\<close>): field names, grouping of the
  read fields into rows, arithmetic checks, row edits and the body that is posted. The cells of a
  row are a function of the wire role, of which the code only holds the roles of
  \<^const>\<open>LINE_WIRE_ROLES\<close>. Line numbers are JavaScript numbers; they are natural numbers here,
  which agrees with them below 2 to the 53.
\<close>

record region =
  rg_page :: int
  rg_x0 :: rat
  rg_y0 :: rat
  rg_x1 :: rat
  rg_y1 :: rat

datatype reason = Clean | Unreadable | Ambiguous | Inconsistent | Missing | Rule_Break

record candidate =
  cd_value :: "string option"
  cd_region :: "region option"

datatype correction_method = By_Typing | By_Choosing | By_Pointing | By_Undoing

record corrected =
  cr_method :: correction_method
  cr_was :: "string option"
  cr_where :: "string option"

record rule_break =
  rk_key :: string
  rk_message :: string

record field_state =
  fs_name :: string
  fs_value :: "string option"
  fs_region :: "region option"
  fs_reason :: reason
  fs_alternatives :: "candidate list"
  fs_corrected :: "corrected option"
  fs_rules :: "rule_break list"

definition LINE_ROLES :: "string list" where
  "LINE_ROLES = [''description'', ''quantity'', ''unit_price'', ''line_total'']"

record line_cell =
  lc_name :: "string option"
  lc_value :: string
  lc_region :: "region option"
  lc_reason :: reason
  lc_alternatives :: "candidate list"

record line_row =
  lr_key :: string
  lr_cells :: "string \<Rightarrow> line_cell"

datatype row_arithmetic = Ok | Flagged | Unchecked

record line_sum_state =
  ls_sum :: string
  ls_printed :: "string option"
  ls_agrees :: "bool option"

type_synonym line_input = "(string \<times> string option) list"

subsection \<open>Field names\<close>

definition line_open :: string where "line_open = ''line_items[''"
definition line_close :: string where "line_close = ''].''"

definition lineFieldName :: "nat \<Rightarrow> string \<Rightarrow> string" where
  "lineFieldName index role = line_open @ show_nat index @ line_close @ role"

text \<open>\<open>LINE_FIELD_RE\<close>, anchored at both ends.\<close>

definition LINE_FIELD_RE :: "string \<Rightarrow> (string \<times> string) option" where
  "LINE_FIELD_RE name =
    (if \<not> starts_with line_open name then None
     else let (m1, r1) = span is_digit (drop (length line_open) name) in
       if m1 = [] \<or> hd m1 = CHR ''0'' \<or> \<not> starts_with line_close r1 then None
       else let m2 = drop (length line_close) r1 in
         if m2 \<in> set LINE_WIRE_ROLES then Some (m1, m2) else None)"

definition parseLineFieldName :: "string \<Rightarrow> (nat \<times> string) option" where
  "parseLineFieldName name = (case LINE_FIELD_RE name of
      None \<Rightarrow> None | Some (m1, m2) \<Rightarrow> Some (digits_val m1, m2))"

subsection \<open>Grouping\<close>

definition blankCell :: "string option \<Rightarrow> line_cell" where
  "blankCell name =
    \<lparr>lc_name = name, lc_value = '''', lc_region = None, lc_reason = Clean, lc_alternatives = []\<rparr>"

definition blankCells :: "(string \<Rightarrow> string option) \<Rightarrow> string \<Rightarrow> line_cell" where
  "blankCells nameOf = (\<lambda>role. blankCell (nameOf role))"

definition cell_of :: "field_state \<Rightarrow> line_cell" where
  "cell_of f =
    \<lparr>lc_name = Some (fs_name f),
     lc_value = (case fs_value f of None \<Rightarrow> '''' | Some v \<Rightarrow> v),
     lc_region = fs_region f, lc_reason = fs_reason f, lc_alternatives = fs_alternatives f\<rparr>"

definition add_field :: "(nat \<times> line_row) list \<Rightarrow> field_state \<Rightarrow> (nat \<times> line_row) list" where
  "add_field byIndex f = (case parseLineFieldName (fs_name f) of
      None \<Rightarrow> byIndex
    | Some (index, role) \<Rightarrow>
        (let row = (case map_of byIndex index of
               Some row \<Rightarrow> row
             | None \<Rightarrow> \<lparr>lr_key = ''i'' @ show_nat index,
                        lr_cells = blankCells (\<lambda>role. Some (lineFieldName index role))\<rparr>)
         in al_set index (row\<lparr>lr_cells := (lr_cells row)(role := cell_of f)\<rparr>) byIndex))"

definition linesFromFields :: "field_state list \<Rightarrow> line_row list" where
  "linesFromFields fs =
    (let byIndex = foldl add_field [] fs
     in map (\<lambda>index. the (map_of byIndex index)) (sort (map fst byIndex)))"

definition cellCandidates :: "line_cell \<Rightarrow> candidate list option" where
  "cellCandidates cell =
    (if lc_reason cell = Ambiguous \<and> lc_alternatives cell \<noteq> []
     then Some (\<lparr>cd_value = Some (lc_value cell), cd_region = lc_region cell\<rparr> # lc_alternatives cell)
     else None)"

subsection \<open>Arithmetic\<close>

definition rowArithmetic :: "line_row \<Rightarrow> row_arithmetic" where
  "rowArithmetic row =
    (case (parseScaled (lc_value (lr_cells row ''quantity'')),
           parseScaled (lc_value (lr_cells row ''unit_price'')),
           parseScaled (lc_value (lr_cells row ''line_total''))) of
       (Some quantity, Some unitPrice, Some lineTotal) \<Rightarrow>
         if exceedsTolerance (subScaled (mulScaled quantity unitPrice) lineTotal) then Flagged else Ok
     | _ \<Rightarrow> Unchecked)"

fun line_total_loop :: "scaled \<Rightarrow> bool \<Rightarrow> line_row list \<Rightarrow> scaled \<times> bool" where
  "line_total_loop acc any [] = (acc, any)"
| "line_total_loop acc any (row # rows) =
    (case parseScaled (lc_value (lr_cells row ''line_total'')) of
       None \<Rightarrow> line_total_loop acc any rows
     | Some lt \<Rightarrow> line_total_loop (addScaled acc lt) True rows)"

definition lineSumState :: "line_row list \<Rightarrow> string option \<Rightarrow> line_sum_state option" where
  "lineSumState rows printedSubtotal =
    (let (acc, any) = line_total_loop (Scaled 0 0) False rows in
     if \<not> any then None
     else case Option.bind printedSubtotal parseScaled of
       None \<Rightarrow> Some \<lparr>ls_sum = renderScaled acc, ls_printed = None, ls_agrees = None\<rparr>
     | Some printed \<Rightarrow>
         Some \<lparr>ls_sum = renderScaled acc, ls_printed = Some (renderScaled printed),
               ls_agrees = Some (\<not> exceedsTolerance (subScaled acc printed))\<rparr>)"

subsection \<open>Row edits\<close>

definition remapRoles :: "string \<Rightarrow> string \<Rightarrow> line_row list \<Rightarrow> line_row list" where
  "remapRoles frm to rows =
    map (\<lambda>row. row\<lparr>lr_cells := (lr_cells row)(frm := lr_cells row to, to := lr_cells row frm)\<rparr>) rows"

definition new_key :: "nat \<Rightarrow> string" where
  "new_key n = ''n'' @ show_nat n"

lemma new_key_inject [simp]: "new_key m = new_key n \<longleftrightarrow> m = n"
  by (simp add: new_key_def)

function fresh_from :: "string list \<Rightarrow> nat \<Rightarrow> nat" where
  "fresh_from used n = (if new_key n \<in> set used then fresh_from used (n + 1) else n)"
  by pat_completeness auto
termination
proof (relation "measure (\<lambda>(used, n). card {m. n \<le> m \<and> new_key m \<in> set used})")
  fix used n
  assume used: "new_key n \<in> set used"
  have "finite {m. n \<le> m \<and> new_key m \<in> set used}"
    by (rule finite_subset [of _ "new_key -` set used"]) (auto intro: finite_vimageI simp: inj_def)
  moreover have "{m. n + 1 \<le> m \<and> new_key m \<in> set used} \<subset> {m. n \<le> m \<and> new_key m \<in> set used}"
    using used by (auto simp: psubset_eq Suc_le_eq)
  ultimately show "((used, n + 1), used, n) \<in> measure (\<lambda>(used, n). card {m. n \<le> m \<and> new_key m \<in> set used})"
    by (simp add: psubset_card_mono)
qed simp

declare fresh_from.simps [simp del, loop_simps]

definition freshKey :: "line_row list \<Rightarrow> string" where
  "freshKey rows = new_key (fresh_from (map lr_key rows) 1)"

definition addRow :: "line_row list \<Rightarrow> line_row list" where
  "addRow rows = rows @ [\<lparr>lr_key = freshKey rows, lr_cells = blankCells (\<lambda>_. None)\<rparr>]"

definition removeRow :: "line_row list \<Rightarrow> int \<Rightarrow> line_row list" where
  "removeRow rows pos =
    (if pos < 0 \<or> pos \<ge> int (length rows) then rows else remove_at (nat pos) rows)"

subsection \<open>The body\<close>

definition postValue :: "line_cell \<Rightarrow> string option" where
  "postValue cell = (if trim (lc_value cell) = '''' then None else Some (lc_value cell))"

definition post_line :: "line_row \<Rightarrow> line_input" where
  "post_line row = map (\<lambda>role. (role, postValue (lr_cells row role))) LINE_WIRE_ROLES"

definition linesToPost :: "line_row list \<Rightarrow> line_input list" where
  "linesToPost rows = filter (\<lambda>line. list_ex (\<lambda>(_, v). v \<noteq> None) line) (map post_line rows)"

definition lineSetChanged :: "line_row list \<Rightarrow> line_row list \<Rightarrow> bool" where
  "lineSetChanged wireRows draftRows =
    (if length wireRows \<noteq> length draftRows then True
     else \<not> list_all (\<lambda>(wire, drft). list_all
            (\<lambda>role. postValue (lr_cells wire role) = postValue (lr_cells drft role)) LINE_WIRE_ROLES)
          (zip wireRows draftRows))"

subsection \<open>Names round trip\<close>

definition line_name_ok :: "nat \<times> string \<Rightarrow> bool" where
  "line_name_ok ir \<longleftrightarrow> 1 \<le> fst ir \<and> snd ir \<in> set LINE_WIRE_ROLES"

lemma is_digit_bracket [simp]: "\<not> is_digit CHR '']''"
  by (simp add: is_digit_def)

lemma LINE_FIELD_RE_name:
  assumes "list_all is_digit ds" "ds \<noteq> []" "hd ds \<noteq> CHR ''0''" "role \<in> set LINE_WIRE_ROLES"
  shows "LINE_FIELD_RE (line_open @ ds @ line_close @ role) = Some (ds, role)"
proof -
  have "span is_digit (ds @ line_close @ role) = (ds, line_close @ role)"
    using assms(1) by (rule span_append) (simp add: line_close_def)
  with assms show ?thesis by (simp add: LINE_FIELD_RE_def)
qed

lemma LINE_FIELD_RE_sound:
  assumes "LINE_FIELD_RE name = Some (ds, role)"
  shows "name = line_open @ ds @ line_close @ role \<and> list_all is_digit ds \<and> ds \<noteq> [] \<and>
    hd ds \<noteq> CHR ''0'' \<and> role \<in> set LINE_WIRE_ROLES"
proof -
  obtain t where t: "name = line_open @ t"
    using assms by (auto simp: LINE_FIELD_RE_def elim: starts_withE split: if_splits)
  obtain ds' r1 where sp: "span is_digit t = (ds', r1)" by fastforce
  have rest: "ds' = ds" "starts_with line_close r1" "ds \<noteq> []" "hd ds \<noteq> CHR ''0''"
    "role = drop (length line_close) r1" "role \<in> set LINE_WIRE_ROLES"
    using assms by (auto simp: LINE_FIELD_RE_def t sp Let_def split: if_splits)
  have "r1 = line_close @ role" using rest(2,5) by (auto elim: starts_withE)
  moreover have "t = ds @ r1" "list_all is_digit ds"
    using span_append_eq [OF sp] span_fst_all [OF sp] rest(1) by simp_all
  ultimately show ?thesis using rest(3,4,6) t by simp
qed

interpretation line_names: partial_codec line_name_ok "\<lambda>(i, r). lineFieldName i r" parseLineFieldName
proof
  fix x :: "nat \<times> string"
  assume x: "line_name_ok x"
  obtain i r where ir: "x = (i, r)" by (cases x)
  with x have "0 < i" "r \<in> set LINE_WIRE_ROLES" by (simp_all add: line_name_ok_def)
  then have "LINE_FIELD_RE (lineFieldName i r) = Some (show_nat i, r)"
    unfolding lineFieldName_def
    by (intro LINE_FIELD_RE_name) (simp_all add: show_nat_digits show_nat_lead)
  then show "parseLineFieldName (case x of (i, r) \<Rightarrow> lineFieldName i r) = Some x"
    by (simp add: ir parseLineFieldName_def)
qed

lemma parseLineFieldName_canonical:
  assumes "parseLineFieldName name = Some (i, r)"
  shows "name = lineFieldName i r \<and> line_name_ok (i, r)"
proof -
  obtain ds where "LINE_FIELD_RE name = Some (ds, r)" and i: "i = digits_val ds"
    using assms by (auto simp: parseLineFieldName_def split: option.splits)
  note ds = LINE_FIELD_RE_sound [OF this(1)]
  with i show ?thesis
    using show_nat_digits_val [of ds] by (simp add: lineFieldName_def line_name_ok_def)
qed

text \<open>The names of line fields read back. A name parses to a line number and a role exactly when
  it is the name of that line (numbered from one) and that extracted role; so different cells have
  different names.\<close>

theorem parseLineFieldName_iff:
  "parseLineFieldName name = Some (i, r) \<longleftrightarrow>
     name = lineFieldName i r \<and> 1 \<le> i \<and> r \<in> set LINE_WIRE_ROLES"
  using parseLineFieldName_canonical [of name i r] line_names.dec_enc [of "(i, r)"]
  by (auto simp: line_name_ok_def)

subsection \<open>Rows from fields\<close>

text \<open>The reference: one row per line number, in numeric order, each cell taken from the last field
  that names it.\<close>

definition line_numbers :: "field_state list \<Rightarrow> nat set" where
  "line_numbers fs = {i. \<exists>f \<in> set fs. \<exists>r. parseLineFieldName (fs_name f) = Some (i, r)}"

definition last_named :: "field_state list \<Rightarrow> nat \<Rightarrow> string \<Rightarrow> field_state option" where
  "last_named fs i r = find (\<lambda>f. parseLineFieldName (fs_name f) = Some (i, r)) (rev fs)"

definition row_for :: "field_state list \<Rightarrow> nat \<Rightarrow> line_row" where
  "row_for fs i = \<lparr>lr_key = ''i'' @ show_nat i,
     lr_cells = (\<lambda>r. case last_named fs i r of
        None \<Rightarrow> blankCell (Some (lineFieldName i r)) | Some f \<Rightarrow> cell_of f)\<rparr>"

lemma line_numbers_snoc:
  "line_numbers (fs @ [f]) = (case parseLineFieldName (fs_name f) of
      None \<Rightarrow> line_numbers fs | Some (i, r) \<Rightarrow> insert i (line_numbers fs))"
  by (auto simp: line_numbers_def split: option.splits)

lemma finite_line_numbers [simp]: "finite (line_numbers fs)"
  by (induction fs rule: rev_induct) (auto simp: line_numbers_snoc split: option.split, simp add: line_numbers_def)

lemma row_for_snoc:
  "parseLineFieldName (fs_name f) = Some (i, r) \<Longrightarrow>
   row_for (fs @ [f]) j =
     (if j = i then (row_for fs j)\<lparr>lr_cells := (lr_cells (row_for fs j))(r := cell_of f)\<rparr> else row_for fs j)"
  "parseLineFieldName (fs_name f) = None \<Longrightarrow> row_for (fs @ [f]) j = row_for fs j"
  by (auto simp: row_for_def last_named_def fun_eq_iff)

lemma row_for_new:
  "i \<notin> line_numbers fs \<Longrightarrow>
   row_for fs i = \<lparr>lr_key = ''i'' @ show_nat i, lr_cells = blankCells (\<lambda>r. Some (lineFieldName i r))\<rparr>"
proof -
  assume "i \<notin> line_numbers fs"
  then have "last_named fs i r = None" for r
    by (auto simp: last_named_def find_None_iff line_numbers_def)
  then show ?thesis by (simp add: row_for_def blankCells_def)
qed

lemma add_field_rows:
  "distinct (map fst (foldl add_field [] fs)) \<and>
   fst ` set (foldl add_field [] fs) = line_numbers fs \<and>
   (\<forall>i \<in> line_numbers fs. map_of (foldl add_field [] fs) i = Some (row_for fs i))"
proof (induction fs rule: rev_induct)
  case Nil
  show ?case by (simp add: line_numbers_def)
next
  case (snoc f fs)
  define m where "m = foldl add_field [] fs"
  show ?case
  proof (cases "parseLineFieldName (fs_name f)")
    case None
    with snoc show ?thesis by (simp add: add_field_def line_numbers_snoc row_for_snoc)
  next
    case (Some ir)
    then obtain i r where ir: "parseLineFieldName (fs_name f) = Some (i, r)" by (cases ir) auto
    have row: "(case map_of m i of Some row \<Rightarrow> row
             | None \<Rightarrow> \<lparr>lr_key = ''i'' @ show_nat i, lr_cells = blankCells (\<lambda>r. Some (lineFieldName i r))\<rparr>)
           = row_for fs i"
    proof (cases "i \<in> line_numbers fs")
      case True
      with snoc show ?thesis by (simp add: m_def)
    next
      case False
      with snoc have "map_of m i = None" by (simp add: map_of_eq_None_iff m_def)
      with False show ?thesis by (simp add: row_for_new)
    qed
    have m': "foldl add_field [] (fs @ [f]) =
        al_set i ((row_for fs i)\<lparr>lr_cells := (lr_cells (row_for fs i))(r := cell_of f)\<rparr>) m"
      by (simp add: add_field_def ir Let_def row flip: m_def)
    have old: "distinct (map fst m)" "fst ` set m = line_numbers fs"
      "\<And>j. j \<in> line_numbers fs \<Longrightarrow> map_of m j = Some (row_for fs j)"
      using snoc by (simp_all add: m_def)
    show ?thesis
      unfolding m' using old by (auto simp: line_numbers_snoc ir row_for_snoc distinct_al_set)
  qed
qed

lemma linesFromFields_rows:
  "linesFromFields fs = map (row_for fs) (sorted_list_of_set (line_numbers fs))"
proof -
  define m where "m = foldl add_field [] fs"
  have m: "distinct (map fst m)" "fst ` set m = line_numbers fs"
    "\<forall>i \<in> line_numbers fs. map_of m i = Some (row_for fs i)"
    using add_field_rows [of fs] by (simp_all add: m_def)
  have "sort (map fst m) = sorted_list_of_set (line_numbers fs)"
    using m(1,2) by (metis set_map sorted_list_of_set_sort_remdups distinct_remdups_id)
  with m(3) show ?thesis
    by (auto simp: linesFromFields_def simp flip: m_def)
qed

text \<open>C37: grouping the read fields. Whatever the order of the fields on the wire, the rows are the
  line numbers that occur, in numeric order and once each; a cell holds the last field read for it
  and is blank, under its own name, when there is none.\<close>

theorem linesFromFields_spec:
  "linesFromFields fs = map (row_for fs) (sorted_list_of_set (line_numbers fs))"
  by (rule linesFromFields_rows)

subsection \<open>Checks\<close>

lemma tolerance: "parseScaled LINE_TOLERANCE = Some (Scaled 1 2)"
  by code_simp

lemma exceedsTolerance_iff: "wf_scaled d \<Longrightarrow> exceedsTolerance d \<longleftrightarrow> 1 / 100 < \<bar>scaled_val d\<bar>"
  by (simp add: exceedsTolerance_def tolerance cmpScaled_val wf_absScaled absScaled_val)

text \<open>The arithmetic of a row. The check runs exactly when quantity, unit price and line total
  are all readable, and then flags the row exactly when quantity times price is more than 0.01 away
  from the line total, exactly computed (0.01 itself does not flag).\<close>

theorem rowArithmetic_spec:
  "(case (parseScaled (lc_value (lr_cells row ''quantity'')),
          parseScaled (lc_value (lr_cells row ''unit_price'')),
          parseScaled (lc_value (lr_cells row ''line_total''))) of
     (Some q, Some p, Some t) \<Rightarrow>
       rowArithmetic row =
         (if 1 / 100 < \<bar>scaled_val q * scaled_val p - scaled_val t\<bar> then Flagged else Ok)
   | _ \<Rightarrow> rowArithmetic row = Unchecked)"
  by (auto simp: rowArithmetic_def exceedsTolerance_iff wf_intros scaled_vals split: option.splits)

subsection \<open>Row edits\<close>

lemma fresh_from_new: "new_key (fresh_from used n) \<notin> set used"
proof (induction used n rule: fresh_from.induct)
  case (1 used n)
  then show ?case by (cases "new_key n \<in> set used") (simp_all add: fresh_from.simps [of used n])
qed

lemma fresh_from_first:
  "n \<le> m \<Longrightarrow> m < fresh_from used n \<Longrightarrow> new_key m \<in> set used"
proof (induction used n rule: fresh_from.induct)
  case (1 used n)
  show ?case
  proof (cases "new_key n \<in> set used")
    case True
    with 1 show ?thesis
      by (cases "m = n") (simp_all add: fresh_from.simps [of used n])
  qed (use 1 in \<open>simp add: fresh_from.simps [of used n]\<close>)
qed

datatype row_edit = AddRow | RemoveRow int | RemapRoles string string

fun edit_rows :: "line_row list \<Rightarrow> row_edit \<Rightarrow> line_row list" where
  "edit_rows rows AddRow = addRow rows"
| "edit_rows rows (RemoveRow i) = removeRow rows i"
| "edit_rows rows (RemapRoles f t) = remapRoles f t rows"

definition rows_ok :: "line_row list \<Rightarrow> bool" where
  "rows_ok rows \<longleftrightarrow> distinct (map lr_key rows)"

lemma rows_ok_linesFromFields: "rows_ok (linesFromFields fs)"
  by (simp add: rows_ok_def linesFromFields_rows row_for_def comp_def distinct_map inj_on_def)

lemma rows_ok_edit: "rows_ok rows \<Longrightarrow> rows_ok (edit_rows rows e)"
proof (cases e)
  case AddRow
  assume "rows_ok rows"
  then show ?thesis
    using fresh_from_new [of "map lr_key rows" 1]
    by (simp add: AddRow rows_ok_def addRow_def freshKey_def)
next
  case (RemoveRow i)
  assume "rows_ok rows"
  then show ?thesis
    by (simp add: RemoveRow rows_ok_def removeRow_def map_remove_at distinct_remove_at)
next
  case (RemapRoles f t)
  assume "rows_ok rows"
  then show ?thesis by (simp add: RemapRoles rows_ok_def remapRoles_def comp_def)
qed

interpretation row_editor: machine "linesFromFields fs" edit_rows rows_ok for fs
  by unfold_locales (simp_all add: rows_ok_linesFromFields rows_ok_edit)

text \<open>Row keys. From the rows of a document, any sequence of adding, removing and remapping
  rows keeps the keys distinct (the loop that looks for a fresh key ends, and with the smallest
  free number).\<close>

theorem row_keys_distinct:
  "distinct (map lr_key (foldl edit_rows (linesFromFields fs) edits))"
  using row_editor.good_run [of fs edits] by (simp add: rows_ok_def)

lemma remapRoles_involution: "remapRoles f t (remapRoles f t rows) = rows"
  by (induction rows) (auto simp: remapRoles_def fun_eq_iff)

lemma removeRow_addRow: "removeRow (addRow rows) (int (length rows)) = rows"
  by (simp add: removeRow_def addRow_def remove_at_def)

text \<open>The save gate agrees with the body. \<open>lineSetChanged\<close> is false exactly when the two
  grids have the same lines as they would be posted, role by role (blank cells counting as null);
  a save that is not offered would post the same body.\<close>

theorem lineSetChanged_iff:
  "(\<not> lineSetChanged wireRows draftRows \<longleftrightarrow> map post_line wireRows = map post_line draftRows) \<and>
   (lineSetChanged wireRows draftRows \<or> linesToPost wireRows = linesToPost draftRows)"
proof -
  have row: "list_all (\<lambda>role. postValue (lr_cells a role) = postValue (lr_cells b role)) LINE_WIRE_ROLES
      \<longleftrightarrow> post_line a = post_line b" for a b
    by (simp add: post_line_def list_all_iff)
  have "\<not> lineSetChanged wireRows draftRows \<longleftrightarrow> map post_line wireRows = map post_line draftRows"
    unfolding lineSetChanged_def row
    by (auto simp: list_eq_iff_nth_eq list_all_length)
  then show ?thesis by (auto simp: linesToPost_def)
qed

end
