(* ===== verification/Uri.thy ===== *)
theory Uri
  imports Prelude
begin

text \<open>
  The encoders of the platform the library calls: \<open>encodeURIComponent\<close>, \<open>decodeURIComponent\<close> and
  the serializer of \<open>URLSearchParams\<close>, on the UTF-8 bytes of a string, with the validity of UTF-8
  that \<open>decodeURIComponent\<close> checks, and the request a fetch wrapper hands to \<open>authedFetch\<close>.
\<close>

subsection \<open>UTF-8\<close>

definition byte :: "char \<Rightarrow> nat" where
  "byte c = of_char c"

definition is_cont :: "char \<Rightarrow> bool" where
  "is_cont c \<longleftrightarrow> 0x80 \<le> byte c \<and> byte c < 0xC0"

fun valid_utf8 :: "string \<Rightarrow> bool" where
  "valid_utf8 [] = True"
| "valid_utf8 (a # s) =
    (if byte a < 0x80 then valid_utf8 s
     else if byte a < 0xC2 then False
     else if byte a < 0xE0 then
       (case s of b # s1 \<Rightarrow> is_cont b \<and> valid_utf8 s1 | _ \<Rightarrow> False)
     else if byte a < 0xF0 then
       (case s of b # c # s2 \<Rightarrow> is_cont b \<and> is_cont c \<and> (byte a = 0xE0 \<longrightarrow> 0xA0 \<le> byte b)
            \<and> (byte a = 0xED \<longrightarrow> byte b < 0xA0) \<and> valid_utf8 s2 | _ \<Rightarrow> False)
     else if byte a < 0xF5 then
       (case s of b # c # d # s3 \<Rightarrow> is_cont b \<and> is_cont c \<and> is_cont d
            \<and> (byte a = 0xF0 \<longrightarrow> 0x90 \<le> byte b) \<and> (byte a = 0xF4 \<longrightarrow> byte b < 0x90) \<and> valid_utf8 s3
        | _ \<Rightarrow> False)
     else False)"

subsection \<open>Percent encoding\<close>

definition hex_digit :: "nat \<Rightarrow> char" where
  "hex_digit n = (if n < 10 then char_of (48 + n) else char_of (55 + n))"

definition hex_val :: "char \<Rightarrow> nat option" where
  "hex_val c = (if 48 \<le> byte c \<and> byte c \<le> 57 then Some (byte c - 48)
     else if 65 \<le> byte c \<and> byte c \<le> 70 then Some (byte c - 55)
     else if 97 \<le> byte c \<and> byte c \<le> 102 then Some (byte c - 87)
     else None)"

definition percent :: "char \<Rightarrow> string" where
  "percent c = [CHR ''%'', hex_digit (byte c div 16), hex_digit (byte c mod 16)]"

definition is_alnum :: "char \<Rightarrow> bool" where
  "is_alnum c \<longleftrightarrow> is_digit c \<or> 65 \<le> byte c \<and> byte c \<le> 90 \<or> 97 \<le> byte c \<and> byte c \<le> 122"

definition uri_unreserved :: "char \<Rightarrow> bool" where
  "uri_unreserved c \<longleftrightarrow> is_alnum c \<or> c \<in> set ''-_.!~*()'' \<or> byte c = 39"

definition encodeURIComponent :: "string \<Rightarrow> string" where
  "encodeURIComponent s = concat (map (\<lambda>c. if uri_unreserved c then [c] else percent c) s)"

definition form_encode :: "string \<Rightarrow> string" where
  "form_encode s = concat (map (\<lambda>c. if is_alnum c \<or> c \<in> set ''*-._'' then [c]
     else if c = CHR '' '' then ''+'' else percent c) s)"

fun percent_decode :: "string \<Rightarrow> string option" where
  "percent_decode [] = Some []"
| "percent_decode (c # s) =
    (if c = CHR ''%'' then
       (case s of h # l # r \<Rightarrow>
          (case (hex_val h, hex_val l) of
             (Some x, Some y) \<Rightarrow> map_option ((#) (char_of (16 * x + y))) (percent_decode r)
           | _ \<Rightarrow> None)
        | _ \<Rightarrow> None)
     else map_option ((#) c) (percent_decode s))"

definition decodeURIComponent :: "string \<Rightarrow> string option" where
  "decodeURIComponent s = (case percent_decode s of
      None \<Rightarrow> None | Some t \<Rightarrow> if valid_utf8 t then Some t else None)"

text \<open>\<open>URLSearchParams.prototype.toString\<close> of an ordered list of pairs.\<close>

definition search_params :: "(string \<times> string) list \<Rightarrow> string" where
  "search_params ps = join ''&'' (map (\<lambda>(k, v). form_encode k @ ''='' @ form_encode v) ps)"

text \<open>\<open>URLSearchParams\<close> read back: \<open>+\<close> is a space, an escape that is no escape stays as it is, and the
  bytes are decoded with the replacement character, as the encoding standard writes the decoder: an
  unexpected byte ends the character begun and is read again.\<close>

fun split_on :: "char \<Rightarrow> string \<Rightarrow> string list" where
  "split_on d [] = [[]]"
| "split_on d (c # s) =
    (if c = d then [] # split_on d s
     else (case split_on d s of w # ws \<Rightarrow> (c # w) # ws | [] \<Rightarrow> [[c]]))"

fun form_unescape :: "string \<Rightarrow> string" where
  "form_unescape [] = []"
| "form_unescape (c # s) =
    (if c = CHR ''+'' then CHR '' '' # form_unescape s
     else if c = CHR ''%'' then
       (case s of h # l # r \<Rightarrow>
          (case (hex_val h, hex_val l) of
             (Some x, Some y) \<Rightarrow> char_of (16 * x + y) # form_unescape r
           | _ \<Rightarrow> c # form_unescape s)
        | _ \<Rightarrow> c # form_unescape s)
     else c # form_unescape s)"

definition replacement :: string where
  "replacement = [char_of (0xEF :: nat), char_of (0xBF :: nat), char_of (0xBD :: nat)]"

text \<open>How many bytes must follow a first byte, and the bounds of the first of them.\<close>

definition needed :: "char \<Rightarrow> nat" where
  "needed a = (if byte a < 0xE0 then 1 else if byte a < 0xF0 then 2 else 3)"

definition second_lower :: "char \<Rightarrow> nat" where
  "second_lower a = (if byte a = 0xE0 then 0xA0 else if byte a = 0xF0 then 0x90 else 0x80)"

definition second_upper :: "char \<Rightarrow> nat" where
  "second_upper a = (if byte a = 0xED then 0x9F else if byte a = 0xF4 then 0x8F else 0xBF)"

fun follow :: "nat \<Rightarrow> nat \<Rightarrow> nat \<Rightarrow> string \<Rightarrow> string \<Rightarrow> string \<times> string" where
  "follow 0 lo hi p s = (p, s)"
| "follow (Suc n) lo hi p [] = (replacement, [])"
| "follow (Suc n) lo hi p (b # s) =
    (if lo \<le> byte b \<and> byte b \<le> hi then follow n 0x80 0xBF (p @ [b]) s else (replacement, b # s))"

lemma follow_shorter: "length (snd (follow n lo hi p s)) \<le> length s"
proof (induction n arbitrary: lo hi p s)
  case (Suc n)
  show ?case
  proof (cases s)
    case (Cons b t)
    then show ?thesis using Suc.IH [of "0x80" "0xBF" "p @ [b]" t] by simp
  qed simp
qed simp

function utf8_decode :: "string \<Rightarrow> string" where
  "utf8_decode [] = []"
| "utf8_decode (a # s) =
    (if byte a < 0x80 then a # utf8_decode s
     else if byte a < 0xC2 \<or> 0xF5 \<le> byte a then replacement @ utf8_decode s
     else fst (follow (needed a) (second_lower a) (second_upper a) [a] s) @
          utf8_decode (snd (follow (needed a) (second_lower a) (second_upper a) [a] s)))"
  by pat_completeness auto
termination
  by (relation "measure length") (auto simp: follow_shorter less_Suc_eq_le)

definition form_decode :: "string \<Rightarrow> string" where
  "form_decode s = utf8_decode (form_unescape s)"

definition search_pairs :: "string \<Rightarrow> (string \<times> string) list" where
  "search_pairs s =
    (let t = (case s of c # r \<Rightarrow> if c = CHR ''?'' then r else s | [] \<Rightarrow> []);
         cut = (\<lambda>w. (takeWhile (\<lambda>c. c \<noteq> CHR ''='') w, drop 1 (dropWhile (\<lambda>c. c \<noteq> CHR ''='') w)))
     in map (\<lambda>w. (form_decode (fst (cut w)), form_decode (snd (cut w))))
          (filter (\<lambda>w. w \<noteq> []) (split_on CHR ''&'' t)))"

definition search_get :: "string \<Rightarrow> string \<Rightarrow> string option" where
  "search_get s k = map_of (search_pairs s) k"

subsection \<open>Requests\<close>

text \<open>What a fetch wrapper passes to \<open>authedFetch\<close>; the type of the body is a parameter.\<close>

datatype http_method = GET | POST | PATCH | DELETE | PUT

record 'b request =
  rq_method :: http_method
  rq_url :: string
  rq_body :: "'b option"

definition request :: "http_method \<Rightarrow> string \<Rightarrow> 'b option \<Rightarrow> 'b request" where
  "request m u b = \<lparr>rq_method = m, rq_url = u, rq_body = b\<rparr>"

subsection \<open>Decoding undoes encoding\<close>

lemma byte_less: "byte c < 256"
  by (simp add: byte_def)

lemma hex_val_digit: "n < 16 \<Longrightarrow> hex_val (hex_digit n) = Some n"
  by (auto simp: hex_val_def hex_digit_def byte_def)

lemma percent_decode_percent: "percent_decode (percent c @ s) = map_option ((#) c) (percent_decode s)"
proof -
  have "byte c div 16 < 16" "byte c mod 16 < 16" using byte_less [of c] by simp_all
  moreover have "char_of (16 * (byte c div 16) + byte c mod 16) = c" by (simp add: byte_def)
  ultimately show ?thesis by (simp add: percent_def hex_val_digit)
qed

lemma percent_decode_encode: "percent_decode (encodeURIComponent s) = Some s"
proof (induction s)
  case (Cons c s)
  have "\<not> uri_unreserved CHR ''%''" by (simp add: uri_unreserved_def is_alnum_def is_digit_def byte_def)
  then have "percent_decode ((if uri_unreserved c then [c] else percent c) @ encodeURIComponent s) =
    map_option ((#) c) (percent_decode (encodeURIComponent s))"
    by (auto simp: percent_decode_percent)
  with Cons show ?case by (simp add: encodeURIComponent_def)
qed (simp add: encodeURIComponent_def)

interpretation uri_component: partial_codec valid_utf8 encodeURIComponent decodeURIComponent
  by unfold_locales (simp add: decodeURIComponent_def percent_decode_encode)

lemma percent_no_slash: "c \<in> set (percent d) \<Longrightarrow> c = CHR ''%'' \<or> (\<exists>n < 16. c = hex_digit n)"
proof -
  have "byte d div 16 < 16" "byte d mod 16 < 16" using byte_less [of d] by simp_all
  then show "c \<in> set (percent d) \<Longrightarrow> ?thesis" unfolding percent_def by (simp, blast)
qed

lemma hex_digit_alnum: "n < 16 \<Longrightarrow> is_alnum (hex_digit n)"
  by (auto simp: is_alnum_def hex_digit_def is_digit_def byte_def)

text \<open>An encoded component holds only unreserved characters and percent signs.\<close>

lemma set_encodeURIComponent: "c \<in> set (encodeURIComponent s) \<Longrightarrow> uri_unreserved c \<or> c = CHR ''%''"
  by (auto simp: encodeURIComponent_def uri_unreserved_def split: if_splits
      dest!: percent_no_slash hex_digit_alnum)

lemma slash_not_encoded: "CHR ''/'' \<notin> set (encodeURIComponent s)" "CHR ''?'' \<notin> set (encodeURIComponent s)"
    "CHR ''#'' \<notin> set (encodeURIComponent s)"
  using set_encodeURIComponent [of "CHR ''/''" s] set_encodeURIComponent [of "CHR ''?''" s]
    set_encodeURIComponent [of "CHR ''#''" s]
  by (auto simp: uri_unreserved_def is_alnum_def is_digit_def byte_def)

subsection \<open>Valid UTF-8 is a sequence of characters\<close>

definition utf8_char :: "string \<Rightarrow> bool" where
  "utf8_char c \<longleftrightarrow> c \<noteq> [] \<and> \<not> is_cont (hd c) \<and> list_all is_cont (tl c) \<and> valid_utf8 c"

lemma lead_byte:
  assumes "valid_utf8 (a # t)"
  shows "byte a < 0x80 \<or> 0xC2 \<le> byte a \<and> byte a < 0xE0 \<or> 0xE0 \<le> byte a \<and> byte a < 0xF0 \<or>
    0xF0 \<le> byte a \<and> byte a < 0xF5"
proof (rule ccontr)
  assume "\<not> ?thesis"
  then have "\<not> byte a < 0x80" "byte a < 0xC2 \<or> \<not> byte a < 0xF5" by linarith+
  then have "\<not> valid_utf8 (a # t)" by auto
  with assms show False by contradiction
qed

lemma utf8_induct [consumes 1, case_names Nil Char]:
  assumes "valid_utf8 s" "P []"
    and step: "\<And>c s. utf8_char c \<Longrightarrow> valid_utf8 s \<Longrightarrow> P s \<Longrightarrow> P (c @ s)"
  shows "P s"
  using assms(1)
proof (induction s rule: length_induct)
  case (1 s)
  have char: "P s" if "s = c @ r" "utf8_char c" "valid_utf8 r" for c r
    using that "1.IH" step [of c r] by (auto simp: utf8_char_def)
  show ?case
  proof (cases s)
    case Nil
    then show ?thesis using assms(2) by simp
  next
    case (Cons a t)
    note v = "1.prems" [unfolded Cons]
    consider "byte a < 0x80" | "0xC2 \<le> byte a" "byte a < 0xE0" | "0xE0 \<le> byte a" "byte a < 0xF0"
      | "0xF0 \<le> byte a" "byte a < 0xF5"
      using lead_byte [OF v] by blast
    then show ?thesis
    proof cases
      case 1
      then show ?thesis using v char [of "[a]" t] by (simp add: Cons utf8_char_def is_cont_def)
    next
      case 2
      then obtain b r where "t = b # r" "is_cont b" "valid_utf8 r"
        using v by (auto split: list.splits)
      then show ?thesis using 2 char [of "[a, b]" r] by (simp add: Cons utf8_char_def is_cont_def)
    next
      case 3
      then obtain b c r where t: "t = b # c # r" "is_cont b" "is_cont c" "valid_utf8 r"
        "byte a = 0xE0 \<longrightarrow> 0xA0 \<le> byte b" "byte a = 0xED \<longrightarrow> byte b < 0xA0"
        using v by (auto split: list.splits)
      then have "utf8_char [a, b, c]" using 3 by (auto simp: utf8_char_def is_cont_def)
      then show ?thesis using t char [of "[a, b, c]" r] by (simp add: Cons)
    next
      case 4
      then obtain b c d r where t: "t = b # c # d # r" "is_cont b" "is_cont c" "is_cont d" "valid_utf8 r"
        "byte a = 0xF0 \<longrightarrow> 0x90 \<le> byte b" "byte a = 0xF4 \<longrightarrow> byte b < 0x90"
        using v by (auto split: list.splits)
      then have "utf8_char [a, b, c, d]" using 4 by (auto simp: utf8_char_def is_cont_def)
      then show ?thesis using t char [of "[a, b, c, d]" r] by (simp add: Cons)
    qed
  qed
qed

lemma cont_valid_Nil: "list_all is_cont t \<Longrightarrow> valid_utf8 t \<Longrightarrow> t = []"
  by (cases t) (auto simp: is_cont_def split: if_splits)

lemma char_append:
  assumes "utf8_char c"
  shows "valid_utf8 (c @ x) = valid_utf8 x"
proof -
  obtain a t where c: "c = a # t" using assms by (cases c) (auto simp: utf8_char_def)
  have v: "valid_utf8 (a # t)" and cont: "list_all is_cont t" and a: "\<not> is_cont a"
    using assms by (simp_all add: utf8_char_def c del: valid_utf8.simps)
  consider "byte a < 0x80" | "0xC2 \<le> byte a" "byte a < 0xE0" | "0xE0 \<le> byte a" "byte a < 0xF0"
    | "0xF0 \<le> byte a" "byte a < 0xF5"
    using lead_byte [OF v] by blast
  then show ?thesis
  proof cases
    case 1
    then have "t = []" using v cont cont_valid_Nil by simp
    then show ?thesis using 1 by (simp add: c)
  next
    case 2
    then obtain b r where t: "t = b # r" "is_cont b" "valid_utf8 r" using v by (auto split: list.splits)
    then have "r = []" using cont cont_valid_Nil by simp
    then show ?thesis using 2 t by (simp add: c)
  next
    case 3
    then obtain b d r where t: "t = b # d # r" "is_cont b" "is_cont d" "valid_utf8 r"
      "byte a = 0xE0 \<longrightarrow> 0xA0 \<le> byte b" "byte a = 0xED \<longrightarrow> byte b < 0xA0"
      using v by (auto split: list.splits)
    then have "r = []" using cont cont_valid_Nil by simp
    then show ?thesis using 3 t by (simp add: c)
  next
    case 4
    then obtain b d e r where t: "t = b # d # e # r" "is_cont b" "is_cont d" "is_cont e" "valid_utf8 r"
      "byte a = 0xF0 \<longrightarrow> 0x90 \<le> byte b" "byte a = 0xF4 \<longrightarrow> byte b < 0x90"
      using v by (auto split: list.splits)
    then have "r = []" using cont cont_valid_Nil by simp
    then show ?thesis using 4 t by (simp add: c)
  qed
qed

lemma valid_utf8_append: "valid_utf8 s \<Longrightarrow> valid_utf8 (s @ t) = valid_utf8 t"
  by (induction rule: utf8_induct) (simp_all add: char_append)

lemma valid_utf8_concat: "list_all utf8_char cs \<Longrightarrow> valid_utf8 (concat cs)"
  by (induction cs) (simp_all add: char_append)

lemma valid_utf8_chars: "valid_utf8 s \<Longrightarrow> \<exists>cs. s = concat cs \<and> list_all utf8_char cs"
proof (induction rule: utf8_induct)
  case Nil
  show ?case by (intro exI [of _ "[]"]) simp
next
  case (Char c s)
  then obtain cs where "s = concat cs \<and> list_all utf8_char cs" by blast
  with Char show ?case by (intro exI [of _ "c # cs"]) simp
qed

text \<open>A byte that continues no character is the first of one.\<close>

lemma char_boundary:
  "list_all utf8_char cs \<Longrightarrow> e < length (concat cs) \<Longrightarrow> \<not> is_cont (concat cs ! e) \<Longrightarrow>
   \<exists>k < length cs. e = length (concat (take k cs))"
proof (induction cs arbitrary: e)
  case (Cons c cs)
  show ?case
  proof (cases "e < length c")
    case True
    have "e = 0"
    proof (rule ccontr)
      assume "e \<noteq> 0"
      then have "concat (c # cs) ! e = tl c ! (e - 1)" using True by (simp add: nth_append nth_tl)
      moreover have "tl c ! (e - 1) \<in> set (tl c)" using True \<open>e \<noteq> 0\<close> by simp
      ultimately show False using Cons.prems by (auto simp: utf8_char_def list_all_iff)
    qed
    then show ?thesis by (intro exI [of _ 0]) simp
  next
    case False
    then have "\<exists>k < length cs. e - length c = length (concat (take k cs))"
      using Cons by (intro Cons.IH) (auto simp: nth_append)
    then obtain k where "k < length cs" "e - length c = length (concat (take k cs))" by blast
    with False show ?thesis by (intro exI [of _ "Suc k"]) simp
  qed
qed simp

subsection \<open>Query strings read back\<close>

lemma split_on_none: "d \<notin> set s \<Longrightarrow> split_on d s = [s]"
  by (induction s) auto

lemma split_on_append: "d \<notin> set s \<Longrightarrow> split_on d (s @ d # t) = s # split_on d t"
  by (induction s) auto

lemma split_on_join:
  "ws \<noteq> [] \<Longrightarrow> list_all (\<lambda>w. d \<notin> set w) ws \<Longrightarrow> split_on d (join [d] ws) = ws"
  by (induction "[d]" ws rule: join.induct) (simp_all add: split_on_none split_on_append)

lemma join_split_on: "join [d] (split_on d s) = s"
proof (induction s)
  case (Cons c s)
  show ?case
  proof (cases "split_on d s")
    case (Cons w ws)
    with Cons.IH show ?thesis by (cases ws) auto
  qed (use Cons.IH in auto)
qed simp

lemma split_on_not_mem: "w \<in> set (split_on d s) \<Longrightarrow> d \<notin> set w"
  by (induction s arbitrary: w) (auto split: if_splits list.splits)

lemma form_unescape_percent: "form_unescape (percent c @ s) = c # form_unescape s"
proof -
  have "byte c div 16 < 16" "byte c mod 16 < 16" using byte_less [of c] by simp_all
  moreover have "char_of (16 * (byte c div 16) + byte c mod 16) = c" by (simp add: byte_def)
  ultimately show ?thesis by (simp add: percent_def hex_val_digit)
qed

lemma form_unescape_encode: "form_unescape (form_encode s) = s"
proof (induction s)
  case (Cons c s)
  have plain: "\<not> is_alnum CHR ''%''" "\<not> is_alnum CHR ''+''"
    by (simp_all add: is_alnum_def is_digit_def byte_def)
  have "form_encode (c # s) = (if is_alnum c \<or> c \<in> set ''*-._'' then [c]
      else if c = CHR '' '' then ''+'' else percent c) @ form_encode s"
    by (simp add: form_encode_def)
  with Cons plain show ?case by (auto simp: form_unescape_percent)
qed (simp add: form_encode_def)

lemma utf8_decode_char:
  assumes "utf8_char c"
  shows "utf8_decode (c @ s) = c @ utf8_decode s"
proof -
  obtain a t where c: "c = a # t" using assms by (cases c) (auto simp: utf8_char_def)
  have v: "valid_utf8 (a # t)" and cont: "list_all is_cont t"
    using assms by (simp_all add: utf8_char_def c del: valid_utf8.simps)
  consider "byte a < 0x80" | "0xC2 \<le> byte a" "byte a < 0xE0" | "0xE0 \<le> byte a" "byte a < 0xF0"
    | "0xF0 \<le> byte a" "byte a < 0xF5"
    using lead_byte [OF v] by blast
  then show ?thesis
  proof cases
    case 1
    then have "t = []" using v cont cont_valid_Nil by simp
    then show ?thesis using 1 by (simp add: c)
  next
    case 2
    then obtain b r where t: "t = b # r" "is_cont b" "valid_utf8 r" using v by (auto split: list.splits)
    then have "r = []" using cont cont_valid_Nil by simp
    then show ?thesis using 2 t
      by (simp add: c needed_def second_lower_def second_upper_def is_cont_def)
  next
    case 3
    then obtain b d r where t: "t = b # d # r" "is_cont b" "is_cont d" "valid_utf8 r"
      "byte a = 0xE0 \<longrightarrow> 0xA0 \<le> byte b" "byte a = 0xED \<longrightarrow> byte b < 0xA0"
      using v by (auto split: list.splits)
    then have "r = []" using cont cont_valid_Nil by simp
    then show ?thesis using 3 t
      by (auto simp: c needed_def second_lower_def second_upper_def is_cont_def numeral_2_eq_2)
  next
    case 4
    then obtain b d e r where t: "t = b # d # e # r" "is_cont b" "is_cont d" "is_cont e" "valid_utf8 r"
      "byte a = 0xF0 \<longrightarrow> 0x90 \<le> byte b" "byte a = 0xF4 \<longrightarrow> byte b < 0x90"
      using v by (auto split: list.splits)
    then have "r = []" using cont cont_valid_Nil by simp
    then show ?thesis using 4 t
      by (auto simp: c needed_def second_lower_def second_upper_def is_cont_def numeral_3_eq_3)
  qed
qed

lemma utf8_decode_valid: "valid_utf8 s \<Longrightarrow> utf8_decode s = s"
  by (induction rule: utf8_induct) (simp_all add: utf8_decode_char)

interpretation form_text: partial_codec valid_utf8 form_encode "\<lambda>s. Some (form_decode s)"
  by unfold_locales (simp add: form_decode_def form_unescape_encode utf8_decode_valid)

lemma set_form_encode:
  "c \<in> set (form_encode s) \<Longrightarrow> is_alnum c \<or> c \<in> set ''*-._+%''"
  by (auto simp: form_encode_def split: if_splits dest!: percent_no_slash hex_digit_alnum)

lemma separators_not_encoded:
  "CHR ''&'' \<notin> set (form_encode s)" "CHR ''='' \<notin> set (form_encode s)" "CHR ''?'' \<notin> set (form_encode s)"
  using set_form_encode [of "CHR ''&''" s] set_form_encode [of "CHR ''=''" s] set_form_encode [of "CHR ''?''" s]
  by (auto simp: is_alnum_def is_digit_def byte_def)

lemma search_get_one:
  assumes "valid_utf8 k" "valid_utf8 v" "k \<noteq> []"
  shows "search_get (CHR ''?'' # search_params [(k, v)]) j = (if j = k then Some v else None)"
proof -
  let ?w = "form_encode k @ CHR ''='' # form_encode v"
  have neq: "takeWhile (\<lambda>c. c \<noteq> CHR ''='') ?w = form_encode k"
    "dropWhile (\<lambda>c. c \<noteq> CHR ''='') ?w = CHR ''='' # form_encode v"
    using separators_not_encoded(2) [of k] by (auto simp: takeWhile_append dropWhile_append)
  have one: "split_on CHR ''&'' ?w = [?w]"
    using separators_not_encoded(1) [of k] separators_not_encoded(1) [of v] by (intro split_on_none) auto
  have "form_decode (form_encode k) = k" "form_decode (form_encode v) = v"
    using assms by (simp_all add: form_decode_def form_unescape_encode utf8_decode_valid)
  then show ?thesis by (simp add: search_get_def search_pairs_def search_params_def one neq Let_def)
qed

subsection \<open>What the decoder gives is valid\<close>

lemma follow_cases:
  "fst (follow n lo hi p s) = replacement \<or>
    (\<exists>bs. fst (follow n lo hi p s) = p @ bs \<and> length bs = n \<and> list_all is_cont (tl bs) \<and>
       (n = 0 \<or> lo \<le> byte (hd bs) \<and> byte (hd bs) \<le> hi))"
proof (induction n arbitrary: lo hi p s)
  case (Suc n)
  show ?case
  proof (cases s)
    case (Cons b r)
    show ?thesis
    proof (cases "lo \<le> byte b \<and> byte b \<le> hi")
      case True
      consider "fst (follow n 0x80 0xBF (p @ [b]) r) = replacement"
        | bs where "fst (follow n 0x80 0xBF (p @ [b]) r) = (p @ [b]) @ bs" "length bs = n" "list_all is_cont (tl bs)"
            "n = 0 \<or> 0x80 \<le> byte (hd bs) \<and> byte (hd bs) \<le> 0xBF"
        using Suc.IH [of "0x80" "0xBF" "p @ [b]" r] by blast
      then show ?thesis
      proof cases
        case 1
        then show ?thesis using Cons True by simp
      next
        case (2 bs)
        have "list_all is_cont bs" using 2 by (cases bs) (auto simp: is_cont_def)
        then show ?thesis using 2 Cons True by (intro disjI2 exI [of _ "b # bs"]) simp
      qed
    qed (auto simp: Cons)
  qed simp
qed simp

lemma valid_replacement: "valid_utf8 (replacement @ s) = valid_utf8 s"
  by (simp add: replacement_def byte_def is_cont_def)

lemma valid_utf8_decode: "valid_utf8 (utf8_decode s)"
proof (induction s rule: utf8_decode.induct)
  case (2 a s)
  let ?f = "follow (needed a) (second_lower a) (second_upper a) [a] s"
  consider "byte a < 0x80" | "\<not> byte a < 0x80" "byte a < 0xC2 \<or> 0xF5 \<le> byte a"
    | "\<not> byte a < 0x80" "\<not> (byte a < 0xC2 \<or> 0xF5 \<le> byte a)" by blast
  then show ?case
  proof cases
    case 3
    have rest: "valid_utf8 (utf8_decode (snd ?f))" using 3 by (intro 2) simp_all
    consider "fst ?f = replacement" | bs where "fst ?f = [a] @ bs" "length bs = needed a" "list_all is_cont (tl bs)"
        "needed a = 0 \<or> second_lower a \<le> byte (hd bs) \<and> byte (hd bs) \<le> second_upper a"
      using follow_cases [of "needed a" "second_lower a" "second_upper a" "[a]" s] by blast
    then have "valid_utf8 (fst ?f @ utf8_decode (snd ?f))"
    proof cases
      case 1
      then show ?thesis using rest by (simp add: valid_replacement)
    next
      case (2 bs)
      have "needed a = 1 \<or> needed a = 2 \<or> needed a = 3" by (simp add: needed_def)
      then obtain b cs where bs: "bs = b # cs" "length cs = needed a - 1" using 2(2) by (cases bs) auto
      have b: "second_lower a \<le> byte b" "byte b \<le> second_upper a" and cs: "list_all is_cont cs"
        using 2(3,4) bs by (auto simp: needed_def split: if_splits)
      have "is_cont b" using b by (auto simp: is_cont_def second_lower_def second_upper_def split: if_splits)
      consider "byte a < 0xE0" | "0xE0 \<le> byte a" "byte a < 0xF0" | "0xF0 \<le> byte a" by linarith
      then show ?thesis
      proof cases
        case 1
        then have "cs = []" using bs by (simp add: needed_def)
        then show ?thesis using 1 2(1) bs 3 rest \<open>is_cont b\<close> by simp
      next
        case 2
        then obtain c where "cs = [c]" using bs by (auto simp: needed_def length_Suc_conv)
        then show ?thesis using 2 \<open>fst ?f = [a] @ bs\<close> bs 3 rest \<open>is_cont b\<close> cs b
          by (auto simp: second_lower_def second_upper_def split: if_splits)
      next
        case 3
        then have "length cs = 2" using bs by (simp add: needed_def)
        then obtain c d where "cs = [c, d]" by (auto simp: numeral_2_eq_2 length_Suc_conv)
        then show ?thesis using 3 \<open>\<not> (byte a < 0xC2 \<or> 0xF5 \<le> byte a)\<close> \<open>fst ?f = [a] @ bs\<close> bs rest \<open>is_cont b\<close> cs b
          by (auto simp: second_lower_def second_upper_def split: if_splits)
      qed
    qed
    then show ?thesis using 3 by simp
  qed (use 2 in \<open>simp_all add: valid_replacement\<close>)
qed simp

lemma valid_search_get: "search_get s k = Some v \<Longrightarrow> valid_utf8 v"
  by (auto simp: search_get_def search_pairs_def form_decode_def valid_utf8_decode Let_def dest!: map_of_SomeD)

end
