(* ===== verification/Invoices.thy ===== *)
theory Invoices
  imports Invoice_Fields Uri
begin

text \<open>
  Reading and acting on invoices (\<open>lib/invoices.ts\<close>, with \<open>severityStyle\<close>, \<open>violationLine\<close> and
  \<open>violationKey\<close> of \<open>lib/validationApi.ts\<close>). The rows of the wire are modelled twice: as raw JSON
  where the code defends against what the server may send (\<open>normaliseInvoiceRow\<close>, \<open>getInvoice\<close>), and
  as a record where it reads typed fields. A status outside the seven states, which the code guards
  against, is \<open>Other_Status\<close>.
\<close>

datatype invoice_status =
    Draft | Validated | Queued | Submitted | Accepted | Rejected | Failed | Other_Status string

fun status_text :: "invoice_status \<Rightarrow> string" where
  "status_text Draft = ''draft''"
| "status_text Validated = ''validated''"
| "status_text Queued = ''queued''"
| "status_text Submitted = ''submitted''"
| "status_text Accepted = ''accepted''"
| "status_text Rejected = ''rejected''"
| "status_text Failed = ''failed''"
| "status_text (Other_Status s) = s"

datatype severity = Error | Warning | Info | Other_Severity string

record violation =
  vi_rule_key :: string
  vi_severity :: severity
  vi_message :: string
  vi_path :: "string option"
  vi_expected :: "string option"
  vi_actual :: "string option"

record rejection_reason =
  rr_code :: string
  rr_message :: string
  rr_path :: "string option"

record invoice_line =
  il_id :: string
  il_line_no :: int
  il_content :: columns

record invoice_approval =
  ap_run_state :: string
  ap_pending_ord :: "int option"
  ap_pending_role_title :: "string option"
  ap_pending_holder_warn :: bool
  ap_due_at :: "string option"
  ap_overdue :: bool

record history_cause =
  hc_rule_set_version :: int
  hc_rule_set_version_id :: string
  hc_effective_from :: "string option"

record custom_rule_cause =
  cc_custom_rule_id :: string
  cc_revision :: int
  cc_revision_id :: string
  cc_key :: string
  cc_message :: string

record demotion =
  dm_changed_at :: string
  dm_cause :: "history_cause option"
  dm_custom_rule_cause :: "custom_rule_cause option"

datatype document_type = Commercial_Invoice | Credit_Note | Debit_Note

record invoice =
  iv_id :: string
  iv_entity_id :: string
  iv_import_batch_id :: "string option"
  iv_invoice_number :: string
  iv_status :: invoice_status
  iv_columns :: columns
  iv_violations :: "violation list"
  iv_rule_set_version_id :: "string option"
  iv_created_at :: string
  iv_irn :: "string option"
  iv_csid :: "string option"
  iv_qr_payload :: "string option"
  iv_rejection_reasons :: "rejection_reason list"
  iv_kept_as_is_at :: "string option"
  iv_kept_as_is_by :: "string option"
  iv_kept_as_is_reason :: "string option"
  iv_failure_kind :: "string option"
  iv_document_type :: "document_type option"
  iv_original_invoice_id :: "string option"
  iv_line_items :: "invoice_line list"
  iv_rule_set_version :: "int option"
  iv_approval :: "invoice_approval option"
  iv_can_approve :: bool
  iv_approve_blocked_reason :: "string option"
  iv_approve_blocked_by_creator :: bool
  iv_can_submit :: bool
  iv_submit_blocked_reason :: "string option"
  iv_demotion :: "demotion option"
  iv_verdict_stale :: bool

record status_change =
  sc_from_status :: "invoice_status option"
  sc_to_status :: invoice_status
  sc_actor :: string
  sc_actor_name :: string
  sc_actor_kind :: string
  sc_changed_at :: string
  sc_cause :: "history_cause option"
  sc_custom_rule_cause :: "custom_rule_cause option"

definition latestDemotion :: "status_change list \<Rightarrow> invoice_status \<Rightarrow> demotion option" where
  "latestDemotion history status =
    (if history = [] then None
     else let lst = last history in
       if status \<noteq> Draft \<or> sc_cause lst = None \<and> sc_custom_rule_cause lst = None then None
       else Some \<lparr>dm_changed_at = sc_changed_at lst, dm_cause = sc_cause lst,
                  dm_custom_rule_cause = sc_custom_rule_cause lst\<rparr>)"

definition demotionSentence :: "demotion \<Rightarrow> string" where
  "demotionSentence d = (case dm_cause d of
      Some c \<Rightarrow>
        (let on = (case hc_effective_from c of
             Some e \<Rightarrow> if e = '''' then '''' else '' on '' @ e | None \<Rightarrow> '''')
         in ''Sent back to draft when rule set v'' @ show_int (hc_rule_set_version c) @ '' took effect'' @ on @ ''.'')
    | None \<Rightarrow>
        ''Sent back to draft when the custom rule '' @ left_quote
          @ (case dm_custom_rule_cause d of None \<Rightarrow> '''' | Some c \<Rightarrow> cc_message c)
          @ right_quote @ '' changed.'')"

subsection \<open>Query text\<close>

text \<open>\<open>while (end > 0 && (bytes[end] & 0xc0) === 0x80) end--\<close>; a byte with its two high bits 10 is one
  from 0x80 to 0xBF.\<close>

fun clamp_end :: "string \<Rightarrow> nat \<Rightarrow> nat" where
  "clamp_end s 0 = 0"
| "clamp_end s (Suc n) = (if is_cont (s ! Suc n) then clamp_end s n else Suc n)"

definition clampFilterText :: "string \<Rightarrow> string" where
  "clampFilterText s = (if length s \<le> 200 then s else take (clamp_end s 200) s)"

record list_options =
  lo_needsAttention :: bool
  lo_entityId :: "string option"
  lo_limit :: "int option"
  lo_offset :: "int option"
  lo_importBatchIds :: "string list"
  lo_status :: "invoice_status option"
  lo_needsFix :: bool
  lo_ruleKey :: "string option"
  lo_q :: "string option"
  lo_keptAsIs :: bool
  lo_awaitingApproval :: bool
  lo_notEvaluated :: bool

definition no_options :: list_options where
  "no_options = \<lparr>lo_needsAttention = False, lo_entityId = None, lo_limit = None, lo_offset = None,
     lo_importBatchIds = [], lo_status = None, lo_needsFix = False, lo_ruleKey = None, lo_q = None,
     lo_keptAsIs = False, lo_awaitingApproval = False, lo_notEvaluated = False\<rparr>"

definition flag_param :: "string \<Rightarrow> bool \<Rightarrow> (string \<times> string) list" where
  "flag_param k b = (if b then [(k, ''true'')] else [])"

text \<open>A string option emits iff truthy: neither absent nor empty.\<close>

definition text_param :: "string \<Rightarrow> string option \<Rightarrow> (string \<times> string) list" where
  "text_param k t = (case t of None \<Rightarrow> [] | Some v \<Rightarrow> if v = '''' then [] else [(k, v)])"

definition int_param :: "string \<Rightarrow> int option \<Rightarrow> (string \<times> string) list" where
  "int_param k n = (case n of None \<Rightarrow> [] | Some v \<Rightarrow> [(k, show_int v)])"

definition batch_params :: "string list \<Rightarrow> (string \<times> string) list" where
  "batch_params ids = map (Pair ''import_batch_id'') (filter (\<lambda>i. i \<noteq> '''') ids)"

definition list_params :: "list_options \<Rightarrow> (string \<times> string) list" where
  "list_params opts =
    flag_param ''needs_attention'' (lo_needsAttention opts) @
    text_param ''entity_id'' (lo_entityId opts) @
    int_param ''limit'' (lo_limit opts) @
    int_param ''offset'' (lo_offset opts) @
    batch_params (lo_importBatchIds opts) @
    text_param ''status'' (map_option status_text (lo_status opts)) @
    flag_param ''needs_fix'' (lo_needsFix opts) @
    text_param ''rule_key'' (lo_ruleKey opts) @
    text_param ''q'' (lo_q opts) @
    flag_param ''kept_as_is'' (lo_keptAsIs opts) @
    flag_param ''awaiting_approval'' (lo_awaitingApproval opts) @
    flag_param ''not_evaluated'' (lo_notEvaluated opts)"

definition list_url :: "string \<Rightarrow> list_options \<Rightarrow> string" where
  "list_url base opts =
    (let query = (if search_params (list_params opts) = '''' then ''''
                  else ''?'' @ search_params (list_params opts))
     in base @ ''/api/invoice/v1/invoices'' @ query)"

definition violationSummary_url :: "string \<Rightarrow> string list \<Rightarrow> string" where
  "violationSummary_url base ids =
     base @ ''/api/invoice/v1/invoices/violation-summary?'' @ search_params (batch_params ids)"

subsection \<open>Fail-closed reading of the wire\<close>

text \<open>A value a property read of parsed JSON can give; an absent key reads as \<open>undefined\<close>.\<close>

datatype json =
    JUndefined | JNull | JBool bool | JNum rat | JStr string | JArr "json list"
  | JObj "(string \<times> json) list"

type_synonym json_object = "(string \<times> json) list"

definition get :: "json_object \<Rightarrow> string \<Rightarrow> json" where
  "get obj k = (case map_of obj k of None \<Rightarrow> JUndefined | Some v \<Rightarrow> v)"

text \<open>\<open>v === true\<close> and \<open>v ?? null\<close>.\<close>

definition is_true :: "json \<Rightarrow> json" where
  "is_true v = JBool (v = JBool True)"

definition or_null :: "json \<Rightarrow> json" where
  "or_null v = (if v = JUndefined \<or> v = JNull then JNull else v)"

text \<open>The keys a literal lists after \<open>...raw\<close>: each replaces the value in place, or is appended.\<close>

definition spread :: "json_object \<Rightarrow> json_object \<Rightarrow> json_object" where
  "spread raw listed = foldl (\<lambda>m (k, v). al_set k v m) raw listed"

datatype wire_kind = Flag | Nullable

fun normalise :: "wire_kind \<Rightarrow> json \<Rightarrow> json" where
  "normalise Flag v = is_true v"
| "normalise Nullable v = or_null v"

definition normalise_approval :: "json \<Rightarrow> json" where
  "normalise_approval wire = (case wire of
      JObj obj \<Rightarrow> JObj [
        (''run_state'', get obj ''run_state''),
        (''pending_ord'', or_null (get obj ''pending_ord'')),
        (''pending_role_title'', or_null (get obj ''pending_role_title'')),
        (''pending_holder_warn'', is_true (get obj ''pending_holder_warn'')),
        (''due_at'', or_null (get obj ''due_at'')),
        (''overdue'', is_true (get obj ''overdue''))]
    | _ \<Rightarrow> JNull)"

definition ROW_KEYS :: "(string \<times> wire_kind) list" where
  "ROW_KEYS = [
    (''can_approve'', Flag),
    (''approve_blocked_reason'', Nullable),
    (''approve_blocked_by_creator'', Flag),
    (''can_submit'', Flag),
    (''submit_blocked_reason'', Nullable)]"

definition normaliseInvoiceRow :: "json_object \<Rightarrow> json_object" where
  "normaliseInvoiceRow raw = spread raw
     ((''approval'', normalise_approval (get raw ''approval''))
      # map (\<lambda>(k, w). (k, normalise w (get raw k))) ROW_KEYS)"

definition DETAIL_KEYS :: "(string \<times> wire_kind) list" where
  "DETAIL_KEYS = [
    (''rule_set_version'', Nullable),
    (''qr_png_base64'', Nullable),
    (''verdict_stale'', Flag),
    (''can_edit'', Flag),
    (''can_revalidate'', Flag),
    (''revalidate_blocked_reason'', Nullable),
    (''can_submit'', Flag),
    (''submit_blocked_reason'', Nullable),
    (''can_view_ubl'', Flag),
    (''ubl_blocked_reason'', Nullable),
    (''can_resolve_outside'', Flag),
    (''resolve_outside_blocked_reason'', Nullable),
    (''can_approve'', Flag),
    (''approve_blocked_reason'', Nullable),
    (''approve_blocked_by_creator'', Flag),
    (''can_reject'', Flag),
    (''reject_blocked_reason'', Nullable),
    (''can_correct_invoice_number'', Flag),
    (''invoice_number_blocked_reason'', Nullable),
    (''can_issue_note'', Flag),
    (''issue_note_blocked_reason'', Nullable),
    (''can_send_again'', Flag),
    (''send_again_blocked_reason'', Nullable)]"

text \<open>The detail record \<open>getInvoice\<close> builds from the answer \<open>res\<close>.\<close>

definition getInvoice :: "json_object \<Rightarrow> json_object" where
  "getInvoice res = spread res (map (\<lambda>(k, w). (k, normalise w (get res k))) DETAIL_KEYS)"

subsection \<open>Fetch wrappers\<close>

definition api :: "string \<Rightarrow> string" where
  "api base = base @ ''/api/invoice/v1/invoices''"

definition getInvoice_request :: "string \<Rightarrow> string \<Rightarrow> 'b request" where
  "getInvoice_request base i = request GET (api base @ ''/'' @ i) None"

definition getInvoiceUbl :: "string \<Rightarrow> string \<Rightarrow> 'b request" where
  "getInvoiceUbl base i = request GET (api base @ ''/'' @ encodeURIComponent i @ ''/ubl'') None"

definition getInvoiceHistory :: "string \<Rightarrow> string \<Rightarrow> 'b request" where
  "getInvoiceHistory base i = request GET (api base @ ''/'' @ i @ ''/history'') None"

definition createInvoice :: "string \<Rightarrow> 'b \<Rightarrow> 'b request" where
  "createInvoice base input = request POST (api base) (Some input)"

definition editInvoice :: "string \<Rightarrow> string \<Rightarrow> 'b \<Rightarrow> 'b request" where
  "editInvoice base i patch = request PATCH (api base @ ''/'' @ i) (Some patch)"

definition revalidateInvoice :: "string \<Rightarrow> string \<Rightarrow> 'b request" where
  "revalidateInvoice base i = request POST (api base @ ''/'' @ i @ ''/validate'') None"

definition keepInvoiceAsIs :: "string \<Rightarrow> string \<Rightarrow> string \<Rightarrow> (string \<times> string) list request" where
  "keepInvoiceAsIs base i reason =
     request POST (api base @ ''/'' @ i @ ''/keep-as-is'') (Some [(''reason'', reason)])"

definition resolveInvoiceOutside :: "string \<Rightarrow> string \<Rightarrow> string \<Rightarrow> (string \<times> string) list request" where
  "resolveInvoiceOutside base i reason =
     request POST (api base @ ''/'' @ i @ ''/resolved-outside'') (Some [(''reason'', reason)])"

definition sendInvoiceAgain :: "string \<Rightarrow> string \<Rightarrow> 'b request" where
  "sendInvoiceAgain base i = request POST (api base @ ''/'' @ i @ ''/send-again'') None"

definition unresolveInvoiceOutside :: "string \<Rightarrow> string \<Rightarrow> 'b request" where
  "unresolveInvoiceOutside base i = request DELETE (api base @ ''/'' @ i @ ''/resolved-outside'') None"

record submit_body =
  sb_invoice_ids :: "string list"
  sb_idempotency_key :: string

definition submitInvoices :: "string \<Rightarrow> string list \<Rightarrow> string \<Rightarrow> submit_body request" where
  "submitInvoices base ids key = request POST (api base @ ''/submissions'')
     (Some \<lparr>sb_invoice_ids = ids, sb_idempotency_key = key\<rparr>)"

subsection \<open>Styles and derived labels\<close>

record status_style =
  ss_bg :: string
  ss_border :: string
  ss_text :: string
  ss_label :: string

definition style :: "string \<Rightarrow> string \<Rightarrow> status_style" where
  "style colour label = \<lparr>ss_bg = ''var(--status-'' @ colour @ ''-bg)'',
     ss_border = ''var(--status-'' @ colour @ ''-border)'', ss_text = ''var(--status-'' @ colour @ ''-text)'',
     ss_label = label\<rparr>"

definition MUTED_STYLE :: status_style where
  "MUTED_STYLE = style ''muted'' ''UNKNOWN''"

definition invoiceStatusStyle :: "invoice_status \<Rightarrow> status_style" where
  "invoiceStatusStyle status = (case status of
      Draft \<Rightarrow> style ''muted'' ''DRAFT''
    | Validated \<Rightarrow> style ''green'' ''VALIDATED''
    | Queued \<Rightarrow> style ''amber'' ''QUEUED''
    | Submitted \<Rightarrow> style ''amber'' ''SUBMITTED''
    | Accepted \<Rightarrow> style ''green'' ''ACCEPTED''
    | Rejected \<Rightarrow> style ''red'' ''REJECTED''
    | Failed \<Rightarrow> style ''red'' ''FAILED''
    | Other_Status _ \<Rightarrow> MUTED_STYLE)"

definition severityStyle :: "severity \<Rightarrow> status_style" where
  "severityStyle sev = (case sev of
      Error \<Rightarrow> style ''red'' ''Error''
    | Warning \<Rightarrow> style ''amber'' ''Warning''
    | Info \<Rightarrow> style ''muted'' ''Info''
    | Other_Severity _ \<Rightarrow> style ''muted'' ''Info'')"

definition hasBlockingViolation :: "invoice \<Rightarrow> bool" where
  "hasBlockingViolation i \<longleftrightarrow> list_ex (\<lambda>v. vi_severity v = Error) (iv_violations i)"

datatype verdict = Stale | Current

definition verdictStatus :: "bool \<Rightarrow> invoice \<Rightarrow> verdict" where
  "verdictStatus staleSinceEdit i =
    (if staleSinceEdit \<or> iv_verdict_stale i then Stale
     else let demotedSinceValidation = iv_status i = Draft \<and> iv_rule_set_version_id i \<noteq> None \<and>
            \<not> list_ex (\<lambda>v. vi_severity v = Error) (iv_violations i)
          in if demotedSinceValidation then Stale else Current)"

definition documentSign :: "invoice \<Rightarrow> int" where
  "documentSign i = (if iv_document_type i = Some Credit_Note then -1 else 1)"

definition documentTypeBadge :: "invoice \<Rightarrow> (string \<times> string) option" where
  "documentTypeBadge i =
    (if iv_document_type i = Some Credit_Note then Some (''CREDIT'', ''Credit note'')
     else if iv_document_type i = Some Debit_Note then Some (''DEBIT'', ''Debit note'')
     else None)"

definition isBuyerTinMissing :: "string option \<Rightarrow> bool" where
  "isBuyerTinMissing tin \<longleftrightarrow> (case tin of None \<Rightarrow> True | Some t \<Rightarrow> trim t = '''')"

definition MBS_PATH_TO_EDIT_FIELD :: "(string \<times> string) list" where
  "MBS_PATH_TO_EDIT_FIELD = [
    (''issue_date'', ''issue_date''), (''currency'', ''currency''), (''subtotal'', ''subtotal''),
    (''vat'', ''vat''), (''total'', ''total''), (''supplier.tin'', ''supplier_tin''),
    (''supplier.name'', ''supplier_name''), (''buyer.tin'', ''buyer_tin''), (''buyer.name'', ''buyer_name'')]"

definition mbsPathToEditField :: "string option \<Rightarrow> string option" where
  "mbsPathToEditField path = (case path of None \<Rightarrow> None | Some p \<Rightarrow> map_of MBS_PATH_TO_EDIT_FIELD p)"

definition reasonFieldFlags :: "rejection_reason list \<Rightarrow> (string \<times> string) list" where
  "reasonFieldFlags reasons = foldl (\<lambda>flags reason.
      case mbsPathToEditField (rr_path reason) of
        None \<Rightarrow> flags
      | Some fld \<Rightarrow> if map_of flags fld = None then al_set fld (rr_code reason) flags else flags) [] reasons"

text \<open>\<open>^line_items\[([1-9]\d*)\](?:\.(\w+))?$\<close>\<close>

definition is_word :: "char \<Rightarrow> bool" where
  "is_word c \<longleftrightarrow> is_alnum c \<or> c = CHR ''_''"

definition violationLine :: "string option \<Rightarrow> (nat \<times> string option) option" where
  "violationLine path = (case path of
      None \<Rightarrow> None
    | Some p \<Rightarrow>
        (if \<not> starts_with ''line_items['' p then None
         else let (ds, r) = span is_digit (drop (length ''line_items['') p) in
           if ds = [] \<or> hd ds = CHR ''0'' \<or> \<not> starts_with '']'' r then None
           else let tl = drop 1 r in
             if tl = '''' then Some (digits_val ds, None)
             else if hd tl = CHR ''.'' \<and> drop 1 tl \<noteq> '''' \<and> list_all is_word (drop 1 tl)
               then Some (digits_val ds, Some (drop 1 tl))
             else None))"

definition violationKey :: "violation \<Rightarrow> string" where
  "violationKey v = vi_rule_key v @ [char_of (0 :: nat)] @ (case vi_path v of None \<Rightarrow> '''' | Some p \<Rightarrow> p)"

subsection \<open>The lines of an edit\<close>

record line_content =
  ln_id :: "string option"
  ln_value :: columns

definition canonField :: "string option \<Rightarrow> string option" where
  "canonField v = (if v = Some '''' then None else v)"

definition canonLine :: "line_content \<Rightarrow> wire_patch" where
  "canonLine line =
    (let row = map (\<lambda>k. (k, canonField (ln_value line k))) LINE_EDIT_FIELDS in
     case ln_id line of
       None \<Rightarrow> row
     | Some i \<Rightarrow> if i = '''' then row else (''id'', Some i) # row)"

definition row_value :: "wire_patch \<Rightarrow> string \<Rightarrow> string option" where
  "row_value row k = (case map_of row k of None \<Rightarrow> None | Some v \<Rightarrow> v)"

definition diffLineItems :: "line_content list \<Rightarrow> line_content list \<Rightarrow> wire_patch list option" where
  "diffLineItems original edited =
    (let nxt = map canonLine edited; prev = map canonLine original in
     if length nxt = length original \<and>
        list_all (\<lambda>(row, old). list_all (\<lambda>k. row_value row k = row_value old k) LINE_EDIT_FIELDS) (zip nxt prev)
     then None else Some nxt)"

subsection \<open>Outcomes\<close>

record submit_item =
  si_invoice_id :: string
  si_enqueued :: bool
  si_status :: string
  si_reason :: "string option"

definition SKIP_REASON_LABELS :: "(string \<times> string) list" where
  "SKIP_REASON_LABELS = [
    (''not_validated'', ''Not validated '' @ em_dash @ '' validate it first''),
    (''duplicate_request'', ''Already submitted with this request''),
    (''awaiting_approval'', ''This invoice is waiting on approval '' @ em_dash @
       '' it can be submitted once an approver approves it.''),
    (''rule_change_pending'', ''A custom rule change is being applied to this invoice '' @ em_dash @
       '' it can be submitted once the change has been checked.'')]"

definition skipReasonLabel :: "string \<Rightarrow> string" where
  "skipReasonLabel reason =
    (case map_of SKIP_REASON_LABELS reason of Some l \<Rightarrow> l | None \<Rightarrow> reason)"

definition FAILURE_KINDS :: "string list" where
  "FAILURE_KINDS = [''payload_not_built'', ''never_acknowledged'', ''acknowledged_no_verdict'']"

record failure_explanation =
  fe_headline :: string
  fe_detail :: string
  fe_nextStep :: string

definition FAILURE_EXPLANATIONS :: "(string \<times> failure_explanation) list" where
  "FAILURE_EXPLANATIONS = [
    (''payload_not_built'',
      \<lparr>fe_headline = ''We could not prepare this invoice for NRS.'',
       fe_detail = ''Nothing was sent.'',
       fe_nextStep = ''You can send it again. If it fails again, report it to ASComply support.''\<rparr>),
    (''never_acknowledged'',
      \<lparr>fe_headline = ''The Access Point did not reply, so this invoice may or may not have arrived.'',
       fe_detail = ''Sending it again reuses the same submission reference, so a repeat is recognised and not filed twice.'',
       fe_nextStep = ''''\<rparr>),
    (''acknowledged_no_verdict'',
      \<lparr>fe_headline = ''This invoice was received for filing, but no result ever came back.'',
       fe_detail = ''We know it arrived. We never learned whether it was accepted or rejected, so it may already have been filed '' @ em_dash @ '' raising another invoice for the same transaction could file it twice.'',
       fe_nextStep = ''Do not raise another invoice for the same transaction yet. Ask ASComply support to confirm with NRS whether this one has already been filed.''\<rparr>)]"

definition FAILURE_EXPLANATION_FALLBACK :: failure_explanation where
  "FAILURE_EXPLANATION_FALLBACK =
     \<lparr>fe_headline = ''We do not have a recorded reason for this failure.'',
      fe_detail = ''The reason was not recorded for this invoice, so we cannot tell you from this screen what went wrong '' @ em_dash @ '' or whether it was filed.'',
      fe_nextStep = ''Ask ASComply support to check what happened to this invoice before you raise another one for the same transaction.''\<rparr>"

definition failureExplanation :: "string option \<Rightarrow> failure_explanation" where
  "failureExplanation kind = (case kind of
      None \<Rightarrow> FAILURE_EXPLANATION_FALLBACK
    | Some k \<Rightarrow> (case map_of FAILURE_EXPLANATIONS k of
        Some e \<Rightarrow> e | None \<Rightarrow> FAILURE_EXPLANATION_FALLBACK))"

definition sendAgainOffered :: "bool \<Rightarrow> string option \<Rightarrow> bool" where
  "sendAgainOffered can_send_again blocked_reason \<longleftrightarrow> can_send_again \<or> blocked_reason \<noteq> None"

definition canResolveOutside :: "string \<Rightarrow> bool" where
  "canResolveOutside reason \<longleftrightarrow> trim reason \<noteq> ''''"

record kept_note =
  kn_at :: string
  kn_by :: "string option"
  kn_reason :: "string option"

definition keptAsIs :: "invoice \<Rightarrow> kept_note option" where
  "keptAsIs i = (case iv_kept_as_is_at i of
      None \<Rightarrow> None
    | Some t \<Rightarrow> Some \<lparr>kn_at = t, kn_by = iv_kept_as_is_by i, kn_reason = iv_kept_as_is_reason i\<rparr>)"

definition resolvedOutside :: "invoice \<Rightarrow> kept_note option" where
  "resolvedOutside i = (if iv_status i \<noteq> Failed then None
     else case iv_kept_as_is_at i of
       None \<Rightarrow> None
     | Some t \<Rightarrow> Some \<lparr>kn_at = t, kn_by = iv_kept_as_is_by i, kn_reason = iv_kept_as_is_reason i\<rparr>)"

datatype submit_outcome = Outcome_Queued | Skipped string | Unresolved string

definition unresolved_copy :: string where
  "unresolved_copy = ''The server did not confirm this invoice was sent. Reload to check its status.''"

definition notQueued_copy :: string where
  "notQueued_copy = ''Not queued''"

definition singleSubmitOutcome :: "string \<Rightarrow> submit_item list option \<Rightarrow> submit_outcome" where
  "singleSubmitOutcome invoiceId items =
    (case Option.bind items (find (\<lambda>i. si_invoice_id i = invoiceId)) of
       None \<Rightarrow> Unresolved unresolved_copy
     | Some item \<Rightarrow>
         if si_enqueued item then Outcome_Queued
         else Skipped (case si_reason item of
                Some r \<Rightarrow> skipReasonLabel r | None \<Rightarrow> notQueued_copy))"

subsection \<open>Selection\<close>

definition isRowSelectable :: "invoice \<Rightarrow> bool" where
  "isRowSelectable row = iv_can_submit row"

definition selectBlockedReason :: "invoice \<Rightarrow> string option" where
  "selectBlockedReason row = (if iv_can_submit row then None else iv_submit_blocked_reason row)"

definition selectableIds :: "invoice list \<Rightarrow> string list" where
  "selectableIds rows = map iv_id (filter isRowSelectable rows)"

definition toggleSelection :: "string list \<Rightarrow> string \<Rightarrow> string list" where
  "toggleSelection sel i = (if i \<in> set sel then filter (\<lambda>s. s \<noteq> i) sel else sel @ [i])"

definition pruneSelection :: "string list \<Rightarrow> invoice list \<Rightarrow> string list" where
  "pruneSelection sel rows = filter (\<lambda>i. i \<in> set (selectableIds rows)) sel"

datatype all_state = NoneSelected | SomeSelected | AllSelected

definition selectAllState :: "string list \<Rightarrow> invoice list \<Rightarrow> all_state" where
  "selectAllState selected rows =
    (let selectable = selectableIds rows in
     if length selectable = 0 then NoneSelected
     else let matched = length (filter (\<lambda>i. i \<in> set selected) selectable) in
       if matched = 0 then NoneSelected
       else if matched = length selectable then AllSelected else SomeSelected)"

subsection \<open>Polling and visibility\<close>

definition isInFlight :: "invoice_status \<Rightarrow> bool" where
  "isInFlight status \<longleftrightarrow> status = Queued \<or> status = Submitted"

definition shouldPollInvoice :: "invoice_status \<Rightarrow> bool \<Rightarrow> bool" where
  "shouldPollInvoice status visible \<longleftrightarrow> isInFlight status \<and> visible"

definition shouldPollList :: "invoice list \<Rightarrow> bool \<Rightarrow> bool" where
  "shouldPollList rows visible \<longleftrightarrow> list_ex (\<lambda>row. isInFlight (iv_status row)) rows \<and> visible"

definition shouldRefreshHistory :: "invoice_status option \<Rightarrow> invoice_status \<Rightarrow> bool" where
  "shouldRefreshHistory prev nxt \<longleftrightarrow> prev \<noteq> None \<and> prev \<noteq> Some nxt"

definition shouldShowRejectionCard :: "invoice \<Rightarrow> bool" where
  "shouldShowRejectionCard i \<longleftrightarrow> length (iv_rejection_reasons i) > 0 \<and> iv_status i \<noteq> Accepted"

datatype provenance = Current_Verdict | Historical

definition rejectionProvenance :: "invoice_status \<Rightarrow> provenance" where
  "rejectionProvenance status = (if status = Rejected then Current_Verdict else Historical)"

definition shouldShowFiscalRecord :: "invoice \<Rightarrow> bool" where
  "shouldShowFiscalRecord i \<longleftrightarrow> iv_status i = Accepted \<and> iv_irn i \<noteq> None"

definition gateByActiveEntity :: "invoice list \<Rightarrow> bool \<Rightarrow> string option \<Rightarrow> invoice list" where
  "gateByActiveEntity rows isInhouse entityId =
    (if isInhouse then rows
     else case entityId of None \<Rightarrow> [] | Some e \<Rightarrow> filter (\<lambda>row. iv_entity_id row = e) rows)"

subsection \<open>Fetching every page\<close>

definition AGGREGATE_PAGE_SIZE :: int where "AGGREGATE_PAGE_SIZE = 200"
definition AGGREGATE_MAX_PAGES :: int where "AGGREGATE_MAX_PAGES = 10"
definition REGISTER_PAGE_SIZE :: int where "REGISTER_PAGE_SIZE = 50"

record pagination =
  pg_limit :: int
  pg_offset :: int
  pg_total :: int

record 'row list_response =
  ls_invoices :: "'row list"
  ls_pagination :: pagination

definition invoiceListIsEmpty :: "'row list_response \<Rightarrow> bool" where
  "invoiceListIsEmpty r \<longleftrightarrow> pg_total (ls_pagination r) = 0"

definition remainingPageOffsets :: "int \<Rightarrow> int \<Rightarrow> int \<Rightarrow> int list \<times> bool" where
  "remainingPageOffsets tot limit maxPages =
    (if limit < 1 then ([], False)
     else let pages = min (- ((- tot) div limit)) maxPages in
       (map (\<lambda>page. (page - 1) * limit) [2..pages], pages = maxPages \<and> tot > maxPages * limit))"

record 'row all_invoices =
  al_invoices :: "'row list"
  al_total :: int
  al_fetched :: int
  al_truncated :: bool

definition allInvoicesIsEmpty :: "'row all_invoices \<Rightarrow> bool" where
  "allInvoicesIsEmpty r \<longleftrightarrow> al_total r = 0"

text \<open>The server is the parameter \<open>listInvoices\<close>: the answer to a limit and an offset, \<^const>\<open>None\<close>
  when the call rejects. \<open>Promise.all\<close> rejects as soon as one page does.\<close>

definition fetchAllInvoices :: "(int \<Rightarrow> int \<Rightarrow> 'row list_response option) \<Rightarrow> 'row all_invoices option" where
  "fetchAllInvoices listInvoices =
    (case listInvoices AGGREGATE_PAGE_SIZE 0 of
       None \<Rightarrow> None
     | Some fst_page \<Rightarrow>
         (let limit = pg_limit (ls_pagination fst_page); tot = pg_total (ls_pagination fst_page);
              (offsets, truncated) = remainingPageOffsets tot limit AGGREGATE_MAX_PAGES
          in case those (map (listInvoices limit) offsets) of
               None \<Rightarrow> None
             | Some rest \<Rightarrow>
                 (let invoices = concat (map ls_invoices (fst_page # rest))
                  in Some \<lparr>al_invoices = invoices, al_total = tot, al_fetched = int (length invoices),
                           al_truncated = truncated\<rparr>)))"

subsection \<open>What the normalisation guarantees\<close>

lemma map_of_spread: "map_of (spread raw listed) k =
    (case map_of (rev listed) k of Some v \<Rightarrow> Some v | None \<Rightarrow> map_of raw k)"
  by (induction listed rule: rev_induct) (auto simp: spread_def split: option.splits)

lemma map_of_rev_distinct: "distinct (map fst l) \<Longrightarrow> map_of (rev l) k = map_of l k"
  by (metis distinct_rev map_of_eqI rev_map set_rev list.set_map map_of_inject_set)

lemma map_of_normalised:
  "map_of (map (\<lambda>(k, w). (k, f k w)) ks) k = map_option (f k) (map_of ks k)"
  by (induction ks) auto

lemma get_spread:
  "distinct (map fst listed) \<Longrightarrow>
   get (spread raw listed) k = (case map_of listed k of Some v \<Rightarrow> v | None \<Rightarrow> get raw k)"
  by (simp add: get_def map_of_spread map_of_rev_distinct split: option.split)

lemma distinct_ROW_KEYS: "distinct (''approval'' # map fst ROW_KEYS)"
  by code_simp

lemma distinct_DETAIL_KEYS: "distinct (map fst DETAIL_KEYS)"
  by code_simp

lemma fst_normalised: "map (fst \<circ> (\<lambda>(k, w). (k, f k w))) ks = map fst ks"
  by (induction ks) auto

lemma keys_normalised: "fst ` (\<lambda>(k, w). (k, f k w)) ` set ks = fst ` set ks"
  by force

lemma get_normaliseInvoiceRow:
  "get (normaliseInvoiceRow raw) k =
     (if k = ''approval'' then normalise_approval (get raw ''approval'')
      else case map_of ROW_KEYS k of Some w \<Rightarrow> normalise w (get raw k) | None \<Rightarrow> get raw k)"
  using distinct_ROW_KEYS unfolding normaliseInvoiceRow_def
  by (subst get_spread) (simp_all add: fst_normalised keys_normalised map_of_normalised split: option.split)

lemma get_getInvoice:
  "get (getInvoice res) k =
     (case map_of DETAIL_KEYS k of Some w \<Rightarrow> normalise w (get res k) | None \<Rightarrow> get res k)"
  using distinct_DETAIL_KEYS unfolding getInvoice_def
  by (subst get_spread) (simp_all add: fst_normalised keys_normalised map_of_normalised split: option.split)

lemma get_DETAIL_KEYS:
  "map_of DETAIL_KEYS k =
     (if k \<in> {''verdict_stale'', ''can_edit'', ''can_revalidate'', ''can_submit'', ''can_view_ubl'', ''can_resolve_outside'',
          ''can_approve'', ''approve_blocked_by_creator'', ''can_reject'', ''can_correct_invoice_number'', ''can_issue_note'',
          ''can_send_again''} then Some Flag
      else if k \<in> {''rule_set_version'', ''qr_png_base64'', ''revalidate_blocked_reason'', ''submit_blocked_reason'',
          ''ubl_blocked_reason'', ''resolve_outside_blocked_reason'', ''approve_blocked_reason'', ''reject_blocked_reason'',
          ''invoice_number_blocked_reason'', ''issue_note_blocked_reason'', ''send_again_blocked_reason''} then Some Nullable
      else None)"
  by (simp add: DETAIL_KEYS_def)

lemma get_ROW_KEYS:
  "map_of ROW_KEYS k =
     (if k \<in> {''can_approve'', ''approve_blocked_by_creator'', ''can_submit''} then Some Flag
      else if k \<in> {''approve_blocked_reason'', ''submit_blocked_reason''} then Some Nullable else None)"
  by (simp add: ROW_KEYS_def)

lemma if_same_case: "(case (if b then x else y) of None \<Rightarrow> n | Some z \<Rightarrow> f z) =
    (if b then (case x of None \<Rightarrow> n | Some z \<Rightarrow> f z) else (case y of None \<Rightarrow> n | Some z \<Rightarrow> f z))"
  by simp

lemma or_null_eq: "or_null v = (if v = JUndefined then JNull else v)"
  by (simp add: or_null_def)

text \<open>C31: the action flags fail closed. Each of the twelve flags of the detail wire and each of the three of a list row is
  \<open>true\<close> after normalisation exactly when the server sent the boolean true (not a truthy string or number, not an
  absent key) and \<open>false\<close> otherwise; each optional key of the two tables is what the server sent or, where it sent nothing, \<open>null\<close>, never \<open>undefined\<close>; the approval of a row
  is \<open>null\<close> unless the server sent a plain object, and then its own two flags fail closed the same way; and every
  other key is passed through unchanged.\<close>

theorem normalisation_fails_closed:
  "get (getInvoice res) k =
     (if k \<in> {''verdict_stale'', ''can_edit'', ''can_revalidate'', ''can_submit'', ''can_view_ubl'', ''can_resolve_outside'',
          ''can_approve'', ''approve_blocked_by_creator'', ''can_reject'', ''can_correct_invoice_number'', ''can_issue_note'',
          ''can_send_again''}
      then JBool (get res k = JBool True)
      else if k \<in> {''rule_set_version'', ''qr_png_base64'', ''revalidate_blocked_reason'', ''submit_blocked_reason'',
          ''ubl_blocked_reason'', ''resolve_outside_blocked_reason'', ''approve_blocked_reason'', ''reject_blocked_reason'',
          ''invoice_number_blocked_reason'', ''issue_note_blocked_reason'', ''send_again_blocked_reason''}
      then (if get res k = JUndefined then JNull else get res k)
      else get res k) \<and>
   get (normaliseInvoiceRow raw) k =
     (if k \<in> {''can_approve'', ''approve_blocked_by_creator'', ''can_submit''} then JBool (get raw k = JBool True)
      else if k \<in> {''approve_blocked_reason'', ''submit_blocked_reason''}
      then (if get raw k = JUndefined then JNull else get raw k)
      else if k = ''approval'' then
        (case get raw k of
           JObj obj \<Rightarrow> JObj [
             (''run_state'', get obj ''run_state''),
             (''pending_ord'', if get obj ''pending_ord'' = JUndefined then JNull else get obj ''pending_ord''),
             (''pending_role_title'',
                if get obj ''pending_role_title'' = JUndefined then JNull else get obj ''pending_role_title''),
             (''pending_holder_warn'', JBool (get obj ''pending_holder_warn'' = JBool True)),
             (''due_at'', if get obj ''due_at'' = JUndefined then JNull else get obj ''due_at''),
             (''overdue'', JBool (get obj ''overdue'' = JBool True))]
         | _ \<Rightarrow> JNull)
      else get raw k)"
proof -
  have "get (getInvoice res) k = (case map_of DETAIL_KEYS k of None \<Rightarrow> get res k | Some Flag \<Rightarrow> JBool (get res k = JBool True)
      | Some Nullable \<Rightarrow> if get res k = JUndefined then JNull else get res k)"
    unfolding get_getInvoice by (simp add: is_true_def or_null_eq split: option.split wire_kind.split)
  moreover have "get (normaliseInvoiceRow raw) k = (if k = ''approval'' then normalise_approval (get raw k)
      else case map_of ROW_KEYS k of None \<Rightarrow> get raw k | Some Flag \<Rightarrow> JBool (get raw k = JBool True)
      | Some Nullable \<Rightarrow> if get raw k = JUndefined then JNull else get raw k)"
    unfolding get_normaliseInvoiceRow by (simp add: is_true_def or_null_eq split: option.split wire_kind.split)
  ultimately show ?thesis
    unfolding get_DETAIL_KEYS get_ROW_KEYS if_same_case
    by (simp add: normalise_approval_def is_true_def or_null_eq cong: if_cong split: json.split)
qed

subsection \<open>The clamp\<close>

lemma clamp_end_le: "clamp_end s n \<le> n"
  by (induction s n rule: clamp_end.induct) auto

lemma clamp_end_cont: "clamp_end s n < j \<Longrightarrow> j \<le> n \<Longrightarrow> is_cont (s ! j)"
  by (induction s n rule: clamp_end.induct) (auto simp: le_Suc_eq split: if_splits)

lemma clamp_end_stop: "clamp_end s n = 0 \<or> \<not> is_cont (s ! clamp_end s n)"
  by (induction s n rule: clamp_end.induct) auto

text \<open>The clamped search text. A text of at most 200 bytes is sent as it is; of a longer one the
  longest run of whole characters that fits in 200 bytes is sent, so it is valid UTF-8 and no
  character is split.\<close>

theorem clampFilterText_whole_chars:
  assumes "valid_utf8 s"
  shows "\<exists>cs k. s = concat cs \<and> list_all utf8_char cs \<and> clampFilterText s = concat (take k cs) \<and>
    length (clampFilterText s) \<le> 200 \<and> valid_utf8 (clampFilterText s) \<and>
    (k = length cs \<or> 200 < length (concat (take (Suc k) cs)))"
proof -
  obtain cs where cs: "s = concat cs" "list_all utf8_char cs" using valid_utf8_chars [OF assms] by blast
  show ?thesis
  proof (cases "length s \<le> 200")
    case True
    then show ?thesis
      using cs assms by (intro exI [of _ cs] exI [of _ "length cs"]) (simp add: clampFilterText_def)
  next
    case False
    define e where "e = clamp_end s 200"
    have e: "e \<le> 200" by (simp add: e_def clamp_end_le)
    have clamp: "clampFilterText s = take e s" using False by (simp add: clampFilterText_def e_def)
    obtain k where k: "k < length cs" "e = length (concat (take k cs))"
    proof (cases "e = 0")
      case True
      have "cs \<noteq> []" using False cs by auto
      then show ?thesis using True that [of 0] by simp
    next
      case False
      then have "\<not> is_cont (s ! e)" using clamp_end_stop [of s 200] by (simp add: e_def)
      moreover have "e < length (concat cs)" using e \<open>\<not> length s \<le> 200\<close> cs by simp
      ultimately show ?thesis using char_boundary [OF cs(2), of e] cs that by auto
    qed
    have split: "s = concat (take k cs) @ concat (drop k cs)"
      using cs by (metis append_take_drop_id concat_append)
    then have pre: "take e s = concat (take k cs)" using k by simp
    have "200 < length (concat (take (Suc k) cs))"
    proof (rule ccontr)
      assume short: "\<not> 200 < length (concat (take (Suc k) cs))"
      define j where "j = length (concat (take (Suc k) cs))"
      have take_S: "take (Suc k) cs = take k cs @ [cs ! k]" using k by (simp add: take_Suc_conv_app_nth)
      have "utf8_char (cs ! k)" using cs k by (simp add: list_all_length)
      then have "e < j" using k take_S by (simp add: j_def utf8_char_def)
      have "j \<le> 200" using short by (simp add: j_def)
      then have "j < length s" using False by simp
      then have "Suc k < length cs"
        using cs by (metis j_def le_less_linear less_irrefl take_all_iff)
      then have "concat (drop (Suc k) cs) = cs ! Suc k @ concat (drop (Suc (Suc k)) cs)"
        by (simp flip: Cons_nth_drop_Suc)
      moreover have "utf8_char (cs ! Suc k)" using cs \<open>Suc k < length cs\<close> by (simp add: list_all_length)
      moreover have "s = concat (take (Suc k) cs) @ concat (drop (Suc k) cs)"
        using cs by (metis append_take_drop_id concat_append)
      ultimately have "\<not> is_cont (s ! j)"
        by (cases "cs ! Suc k") (auto simp: j_def nth_append utf8_char_def)
      with clamp_end_cont [of s 200 j] \<open>e < j\<close> \<open>j \<le> 200\<close> show False by (simp add: e_def)
    qed
    moreover have "valid_utf8 (concat (take k cs))"
      using cs by (intro valid_utf8_concat) (auto simp: list_all_iff dest: in_set_takeD)
    ultimately show ?thesis
      using cs pre clamp e k by (intro exI [of _ cs] exI [of _ k]) simp
  qed
qed

definition clamp_example :: string where
  "clamp_example = concat (replicate 67 (bytes [0xE2, 0x82, 0xA6]))"

theorem clampFilterText_witness:
  "valid_utf8 (clampFilterText clamp_example) \<and> length (clampFilterText clamp_example) \<le> 200"
proof -
  have "utf8_char (bytes [0xE2, 0x82, 0xA6])" by code_simp
  then have "valid_utf8 clamp_example"
    unfolding clamp_example_def by (intro valid_utf8_concat) (simp add: list_all_iff)
  from clampFilterText_whole_chars [OF this] show ?thesis by blast
qed

subsection \<open>Pages\<close>

text \<open>The listing endpoint as the callers rely on it: it clamps the limit to its own ceiling, echoes
  the limit it used, and serves that slice of the set with the size of the whole set.\<close>

definition serve_pages :: "int \<Rightarrow> 'row list \<Rightarrow> int \<Rightarrow> int \<Rightarrow> 'row list_response option" where
  "serve_pages cap rows limit offset = Some
     \<lparr>ls_invoices = take (nat (min limit cap)) (drop (nat offset) rows),
      ls_pagination = \<lparr>pg_limit = min limit cap, pg_offset = offset, pg_total = int (length rows)\<rparr>\<rparr>"

lemma pages_concat: "concat (map (\<lambda>k. take c (drop (k * c) xs)) [0..<p]) = take (p * c) xs"
proof (induction p)
  case (Suc p)
  have "Suc p * c = p * c + c" by simp
  then show ?case using Suc by (simp only: take_add upt_Suc_append map_append concat_append) simp
qed simp

lemma page_numbers: "[2..int p] = map (\<lambda>k. int k + 1) [1..<p]"
proof (induction p)
  case (Suc p)
  show ?case
  proof (cases "p = 0")
    case False
    then have "[2..int (Suc p)] = [2..int p] @ [int (Suc p)]"
      using upto_rec2 [of 2 "int (Suc p)"] by simp
    with Suc False show ?thesis by simp
  qed simp
qed simp

lemma ceil_pages:
  assumes "0 < c"
  shows "- ((- int n) div int c) = int ((n + c - 1) div c)"
proof -
  define q r where "q = (n + c - 1) div c" and "r = (n + c - 1) mod c"
  have e: "n + c - 1 = q * c + r" "r < c" using assms by (simp_all add: q_def r_def)
  then have "n + c = q * c + r + 1" using assms by linarith
  then have "int n + int c = int q * int c + int r + 1" by (metis of_nat_1 of_nat_add of_nat_mult)
  then have "- int n = int c * (- int q) + (int c - 1 - int r)" by (simp add: algebra_simps)
  then have "(- int n) div int c = - int q" using e(2) by (intro int_div_pos_eq) auto
  then show ?thesis by (simp add: q_def)
qed

lemma those_Some: "those (map (\<lambda>x. Some (f x)) xs) = Some (map f xs)"
  by (induction xs) simp_all

text \<open>C22: fetching the whole set. From a server that pages a set of rows, \<open>fetchAllInvoices\<close> returns
  the first ten pages' worth in order, without a gap or a repetition: the whole set when it fits,
  and it says that the set was truncated exactly when it did not fit.\<close>

theorem fetchAllInvoices_complete:
  assumes "1 \<le> cap" "cap \<le> 200"
  shows "fetchAllInvoices (serve_pages cap rows) = Some
    \<lparr>al_invoices = take (nat (10 * cap)) rows, al_total = int (length rows),
     al_fetched = int (length (take (nat (10 * cap)) rows)),
     al_truncated = (10 * cap < int (length rows))\<rparr>"
proof -
  define c where "c = nat cap"
  define n where "n = length rows"
  define q where "q = (n + c - 1) div c"
  define p where "p = min q 10"
  have c: "0 < c" "cap = int c" "min 200 cap = cap" using assms by (simp_all add: c_def)
  have q: "n \<le> q * c" "q * c < n + c"
  proof -
    have e: "n + c - 1 = q * c + (n + c - 1) mod c" "(n + c - 1) mod c < c"
      using c by (simp_all add: q_def)
    then show "n \<le> q * c" "q * c < n + c" using c by linarith+
  qed
  have pages: "min (- ((- int n) div cap)) 10 = int p"
    unfolding c(2) ceil_pages [OF c(1)] by (simp add: p_def q_def)
  have trunc: "(int p = 10 \<and> 10 * cap < int n) = (10 * cap < int n)"
  proof -
    have "10 \<le> q" if "10 * c < n"
    proof (rule ccontr)
      assume "\<not> 10 \<le> q"
      then have "q * c \<le> 9 * c" by simp
      with that q c show False by linarith
    qed
    then show ?thesis by (auto simp: p_def c(2))
  qed
  have whole: "take (p * c) rows = take (10 * c) rows"
  proof (cases "q \<le> 10")
    case True
    then have "q * c \<le> 10 * c" by simp
    then have "length rows \<le> 10 * c" using q(1) unfolding n_def by linarith
    with True q show ?thesis by (simp add: p_def n_def)
  qed (simp add: p_def)
  have first: "take c rows @ concat (map (\<lambda>k. take c (drop (k * c) rows)) [1..<p]) = take (p * c) rows"
  proof (cases "p = 0")
    case True
    then have "q = 0" by (simp add: p_def)
    then have "n = 0" using q(1) by simp
    with True show ?thesis by (simp add: n_def)
  next
    case False
    then have "[0..<p] = 0 # [1..<p]" by (simp add: upt_conv_Cons)
    then show ?thesis using pages_concat [of c rows p] by simp
  qed
  have "\<not> cap < 1" using assms by simp
  then have off: "remainingPageOffsets (int n) cap 10 = (map (\<lambda>k. int k * cap) [1..<p], 10 * cap < int n)"
    unfolding remainingPageOffsets_def Let_def pages trunc by (simp add: page_numbers)
  have answers: "those (map (serve_pages cap rows cap) (map (\<lambda>k. int k * cap) [1..<p])) =
      Some (map (\<lambda>k. the (serve_pages cap rows cap (int k * cap))) [1..<p])"
    using those_Some [of "\<lambda>k. the (serve_pages cap rows cap (int k * cap))" "[1..<p]"]
    by (simp add: serve_pages_def comp_def)
  have slice: "ls_invoices (the (serve_pages cap rows cap (int k * cap))) = take c (drop (k * c) rows)" for k
    by (simp add: serve_pages_def c(2) nat_mult_distrib)
  obtain pg where pg: "serve_pages cap rows 200 0 = Some pg" "ls_invoices pg = take c rows"
    "pg_limit (ls_pagination pg) = cap" "pg_total (ls_pagination pg) = int n"
    using c by (simp add: serve_pages_def n_def)
  have "concat (map ls_invoices (pg # map (\<lambda>k. the (serve_pages cap rows cap (int k * cap))) [1..<p])) =
      take (10 * c) rows"
    using first whole by (simp add: pg slice comp_def)
  moreover have "nat (10 * cap) = 10 * c" by (simp add: c_def)
  ultimately show ?thesis
    unfolding fetchAllInvoices_def AGGREGATE_PAGE_SIZE_def AGGREGATE_MAX_PAGES_def pg option.case Let_def
      off prod.case answers by (simp add: n_def)
qed

theorem fetchAllInvoices_witness:
  "fetchAllInvoices (serve_pages 2 [1 :: nat, 2, 3, 4, 5]) = Some
    \<lparr>al_invoices = [1, 2, 3, 4, 5], al_total = 5, al_fetched = 5, al_truncated = False\<rparr>"
  using fetchAllInvoices_complete [of 2 "[1 :: nat, 2, 3, 4, 5]"] by simp

subsection \<open>Selection and flags\<close>

interpretation submit_selection: row_selection iv_id isRowSelectable toggleSelection pruneSelection
  by unfold_locales (auto simp: toggleSelection_def pruneSelection_def selectableIds_def image_iff
      intro!: filter_cong)

lemma selectAllState_all:
  "selectAllState sel rows = AllSelected \<longleftrightarrow>
     selectableIds rows \<noteq> [] \<and> set (selectableIds rows) \<subseteq> set sel"
proof -
  have "length (filter (\<lambda>i. i \<in> set sel) l) = length l \<longleftrightarrow> set l \<subseteq> set sel" for l :: "string list"
    by (metis filter_True filter_id_conv length_filter_less nat_neq_iff subset_code(1))
  moreover have "filter (\<lambda>i. i \<in> set sel) l = [] \<and> set l \<subseteq> set sel \<longrightarrow> l = []" for l :: "string list"
    by (cases l) auto
  ultimately show ?thesis by (auto simp: selectAllState_def Let_def)
qed

lemma flags_loop:
  "map_of (foldl (\<lambda>flags reason.
      case mbsPathToEditField (rr_path reason) of
        None \<Rightarrow> flags
      | Some fld \<Rightarrow> if map_of flags fld = None then al_set fld (rr_code reason) flags else flags) m rs) f =
   (case map_of m f of Some c \<Rightarrow> Some c
    | None \<Rightarrow> map_option rr_code (find (\<lambda>r. mbsPathToEditField (rr_path r) = Some f) rs))"
  by (induction rs arbitrary: m) (auto split: option.splits)

text \<open>The first reason that maps to a field gives the field its flag.\<close>

lemma reasonFieldFlags_first:
  "map_of (reasonFieldFlags rs) f =
     map_option rr_code (find (\<lambda>r. mbsPathToEditField (rr_path r) = Some f) rs)"
  by (simp add: reasonFieldFlags_def flags_loop)

subsection \<open>Lines\<close>

lemma row_value_canonLine:
  "k \<in> set LINE_EDIT_FIELDS \<Longrightarrow> row_value (canonLine l) k = canonField (ln_value l k)"
proof -
  assume k: "k \<in> set LINE_EDIT_FIELDS"
  have "''id'' \<notin> set LINE_EDIT_FIELDS" by code_simp
  then show ?thesis
    using k by (auto simp: row_value_def canonLine_def Let_def map_of_tabulate split: option.split)
qed

text \<open>The lines of a PATCH. The key is left out exactly when the two editors hold the same lines,
  position by position over the editable fields, an empty field counting as absent (so an untouched
  editor sends nothing); otherwise every edited line is sent, in order, a stored line under its own
  id, and never with an empty string.\<close>

theorem diffLineItems_spec:
  "(diffLineItems original edited = None \<longleftrightarrow>
      map (\<lambda>l. map (\<lambda>k. canonField (ln_value l k)) LINE_EDIT_FIELDS) edited =
      map (\<lambda>l. map (\<lambda>k. canonField (ln_value l k)) LINE_EDIT_FIELDS) original) \<and>
   diffLineItems original original = None \<and>
   (case diffLineItems original edited of
      None \<Rightarrow> True
    | Some sent \<Rightarrow> sent = map canonLine edited \<and>
        list_all (list_all (\<lambda>(k, v). v \<noteq> Some '''')) sent)"
proof -
  have iff: "diffLineItems original edited = None \<longleftrightarrow>
      map (\<lambda>l. map (\<lambda>k. canonField (ln_value l k)) LINE_EDIT_FIELDS) edited =
      map (\<lambda>l. map (\<lambda>k. canonField (ln_value l k)) LINE_EDIT_FIELDS) original" for original edited
  proof -
    define view where "view row = map (row_value row) LINE_EDIT_FIELDS" for row
    have v: "view (canonLine l) = map (\<lambda>k. canonField (ln_value l k)) LINE_EDIT_FIELDS" for l
      by (simp add: view_def row_value_canonLine)
    have eq: "list_all (\<lambda>k. row_value row k = row_value old k) LINE_EDIT_FIELDS \<longleftrightarrow> view row = view old"
      for row old by (simp add: view_def list_all_iff)
    show ?thesis
    proof (cases "length edited = length original")
      case True
      then show ?thesis
        unfolding diffLineItems_def Let_def eq
        using list_all_zip_eq [of "map canonLine edited" "map canonLine original" view view]
        by (simp add: v comp_def)
    next
      case False
      then show ?thesis by (auto simp: diffLineItems_def Let_def dest: map_eq_imp_length_eq)
    qed
  qed
  have "list_all (\<lambda>(k, v). v \<noteq> Some '''') (canonLine l)" for l
    by (auto simp: canonLine_def Let_def canonField_def list_all_iff split: option.split)
  then have "list_all (list_all (\<lambda>(k, v). v \<noteq> Some '''')) (map canonLine edited)"
    by (simp add: list_all_iff)
  moreover have "diffLineItems original edited = None \<or> diffLineItems original edited = Some (map canonLine edited)"
    by (simp add: diffLineItems_def Let_def)
  ultimately have "case diffLineItems original edited of None \<Rightarrow> True
    | Some sent \<Rightarrow> sent = map canonLine edited \<and> list_all (list_all (\<lambda>(k, v). v \<noteq> Some '''')) sent"
    by (elim disjE) simp_all
  then show ?thesis by (simp add: iff)
qed

end
