(* ===== verification/Import_Flow.thy ===== *)
theory Import_Flow
  imports Invoices
begin

text \<open>
  The import wizard's pure layer: the wire types of \<open>lib/importApi.ts\<close>, picked files, steps and
  columns (\<open>lib/importFlow.ts\<close>, \<open>formatBytes\<close> of \<open>lib/sourceDocument.ts\<close>) and the summary of a
  report (\<open>lib/importReport.ts\<close>).
\<close>

subsection \<open>Wire types\<close>

record import_preview =
  ip_document_id :: string
  ip_format :: string
  ip_delimiter :: "string option"
  ip_encoding :: "string option"
  ip_columns :: "string list"
  ip_sample_rows :: "string list list"
  ip_rows_total :: int

record row_error =
  re_row :: "int option"
  re_rows :: "int list option"
  re_field :: "string option"
  re_rule_key :: "string option"
  re_severity :: "string option"
  re_invoice_id :: "string option"
  re_message :: string

record rule_violation =
  rv_rule_key :: string
  rv_severity :: string
  rv_message :: string
  rv_path :: "string option"
  rv_expected :: "string option"
  rv_actual :: "string option"

record invoice_violations =
  nv_invoice_number :: string
  nv_invoice_id :: "string option"
  nv_rows :: "int list"
  nv_violations :: "rule_violation list"

datatype import_status = Pending | Processing | Completed | Import_Failed | Other_Import_Status string

record import_report =
  ir_id :: string
  ir_status :: import_status
  ir_format :: string
  ir_delimiter :: "string option"
  ir_encoding :: "string option"
  ir_rows_total :: int
  ir_rows_valid :: int
  ir_rows_invalid :: int
  ir_ready_invoices :: int
  ir_quarantined_invoices :: int
  ir_errors :: "row_error list"
  ir_rule_set_version :: "int option"
  ir_invoices_clean :: int
  ir_invoices_with_violations :: int
  ir_invoice_violations :: "invoice_violations list"

record import_batch =
  ib_id :: string
  ib_entity_id :: string
  ib_filename :: "string option"
  ib_document_id :: "string option"
  ib_status :: import_status
  ib_rows_total :: int
  ib_rows_valid :: int
  ib_rows_invalid :: int
  ib_errors :: "row_error list"
  ib_rule_set_version :: "int option"
  ib_created_at :: string

definition rowErrorRows :: "row_error \<Rightarrow> int list" where
  "rowErrorRows e = (case re_rows e of
      Some rows \<Rightarrow> rows
    | None \<Rightarrow> (case re_row e of Some row \<Rightarrow> [row] | None \<Rightarrow> []))"

text \<open>The report's summary (\<open>lib/importReport.ts\<close>): anything but \<open>completed\<close> is a failure.\<close>

datatype report_summary =
    Failed_Report string
  | Completed_Report string int int int int int int "int option"

definition reportSummary :: "import_report \<Rightarrow> report_summary" where
  "reportSummary r =
    (if ir_status r \<noteq> Completed then Failed_Report (ir_id r)
     else Completed_Report (ir_id r) (ir_rows_valid r) (ir_rows_total r) (ir_ready_invoices r)
       (ir_quarantined_invoices r) (ir_invoices_clean r) (ir_invoices_with_violations r)
       (ir_rule_set_version r))"

datatype upload_phase = Phase_Idle | Sending int int | Phase_Processing | Phase_Done | Phase_Error string

text \<open>\<open>Math.round\<close> rounds halves up.\<close>

definition math_round :: "rat \<Rightarrow> int" where
  "math_round q = \<lfloor>q + 1 / 2\<rfloor>"

definition uploadPercent :: "upload_phase \<Rightarrow> int option" where
  "uploadPercent p = (case p of
      Phase_Done \<Rightarrow> Some 100
    | Sending loaded tot \<Rightarrow> if tot > 0 then Some (math_round (of_int loaded / of_int tot * 100)) else None
    | _ \<Rightarrow> None)"

subsection \<open>Picked files\<close>

datatype picked_kind = Spreadsheet | Document

record picked_type =
  pt_ext :: string
  pt_kind :: picked_kind
  pt_contentTypes :: "string list"

definition ACCEPTED_PICKED_TYPES :: "picked_type list" where
  "ACCEPTED_PICKED_TYPES = [
    \<lparr>pt_ext = ''.csv'', pt_kind = Spreadsheet, pt_contentTypes = [''text/csv'']\<rparr>,
    \<lparr>pt_ext = ''.xlsx'', pt_kind = Spreadsheet,
     pt_contentTypes = [''application/vnd.openxmlformats-officedocument.spreadsheetml.sheet'']\<rparr>,
    \<lparr>pt_ext = ''.pdf'', pt_kind = Document, pt_contentTypes = [''application/pdf'']\<rparr>,
    \<lparr>pt_ext = ''.docx'', pt_kind = Document,
     pt_contentTypes = [''application/vnd.openxmlformats-officedocument.wordprocessingml.document'']\<rparr>]"

text \<open>\<open>toLowerCase\<close> on the ASCII letters. The other letters whose lower case is ASCII text are U+212A
  (\<open>k\<close>) and U+0130 (\<open>i\<close> and a combining dot): no extension or content type below contains a \<open>k\<close>,
  and the combining dot keeps the second apart from every one of them.\<close>

definition lower_char :: "char \<Rightarrow> char" where
  "lower_char c = (if 65 \<le> byte c \<and> byte c \<le> 90 then char_of (byte c + 32) else c)"

definition ascii_lower :: "string \<Rightarrow> string" where
  "ascii_lower s = map lower_char s"

text \<open>\<open>s.slice(s.lastIndexOf('.'))\<close>, \<^const>\<open>None\<close> when there is no dot.\<close>

definition from_last_dot :: "string \<Rightarrow> string option" where
  "from_last_dot s =
    (if CHR ''.'' \<in> set s then Some (CHR ''.'' # rev (takeWhile (\<lambda>c. c \<noteq> CHR ''.'') (rev s))) else None)"

definition classifyPickedFile :: "string \<Rightarrow> string \<Rightarrow> picked_kind option" where
  "classifyPickedFile name type =
    (case Option.bind (from_last_dot (ascii_lower name))
            (\<lambda>ext. find (\<lambda>row. pt_ext row = ext) ACCEPTED_PICKED_TYPES) of
       Some row \<Rightarrow> Some (pt_kind row)
     | None \<Rightarrow>
         (let base = ascii_lower (trim (takeWhile (\<lambda>c. c \<noteq> CHR '';'') type))
          in map_option pt_kind (find (\<lambda>row. base \<in> set (pt_contentTypes row)) ACCEPTED_PICKED_TYPES)))"

definition hasImportableExtension :: "string \<Rightarrow> bool" where
  "hasImportableExtension name \<longleftrightarrow> classifyPickedFile name '''' = Some Spreadsheet"

record js_file =
  fi_name :: string
  fi_type :: string
  fi_size :: int

definition MAX_UPLOAD_BYTES :: int where
  "MAX_UPLOAD_BYTES = 15 * 1024 * 1024"

definition canReadColumns :: "js_file option \<Rightarrow> bool" where
  "canReadColumns f = (case f of None \<Rightarrow> False
     | Some f \<Rightarrow> hasImportableExtension (fi_name f) \<and> fi_size f \<le> MAX_UPLOAD_BYTES)"

text \<open>\<open>formatBytes\<close> on the size of a file, a non-negative integer; the divisions by 1024 and the
  product by 10 are exact for the sizes in question.\<close>

definition BYTE_UNITS :: "string list" where
  "BYTE_UNITS = [''B'', ''KB'', ''MB'', ''GB'']"

fun byte_unit :: "nat \<Rightarrow> rat \<Rightarrow> nat \<Rightarrow> rat \<times> nat" where
  "byte_unit 0 value unit = (value, unit)"
| "byte_unit (Suc steps) value unit =
    (if math_round (value * 10) \<ge> 10240 then byte_unit steps (value / 1024) (unit + 1) else (value, unit))"

definition formatBytes :: "int \<Rightarrow> string" where
  "formatBytes n =
    (if n < 0 then ''0 B''
     else if n < 1024 then show_int n @ '' B''
     else let (value, unit) = byte_unit (length BYTE_UNITS - 2) (of_int n / 1024) 1;
              tenths = math_round (value * 10)
          in (if tenths mod 10 = 0 then show_int (tenths div 10)
              else show_int (tenths div 10) @ ''.'' @ show_int (tenths mod 10))
             @ '' '' @ BYTE_UNITS ! unit)"

subsection \<open>Steps\<close>

datatype create_step = Step_Upload | Step_Mapping | Step_Form | Step_Review | Step_Documents
datatype wizard_path = Typed | Import_Path | Document_Path

definition IMPORT_STEPS :: "(string \<times> string) list" where
  "IMPORT_STEPS = [(''1'', ''Import''), (''2'', ''Map''), (''3'', ''Review'')]"

definition WIZARD_STEPS :: "(string \<times> string) list" where
  "WIZARD_STEPS = [(''1'', ''Import''), (''2'', ''Review'')]"

definition ENTER_STEPS :: "(string \<times> string) list" where
  "ENTER_STEPS = [(''1'', ''Enter'')]"

fun STAGE_OF :: "create_step \<Rightarrow> nat" where
  "STAGE_OF Step_Upload = 0"
| "STAGE_OF Step_Mapping = 1"
| "STAGE_OF Step_Form = 0"
| "STAGE_OF Step_Review = 2"
| "STAGE_OF Step_Documents = 0"

fun IMPORT_STAGE_OF :: "create_step \<Rightarrow> nat option" where
  "IMPORT_STAGE_OF Step_Upload = Some 0"
| "IMPORT_STAGE_OF Step_Mapping = Some 1"
| "IMPORT_STAGE_OF Step_Review = Some 2"
| "IMPORT_STAGE_OF _ = None"

fun DOCUMENT_STAGE_OF :: "create_step \<Rightarrow> nat option" where
  "DOCUMENT_STAGE_OF Step_Upload = Some 0"
| "DOCUMENT_STAGE_OF Step_Documents = Some 0"
| "DOCUMENT_STAGE_OF Step_Review = Some 1"
| "DOCUMENT_STAGE_OF _ = None"

definition or_zero :: "nat option \<Rightarrow> nat" where
  "or_zero n = (case n of None \<Rightarrow> 0 | Some n \<Rightarrow> n)"

definition wizardHeader :: "create_step \<Rightarrow> wizard_path option \<Rightarrow> (string \<times> string) list \<times> nat" where
  "wizardHeader createStep runKind =
    (if createStep = Step_Form then (ENTER_STEPS, STAGE_OF createStep)
     else if createStep = Step_Documents \<or> runKind = Some Document_Path
       then (WIZARD_STEPS, or_zero (DOCUMENT_STAGE_OF createStep))
     else (IMPORT_STEPS, or_zero (IMPORT_STAGE_OF createStep)))"

datatype async_status = A_Idle | A_Loading | A_Ready | A_Empty | A_Error

definition computeNoEntity :: "'e option \<Rightarrow> async_status \<Rightarrow> int \<Rightarrow> int \<Rightarrow> bool" where
  "computeNoEntity activeEntity entitiesState entitiesCount clientsCount =
    (let entityAnswerSettled = entitiesState = A_Ready \<or> entitiesState = A_Empty;
         rosterCatchingUp = entitiesCount > 0 \<and> clientsCount = 0
     in activeEntity = None \<and> entityAnswerSettled \<and> \<not> rosterCatchingUp)"

subsection \<open>Columns\<close>

definition isMappableColumn :: "string \<Rightarrow> bool" where
  "isMappableColumn header \<longleftrightarrow> header \<noteq> ''''"

function column_loop :: "int \<Rightarrow> string \<Rightarrow> string" where
  "column_loop n out =
    (if n \<ge> 0 then column_loop (n div 26 - 1) (char_of (nat (65 + n mod 26)) # out) else out)"
  by pat_completeness auto
termination by (relation "measure (\<lambda>(n, _). nat (n + 1))") auto

declare column_loop.simps [simp del, loop_simps]

definition columnLetter :: "int \<Rightarrow> string" where
  "columnLetter ci = column_loop ci ''''"

record preview_column =
  pc_header :: string
  pc_letter :: string
  pc_mappable :: bool
  pc_samples :: "string list"

definition cell_at :: "string list \<Rightarrow> nat \<Rightarrow> string" where
  "cell_at row i = (if i < length row then row ! i else '''')"

definition previewColumns :: "import_preview \<Rightarrow> nat \<Rightarrow> preview_column list" where
  "previewColumns preview sampleCount =
    (let rows = take sampleCount (ip_sample_rows preview) in
     map (\<lambda>(ci, header). \<lparr>pc_header = header, pc_letter = columnLetter (int ci),
            pc_mappable = isMappableColumn header, pc_samples = map (\<lambda>row. cell_at row ci) rows\<rparr>)
       (zip [0..<length (ip_columns preview)] (ip_columns preview)))"

subsection \<open>Column letters are bijective base 26\<close>

text \<open>The number a sequence of letters stands for, one-based: A is 1, Z is 26, AA is 27.\<close>

definition letters_val :: "string \<Rightarrow> nat" where
  "letters_val s = foldl (\<lambda>a c. 26 * a + (byte c - 64)) 0 s"

lemma letters_foldl: "foldl (\<lambda>a c. 26 * a + (byte c - 64)) a s = a * 26 ^ length s + letters_val s"
proof (induction s arbitrary: a)
  case (Cons c s)
  from Cons [of "26 * a + (byte c - 64)"] Cons [of "byte c - 64"]
  show ?case by (simp add: letters_val_def algebra_simps)
qed (simp add: letters_val_def)

lemma letters_val_Cons: "letters_val (c # s) = (byte c - 64) * 26 ^ length s + letters_val s"
  using letters_foldl [of "byte c - 64" s] by (simp add: letters_val_def)

lemma column_loop_val:
  "-1 \<le> n \<Longrightarrow> letters_val (column_loop n out) = nat (n + 1) * 26 ^ length out + letters_val out"
proof (induction n out rule: column_loop.induct)
  case (1 n out)
  show ?case
  proof (cases "n \<ge> 0")
    case True
    define q r where "q = n div 26" and "r = n mod 26"
    have n: "n = 26 * q + r" "0 \<le> q" "0 \<le> r" "r < 26" using True by (simp_all add: q_def r_def)
    have b: "byte (char_of (nat (65 + r))) = nat (65 + r)" using n by (simp add: byte_def)
    have "letters_val (column_loop n out) = letters_val (column_loop (q - 1) (char_of (nat (65 + r)) # out))"
      using True by (simp add: column_loop.simps [of n out] q_def r_def)
    also have "\<dots> = nat q * 26 ^ Suc (length out) + letters_val (char_of (nat (65 + r)) # out)"
      using "1.IH" [OF True] n(2) unfolding q_def r_def by simp
    also have "\<dots> = (26 * nat q + nat (r + 1)) * 26 ^ length out + letters_val out"
    proof -
      have "byte (char_of (nat (65 + r))) - 64 = nat (r + 1)" unfolding b using n(3) by simp
      then show ?thesis by (simp only: letters_val_Cons power_Suc distrib_right mult.assoc mult.left_commute add.assoc)
    qed
    also have "26 * nat q + nat (r + 1) = nat (n + 1)" using n by simp
    finally show ?thesis .
  next
    case False
    with "1.prems" have "n = -1" by simp
    then show ?thesis by (simp add: column_loop.simps [of "-1" out])
  qed
qed

lemma column_loop_letters:
  "list_all (\<lambda>c. 65 \<le> byte c \<and> byte c \<le> 90) out \<Longrightarrow>
   list_all (\<lambda>c. 65 \<le> byte c \<and> byte c \<le> 90) (column_loop n out)"
proof (induction n out rule: column_loop.induct)
  case (1 n out)
  have "65 \<le> byte (char_of (nat (65 + n mod 26)))" "byte (char_of (nat (65 + n mod 26))) \<le> 90"
    by (simp_all add: byte_def nat_le_iff)
  with 1 show ?case by (cases "n \<ge> 0") (simp_all add: column_loop.simps [of n out])
qed

text \<open>Column letters. Every column index gets a word over A to Z, whose value in bijective base 26
  is the index plus one; so different columns have different letters.\<close>

theorem columnLetter_bijective:
  assumes "0 \<le> ci"
  shows "int (letters_val (columnLetter ci)) = ci + 1 \<and>
    list_all (\<lambda>c. 65 \<le> byte c \<and> byte c \<le> 90) (columnLetter ci)"
  using assms column_loop_val [of ci "''''"] column_loop_letters [of "''''" ci]
  by (simp add: columnLetter_def letters_val_def)

theorem columnLetter_witness:
  "int (letters_val (columnLetter 27)) = 28 \<and> columnLetter 27 = ''AB''"
proof
  show "int (letters_val (columnLetter 27)) = 28" using columnLetter_bijective [of 27] by simp
  show "columnLetter 27 = ''AB''" by code_simp
qed

end
