(* ===== verification/Mapping_Groups.thy ===== *)
theory Mapping_Groups
  imports Import_Flow
begin

text \<open>
  The column mapping of the Map step (\<open>lib/mapping.ts\<close>) and the groups of files that share a layout
  (\<open>lib/mappingGroups.ts\<close>). A mapping lists the canonical fields in order, each with the header it is
  placed on or \<open>null\<close>; a header is a text, never an index. A lookup of the service is a function of
  the document that is \<^const>\<open>None\<close> where the call rejects.
\<close>

type_synonym field_mapping = "(string \<times> string option) list"

record canon_field =
  cf_key :: string
  cf_required :: bool

definition CANON :: "canon_field list" where
  "CANON = map (\<lambda>key. \<lparr>cf_key = key,
     cf_required = list_ex (\<lambda>f. f_importKey f = Some key \<and> f_required f) INVOICE_FIELDS\<rparr>) IMPORT_KEYS"

definition ALIAS :: "(string \<times> string list) list" where
  "ALIAS = [
    (''issue_date'', [''issuedate'', ''date'']),
    (''buyer_tin'', [''buyertin'']),
    (''currency'', [''currency'', ''ccy'']),
    (''vat'', [''vat'']),
    (''total'', [''total'']),
    (''line_quantity'', [''qty'', ''quantity'']),
    (''line_unit_price'', [''unitprice''])]"

text \<open>\<open>String(s).toLowerCase().replace(/[^a-z0-9]/g, '')\<close>: besides the ASCII letters, U+212A lowers to
  \<open>k\<close> and U+0130 to \<open>i\<close> and a combining dot; every other byte of a character outside ASCII is
  removed.\<close>

fun norm :: "string \<Rightarrow> string" where
  "norm [] = []"
| "norm (c # s) =
    (if starts_with (bytes [0xE2, 0x84, 0xAA]) (c # s) then CHR ''k'' # norm (drop 2 s)
     else if starts_with (bytes [0xC4, 0xB0]) (c # s) then CHR ''i'' # norm (drop 1 s)
     else if is_alnum c then lower_char c # norm s
     else norm s)"

text \<open>What a mapping holds at a key: \<open>undefined\<close> and \<open>null\<close> are both \<^const>\<open>None\<close>.\<close>

definition placed :: "field_mapping \<Rightarrow> string \<Rightarrow> string option" where
  "placed m k = (case map_of m k of None \<Rightarrow> None | Some v \<Rightarrow> v)"

definition recognize_step ::
  "string list \<Rightarrow> field_mapping \<times> string list \<Rightarrow> canon_field \<Rightarrow> field_mapping \<times> string list"
where
  "recognize_step headers = (\<lambda>(res, used) c.
     case map_of ALIAS (cf_key c) of
       None \<Rightarrow> (res, used)
     | Some al \<Rightarrow>
         (case find (\<lambda>h. norm h \<in> set al \<and> h \<notin> set used) headers of
            None \<Rightarrow> (res, used)
          | Some hit \<Rightarrow>
              if hit = '''' then (res, used)
              else (al_set (cf_key c) (Some hit) res, hit # used)))"

definition recognize :: "string list \<Rightarrow> field_mapping" where
  "recognize headers =
    fst (foldl (recognize_step headers) (map (\<lambda>c. (cf_key c, None)) CANON, []) CANON)"

definition initMappingFromHeaders :: "string list \<Rightarrow> field_mapping" where
  "initMappingFromHeaders headers =
    (let rec = recognize headers in
     map (\<lambda>c. (cf_key c, if placed rec (cf_key c) = Some '''' then None else placed rec (cf_key c))) CANON)"

definition toImportMapping :: "field_mapping \<Rightarrow> (string \<times> string) list" where
  "toImportMapping m = concat (map (\<lambda>(k, v). case v of
      None \<Rightarrow> [] | Some h \<Rightarrow> if h = '''' then [] else [(k, h)]) m)"

definition canSubmitMapping :: "field_mapping option \<Rightarrow> bool" where
  "canSubmitMapping m \<longleftrightarrow> (case m of None \<Rightarrow> False
     | Some m \<Rightarrow> (case placed m ''invoice_number'' of None \<Rightarrow> False | Some h \<Rightarrow> h \<noteq> ''''))"

definition canStartImport :: "import_preview option \<Rightarrow> field_mapping option \<Rightarrow> bool" where
  "canStartImport preview m \<longleftrightarrow> preview \<noteq> None \<and> canSubmitMapping m"

definition restoreMapping :: "string list \<Rightarrow> (string \<times> string) list \<Rightarrow> field_mapping" where
  "restoreMapping headers saved =
    map (\<lambda>c. (cf_key c, case map_of saved (cf_key c) of
        None \<Rightarrow> None | Some v \<Rightarrow> if v \<in> set headers then Some v else None)) CANON"

definition fillUnplacedFromAliases :: "string list \<Rightarrow> field_mapping \<Rightarrow> field_mapping" where
  "fillUnplacedFromAliases headers m =
    (let claimed = concat (map (\<lambda>(_, v). case v of None \<Rightarrow> [] | Some h \<Rightarrow> [h]) m);
         auto = recognize headers
     in map (\<lambda>c. (cf_key c, case placed m (cf_key c) of
          Some held \<Rightarrow> Some held
        | None \<Rightarrow> (case placed auto (cf_key c) of
            None \<Rightarrow> None
          | Some alias \<Rightarrow> if alias \<noteq> '''' \<and> alias \<notin> set claimed then Some alias else None))) CANON)"

subsection \<open>Groups\<close>

text \<open>\<open>JSON.stringify\<close> of an array of strings.\<close>

definition json_char :: "char \<Rightarrow> string" where
  "json_char c =
    (if byte c = 34 then [char_of (92 :: nat), c]
     else if byte c = 92 then [c, c]
     else if byte c = 8 then [char_of (92 :: nat), CHR ''b'']
     else if byte c = 9 then [char_of (92 :: nat), CHR ''t'']
     else if byte c = 10 then [char_of (92 :: nat), CHR ''n'']
     else if byte c = 12 then [char_of (92 :: nat), CHR ''f'']
     else if byte c = 13 then [char_of (92 :: nat), CHR ''r'']
     else if byte c < 32 then char_of (92 :: nat) # ''u00'' @
       [lower_char (hex_digit (byte c div 16)), lower_char (hex_digit (byte c mod 16))]
     else [c])"

definition columnSignature :: "string list \<Rightarrow> string" where
  "columnSignature columns =
     ''['' @ join '','' (map (\<lambda>s. [char_of (34 :: nat)] @ concat (map json_char s) @ [char_of (34 :: nat)]) columns) @ '']''"

datatype invoice_kind = B2B | B2G | B2C

record restored_from =
  rf_savedAt :: string
  rf_mapping :: field_mapping

record suggested_from =
  sf_headerRow :: int
  sf_mapping :: field_mapping

record mapping_group =
  mg_id :: string
  mg_signature :: string
  mg_fileIds :: "string list"
  mg_preview :: import_preview
  mg_headerRow :: int
  mg_mapping :: field_mapping
  mg_restored :: "restored_from option"
  mg_suggested :: "suggested_from option"
  mg_invoiceKind :: "invoice_kind option"

text \<open>\<open>uuid n\<close> is the id of the n-th group a call creates.\<close>

definition add_to_group ::
  "(nat \<Rightarrow> string) \<Rightarrow> mapping_group list \<Rightarrow> string \<times> import_preview \<Rightarrow> mapping_group list"
where
  "add_to_group uuid groups = (\<lambda>(fileId, preview).
    let sig = columnSignature (ip_columns preview) in
    if list_ex (\<lambda>g. mg_signature g = sig) groups
    then map (\<lambda>g. if mg_signature g = sig then g\<lparr>mg_fileIds := mg_fileIds g @ [fileId]\<rparr> else g) groups
    else groups @ [\<lparr>mg_id = uuid (length groups), mg_signature = sig, mg_fileIds = [fileId],
           mg_preview = preview, mg_headerRow = 1, mg_mapping = initMappingFromHeaders (ip_columns preview),
           mg_restored = None, mg_suggested = None, mg_invoiceKind = None\<rparr>])"

definition groupByLayout :: "(nat \<Rightarrow> string) \<Rightarrow> (string \<times> import_preview) list \<Rightarrow> mapping_group list" where
  "groupByLayout uuid previewed = foldl (add_to_group uuid) [] previewed"

definition splitOut :: "string \<Rightarrow> mapping_group list \<Rightarrow> string \<Rightarrow> mapping_group list" where
  "splitOut uuid groups fileId =
    (case find_index (\<lambda>g. fileId \<in> set (mg_fileIds g)) groups of
       None \<Rightarrow> groups
     | Some i \<Rightarrow>
         (let g = groups ! i in
          if length (mg_fileIds g) \<le> 1 then groups
          else groups[i := g\<lparr>mg_fileIds := filter (\<lambda>x. x \<noteq> fileId) (mg_fileIds g)\<rparr>]
               @ [g\<lparr>mg_id := uuid, mg_fileIds := [fileId]\<rparr>]))"

definition truthy :: "string option \<Rightarrow> bool" where
  "truthy t \<longleftrightarrow> t \<noteq> None \<and> t \<noteq> Some ''''"

definition defaultInvoiceKindFor :: "mapping_group \<Rightarrow> invoice_kind option" where
  "defaultInvoiceKindFor g =
     (if truthy (placed (mg_mapping g) ''invoice_kind'') then None else mg_invoiceKind g)"

definition coverageSentence :: "mapping_group \<Rightarrow> (string \<times> string) list \<Rightarrow> string" where
  "coverageSentence g names =
    (let fileNames = map (\<lambda>i. case map_of names i of Some n \<Rightarrow> n | None \<Rightarrow> i) (mg_fileIds g);
         lst = (if length fileNames = 1 then hd fileNames
                else join '', '' (butlast fileNames) @ '' and '' @ (if fileNames = [] then ''undefined'' else last fileNames));
         noun = (if length fileNames = 1 then ''file'' else ''files'')
     in ''This mapping applies to '' @ show_nat (length fileNames) @ '' '' @ noun @ '': '' @ lst @ ''.'')"

definition groupOfFile :: "mapping_group list \<Rightarrow> string \<Rightarrow> mapping_group option" where
  "groupOfFile groups fileId = find (\<lambda>g. fileId \<in> set (mg_fileIds g)) groups"

record saved_mapping =
  sm_mapping :: "(string \<times> string) list"
  sm_saved_at :: string

definition applySavedMapping :: "mapping_group \<Rightarrow> saved_mapping option \<Rightarrow> mapping_group" where
  "applySavedMapping g saved = (case saved of
      None \<Rightarrow> g
    | Some s \<Rightarrow>
        (let m = restoreMapping (ip_columns (mg_preview g)) (sm_mapping s)
         in g\<lparr>mg_mapping := m, mg_restored := Some \<lparr>rf_savedAt = sm_saved_at s, rf_mapping = m\<rparr>\<rparr>))"

definition returnToAutomatic :: "mapping_group \<Rightarrow> mapping_group" where
  "returnToAutomatic g = g\<lparr>mg_mapping := initMappingFromHeaders (ip_columns (mg_preview g)),
     mg_restored := None, mg_suggested := None\<rparr>"

datatype placement_badge = Restored | Suggested | Auto

definition placementBadge :: "mapping_group \<Rightarrow> string \<Rightarrow> string \<Rightarrow> field_mapping \<Rightarrow> placement_badge option" where
  "placementBadge g fld header recognized =
    (if placed (mg_mapping g) fld \<noteq> Some header then None
     else if Option.bind (mg_restored g) (\<lambda>r. placed (rf_mapping r) fld) = Some header then Some Restored
     else if Option.bind (mg_suggested g) (\<lambda>s. placed (sf_mapping s) fld) = Some header then Some Suggested
     else if placed recognized fld = Some header then Some Auto
     else None)"

definition restoreGroups ::
  "mapping_group list \<Rightarrow> (string \<Rightarrow> saved_mapping option option) option \<Rightarrow> mapping_group list"
where
  "restoreGroups groups lookup = (case lookup of
      None \<Rightarrow> groups
    | Some look \<Rightarrow> map (\<lambda>g. case look (ip_document_id (mg_preview g)) of
          Some saved \<Rightarrow> applySavedMapping g saved | None \<Rightarrow> g) groups)"

datatype suggestion_source = From_Saved | From_AI | From_None

record suggest_mapping =
  su_source :: suggestion_source
  su_header_row :: int
  su_columns :: "string list"
  su_sample_rows :: "string list list"
  su_rows_total :: int
  su_mapping :: "(string \<times> string) list"
  su_saved_at :: "string option"

definition applySuggestion :: "mapping_group \<Rightarrow> suggest_mapping \<Rightarrow> mapping_group" where
  "applySuggestion g res =
    (if su_source res = From_None then g
     else let preview = (mg_preview g)\<lparr>ip_columns := su_columns res, ip_sample_rows := su_sample_rows res,
                ip_rows_total := su_rows_total res\<rparr>;
              m = restoreMapping (su_columns res) (su_mapping res);
              base = g\<lparr>mg_preview := preview, mg_signature := columnSignature (su_columns res),
                mg_mapping := m, mg_headerRow := su_header_row res\<rparr>
          in if su_source res = From_Saved
             then base\<lparr>mg_restored := Some \<lparr>rf_savedAt = (case su_saved_at res of None \<Rightarrow> '''' | Some t \<Rightarrow> t),
                         rf_mapping = m\<rparr>, mg_suggested := None\<rparr>
             else base\<lparr>mg_mapping := fillUnplacedFromAliases (su_columns res) m,
                       mg_suggested := Some \<lparr>sf_headerRow = su_header_row res, sf_mapping = m\<rparr>\<rparr>)"

definition suggestGroups ::
  "mapping_group list \<Rightarrow> (string \<Rightarrow> suggest_mapping option) option \<Rightarrow> mapping_group list"
where
  "suggestGroups groups suggest = (case suggest of
      None \<Rightarrow> groups
    | Some ask \<Rightarrow> map (\<lambda>g. if mg_restored g \<noteq> None then g
        else case ask (ip_document_id (mg_preview g)) of
          Some res \<Rightarrow> applySuggestion g res | None \<Rightarrow> g) groups)"

definition applyDoubts :: "mapping_group \<Rightarrow> string list \<Rightarrow> mapping_group" where
  "applyDoubts g doubted = g\<lparr>mg_mapping := foldl (\<lambda>m f.
      if list_ex (\<lambda>c. cf_key c = f) CANON \<and> truthy (placed m f) then al_set f None m else m)
    (mg_mapping g) doubted\<rparr>"

text \<open>The answer of the check is \<^const>\<open>None\<close> when it rejects and \<^term>\<open>Some None\<close> when \<open>doubted\<close> is not
  an array of strings.\<close>

definition checkGroups ::
  "mapping_group list \<Rightarrow> (string \<Rightarrow> (string \<times> string) list \<Rightarrow> string list option option) option \<Rightarrow> mapping_group list"
where
  "checkGroups groups check = (case check of
      None \<Rightarrow> groups
    | Some ask \<Rightarrow> map (\<lambda>g.
        let sent = toImportMapping (mg_mapping g) in
        if mg_restored g \<noteq> None \<or> length sent = 0 then g
        else case ask (ip_document_id (mg_preview g)) sent of
          Some (Some doubted) \<Rightarrow> applyDoubts g doubted
        | _ \<Rightarrow> g) groups)"

definition canSubmitAllMappings :: "mapping_group list \<Rightarrow> bool" where
  "canSubmitAllMappings groups \<longleftrightarrow>
     length groups > 0 \<and> list_all (\<lambda>g. canSubmitMapping (Some (mg_mapping g))) groups"

definition mappingsEqual :: "field_mapping \<Rightarrow> field_mapping \<Rightarrow> bool" where
  "mappingsEqual a b \<longleftrightarrow> list_all (\<lambda>k. map_of a k = map_of b k) (map fst a @ map fst b)"

definition rememberMapping :: "mapping_group \<Rightarrow> bool" where
  "rememberMapping g = (case mg_restored g of
      None \<Rightarrow> True | Some r \<Rightarrow> \<not> mappingsEqual (mg_mapping g) (rf_mapping r))"

subsection \<open>No header serves two fields\<close>

definition no_double :: "field_mapping \<Rightarrow> bool" where
  "no_double m \<longleftrightarrow> (\<forall>k k' h. placed m k = Some h \<longrightarrow> placed m k' = Some h \<longrightarrow> k = k')"

lemma placed_al_set [simp]: "placed (al_set k v m) k' = (if k' = k then v else placed m k')"
  by (simp add: placed_def)

lemma placed_tabulate: "placed (map (\<lambda>c. (f c, g c)) cs) k =
    (case find (\<lambda>c. f c = k) cs of None \<Rightarrow> None | Some c \<Rightarrow> g c)"
  by (induction cs) (auto simp: placed_def)

definition recognized_ok :: "string list \<Rightarrow> field_mapping \<times> string list \<Rightarrow> bool" where
  "recognized_ok headers = (\<lambda>(res, used). no_double res \<and>
     (\<forall>k h. placed res k = Some h \<longrightarrow> h \<in> set used \<and> h \<in> set headers \<and> h \<noteq> '''' \<and>
        (\<exists>al. map_of ALIAS k = Some al \<and> norm h \<in> set al)))"

interpretation recognizer:
  machine "(map (\<lambda>c. (cf_key c, None)) CANON, [])" "recognize_step headers" "recognized_ok headers"
  for headers
proof
  have "placed (map (\<lambda>c. (cf_key c, None)) CANON) k = None" for k
    by (simp add: placed_tabulate split: option.split)
  then show "recognized_ok headers (map (\<lambda>c. (cf_key c, None)) CANON, [])"
    by (simp add: recognized_ok_def no_double_def)
next
  fix s c assume ok: "recognized_ok headers s"
  obtain res used where s: "s = (res, used)" by (cases s)
  show "recognized_ok headers (recognize_step headers s c)"
  proof (cases "map_of ALIAS (cf_key c)")
    case None
    with ok show ?thesis by (simp add: recognize_step_def s)
  next
    case (Some al)
    show ?thesis
    proof (cases "find (\<lambda>h. norm h \<in> set al \<and> h \<notin> set used) headers")
      case None
      with ok Some show ?thesis by (simp add: recognize_step_def s)
    next
      case hit: (Some hit)
      then have "norm hit \<in> set al" "hit \<notin> set used" "hit \<in> set headers"
        by (auto simp: find_Some_iff)
      then show ?thesis
        using ok Some hit by (auto simp: recognize_step_def s recognized_ok_def no_double_def)
    qed
  qed
qed

lemma recognize_ok:
  "no_double (recognize headers)"
  "placed (recognize headers) k = Some h \<Longrightarrow>
     h \<in> set headers \<and> h \<noteq> '''' \<and> (\<exists>al. map_of ALIAS k = Some al \<and> norm h \<in> set al)"
proof -
  obtain res used where r: "foldl (recognize_step headers) (map (\<lambda>c. (cf_key c, None)) CANON, []) CANON = (res, used)"
    by fastforce
  have "recognized_ok headers (res, used)" using recognizer.good_run [of headers CANON] by (simp add: r)
  then show "no_double (recognize headers)" and "placed (recognize headers) k = Some h \<Longrightarrow>
     h \<in> set headers \<and> h \<noteq> '''' \<and> (\<exists>al. map_of ALIAS k = Some al \<and> norm h \<in> set al)"
    by (auto simp: recognize_def r recognized_ok_def)
qed

definition claimed_headers :: "field_mapping \<Rightarrow> string set" where
  "claimed_headers m = {h. \<exists>k. (k, Some h) \<in> set m}"

lemma placed_claimed: "placed m k = Some h \<Longrightarrow> h \<in> claimed_headers m"
  by (auto simp: placed_def claimed_headers_def split: option.splits dest: map_of_SomeD)

lemma find_CANON: "find (\<lambda>c. cf_key c = k) CANON = Some c \<Longrightarrow> cf_key c = k"
  by (auto simp: find_Some_iff)

lemma placed_fill:
  "placed (fillUnplacedFromAliases headers m) k =
    (if k \<notin> cf_key ` set CANON then None
     else case placed m k of
       Some h \<Rightarrow> Some h
     | None \<Rightarrow> (case placed (recognize headers) k of
         None \<Rightarrow> None | Some h \<Rightarrow> if h \<notin> claimed_headers m then Some h else None))"
proof -
  have claimed: "set (concat (map (\<lambda>(_, v). case v of None \<Rightarrow> [] | Some h \<Rightarrow> [h]) m)) = claimed_headers m"
    by (force simp: claimed_headers_def split: option.splits)
  show ?thesis
  proof (cases "find (\<lambda>c. cf_key c = k) CANON")
    case None
    then have "k \<notin> cf_key ` set CANON" by (auto simp: find_None_iff)
    with None show ?thesis by (simp add: fillUnplacedFromAliases_def placed_tabulate)
  next
    case (Some c)
    then have "cf_key c = k" "k \<in> cf_key ` set CANON" by (auto simp: find_Some_iff)
    with Some show ?thesis
      using recognize_ok(2) [of headers k]
      unfolding fillUnplacedFromAliases_def Let_def claimed placed_tabulate
      by (auto split: option.splits)
  qed
qed

text \<open>Automatic placement. Recognition places a field only on a header of the file whose
  normalised text is one of the field's aliases, and never two fields on one header; filling the
  unplaced fields of a mapping moves no field that is placed, takes no header that is taken, and so
  keeps a mapping without a doubly used header that way.\<close>

theorem automatic_placement:
  "no_double (recognize headers) \<and>
   (case placed (recognize headers) k of None \<Rightarrow> True
    | Some h \<Rightarrow> h \<in> set headers \<and> (\<exists>al. map_of ALIAS k = Some al \<and> norm h \<in> set al)) \<and>
   (case placed (fillUnplacedFromAliases headers m) k of None \<Rightarrow> True
    | Some h \<Rightarrow> if placed m k = None then h \<notin> claimed_headers m else placed m k = Some h) \<and>
   (if no_double m then no_double (fillUnplacedFromAliases headers m) else True)"
proof -
  have "no_double (fillUnplacedFromAliases headers m)" if "no_double m"
    unfolding no_double_def
  proof (intro allI impI)
    fix k k' h
    assume a: "placed (fillUnplacedFromAliases headers m) k = Some h"
      "placed (fillUnplacedFromAliases headers m) k' = Some h"
    consider "placed m k = Some h" "placed m k' = Some h"
      | "placed m k = None" "placed m k' = None" "placed (recognize headers) k = Some h"
        "placed (recognize headers) k' = Some h"
      | "h \<in> claimed_headers m" "h \<notin> claimed_headers m"
      using a placed_claimed by (auto simp: placed_fill split: option.splits if_splits)
    then show "k = k'"
    proof cases
      case 1
      then show ?thesis using that by (auto simp: no_double_def)
    next
      case 2
      then show ?thesis using recognize_ok(1) [of headers] by (auto simp: no_double_def)
    qed simp
  qed
  then show ?thesis
    using recognize_ok [of headers] by (auto simp: placed_fill split: option.splits)
qed

subsection \<open>What the service can change\<close>

lemma placed_doubts:
  "placed (foldl (\<lambda>m f. if list_ex (\<lambda>c. cf_key c = f) CANON \<and> truthy (placed m f) then al_set f None m else m)
     m fs) k \<in> {placed m k, None}"
proof (induction fs arbitrary: m)
  case (Cons f fs)
  from Cons [of m] Cons [of "al_set f None m"] show ?case by (auto split: if_splits)
qed simp

definition narrowed :: "mapping_group \<Rightarrow> mapping_group \<Rightarrow> bool" where
  "narrowed g g' \<longleftrightarrow> mg_id g' = mg_id g \<and> mg_fileIds g' = mg_fileIds g \<and> mg_restored g' = mg_restored g \<and>
     (\<forall>k. placed (mg_mapping g') k \<in> {placed (mg_mapping g) k, None}) \<and> (mg_restored g \<noteq> None \<longrightarrow> g' = g)"

lemma narrowed_refl: "narrowed g g"
  by (simp add: narrowed_def)

lemma narrowed_applyDoubts: "mg_restored g = None \<Longrightarrow> narrowed g (applyDoubts g fs)"
  using placed_doubts [where m = "mg_mapping g" and fs = fs] by (simp add: narrowed_def applyDoubts_def)

text \<open>Checking a mapping can only withdraw placements. Whatever the service answers, and whichever
  calls fail, the groups keep their order, ids and files, a restored group is not touched, and each
  field of the others is on the header it was on or on none.\<close>

theorem checkGroups_only_withdraws:
  "list_all2 narrowed groups (checkGroups groups check)"
proof -
  have "narrowed g (let sent = toImportMapping (mg_mapping g) in
        if mg_restored g \<noteq> None \<or> length sent = 0 then g
        else case ask (ip_document_id (mg_preview g)) sent of
          Some (Some doubted) \<Rightarrow> applyDoubts g doubted | _ \<Rightarrow> g)" for g ask
    by (auto simp: Let_def narrowed_refl narrowed_applyDoubts split: option.split)
  then show ?thesis
    by (auto simp: checkGroups_def list_all2_conv_all_nth narrowed_refl split: option.split)
qed

subsection \<open>Grouping by layout\<close>

definition sig_of :: "string \<times> import_preview \<Rightarrow> string" where
  "sig_of fp = columnSignature (ip_columns (snd fp))"

lemma groupByLayout_snoc: "groupByLayout uuid (ps @ [p]) = add_to_group uuid (groupByLayout uuid ps) p"
  by (simp add: groupByLayout_def)

text \<open>Grouping files by layout. The groups have distinct layouts, exactly those of the files, and
  each holds exactly the files with its layout, in the order they were picked.\<close>

theorem groupByLayout_partition:
  "distinct (map mg_signature (groupByLayout uuid ps)) \<and>
   set (map mg_signature (groupByLayout uuid ps)) = sig_of ` set ps \<and>
   map mg_fileIds (groupByLayout uuid ps) =
     map (\<lambda>g. map fst (filter (\<lambda>p. sig_of p = mg_signature g) ps)) (groupByLayout uuid ps)"
proof (induction ps rule: rev_induct)
  case Nil
  show ?case by (simp add: groupByLayout_def)
next
  case (snoc p ps)
  define G where "G = groupByLayout uuid ps"
  obtain f pv where p: "p = (f, pv)" by (cases p)
  have ih: "distinct (map mg_signature G)" "mg_signature ` set G = sig_of ` set ps"
    "\<And>g. g \<in> set G \<Longrightarrow> mg_fileIds g = map fst (filter (\<lambda>p. sig_of p = mg_signature g) ps)"
    using snoc by (simp_all add: G_def)
  show ?case
  proof (cases "list_ex (\<lambda>g. mg_signature g = sig_of p) G")
    case True
    then have new: "groupByLayout uuid (ps @ [p]) =
        map (\<lambda>g. if mg_signature g = sig_of p then g\<lparr>mg_fileIds := mg_fileIds g @ [f]\<rparr> else g) G"
      by (simp add: groupByLayout_snoc G_def add_to_group_def p sig_of_def)
    have sigs: "map mg_signature (groupByLayout uuid (ps @ [p])) = map mg_signature G"
      by (auto simp: new)
    have "sig_of p \<in> sig_of ` set ps" using True ih(2) by (force simp: list_ex_iff)
    moreover have "mg_fileIds h = map fst (filter (\<lambda>q. sig_of q = mg_signature h) (ps @ [p]))"
      if "h \<in> set (groupByLayout uuid (ps @ [p]))" for h
    proof -
      obtain g where "g \<in> set G"
        "h = (if mg_signature g = sig_of p then g\<lparr>mg_fileIds := mg_fileIds g @ [f]\<rparr> else g)"
        using \<open>h \<in> _\<close> by (auto simp: new)
      then show ?thesis using ih(3) [of g] p by (cases "mg_signature g = sig_of p") auto
    qed
    ultimately show ?thesis
      unfolding sigs set_map using ih(1,2) by (simp add: insert_absorb)
  next
    case False
    then have new: "groupByLayout uuid (ps @ [p]) = G @ [\<lparr>mg_id = uuid (length G), mg_signature = sig_of p,
        mg_fileIds = [f], mg_preview = pv, mg_headerRow = 1,
        mg_mapping = initMappingFromHeaders (ip_columns pv), mg_restored = None, mg_suggested = None,
        mg_invoiceKind = None\<rparr>]"
      by (simp add: groupByLayout_snoc G_def add_to_group_def p sig_of_def)
    have fresh: "sig_of p \<notin> sig_of ` set ps" using False ih(2) by (force simp: list_ex_iff)
    then have "filter (\<lambda>q. sig_of q = sig_of p) ps = []" unfolding filter_empty_conv by (metis image_eqI)
    moreover have "\<forall>g \<in> set G. mg_signature g \<noteq> sig_of p" using False by (simp add: list_ex_iff)
    ultimately show ?thesis using ih fresh unfolding new by (auto simp: p)
  qed
qed

end
