(* ===== verification/Import_Run.thy ===== *)
theory Import_Run
  imports Mapping_Groups
begin

text \<open>
  The run of picked files: selection under the five-file cap and the one-kind rule, the run's
  reducer, its rows and where it leads (\<open>lib/importRun.ts\<close>), and the document run that uploads,
  polls and imports (\<open>lib/documentRun.ts\<close>). The ids of \<open>crypto.randomUUID()\<close> are a parameter;
  clocks and service calls of the document run are parameters too.
\<close>

subsection \<open>Picking files\<close>

definition MAX_RUN_FILES :: nat where
  "MAX_RUN_FILES = 5"

record picked_file =
  pk_id :: string
  pk_file :: js_file
  pk_documentId :: "string option"

definition kind_of :: "js_file \<Rightarrow> picked_kind option" where
  "kind_of f = classifyPickedFile (fi_name f) (fi_type f)"

fun runKindOf :: "picked_file list \<Rightarrow> picked_kind option" where
  "runKindOf [] = None"
| "runKindOf (pf # rest) = (case kind_of (pk_file pf) of Some k \<Rightarrow> Some k | None \<Rightarrow> runKindOf rest)"

fun kind_text :: "picked_kind \<Rightarrow> string" where
  "kind_text Spreadsheet = ''spreadsheet''"
| "kind_text Document = ''document''"

definition kindRefusal :: "picked_kind \<Rightarrow> picked_kind \<Rightarrow> string" where
  "kindRefusal runKind incoming =
     ''A run holds one kind of file: this is a '' @ kind_text runKind @ '' run, so the '' @ kind_text incoming
     @ '' was not added. Remove the '' @ kind_text runKind @ '' files first, or start a separate ''
     @ kind_text incoming @ '' run.''"

definition kindMismatchNote :: "picked_kind \<Rightarrow> picked_kind \<Rightarrow> string" where
  "kindMismatchNote runKind fileKind =
     ''This is a '' @ kind_text runKind @ '' run '' @ em_dash @ '' a '' @ kind_text fileKind
     @ '' cannot be imported beside it. Remove it, or import it in a run of its own.''"

definition capRefusal :: "nat \<Rightarrow> string" where
  "capRefusal dropped =
    (let noun = (if dropped = 1 then ''file'' else ''files''); verb = (if dropped = 1 then ''was'' else ''were'')
     in ''A run accepts at most '' @ show_nat MAX_RUN_FILES @ '' files '' @ em_dash @ '' '' @ show_nat dropped
        @ '' '' @ noun @ '' '' @ verb @ '' not added.'')"

definition oversizeNote :: "js_file \<Rightarrow> string" where
  "oversizeNote f = (if fi_size f \<le> MAX_UPLOAD_BYTES then ''''
     else fi_name f @ '' is '' @ formatBytes (fi_size f) @ '' '' @ em_dash @ '' over the ''
          @ formatBytes MAX_UPLOAD_BYTES @ '' limit. Remove it, or split it into smaller files.'')"

text \<open>The loop of \<open>addFiles\<close>: accepted files, number dropped by the cap, first note on a kind.\<close>

fun accept_loop ::
  "nat \<Rightarrow> picked_kind option \<Rightarrow> js_file list \<times> nat \<times> string option \<Rightarrow> js_file list
     \<Rightarrow> js_file list \<times> nat \<times> string option"
where
  "accept_loop room runKind st [] = st"
| "accept_loop room runKind (accepted, dropped, kindNote) (f # rest) =
    (case (runKind, kind_of f) of
       (Some rk, Some k) \<Rightarrow>
         if k \<noteq> rk
         then accept_loop room runKind
                (accepted, dropped, (case kindNote of None \<Rightarrow> Some (kindRefusal rk k) | Some n \<Rightarrow> Some n)) rest
         else if length accepted \<ge> room then accept_loop room runKind (accepted, dropped + 1, kindNote) rest
         else accept_loop room runKind (accepted @ [f], dropped, kindNote) rest
     | _ \<Rightarrow>
         if length accepted \<ge> room then accept_loop room runKind (accepted, dropped + 1, kindNote) rest
         else accept_loop room runKind (accepted @ [f], dropped, kindNote) rest)"

definition addFiles ::
  "(nat \<Rightarrow> string) \<Rightarrow> picked_file list \<Rightarrow> js_file list \<Rightarrow> picked_file list \<times> string option"
where
  "addFiles uuid current incoming =
    (let room = MAX_RUN_FILES - length current;
         (accepted, dropped, kindNote) = accept_loop room (runKindOf current) ([], 0, None) incoming;
         files = current @ map (\<lambda>(n, f). \<lparr>pk_id = uuid n, pk_file = f, pk_documentId = None\<rparr>)
                   (zip [0..<length accepted] accepted)
     in (files, if dropped > 0 then Some (capRefusal dropped) else kindNote))"

definition removeFile :: "picked_file list \<Rightarrow> string \<Rightarrow> picked_file list" where
  "removeFile current i = filter (\<lambda>pf. pk_id pf \<noteq> i) current"

definition attachDocumentIds :: "picked_file list \<Rightarrow> (string \<times> import_preview) list \<Rightarrow> picked_file list" where
  "attachDocumentIds files previewed =
    map (\<lambda>pf. pf\<lparr>pk_documentId := map_option (\<lambda>p. ip_document_id (snd p))
           (find (\<lambda>p. fst p = pk_id pf) previewed)\<rparr>) files"

definition canReadColumnsAll :: "picked_file list \<Rightarrow> bool" where
  "canReadColumnsAll files \<longleftrightarrow> length files > 0 \<and> list_all (\<lambda>pf. canReadColumns (Some (pk_file pf))) files"

definition canStartDocumentRun :: "picked_file list \<Rightarrow> bool" where
  "canStartDocumentRun files \<longleftrightarrow> length files > 0 \<and>
     list_all (\<lambda>pf. kind_of (pk_file pf) = Some Document \<and> fi_size (pk_file pf) \<le> MAX_UPLOAD_BYTES) files"

subsection \<open>The run\<close>

datatype file_outcome =
    Outcome_Pending
  | Uploading upload_phase
  | Imported string import_report "string option"
  | Outcome_Failed string "string option"

record run_file =
  rn_id :: string
  rn_name :: string
  rn_groupId :: string
  rn_outcome :: file_outcome

datatype run_status = Run_Idle | Running | Finished | Run_Failed

record import_run =
  im_files :: "run_file list"
  im_cursor :: nat
  im_status :: run_status

datatype run_action =
    Start "run_file list"
  | Phase upload_phase
  | Settled file_outcome

definition runStatus :: "nat \<Rightarrow> nat \<Rightarrow> run_status" where
  "runStatus fileCount cursor = (if cursor \<ge> fileCount then Finished else Running)"

definition runIsActive :: "import_run \<Rightarrow> bool" where
  "runIsActive run \<longleftrightarrow> im_status run = Running \<or> im_status run = Finished"

text \<open>\<open>files.map((f, i) => (i === cursor ? \<dots> : f))\<close>: past the end it changes nothing, as a list
  update does.\<close>

definition put_outcome :: "nat \<Rightarrow> file_outcome \<Rightarrow> run_file list \<Rightarrow> run_file list" where
  "put_outcome cursor oc files =
     map (\<lambda>(i, f). if i = cursor then f\<lparr>rn_outcome := oc\<rparr> else f) (zip [0..<length files] files)"

fun runReducer :: "import_run \<Rightarrow> run_action \<Rightarrow> import_run" where
  "runReducer run (Start files) =
     \<lparr>im_files = files, im_cursor = 0, im_status = runStatus (length files) 0\<rparr>"
| "runReducer run (Phase phase) =
     (if im_status run = Finished then run
      else run\<lparr>im_files := put_outcome (im_cursor run) (Uploading phase) (im_files run)\<rparr>)"
| "runReducer run (Settled oc) =
     (let files = put_outcome (im_cursor run) oc (im_files run); cursor = im_cursor run + 1
      in \<lparr>im_files = files, im_cursor = cursor, im_status = runStatus (length files) cursor\<rparr>)"

definition runBatchIds :: "import_run \<Rightarrow> string list" where
  "runBatchIds run = concat (map (\<lambda>f. case rn_outcome f of
      Imported batchId _ _ \<Rightarrow> [batchId] | _ \<Rightarrow> []) (im_files run))"

definition runFailures :: "import_run \<Rightarrow> (string \<times> string \<times> string option) list" where
  "runFailures run = concat (map (\<lambda>f. case rn_outcome f of
      Outcome_Failed message documentId \<Rightarrow> [(rn_name f, message, documentId)] | _ \<Rightarrow> []) (im_files run))"

datatype row_state =
    Row_Queued | Row_Sending | Row_Processing | Row_Imported int | Row_Failed string
  | Row_Reading | Row_Retrying

definition runFileRows :: "import_run \<Rightarrow> (string \<times> row_state) list" where
  "runFileRows run = map (\<lambda>f. (rn_name f, case rn_outcome f of
      Outcome_Pending \<Rightarrow> Row_Queued
    | Uploading phase \<Rightarrow> (case phase of Sending _ _ \<Rightarrow> Row_Sending | _ \<Rightarrow> Row_Processing)
    | Imported _ report _ \<Rightarrow> Row_Imported (ir_ready_invoices report)
    | Outcome_Failed message _ \<Rightarrow> Row_Failed message)) (im_files run)"

definition markRunFailed :: "import_run \<Rightarrow> import_run" where
  "markRunFailed run = run\<lparr>im_status := Run_Failed\<rparr>"

definition markRunRouted :: "import_run \<Rightarrow> import_run" where
  "markRunRouted run = run\<lparr>im_status := Run_Idle\<rparr>"

subsection \<open>Where an import leads\<close>

datatype post_import_route =
    Single string
  | Review string
  | Rejected_Import string

definition routeAfterImport :: "import_report \<Rightarrow> string option \<Rightarrow> post_import_route" where
  "routeAfterImport report resolvedInvoiceId =
    (case reportSummary report of
       Failed_Report _ \<Rightarrow> Rejected_Import (ir_id report)
     | _ \<Rightarrow>
         if ir_ready_invoices report = 0 then Rejected_Import (ir_id report)
         else if ir_ready_invoices report = 1 \<and> truthy resolvedInvoiceId then Single (the resolvedInvoiceId)
         else Review (ir_id report))"

datatype run_route =
    To_Single string
  | To_Extraction string "string option"
  | To_Review "string list"
  | Nowhere

definition HELD_FIELD :: string where
  "HELD_FIELD = ''original_invoice_id''"

definition isHeldForOriginal :: "import_report \<Rightarrow> bool" where
  "isHeldForOriginal report \<longleftrightarrow> list_ex (\<lambda>e. re_field e = Some HELD_FIELD) (ir_errors report)"

definition routeAfterRun :: "import_run \<Rightarrow> string option \<Rightarrow> run_route" where
  "routeAfterRun run resolvedInvoiceId =
    (let batchIds = runBatchIds run in
     if length batchIds = 0 then Nowhere
     else if length (im_files run) = 1 then
       (case rn_outcome (hd (im_files run)) of
          Imported _ report jobId \<Rightarrow>
            if truthy jobId \<and> isHeldForOriginal report then To_Extraction (the jobId) None
            else (case routeAfterImport report resolvedInvoiceId of
                    Single invoiceId \<Rightarrow>
                      if truthy jobId then To_Extraction (the jobId) (Some invoiceId) else To_Single invoiceId
                  | _ \<Rightarrow> To_Review batchIds)
        | _ \<Rightarrow> To_Review batchIds)
     else To_Review batchIds)"

subsection \<open>Polling an extraction\<close>

record extraction_job =
  xj_id :: string
  xj_document_id :: string
  xj_state :: string
  xj_created_at :: string
  xj_last_error :: "string option"
  xj_failure_kind :: "string option"

definition EXTRACTION_POLL_BUDGET_MS :: int where "EXTRACTION_POLL_BUDGET_MS = 120000"
definition LIVE_POLL_MS :: int where "LIVE_POLL_MS = 2000"

definition isTerminalExtractionState :: "string \<Rightarrow> bool" where
  "isTerminalExtractionState state \<longleftrightarrow> state = ''succeeded'' \<or> state = ''dead_lettered''"

text \<open>\<open>a > b\<close> on two RFC3339 texts, which are ASCII: lexicographic on the bytes.\<close>

fun text_less :: "string \<Rightarrow> string \<Rightarrow> bool" where
  "text_less a [] = False"
| "text_less [] (b # bs) = True"
| "text_less (a # as) (b # bs) = (if byte a = byte b then text_less as bs else byte a < byte b)"

definition newestJob :: "extraction_job list \<Rightarrow> extraction_job option" where
  "newestJob jobs = foldl (\<lambda>newest job. case newest of
      None \<Rightarrow> Some job
    | Some n \<Rightarrow> if text_less (xj_created_at n) (xj_created_at job) then Some job else Some n) None jobs"

datatype poll_verdict = Waiting | Poll_Succeeded string | Poll_Failed string

definition manual_hint :: string where
  "manual_hint = '' Enter this invoice manually to carry on.''"

definition pollBudgetRefusal :: string where
  "pollBudgetRefusal =
     ''This document is still being read after '' @ show_int (math_round (of_int EXTRACTION_POLL_BUDGET_MS / 1000))
     @ '' seconds, and this run will not wait any longer. It was stored and the read continues.'' @ manual_hint"

definition deadLetterRefusal :: "string option \<Rightarrow> string option \<Rightarrow> string" where
  "deadLetterRefusal failureKind lastError =
    (let detail = (case lastError of None \<Rightarrow> ''the server gave no reason''
           | Some e \<Rightarrow> if e = '''' then ''the server gave no reason'' else e)
     in if failureKind = Some ''pages_not_rendered'' then
          ''This file is a PDF, and the reader could not open it '' @ em_dash
          @ '' it may be damaged, or protected by a password.'' @ manual_hint
        else if failureKind = Some ''text_not_read'' then
          ''The reader opened this document but could not get any text out of it.'' @ manual_hint
        else if failureKind = Some ''document_unavailable'' then
          ''This file was stored, but it could not be opened again for reading.'' @ manual_hint
        else if failureKind = Some ''page_rows_not_written'' then
          ''This document was read, but the result could not be stored.'' @ manual_hint
        else if failureKind = Some ''layout_not_written'' then
          ''This document was read, but its layout could not be stored.'' @ manual_hint
        else if failureKind = Some ''extract_failed'' then
          ''The reader ran, but pulling the invoice fields out of it failed '' @ em_dash @ '' '' @ detail @ ''.'' @ manual_hint
        else ''Reading this document failed '' @ em_dash @ '' '' @ detail @ ''.'' @ manual_hint)"

definition pollVerdict :: "extraction_job list \<Rightarrow> int \<Rightarrow> poll_verdict" where
  "pollVerdict jobs elapsedMs =
    (let late = (if elapsedMs > EXTRACTION_POLL_BUDGET_MS then Poll_Failed pollBudgetRefusal else Waiting) in
     case newestJob jobs of
       None \<Rightarrow> late
     | Some job \<Rightarrow>
         if isTerminalExtractionState (xj_state job)
         then (if xj_state job = ''succeeded'' then Poll_Succeeded (xj_id job)
               else Poll_Failed (deadLetterRefusal (xj_failure_kind job) (xj_last_error job)))
         else late)"

definition stageOf :: "extraction_job option \<Rightarrow> row_state option" where
  "stageOf job = (case job of
      None \<Rightarrow> Some Row_Queued
    | Some j \<Rightarrow>
        if xj_state j = ''queued'' then Some Row_Queued
        else if xj_state j = ''extracting'' then Some Row_Reading
        else if xj_state j = ''failed'' then Some Row_Retrying
        else None)"


text \<open>
  The poll loop. \<open>getJobs n\<close> is the answer of the service on the \<open>n\<close>th tick, \<^const>\<open>None\<close> a rejected
  promise, which ends the loop; \<open>now n\<close> is the clock when that tick reads it. The result is the
  stages reported so far, the verdict (\<^const>\<open>None\<close> when the promise rejects) and the tick the loop
  ended on. A loop that never settles has no result.
\<close>

definition tick_stage :: "extraction_job list \<Rightarrow> row_state list" where
  "tick_stage jobs = (case stageOf (newestJob jobs) of None \<Rightarrow> [] | Some stage \<Rightarrow> [stage])"

partial_function (option) poll_loop ::
  "(nat \<Rightarrow> extraction_job list option) \<Rightarrow> (nat \<Rightarrow> int) \<Rightarrow> int \<Rightarrow> nat \<Rightarrow> row_state list
     \<Rightarrow> (row_state list \<times> poll_verdict option \<times> nat) option"
where
  "poll_loop getJobs now startedAt n stages =
    (case getJobs n of
       None \<Rightarrow> Some (stages, None, n)
     | Some jobs \<Rightarrow>
         if pollVerdict jobs (now n - startedAt) \<noteq> Waiting
         then Some (stages @ tick_stage jobs, Some (pollVerdict jobs (now n - startedAt)), n)
         else poll_loop getJobs now startedAt (n + 1) (stages @ tick_stage jobs))"

declare poll_loop.simps [simp del, loop_simps]

definition pollUntilSettled ::
  "(nat \<Rightarrow> extraction_job list option) \<Rightarrow> (nat \<Rightarrow> int) \<Rightarrow> int
     \<Rightarrow> (row_state list \<times> poll_verdict option \<times> nat) option"
where
  "pollUntilSettled getJobs now startedAt = poll_loop getJobs now startedAt 0 []"

subsection \<open>The document run\<close>

text \<open>
  The services of \<open>startDocumentRun\<close>; \<open>Inl\<close> is the message of the error thrown. As \<open>App.tsx\<close> wires it,
  the poll reports its own stages under the file's id before it answers.
\<close>

record pipeline_deps =
  dp_upload :: "js_file \<Rightarrow> string + string"
  dp_poll :: "string \<Rightarrow> string \<Rightarrow> row_state list \<times> (string + poll_verdict)"
  dp_importDocument :: "string \<Rightarrow> string + import_report"

record document_run_file =
  df_id :: string
  df_name :: string
  df_file :: js_file

text \<open>One pipeline: the stages it reports, in order, and the outcome it returns. It returns one on
  every path, the caught errors included.\<close>

definition pipeline :: "pipeline_deps \<Rightarrow> document_run_file \<Rightarrow> row_state list \<times> file_outcome" where
  "pipeline deps f =
    (case dp_upload deps (df_file f) of
       Inl message \<Rightarrow> ([Row_Failed message], Outcome_Failed message None)
     | Inr documentId \<Rightarrow>
         (case dp_poll deps documentId (df_id f) of
            (stages, Inl message) \<Rightarrow> (stages @ [Row_Failed message], Outcome_Failed message (Some documentId))
          | (stages, Inr (Poll_Failed reason)) \<Rightarrow>
              (stages @ [Row_Failed reason], Outcome_Failed reason (Some documentId))
          | (stages, Inr Waiting) \<Rightarrow>
              (stages @ [Row_Failed ''extraction never settled''],
               Outcome_Failed ''extraction never settled'' (Some documentId))
          | (stages, Inr (Poll_Succeeded jobId)) \<Rightarrow>
              (case dp_importDocument deps documentId of
                 Inl message \<Rightarrow>
                   (stages @ [Row_Processing, Row_Failed message], Outcome_Failed message (Some documentId))
               | Inr report \<Rightarrow>
                   (stages @ [Row_Processing, Row_Imported (ir_ready_invoices report)],
                    Imported (ir_id report) report (Some jobId)))))"

definition startDocumentRun ::
  "document_run_file list \<Rightarrow> pipeline_deps \<Rightarrow> (string \<times> string \<times> file_outcome) list"
where
  "startDocumentRun files deps = map (\<lambda>f. (df_id f, df_name f, snd (pipeline deps f))) files"

text \<open>The pipelines run concurrently: their reports reach the page in any order that keeps the order
  of each pipeline.\<close>

definition interleaving :: "document_run_file list \<Rightarrow> pipeline_deps \<Rightarrow> (string \<times> row_state) list \<Rightarrow> bool" where
  "interleaving files deps es \<longleftrightarrow>
     list_all (\<lambda>f. map snd (filter (\<lambda>e. fst e = df_id f) es) = fst (pipeline deps f)) files \<and>
     list_all (\<lambda>e. fst e \<in> df_id ` set files) es"

text \<open>The page's record of stages, and its rows: \<open>setStage\<close> and \<open>startDocumentRun\<close> of \<open>App.tsx\<close>.\<close>

definition setStage :: "(string \<rightharpoonup> row_state) \<Rightarrow> string \<times> row_state \<Rightarrow> (string \<rightharpoonup> row_state)" where
  "setStage m e = m(fst e \<mapsto> snd e)"

definition documentRunRows :: "import_run \<Rightarrow> (string \<rightharpoonup> row_state) \<Rightarrow> (string \<times> row_state) list" where
  "documentRunRows run stages =
     map (\<lambda>f. (rn_name f, case stages (rn_id f) of Some s \<Rightarrow> s | None \<Rightarrow> Row_Queued)) (im_files run)"

definition document_run_files :: "document_run_file list \<Rightarrow> run_file list" where
  "document_run_files files =
     map (\<lambda>f. \<lparr>rn_id = df_id f, rn_name = df_name f, rn_groupId = '''', rn_outcome = Outcome_Pending\<rparr>) files"

definition idle_run :: import_run where
  "idle_run = \<lparr>im_files = [], im_cursor = 0, im_status = Run_Idle\<rparr>"

text \<open>\<open>startDocumentRun\<close> of \<open>App.tsx\<close>: one \<^const>\<open>Settled\<close> per outcome, in the order of the run.\<close>

definition document_run :: "document_run_file list \<Rightarrow> pipeline_deps \<Rightarrow> import_run" where
  "document_run files deps =
     foldl runReducer (runReducer idle_run (Start (document_run_files files)))
       (map (\<lambda>(i, name, oc). Settled oc) (startDocumentRun files deps))"


subsection \<open>Selection\<close>

definition fits_run :: "picked_file list \<Rightarrow> js_file \<Rightarrow> bool" where
  "fits_run current f = (case (runKindOf current, kind_of f) of (Some rk, Some k) \<Rightarrow> k = rk | _ \<Rightarrow> True)"

lemma accept_loop_eq:
  "length accepted \<le> room \<Longrightarrow> (0 < dropped \<longrightarrow> length accepted = room) \<Longrightarrow>
   \<exists>nt. accept_loop room (runKindOf current) (accepted, dropped, kindNote) incoming =
     (accepted @ take (room - length accepted) (filter (fits_run current) incoming),
      dropped + (length (filter (fits_run current) incoming) - (room - length accepted)), nt) \<and>
     (nt = None \<longleftrightarrow> kindNote = None \<and> list_all (fits_run current) incoming)"
proof (induction incoming arbitrary: accepted dropped kindNote)
  case (Cons f rest)
  show ?case
  proof (cases "fits_run current f")
    case False
    then obtain rk k where k: "runKindOf current = Some rk" "kind_of f = Some k" "k \<noteq> rk"
      by (auto simp: fits_run_def split: option.splits)
    show ?thesis using Cons.IH [OF Cons.prems, of "case kindNote of None \<Rightarrow> Some (kindRefusal rk k) | Some n \<Rightarrow> Some n"]
        k False by (auto split: option.splits)
  next
    case True
    have step: "accept_loop room (runKindOf current) (accepted, dropped, kindNote) (f # rest) =
        (if length accepted \<ge> room then accept_loop room (runKindOf current) (accepted, dropped + 1, kindNote) rest
         else accept_loop room (runKindOf current) (accepted @ [f], dropped, kindNote) rest)"
      using True by (auto simp: fits_run_def split: option.splits)
    show ?thesis
    proof (cases "length accepted \<ge> room")
      case full: True
      with Cons.prems Cons.IH [of accepted "dropped + 1" kindNote] True step show ?thesis by auto
    next
      case room: False
      with Cons.prems Cons.IH [of "accepted @ [f]" dropped kindNote]
      obtain nt where "accept_loop room (runKindOf current) (accepted @ [f], dropped, kindNote) rest =
          (accepted @ [f] @ take (room - Suc (length accepted)) (filter (fits_run current) rest),
           dropped + (length (filter (fits_run current) rest) - (room - Suc (length accepted))), nt)"
        "nt = None \<longleftrightarrow> kindNote = None \<and> list_all (fits_run current) rest" by auto
      moreover have "room - length accepted = Suc (room - Suc (length accepted))" using room by simp
      ultimately show ?thesis using step room True by simp
    qed
  qed
qed simp

text \<open>Picking files. The files already picked keep their place; after them come, in order, the
  incoming files that do not contradict the kind of the run, as many as the cap of five leaves room
  for; the run never grows past five. The call is refused with a sentence exactly when a file was
  left out, and the sentence is about the cap when the cap left one out.\<close>

theorem addFiles_spec:
  "case addFiles uuid current incoming of (files, refusal) \<Rightarrow>
     (let room = MAX_RUN_FILES - length current; fitting = filter (fits_run current) incoming in
      take (length current) files = current \<and>
      map pk_file (drop (length current) files) = take room fitting \<and>
      length files \<le> max MAX_RUN_FILES (length current) \<and>
      (refusal = None \<longleftrightarrow> take room fitting = incoming) \<and>
      (if room < length fitting then refusal = Some (capRefusal (length fitting - room)) else True))"
proof -
  define room where "room = MAX_RUN_FILES - length current"
  define fitting where "fitting = filter (fits_run current) incoming"
  obtain nt where loop: "accept_loop room (runKindOf current) ([], 0, None) incoming =
      (take room fitting, length fitting - room, nt)"
    and nt: "nt = None \<longleftrightarrow> list_all (fits_run current) incoming"
    using accept_loop_eq [of "[]" room 0 current None incoming] by (auto simp: fitting_def)
  define picked where "picked = map (\<lambda>(n, f). \<lparr>pk_id = uuid n, pk_file = f, pk_documentId = None\<rparr>)
      (zip [0..<length (take room fitting)] (take room fitting))"
  have picked: "map pk_file picked = take room fitting" "length picked = min room (length fitting)"
    by (simp_all add: picked_def comp_def case_prod_unfold map_snd_zip)
  have eq: "addFiles uuid current incoming =
      (current @ picked, if room < length fitting then Some (capRefusal (length fitting - room)) else nt)"
    unfolding addFiles_def Let_def room_def [symmetric] loop
    by (simp add: picked_def)
  have all: "take room fitting = incoming \<longleftrightarrow> list_all (fits_run current) incoming \<and> length fitting \<le> room"
  proof
    assume eq: "take room fitting = incoming"
    have "length fitting \<le> length incoming" by (simp add: fitting_def)
    moreover have "length incoming = min room (length fitting)" using eq [THEN arg_cong [where f = length]] by simp
    ultimately have len: "length fitting = length incoming" "length fitting \<le> room" by simp_all
    then have "filter (fits_run current) incoming = incoming" using eq by (simp add: fitting_def)
    then show "list_all (fits_run current) incoming \<and> length fitting \<le> room"
      using len(2) by (simp add: filter_id_conv list_all_iff)
  next
    assume all: "list_all (fits_run current) incoming \<and> length fitting \<le> room"
    then have "fitting = incoming" by (simp add: fitting_def filter_id_conv list_all_iff)
    with all show "take room fitting = incoming" by simp
  qed
  show ?thesis
    unfolding eq prod.case Let_def room_def [symmetric] fitting_def [symmetric] all
    using picked nt by (auto simp: room_def min_def max_def)
qed

subsection \<open>The reducer\<close>

fun progress :: "upload_phase + file_outcome \<Rightarrow> run_action" where
  "progress (Inl phase) = Phase phase"
| "progress (Inr oc) = Settled oc"

definition settled_outcomes :: "(upload_phase + file_outcome) list \<Rightarrow> file_outcome list" where
  "settled_outcomes es = concat (map (case_sum (\<lambda>_. []) (\<lambda>oc. [oc])) es)"

lemma put_outcome_update: "put_outcome c oc fs = fs[c := (fs ! c)\<lparr>rn_outcome := oc\<rparr>]"
proof (rule nth_equalityI)
  fix i
  assume "i < length (put_outcome c oc fs)"
  then show "put_outcome c oc fs ! i = fs[c := (fs ! c)\<lparr>rn_outcome := oc\<rparr>] ! i"
    by (simp add: put_outcome_def nth_list_update)
qed (simp add: put_outcome_def)

lemma map_update_same: "g (f x) = g x \<Longrightarrow> x = xs ! c \<Longrightarrow> map g (xs[c := f x]) = map g xs"
  by (cases "c < length xs") (auto simp: map_update list_update_same_conv list_update_beyond)

lemma put_outcome_simps [simp]:
  "length (put_outcome c oc fs) = length fs"
  "map rn_id (put_outcome c oc fs) = map rn_id fs"
  "map rn_name (put_outcome c oc fs) = map rn_name fs"
  unfolding put_outcome_update by (simp, rule map_update_same, simp_all, rule map_update_same, simp_all)

lemma put_outcome_take: "take c (put_outcome c oc fs) = take c fs"
  by (simp add: put_outcome_update)

lemma put_outcome_drop: "drop (Suc c) (put_outcome c oc fs) = drop (Suc c) fs"
  by (simp add: put_outcome_update)

lemma put_outcome_outcomes:
  "map rn_outcome (take (Suc c) (put_outcome c oc fs)) =
     map rn_outcome (take c fs) @ (if c < length fs then [oc] else [])"
  by (cases "c < length fs") (simp_all add: put_outcome_update take_Suc_conv_app_nth list_update_beyond)

definition run_ok :: "run_file list \<Rightarrow> file_outcome list \<Rightarrow> import_run \<Rightarrow> bool" where
  "run_ok files ocs run \<longleftrightarrow>
     map rn_id (im_files run) = map rn_id files \<and> map rn_name (im_files run) = map rn_name files \<and>
     im_cursor run = length ocs \<and> im_status run = runStatus (length files) (length ocs) \<and>
     map rn_outcome (take (length ocs) (im_files run)) = take (length files) ocs \<and>
     drop (Suc (length ocs)) (im_files run) = drop (Suc (length ocs)) files"

lemma run_ok_length: "run_ok files ocs run \<Longrightarrow> length (im_files run) = length files"
  unfolding run_ok_def using map_eq_imp_length_eq by blast

lemma run_ok_phase: "run_ok files ocs run \<Longrightarrow> run_ok files ocs (runReducer run (Phase phase))"
  by (auto simp: run_ok_def put_outcome_take put_outcome_drop)

lemma run_ok_settled:
  assumes "run_ok files ocs run"
  shows "run_ok files (ocs @ [oc]) (runReducer run (Settled oc))"
proof -
  note len = run_ok_length [OF assms]
  have "drop (Suc (Suc (length ocs))) (put_outcome (length ocs) oc (im_files run)) =
      drop 1 (drop (Suc (length ocs)) (put_outcome (length ocs) oc (im_files run)))" by simp
  also have "\<dots> = drop (Suc (Suc (length ocs))) files"
    using assms by (simp only: put_outcome_drop run_ok_def) simp
  finally show ?thesis
    using assms len by (auto simp: run_ok_def Let_def put_outcome_outcomes)
qed

lemma run_ok_run: "run_ok files (settled_outcomes es) (foldl runReducer (runReducer run0 (Start files)) (map progress es))"
proof (induction es rule: rev_induct)
  case Nil
  show ?case by (simp add: run_ok_def settled_outcomes_def)
next
  case (snoc e es)
  then show ?case
    by (cases e) (simp_all add: settled_outcomes_def run_ok_phase run_ok_settled del: runReducer.simps)
qed

text \<open>C26: the run's reducer. After a start and any sequence of progress reports and settlements, the
  run shows the same files in the same order; the cursor counts the settlements; the run is finished
  exactly when every file has settled; the files before the cursor hold the settlements in order,
  failures included, and the files after the cursor are untouched.\<close>

theorem runReducer_run:
  "let run = foldl runReducer (runReducer run0 (Start files)) (map progress es); ocs = settled_outcomes es in
     map rn_id (im_files run) = map rn_id files \<and> map rn_name (im_files run) = map rn_name files \<and>
     im_cursor run = length ocs \<and>
     (im_status run = Finished \<longleftrightarrow> length files \<le> length ocs) \<and>
     map rn_outcome (take (length ocs) (im_files run)) = take (length files) ocs \<and>
     drop (Suc (length ocs)) (im_files run) = drop (Suc (length ocs)) files"
  using run_ok_run [of files es run0] by (simp add: run_ok_def Let_def runStatus_def)


subsection \<open>Polling settles\<close>

definition tick_verdict ::
  "(nat \<Rightarrow> extraction_job list option) \<Rightarrow> (nat \<Rightarrow> int) \<Rightarrow> int \<Rightarrow> nat \<Rightarrow> poll_verdict option"
where
  "tick_verdict getJobs now startedAt n =
     map_option (\<lambda>jobs. pollVerdict jobs (now n - startedAt)) (getJobs n)"

definition ticks_stages :: "(nat \<Rightarrow> extraction_job list option) \<Rightarrow> nat \<Rightarrow> row_state list" where
  "ticks_stages getJobs n = concat (map (\<lambda>m. case getJobs m of None \<Rightarrow> [] | Some jobs \<Rightarrow> tick_stage jobs) [0..<n])"

lemma poll_loop_settles:
  assumes "tick_verdict getJobs now startedAt (n + k) \<noteq> Some Waiting"
    and "\<forall>m < k. tick_verdict getJobs now startedAt (n + m) = Some Waiting"
  shows "poll_loop getJobs now startedAt n (ticks_stages getJobs n) =
    Some (ticks_stages getJobs (Suc (n + k)), tick_verdict getJobs now startedAt (n + k), n + k)"
  using assms
proof (induction k arbitrary: n)
  case 0
  then show ?case
    by (cases "getJobs n") (auto simp: poll_loop.simps [of getJobs now startedAt n] tick_verdict_def ticks_stages_def)
next
  case (Suc k)
  from Suc.prems(2) have "tick_verdict getJobs now startedAt n = Some Waiting" by force
  then obtain jobs where jobs: "getJobs n = Some jobs" "pollVerdict jobs (now n - startedAt) = Waiting"
    by (auto simp: tick_verdict_def)
  have "poll_loop getJobs now startedAt n (ticks_stages getJobs n) =
      poll_loop getJobs now startedAt (Suc n) (ticks_stages getJobs (Suc n))"
    by (simp add: poll_loop.simps [of getJobs now startedAt n] jobs ticks_stages_def)
  also have "\<dots> = Some (ticks_stages getJobs (Suc (Suc n + k)), tick_verdict getJobs now startedAt (Suc n + k), Suc n + k)"
    using Suc.prems by (intro Suc.IH) (force, metis add_Suc_right add_Suc_shift Suc_less_eq)
  finally show ?case by simp
qed

lemma late_verdict: "EXTRACTION_POLL_BUDGET_MS < elapsed \<Longrightarrow> pollVerdict jobs elapsed \<noteq> Waiting"
  by (auto simp: pollVerdict_def Let_def split: option.splits)

text \<open>C36: polling ends. When the clock has advanced by at least the poll interval per tick, the poll
  returns on some tick not later than the 62nd: the first one whose answer is refused or whose verdict
  is final, with that verdict, having reported the stage of every tick up to it and nothing else.\<close>

theorem pollUntilSettled_settles:
  assumes clock: "\<And>n. startedAt + LIVE_POLL_MS * int n \<le> now n"
  shows "\<exists>n \<le> 61. pollUntilSettled getJobs now startedAt =
      Some (ticks_stages getJobs (Suc n), tick_verdict getJobs now startedAt n, n) \<and>
    tick_verdict getJobs now startedAt n \<noteq> Some Waiting \<and>
    (\<forall>m < n. tick_verdict getJobs now startedAt m = Some Waiting)"
proof -
  let ?P = "\<lambda>n. tick_verdict getJobs now startedAt n \<noteq> Some Waiting"
  have "EXTRACTION_POLL_BUDGET_MS < now 61 - startedAt"
    using clock [of 61] by (simp add: LIVE_POLL_MS_def EXTRACTION_POLL_BUDGET_MS_def)
  then have P61: "?P 61" by (auto simp: tick_verdict_def late_verdict)
  define n where "n = (LEAST n. ?P n)"
  have n: "n \<le> 61" "?P n" "\<forall>m < n. \<not> ?P m"
    unfolding n_def by (rule Least_le, rule P61, rule LeastI, rule P61, blast dest: not_less_Least)
  then have "pollUntilSettled getJobs now startedAt =
      Some (ticks_stages getJobs (Suc n), tick_verdict getJobs now startedAt n, n)"
    using poll_loop_settles [of getJobs now startedAt 0 n]
    by (simp add: pollUntilSettled_def ticks_stages_def)
  with n show ?thesis by blast
qed

definition sample_job :: "string \<Rightarrow> extraction_job" where
  "sample_job state = \<lparr>xj_id = ''j1'', xj_document_id = ''d1'', xj_state = state,
     xj_created_at = ''2026-01-01T00:00:00Z'', xj_last_error = None, xj_failure_kind = None\<rparr>"

theorem pollUntilSettled_witness:
  "\<exists>n \<le> 61. pollUntilSettled (\<lambda>n. Some [sample_job ''extracting'']) (\<lambda>n. 2000 * int n) 0 =
      Some (ticks_stages (\<lambda>n. Some [sample_job ''extracting'']) (Suc n),
        tick_verdict (\<lambda>n. Some [sample_job ''extracting'']) (\<lambda>n. 2000 * int n) 0 n, n) \<and>
    tick_verdict (\<lambda>n. Some [sample_job ''extracting'']) (\<lambda>n. 2000 * int n) 0 n \<noteq> Some Waiting \<and>
    (\<forall>m < n. tick_verdict (\<lambda>n. Some [sample_job ''extracting'']) (\<lambda>n. 2000 * int n) 0 m = Some Waiting)"
  by (rule pollUntilSettled_settles) (simp add: LIVE_POLL_MS_def)

subsection \<open>What a document run shows\<close>

fun outcome_row :: "file_outcome \<Rightarrow> row_state" where
  "outcome_row (Imported batchId report jobId) = Row_Imported (ir_ready_invoices report)"
| "outcome_row (Outcome_Failed message documentId) = Row_Failed message"
| "outcome_row Outcome_Pending = Row_Queued"
| "outcome_row (Uploading phase) = (case phase of Sending _ _ \<Rightarrow> Row_Sending | _ \<Rightarrow> Row_Processing)"

lemma runFileRows_eq: "runFileRows run = map (\<lambda>f. (rn_name f, outcome_row (rn_outcome f))) (im_files run)"
  by (auto simp: runFileRows_def split: file_outcome.splits)

lemma pipeline_last:
  "fst (pipeline deps f) \<noteq> [] \<and> last (fst (pipeline deps f)) = outcome_row (snd (pipeline deps f))"
  by (auto simp: pipeline_def split: sum.splits prod.splits poll_verdict.splits)

lemma foldl_setStage:
  "foldl setStage m es k =
     (if filter (\<lambda>e. fst e = k) es = [] then m k else Some (last (map snd (filter (\<lambda>e. fst e = k) es))))"
  by (induction es rule: rev_induct) (auto simp: setStage_def)

lemma document_run_files_eq:
  fixes files deps
  defines "fs \<equiv> im_files (document_run files deps)"
  shows "map rn_id fs = map df_id files" "map rn_name fs = map df_name files"
    "map rn_outcome fs = map (\<lambda>f. snd (pipeline deps f)) files"
    "im_status (document_run files deps) = Finished"
proof -
  let ?ocs = "map (\<lambda>f. snd (pipeline deps f)) files"
  have acts: "map (\<lambda>(i, name, oc). Settled oc) (startDocumentRun files deps) = map progress (map Inr ?ocs)"
    by (simp add: startDocumentRun_def comp_def)
  have "settled_outcomes (map Inr ?ocs) = ?ocs" by (induction files) (simp_all add: settled_outcomes_def)
  then have ok: "run_ok (document_run_files files) ?ocs (document_run files deps)"
    using run_ok_run [of "document_run_files files" "map Inr ?ocs" idle_run]
    unfolding document_run_def acts by simp
  have "length fs = length files"
    using run_ok_length [OF ok] by (simp add: document_run_files_def fs_def)
  with ok show "map rn_id fs = map df_id files" "map rn_name fs = map df_name files" "map rn_outcome fs = ?ocs"
      "im_status (document_run files deps) = Finished"
    by (simp_all add: run_ok_def document_run_files_def comp_def runStatus_def flip: fs_def)
qed

lemma row_lists:
  "runFileRows run = zip (map rn_name (im_files run)) (map outcome_row (map rn_outcome (im_files run)))"
  "documentRunRows run st = zip (map rn_name (im_files run))
     (map (\<lambda>i. case st i of Some s \<Rightarrow> s | None \<Rightarrow> Row_Queued) (map rn_id (im_files run)))"
  unfolding runFileRows_eq documentRunRows_def by (simp_all add: zip_map_map zip_same_conv_map)

text \<open>C35: a document run shows what happened. However the reports of its pipelines interleave, once
  all have answered the page's rows, built from the reported stages, are the rows of the run itself:
  every file shows its own import or its own failure, and the run is finished.\<close>

theorem document_rows_agree:
  assumes "distinct (map df_id files)" and "interleaving files deps es"
  shows "documentRunRows (document_run files deps) (foldl setStage Map.empty es) =
      runFileRows (document_run files deps) \<and>
    im_status (document_run files deps) = Finished"
proof -
  have "foldl setStage Map.empty es (df_id f) = Some (outcome_row (snd (pipeline deps f)))"
    if "f \<in> set files" for f
  proof -
    from assms(2) that have "map snd (filter (\<lambda>e. fst e = df_id f) es) = fst (pipeline deps f)"
      by (simp add: interleaving_def list_all_iff)
    then show ?thesis using pipeline_last [of deps f] unfolding foldl_setStage by auto
  qed
  then show ?thesis
    by (simp add: row_lists document_run_files_eq del: map_map)
      (simp add: comp_def cong: map_cong)
qed


definition sample_report :: "string \<Rightarrow> int \<Rightarrow> import_report" where
  "sample_report i ready = \<lparr>ir_id = i, ir_status = Completed, ir_format = ''pdf'', ir_delimiter = None,
     ir_encoding = None, ir_rows_total = 1, ir_rows_valid = 1, ir_rows_invalid = 0,
     ir_ready_invoices = ready, ir_quarantined_invoices = 0, ir_errors = [], ir_rule_set_version = Some 3,
     ir_invoices_clean = 1, ir_invoices_with_violations = 0, ir_invoice_violations = []\<rparr>"

definition sample_files :: "document_run_file list" where
  "sample_files = [\<lparr>df_id = ''f1'', df_name = ''a.pdf'', df_file = \<lparr>fi_name = ''a.pdf'', fi_type = '''', fi_size = 10\<rparr>\<rparr>,
     \<lparr>df_id = ''f2'', df_name = ''b.pdf'', df_file = \<lparr>fi_name = ''b.pdf'', fi_type = '''', fi_size = 10\<rparr>\<rparr>]"

definition sample_deps :: pipeline_deps where
  "sample_deps = \<lparr>dp_upload = (\<lambda>f. if fi_name f = ''a.pdf'' then Inr ''d1'' else Inl ''network error''),
     dp_poll = (\<lambda>d i. ([Row_Queued, Row_Reading], Inr (Poll_Succeeded ''j1''))),
     dp_importDocument = (\<lambda>d. Inr (sample_report ''b1'' 1))\<rparr>"

theorem document_rows_witness:
  "documentRunRows (document_run sample_files sample_deps)
     (foldl setStage Map.empty [(''f1'', Row_Queued), (''f2'', Row_Failed ''network error''),
       (''f1'', Row_Reading), (''f1'', Row_Processing), (''f1'', Row_Imported 1)]) =
   runFileRows (document_run sample_files sample_deps)"
  by (rule document_rows_agree [THEN conjunct1])
    (simp_all add: interleaving_def sample_files_def sample_deps_def pipeline_def sample_report_def)

end
