(* ===== verification/Review_Batch.thy ===== *)
theory Review_Batch
  imports Import_Run "HOL-Library.Multiset"
begin

text \<open>
  The review of an import (\<open>lib/reviewBatch.ts\<close>): the verdict pill of an invoice, the two channels of
  row errors and their downloads, the header and the tabs, the filter state with the request it
  composes, and the pager. \<open>fmtDateTime\<close> formats in the viewer's locale and is a parameter. A thrown
  error is \<open>Inl\<close> of its message.
\<close>

subsection \<open>Verdicts\<close>

datatype badge_kind = Rules_Failed | Kept_Invalid | Advisory

record verdict_badge =
  vb_kind :: badge_kind
  vb_count :: nat
  vb_label :: string
  vb_tone :: "string \<times> string \<times> string"

text \<open>\<open>tone(sev)\<close> keeps the three colours of \<^const>\<open>severityStyle\<close> and drops its label.\<close>

definition tone :: "severity \<Rightarrow> string \<times> string \<times> string" where
  "tone sev = (ss_bg (severityStyle sev), ss_border (severityStyle sev), ss_text (severityStyle sev))"

definition badge :: "badge_kind \<Rightarrow> nat \<Rightarrow> string \<Rightarrow> severity \<Rightarrow> verdict_badge" where
  "badge k n label sev = \<lparr>vb_kind = k, vb_count = n, vb_label = label, vb_tone = tone sev\<rparr>"

definition verdictPill ::
  "invoice_status \<Rightarrow> violation list \<Rightarrow> string option \<Rightarrow> status_style \<times> verdict_badge list"
where
  "verdictPill status vs kept_as_is_at =
    (let errors = filter (\<lambda>v. vi_severity v = Error) vs;
         errorCount = length errors;
         failedRuleCount = card (set (map vi_rule_key errors));
         advisoryCount = length vs - errorCount
     in (invoiceStatusStyle status,
       if status = Draft \<and> kept_as_is_at \<noteq> None then
         [badge Kept_Invalid errorCount (''KEPT '' @ middle_dot @ '' INVALID'') Warning]
       else if errorCount > 0 then
         [badge Rules_Failed failedRuleCount (show_nat failedRuleCount @ '' RULES FAILED'') Error]
       else if advisoryCount > 0 then
         [badge Advisory advisoryCount (show_nat advisoryCount @ '' ADVISORY'')
            (if list_ex (\<lambda>v. vi_severity v = Warning) vs then Warning else Info)]
       else []))"

subsection \<open>Labels\<close>

definition RULE_SET_NAME :: string where "RULE_SET_NAME = ''NG-MBS''"

definition ruleSetLabel :: "int option \<Rightarrow> string" where
  "ruleSetLabel v = (case v of Some n \<Rightarrow> RULE_SET_NAME @ '' v'' @ show_int n | None \<Rightarrow> ''not evaluated'')"

definition minNonNullVersion :: "int option list \<Rightarrow> int option" where
  "minNonNullVersion versions =
    (let nums = concat (map (\<lambda>v. case v of Some n \<Rightarrow> [n] | None \<Rightarrow> []) versions)
     in if length nums > 0 then Some (Min (set nums)) else None)"

definition SOURCE_NOT_RECORDED :: string where "SOURCE_NOT_RECORDED = ''source not recorded''"

definition filenameLabel :: "string option \<Rightarrow> string" where
  "filenameLabel filename = (case filename of Some n \<Rightarrow> n | None \<Rightarrow> SOURCE_NOT_RECORDED)"

subsection \<open>The channels of row errors\<close>

record unreadable_row =
  ur_row :: "int option"
  ur_column :: string
  ur_message :: string

record unreadable_row_all = unreadable_row +
  ur_file :: string
  ur_documentId :: "string option"

record already_imported_row =
  ai_row :: "int option"
  ai_invoiceId :: "string option"

record already_imported_row_all = already_imported_row +
  ai_file :: string

definition isAlreadyImported :: "row_error \<Rightarrow> bool" where
  "isAlreadyImported e \<longleftrightarrow> re_rule_key e \<noteq> None"

definition isUnvalidatedDraft :: "row_error \<Rightarrow> bool" where
  "isUnvalidatedDraft e \<longleftrightarrow> re_invoice_id e \<noteq> None \<and> \<not> isAlreadyImported e"

definition unvalidatedDraftNotice :: "nat \<Rightarrow> string" where
  "unvalidatedDraftNotice n =
    (if n = 1 then ''1 invoice was'' else show_nat n @ '' invoices were'') @ '' created as ''
    @ (if n = 1 then ''a draft'' else ''drafts'')
    @ '' but not checked, because the rules changed during the import. Validate ''
    @ (if n = 1 then ''it'' else ''them'') @ '' again.''"

definition unvalidatedDraftCount :: "import_batch list \<Rightarrow> nat" where
  "unvalidatedDraftCount batches =
     foldl (\<lambda>n b. n + length (filter isUnvalidatedDraft (ib_errors b))) 0 batches"

definition unreadableRows :: "row_error list \<Rightarrow> unreadable_row list" where
  "unreadableRows errors = concat (map (\<lambda>e.
     let column = (case re_field e of Some c \<Rightarrow> c | None \<Rightarrow> em_dash); rows = rowErrorRows e in
     if length rows = 0 then [\<lparr>ur_row = None, ur_column = column, ur_message = re_message e\<rparr>]
     else map (\<lambda>row. \<lparr>ur_row = Some row, ur_column = column, ur_message = re_message e\<rparr>) rows)
     (filter (\<lambda>e. \<not> isAlreadyImported e \<and> \<not> isUnvalidatedDraft e) errors))"

definition unreadableRowsAll :: "import_batch list \<Rightarrow> unreadable_row_all list" where
  "unreadableRowsAll batches = concat (map (\<lambda>b. map (\<lambda>r.
     \<lparr>ur_row = ur_row r, ur_column = ur_column r, ur_message = ur_message r,
      ur_file = filenameLabel (ib_filename b), ur_documentId = ib_document_id b\<rparr>)
     (unreadableRows (ib_errors b))) batches)"

definition alreadyImportedRows :: "row_error list \<Rightarrow> already_imported_row list" where
  "alreadyImportedRows errors = concat (map (\<lambda>e.
     let invoiceId = re_invoice_id e; rows = rowErrorRows e in
     if length rows = 0 then [\<lparr>ai_row = None, ai_invoiceId = invoiceId\<rparr>]
     else map (\<lambda>row. \<lparr>ai_row = Some row, ai_invoiceId = invoiceId\<rparr>) rows)
     (filter isAlreadyImported errors))"

definition alreadyImportedRowsAll :: "import_batch list \<Rightarrow> already_imported_row_all list" where
  "alreadyImportedRowsAll batches = concat (map (\<lambda>b. map (\<lambda>r.
     \<lparr>ai_row = ai_row r, ai_invoiceId = ai_invoiceId r, ai_file = filenameLabel (ib_filename b)\<rparr>)
     (alreadyImportedRows (ib_errors b))) batches)"

record channel_tiles =
  ct_cleanTotal :: int
  ct_failingTotal :: int
  ct_unreadable :: nat
  ct_ruleSetLabel :: string
  ct_alreadyImported :: nat
  ct_alreadyImportedInvoices :: nat
  ct_alreadyImportedAtZero :: bool
  ct_atZero :: bool

definition channelTiles :: "import_batch \<Rightarrow> int \<times> int \<Rightarrow> channel_tiles" where
  "channelTiles batch live =
    (let unreadable = length (unreadableRows (ib_errors batch));
         alreadyImported = length (alreadyImportedRows (ib_errors batch))
     in \<lparr>ct_cleanTotal = fst live, ct_failingTotal = snd live, ct_unreadable = unreadable,
         ct_ruleSetLabel = ruleSetLabel (ib_rule_set_version batch), ct_alreadyImported = alreadyImported,
         ct_alreadyImportedInvoices = length (filter isAlreadyImported (ib_errors batch)),
         ct_alreadyImportedAtZero = (alreadyImported = 0), ct_atZero = (unreadable = 0)\<rparr>)"

definition channelTilesAll :: "import_batch list \<Rightarrow> int \<times> int \<Rightarrow> channel_tiles" where
  "channelTilesAll batches live =
    (let unreadable = foldl (\<lambda>n b. n + length (unreadableRows (ib_errors b))) 0 batches;
         alreadyImported = foldl (\<lambda>n b. n + length (alreadyImportedRows (ib_errors b))) 0 batches
     in \<lparr>ct_cleanTotal = fst live, ct_failingTotal = snd live, ct_unreadable = unreadable,
         ct_ruleSetLabel = ruleSetLabel (minNonNullVersion (map ib_rule_set_version batches)),
         ct_alreadyImported = alreadyImported,
         ct_alreadyImportedInvoices =
           foldl (\<lambda>n b. n + length (filter isAlreadyImported (ib_errors b))) 0 batches,
         ct_alreadyImportedAtZero = (alreadyImported = 0), ct_atZero = (unreadable = 0)\<rparr>)"

definition reviewFooterSummary :: "int \<Rightarrow> int \<Rightarrow> int \<Rightarrow> int \<Rightarrow> int \<Rightarrow> string" where
  "reviewFooterSummary allTotal cleanTotal queuedTotal failingTotal keptTotal =
     show_int allTotal @ '' invoices stored '' @ middle_dot @ '' '' @ show_int cleanTotal @ '' validated ''
     @ middle_dot @ '' '' @ show_int queuedTotal @ '' queued for transmission '' @ middle_dot @ '' ''
     @ show_int failingTotal @ '' awaiting a fix '' @ middle_dot @ '' '' @ show_int keptTotal @ '' kept as-is''"


subsection \<open>Requests\<close>

datatype review_pill = Pill_All | Pill_Needs_Fix | Pill_Ready | Pill_Queued

text \<open>\<open>{ importBatchIds, ...filterToQuery(pill) }\<close>: the query of a pill sets its keys on the options.\<close>

definition filterToQuery :: "review_pill \<Rightarrow> list_options \<Rightarrow> list_options" where
  "filterToQuery pill opts = (case pill of
      Pill_Needs_Fix \<Rightarrow> opts\<lparr>lo_needsFix := True\<rparr>
    | Pill_Ready \<Rightarrow> opts\<lparr>lo_status := Some Validated\<rparr>
    | Pill_Queued \<Rightarrow> opts\<lparr>lo_status := Some Queued\<rparr>
    | Pill_All \<Rightarrow> opts)"

record query_extra =
  qe_ruleKey :: "string option"
  qe_q :: "string option"
  qe_limit :: "int option"
  qe_offset :: "int option"

definition reviewQuery :: "string \<Rightarrow> review_pill \<Rightarrow> query_extra \<Rightarrow> string + list_options" where
  "reviewQuery batchId pill extra =
    (if batchId = '''' then
       Inl (''reviewQuery: batchId is required '' @ em_dash @ '' an empty one lists the whole tenant'')
     else
       (let opts = filterToQuery pill (no_options\<lparr>lo_importBatchIds := [batchId]\<rparr>);
            opts = (if truthy (qe_ruleKey extra) then opts\<lparr>lo_ruleKey := qe_ruleKey extra\<rparr> else opts);
            opts = (if truthy (qe_q extra) then opts\<lparr>lo_q := qe_q extra\<rparr> else opts);
            opts = (if qe_limit extra \<noteq> None then opts\<lparr>lo_limit := qe_limit extra\<rparr> else opts);
            opts = (if qe_offset extra \<noteq> None then opts\<lparr>lo_offset := qe_offset extra\<rparr> else opts)
        in Inr opts))"

definition reviewQueryAll :: "string list \<Rightarrow> review_pill \<Rightarrow> query_extra \<Rightarrow> string + list_options" where
  "reviewQueryAll batchIds pill extra =
    (if length batchIds = 0 \<or> list_ex (\<lambda>i. i = '''') batchIds then
       Inl (''reviewQueryAll: batchIds must be non-empty with no empty id '' @ em_dash
            @ '' an absent/empty batch id lists the whole tenant'')
     else
       (let opts = filterToQuery pill (no_options\<lparr>lo_importBatchIds := batchIds\<rparr>);
            opts = (if truthy (qe_ruleKey extra) then opts\<lparr>lo_ruleKey := qe_ruleKey extra\<rparr> else opts);
            opts = (if truthy (qe_q extra) then opts\<lparr>lo_q := qe_q extra\<rparr> else opts);
            opts = (if qe_limit extra \<noteq> None then opts\<lparr>lo_limit := qe_limit extra\<rparr> else opts);
            opts = (if qe_offset extra \<noteq> None then opts\<lparr>lo_offset := qe_offset extra\<rparr> else opts)
        in Inr opts))"

subsection \<open>Filter state\<close>

definition REVIEW_PAGE_SIZE :: int where "REVIEW_PAGE_SIZE = 50"

record review_filter =
  rf_pill :: review_pill
  rf_ruleKey :: "string option"
  rf_q :: string
  rf_offset :: int

definition initialReviewFilter :: review_filter where
  "initialReviewFilter = \<lparr>rf_pill = Pill_All, rf_ruleKey = None, rf_q = '''', rf_offset = 0\<rparr>"

datatype review_filter_action =
    Pill_Action review_pill
  | Rule_Action string
  | Search_Action string
  | Page_Action int

fun reviewFilterReducer :: "review_filter \<Rightarrow> review_filter_action \<Rightarrow> review_filter" where
  "reviewFilterReducer s (Pill_Action pill) =
     (if pill = rf_pill s then s else s\<lparr>rf_pill := pill, rf_offset := 0\<rparr>)"
| "reviewFilterReducer s (Rule_Action ruleKey) =
     s\<lparr>rf_ruleKey := (if rf_ruleKey s = Some ruleKey then None else Some ruleKey), rf_offset := 0\<rparr>"
| "reviewFilterReducer s (Search_Action draft) =
     (let q = trim draft in if q = rf_q s then s else s\<lparr>rf_q := q, rf_offset := 0\<rparr>)"
| "reviewFilterReducer s (Page_Action offset) = s\<lparr>rf_offset := max 0 offset\<rparr>"

definition page_extra :: "review_filter \<Rightarrow> query_extra" where
  "page_extra s = \<lparr>qe_ruleKey = rf_ruleKey s, qe_q = Some (rf_q s), qe_limit = Some REVIEW_PAGE_SIZE,
     qe_offset = Some (rf_offset s)\<rparr>"

definition reviewPageQuery :: "string \<Rightarrow> review_filter \<Rightarrow> string + list_options" where
  "reviewPageQuery batchId s = reviewQuery batchId (rf_pill s) (page_extra s)"

definition reviewPageQueryAll :: "string list \<Rightarrow> review_filter \<Rightarrow> string + list_options" where
  "reviewPageQueryAll batchIds s = reviewQueryAll batchIds (rf_pill s) (page_extra s)"

record review_pill_view =
  rp_id :: review_pill
  rp_label :: string
  rp_count :: int
  rp_active :: bool

fun REVIEW_PILL_LABELS :: "review_pill \<Rightarrow> string" where
  "REVIEW_PILL_LABELS Pill_All = ''All''"
| "REVIEW_PILL_LABELS Pill_Needs_Fix = ''Needs a fix''"
| "REVIEW_PILL_LABELS Pill_Ready = ''Validated''"
| "REVIEW_PILL_LABELS Pill_Queued = ''Queued''"

definition REVIEW_PILL_ORDER :: "review_pill list" where
  "REVIEW_PILL_ORDER = [Pill_All, Pill_Needs_Fix, Pill_Ready, Pill_Queued]"

record review_totals =
  rt_allTotal :: int
  rt_cleanTotal :: int
  rt_failingTotal :: int
  rt_queuedTotal :: int

definition reviewPills :: "review_totals \<Rightarrow> review_pill \<Rightarrow> review_pill_view list" where
  "reviewPills t active =
    (let counts = (\<lambda>p. case p of Pill_All \<Rightarrow> rt_allTotal t | Pill_Needs_Fix \<Rightarrow> rt_failingTotal t
                     | Pill_Ready \<Rightarrow> rt_cleanTotal t | Pill_Queued \<Rightarrow> rt_queuedTotal t)
     in map (\<lambda>i. \<lparr>rp_id = i, rp_label = REVIEW_PILL_LABELS i, rp_count = counts i, rp_active = (i = active)\<rparr>)
          REVIEW_PILL_ORDER)"

definition railPills :: "(string \<times> int) list \<Rightarrow> string option \<Rightarrow> (string \<times> int \<times> bool) list" where
  "railPills summary activeRuleKey = map (\<lambda>(rule_key, invoices). (rule_key, invoices, Some rule_key = activeRuleKey)) summary"

subsection \<open>Pager\<close>

record pagination =
  pg_limit :: int
  pg_offset :: int
  pg_total :: int

record pager_nav =
  pn_canPrev :: bool
  pn_canNext :: bool
  pn_prevOffset :: int
  pn_nextOffset :: int

definition pagerNav :: "pagination \<Rightarrow> pager_nav" where
  "pagerNav p = \<lparr>pn_canPrev = (pg_offset p > 0), pn_canNext = (pg_offset p + pg_limit p < pg_total p),
     pn_prevOffset = max 0 (pg_offset p - pg_limit p), pn_nextOffset = pg_offset p + pg_limit p\<rparr>"

text \<open>The numbers of the two strings of \<open>pagerLabels\<close>: first and last row shown, page and pages. For
  integers \<open>Math.ceil(total / limit)\<close> is \<open>- (- total div limit)\<close>.\<close>

definition pager_first :: "pagination \<Rightarrow> int" where
  "pager_first p = (if pg_total p = 0 then 0 else pg_offset p + 1)"

definition pager_last :: "pagination \<Rightarrow> int" where
  "pager_last p = min (pg_offset p + pg_limit p) (pg_total p)"

definition pager_pages :: "pagination \<Rightarrow> int" where
  "pager_pages p = (if pg_limit p < 1 then 1 else max 1 (- (- pg_total p div pg_limit p)))"

definition pager_page :: "pagination \<Rightarrow> int" where
  "pager_page p = min (pager_pages p) ((if pg_limit p < 1 then 0 else pg_offset p div pg_limit p) + 1)"

definition pagerLabels :: "pagination \<Rightarrow> string \<times> string" where
  "pagerLabels p =
    ((if pg_total p = 0 then ''SHOWING 0 OF 0''
      else if pager_last p < pager_first p then ''SHOWING 0 OF '' @ show_int (pg_total p)
      else ''SHOWING '' @ show_int (pager_first p) @ en_dash @ show_int (pager_last p) @ '' OF ''
           @ show_int (pg_total p)),
     ''PAGE '' @ show_int (pager_page p) @ '' / '' @ show_int (pager_pages p))"

subsection \<open>Shell, header and tabs\<close>

datatype review_shell = Batch_Shell | Rejected_Shell

definition reviewShellState :: "import_batch \<Rightarrow> review_shell" where
  "reviewShellState batch = (if ib_status batch \<noteq> Completed then Rejected_Shell else Batch_Shell)"

definition reviewShellStateAll :: "import_batch list \<Rightarrow> review_shell" where
  "reviewShellStateAll batches =
     (if list_ex (\<lambda>b. ib_status b = Completed) batches then Batch_Shell else Rejected_Shell)"

text \<open>The unit of a review is \<open>'spreadsheet'\<close> or \<open>'document'\<close>.\<close>

definition batchUnit :: "string option \<Rightarrow> picked_kind" where
  "batchUnit filename =
     (if classifyPickedFile (case filename of Some n \<Rightarrow> n | None \<Rightarrow> '''') '''' = Some Document
      then Document else Spreadsheet)"

definition runUnit :: "import_batch list \<Rightarrow> picked_kind" where
  "runUnit batches =
     (if length batches > 0 \<and> list_all (\<lambda>b. batchUnit (ib_filename b) = Document) batches
      then Document else Spreadsheet)"

definition read_clause :: "picked_kind \<Rightarrow> int \<Rightarrow> string" where
  "read_clause unit n = show_int n @ (if unit = Document then '' DOCUMENTS READ '' else '' ROWS READ '')
     @ middle_dot @ '' SERVER VERDICT '' @ middle_dot @ '' RULE SET ''"

record review_header =
  rh_title :: string
  rh_batchIds :: "string list"
  rh_subline :: string

record review_header_all = review_header +
  rh_filesLine :: string

definition reviewHeader ::
  "(string option \<Rightarrow> string) \<Rightarrow> import_batch \<Rightarrow> int \<Rightarrow> picked_kind \<Rightarrow> review_header"
where
  "reviewHeader fmtDateTime batch allTotal unit =
     \<lparr>rh_title = show_int allTotal @ '' invoices imported'', rh_batchIds = [ib_id batch],
      rh_subline = read_clause unit (ib_rows_total batch) @ ruleSetLabel (ib_rule_set_version batch)
        @ '' '' @ middle_dot @ '' '' @ fmtDateTime (Some (ib_created_at batch))\<rparr>"

definition reviewHeaderAll ::
  "(string option \<Rightarrow> string) \<Rightarrow> import_batch list \<Rightarrow> int \<Rightarrow> picked_kind \<Rightarrow> review_header_all"
where
  "reviewHeaderAll fmtDateTime batches allTotal unit =
    (let rowsTotal = foldl (\<lambda>n b. n + ib_rows_total b) 0 batches;
         label = ruleSetLabel (minNonNullVersion (map ib_rule_set_version batches));
         filesLine = (case batches of
             [b] \<Rightarrow> (case ib_filename b of Some n \<Rightarrow> ''from '' @ n | None \<Rightarrow> SOURCE_NOT_RECORDED)
           | _ \<Rightarrow> ''from '' @ show_nat (length batches) @ '' files'')
     in \<lparr>rh_title = show_int allTotal @ '' invoices imported'', rh_batchIds = map ib_id batches,
         rh_subline = read_clause unit rowsTotal @ label @ '' '' @ middle_dot @ '' ''
           @ fmtDateTime (case batches of [] \<Rightarrow> None | b # _ \<Rightarrow> Some (ib_created_at b)),
         rh_filesLine = filesLine\<rparr>)"

datatype tab_id = Tab_Invoices | Tab_Unreadable | Tab_Already_Imported

definition reviewTabs :: "int \<Rightarrow> nat \<Rightarrow> nat \<Rightarrow> picked_kind \<Rightarrow> (tab_id \<times> string) list" where
  "reviewTabs invoices unreadable alreadyImported unit =
     [(Tab_Invoices, ''Invoices ('' @ show_int invoices @ '')'')] @
     (if unreadable > 0 then
        [(Tab_Unreadable, (if unit = Document then ''Quarantined documents ('' else ''Unreadable rows ('')
           @ show_nat unreadable @ '')'')] else []) @
     (if alreadyImported > 0 then
        [(Tab_Already_Imported, ''Already imported ('' @ show_nat alreadyImported @ '')'')] else [])"


subsection \<open>Downloads\<close>

definition quote_char :: char where "quote_char = CHR 0x22"
definition comma_char :: char where "comma_char = CHR 0x2C"
definition lf_char :: char where "lf_char = CHR 0x0A"
definition cr_char :: char where "cr_char = CHR 0x0D"

definition csvCell :: "string \<Rightarrow> string" where
  "csvCell v =
    (if list_ex (\<lambda>c. c = quote_char \<or> c = comma_char \<or> c = cr_char \<or> c = lf_char) v
     then [quote_char] @ concat (map (\<lambda>c. if c = quote_char then [quote_char, quote_char] else [c]) v) @ [quote_char]
     else v)"

definition csv_line :: "string list \<Rightarrow> string" where
  "csv_line cells = join [comma_char] (map csvCell cells)"

definition row_cell :: "int option \<Rightarrow> string" where
  "row_cell row = (case row of None \<Rightarrow> '''' | Some n \<Rightarrow> show_int n)"

definition UNREADABLE_CSV_HEADER :: string where
  "UNREADABLE_CSV_HEADER = ''Row,Field,Why it could not be read''"

definition UNREADABLE_CSV_HEADER_DOC :: string where
  "UNREADABLE_CSV_HEADER_DOC = ''Field,Why it could not be read''"

definition UNREADABLE_CSV_HEADER_ALL :: string where
  "UNREADABLE_CSV_HEADER_ALL = ''File,Row,Field,Why it could not be read''"

definition UNREADABLE_CSV_HEADER_ALL_DOC :: string where
  "UNREADABLE_CSV_HEADER_ALL_DOC = ''File,Field,Why it could not be read''"

definition ALREADY_IMPORTED_CSV_HEADER_ALL :: string where
  "ALREADY_IMPORTED_CSV_HEADER_ALL = ''File,Row,Invoice id''"

definition ALREADY_IMPORTED_CSV_HEADER_ALL_DOC :: string where
  "ALREADY_IMPORTED_CSV_HEADER_ALL_DOC = ''File,Invoice id''"

definition unreadable_cells :: "picked_kind \<Rightarrow> unreadable_row \<Rightarrow> string list" where
  "unreadable_cells unit r =
     (if unit = Document then [ur_column r, ur_message r] else [row_cell (ur_row r), ur_column r, ur_message r])"

definition unreadableCsv :: "unreadable_row list \<Rightarrow> picked_kind \<Rightarrow> string" where
  "unreadableCsv rows unit =
     join [lf_char] ((if unit = Document then UNREADABLE_CSV_HEADER_DOC else UNREADABLE_CSV_HEADER)
       # map (\<lambda>r. csv_line (unreadable_cells unit r)) rows)"

definition unreadable_all_cells :: "picked_kind \<Rightarrow> unreadable_row_all \<Rightarrow> string list" where
  "unreadable_all_cells unit r =
     (if unit = Document then [ur_file r, ur_column r, ur_message r]
      else [ur_file r, row_cell (ur_row r), ur_column r, ur_message r])"

definition unreadableCsvAll :: "unreadable_row_all list \<Rightarrow> picked_kind \<Rightarrow> string" where
  "unreadableCsvAll rows unit =
     join [lf_char] ((if unit = Document then UNREADABLE_CSV_HEADER_ALL_DOC else UNREADABLE_CSV_HEADER_ALL)
       # map (\<lambda>r. csv_line (unreadable_all_cells unit r)) rows)"

definition already_imported_cells :: "picked_kind \<Rightarrow> already_imported_row_all \<Rightarrow> string list" where
  "already_imported_cells unit r =
    (let invoiceId = (case ai_invoiceId r of Some i \<Rightarrow> i | None \<Rightarrow> '''') in
     if unit = Document then [ai_file r, invoiceId] else [ai_file r, row_cell (ai_row r), invoiceId])"

definition alreadyImportedCsvAll :: "already_imported_row_all list \<Rightarrow> picked_kind \<Rightarrow> string" where
  "alreadyImportedCsvAll rows unit =
     join [lf_char] ((if unit = Document then ALREADY_IMPORTED_CSV_HEADER_ALL_DOC else ALREADY_IMPORTED_CSV_HEADER_ALL)
       # map (\<lambda>r. csv_line (already_imported_cells unit r)) rows)"

subsection \<open>Files of a run\<close>

record file_strip_row =
  fs_id :: string
  fs_filename :: string
  fs_reason :: "string option"

definition batchReason :: "import_batch \<Rightarrow> picked_kind \<Rightarrow> string option" where
  "batchReason batch unit =
    (if ib_rows_valid batch > 0 then None
     else if length (ib_errors batch) > 0 then Some (join ''; '' (map re_message (ib_errors batch)))
     else Some (''0 of '' @ show_int (ib_rows_total batch)
       @ (if unit = Document then '' documents produced an invoice'' else '' rows produced an invoice'')))"

definition filesStrip :: "import_batch list \<Rightarrow> import_run option \<Rightarrow> picked_kind \<Rightarrow> file_strip_row list" where
  "filesStrip batches run unit =
     map (\<lambda>b. \<lparr>fs_id = ib_id b, fs_filename = filenameLabel (ib_filename b), fs_reason = batchReason b unit\<rparr>) batches @
     concat (map (\<lambda>f. case rn_outcome f of
         Outcome_Failed message _ \<Rightarrow> [\<lparr>fs_id = rn_id f, fs_filename = rn_name f, fs_reason = Some message\<rparr>]
       | _ \<Rightarrow> []) (case run of None \<Rightarrow> [] | Some r \<Rightarrow> im_files r))"

definition sourceFileLabel :: "string option \<Rightarrow> import_batch list \<Rightarrow> string option" where
  "sourceFileLabel importBatchId batches =
    (case importBatchId of None \<Rightarrow> None
     | Some i \<Rightarrow> Option.bind (find (\<lambda>b. ib_id b = i) batches) ib_filename)"

definition showsSourceFile :: "import_batch list \<Rightarrow> bool" where
  "showsSourceFile batches \<longleftrightarrow> length batches > 1"

subsection \<open>Row expansion\<close>

record fix_card =
  fc_ruleKey :: string
  fc_severity :: severity
  fc_message :: string
  fc_blocking :: bool
  fc_field :: "string option"
  fc_line :: "(nat \<times> string option) option"
  fc_hint :: "string option"

definition fixHint :: "violation \<Rightarrow> string option" where
  "fixHint v = (case vi_expected v of
      None \<Rightarrow> None
    | Some e \<Rightarrow> Some (case vi_actual v of
          Some a \<Rightarrow> ''Expected '' @ e @ '' '' @ middle_dot @ '' got '' @ a
        | None \<Rightarrow> ''Expected '' @ e))"

definition fixCard :: "violation \<Rightarrow> fix_card" where
  "fixCard v = \<lparr>fc_ruleKey = vi_rule_key v, fc_severity = vi_severity v, fc_message = vi_message v,
     fc_blocking = (vi_severity v = Error), fc_field = mbsPathToEditField (vi_path v),
     fc_line = violationLine (vi_path v), fc_hint = fixHint v\<rparr>"

definition EDIT_FIELD_LABELS :: "(string \<times> string option) list" where
  "EDIT_FIELD_LABELS = map (\<lambda>k. (k, labelOf k)) EDIT_FIELD_KEYS"

definition ROW_EXPANSION_NOTE :: string where
  "ROW_EXPANSION_NOTE = ''Re-validating touches this invoice only '' @ em_dash
     @ '' the rest of the import stays as it is.''"

definition sectionLabel_copy :: string where
  "sectionLabel_copy = ''Failed rules '' @ middle_dot @ '' fix here, then re-validate this invoice only''"

definition advisorySectionLabel_copy :: string where
  "advisorySectionLabel_copy = ''Advisory notes '' @ middle_dot @ '' nothing here is blocking this invoice''"

record row_expansion_view =
  rx_passing :: bool
  rx_notValidated :: bool
  rx_blocking :: bool
  rx_summary :: "string option"
  rx_sectionLabel :: "string option"
  rx_cards :: "fix_card list"
  rx_revalidateDisabled :: bool
  rx_revalidateReason :: "string option"
  rx_note :: string
  rx_keptReason :: "string option"

text \<open>The invoice's violations, rule set and kept mark, then the gate.\<close>

definition rowExpansionView ::
  "violation list \<Rightarrow> int option \<Rightarrow> string option \<Rightarrow> string option \<Rightarrow> bool \<Rightarrow> string option \<Rightarrow> row_expansion_view"
where
  "rowExpansionView vs rule_set_version kept_as_is_at kept_as_is_reason can_revalidate blocked_reason =
    (let passing = (length vs = 0 \<and> rule_set_version \<noteq> None);
         notValidated = (length vs = 0 \<and> rule_set_version = None);
         blocking = list_ex (\<lambda>v. vi_severity v = Error) vs
     in \<lparr>rx_passing = passing, rx_notValidated = notValidated, rx_blocking = blocking,
         rx_summary = (if passing then Some (''Every rule in '' @ ruleSetLabel rule_set_version @ '' passed.'') else None),
         rx_sectionLabel = (if passing \<or> notValidated then None
           else if blocking then Some sectionLabel_copy else Some advisorySectionLabel_copy),
         rx_cards = map fixCard vs,
         rx_revalidateDisabled = (\<not> can_revalidate),
         rx_revalidateReason = blocked_reason,
         rx_note = ROW_EXPANSION_NOTE,
         rx_keptReason = (if kept_as_is_at \<noteq> None then kept_as_is_reason else None)\<rparr>)"

definition canKeepAsIs :: "string \<Rightarrow> bool" where
  "canKeepAsIs reason \<longleftrightarrow> length (trim reason) > 0"

text \<open>The draft of the row editor is the ordered list of the keys it holds.\<close>

definition fixEditPatch :: "columns \<Rightarrow> (string \<times> string) list \<Rightarrow> wire_patch" where
  "fixEditPatch original draft = concat (map (\<lambda>(key, v).
     if v = (case original key of Some s \<Rightarrow> s | None \<Rightarrow> '''') then []
     else (case editValueToWire key v of LeaveOut \<Rightarrow> [] | Send w \<Rightarrow> [(key, w)])) draft)"


subsection \<open>No reported row is lost\<close>

definition run_errors :: "import_batch list \<Rightarrow> row_error list" where
  "run_errors batches = concat (map ib_errors batches)"

lemma foldl_length: "foldl (\<lambda>n b. n + length (g b)) (k :: nat) bs = k + length (concat (map g bs))"
  by (induction bs arbitrary: k) simp_all

definition some_rows :: "'a list \<Rightarrow> ('a \<Rightarrow> int option) \<Rightarrow> int list" where
  "some_rows xs row = concat (map (\<lambda>x. case row x of None \<Rightarrow> [] | Some n \<Rightarrow> [n]) xs)"

lemma some_rows_append [simp]: "some_rows (xs @ ys) row = some_rows xs row @ some_rows ys row"
  by (simp add: some_rows_def)

lemma some_rows_Nil [simp]: "some_rows [] row = []"
  by (simp add: some_rows_def)

lemma some_rows_Cons [simp]: "some_rows (x # xs) row = (case row x of None \<Rightarrow> [] | Some n \<Rightarrow> [n]) @ some_rows xs row"
  by (simp add: some_rows_def)

lemma some_rows_map: "some_rows (map g xs) row = some_rows xs (row \<circ> g)"
  by (simp add: some_rows_def comp_def)

lemma some_rows_all: "some_rows xs Some = xs"
  by (induction xs) simp_all

lemma unreadableRows_Cons:
  "unreadableRows (e # es) = (if isAlreadyImported e \<or> isUnvalidatedDraft e then [] else unreadableRows [e]) @ unreadableRows es"
  by (simp add: unreadableRows_def)

lemma alreadyImportedRows_Cons:
  "alreadyImportedRows (e # es) = (if isAlreadyImported e then alreadyImportedRows [e] else []) @ alreadyImportedRows es"
  by (simp add: alreadyImportedRows_def)

lemma unreadableRows_one:
  "\<not> isAlreadyImported e \<Longrightarrow> \<not> isUnvalidatedDraft e \<Longrightarrow>
   some_rows (unreadableRows [e]) ur_row = rowErrorRows e \<and> 1 \<le> length (unreadableRows [e])"
  by (cases "rowErrorRows e")
    (simp_all add: unreadableRows_def Let_def some_rows_map comp_def some_rows_all)

lemma alreadyImportedRows_one:
  "isAlreadyImported e \<Longrightarrow>
   some_rows (alreadyImportedRows [e]) ai_row = rowErrorRows e \<and> 1 \<le> length (alreadyImportedRows [e])"
  by (cases "rowErrorRows e")
    (simp_all add: alreadyImportedRows_def Let_def some_rows_map comp_def some_rows_all)

lemma draft_not_imported: "isUnvalidatedDraft e \<Longrightarrow> \<not> isAlreadyImported e"
  by (simp add: isUnvalidatedDraft_def)

lemma channel_rows:
  "mset (concat (map rowErrorRows es)) =
     mset (some_rows (unreadableRows es) ur_row) + mset (some_rows (alreadyImportedRows es) ai_row) +
     mset (concat (map rowErrorRows (filter isUnvalidatedDraft es)))"
proof (induction es)
  case Nil
  show ?case by (simp add: unreadableRows_def alreadyImportedRows_def)
next
  case (Cons e es)
  then show ?case
    using unreadableRows_one [of e] alreadyImportedRows_one [of e] draft_not_imported [of e]
    by (cases "isAlreadyImported e"; cases "isUnvalidatedDraft e")
      (simp_all add: unreadableRows_Cons [of e es] alreadyImportedRows_Cons [of e es] ac_simps)
qed

lemma channel_entries:
  "length es \<le> length (unreadableRows es) + length (alreadyImportedRows es) + length (filter isUnvalidatedDraft es)"
proof (induction es)
  case (Cons e es)
  then show ?case
    using unreadableRows_one [of e] alreadyImportedRows_one [of e] draft_not_imported [of e]
    by (cases "isAlreadyImported e"; cases "isUnvalidatedDraft e")
      (simp_all only: unreadableRows_Cons [of e es] alreadyImportedRows_Cons [of e es], simp_all)
qed simp

lemma channels_append:
  "unreadableRows (es @ fs) = unreadableRows es @ unreadableRows fs"
  "alreadyImportedRows (es @ fs) = alreadyImportedRows es @ alreadyImportedRows fs"
  by (simp_all add: unreadableRows_def alreadyImportedRows_def)

lemma run_channels:
  "concat (map (\<lambda>b. unreadableRows (ib_errors b)) bs) = unreadableRows (run_errors bs)"
  "concat (map (\<lambda>b. alreadyImportedRows (ib_errors b)) bs) = alreadyImportedRows (run_errors bs)"
  by (induction bs) (simp_all add: run_errors_def channels_append, simp_all add: unreadableRows_def alreadyImportedRows_def)

lemma run_rows:
  "some_rows (unreadableRowsAll bs) ur_row = some_rows (unreadableRows (run_errors bs)) ur_row"
  "length (unreadableRowsAll bs) = length (unreadableRows (run_errors bs))"
  "some_rows (alreadyImportedRowsAll bs) ai_row = some_rows (alreadyImportedRows (run_errors bs)) ai_row"
  "length (alreadyImportedRowsAll bs) = length (alreadyImportedRows (run_errors bs))"
  unfolding run_channels [symmetric] unreadableRowsAll_def alreadyImportedRowsAll_def
  by (induction bs) (simp_all add: some_rows_map comp_def)

text \<open>C38: the channels of a run's row errors. The tiles count the rows of the two lists; every row
  number the server reported is in exactly one of the unreadable list, the already-imported list and
  the unvalidated drafts, as often as it was reported; and an entry without a row number is still
  listed, so the channels hold at least as many items as there are entries.\<close>

theorem review_channels:
  "let t = channelTilesAll batches live; es = run_errors batches;
       unreadable = unreadableRowsAll batches; imported = alreadyImportedRowsAll batches in
     ct_unreadable t = length unreadable \<and> ct_alreadyImported t = length imported \<and>
     mset (concat (map rowErrorRows es)) =
       mset (some_rows unreadable ur_row) + mset (some_rows imported ai_row) +
       mset (concat (map rowErrorRows (filter isUnvalidatedDraft es))) \<and>
     length es \<le> ct_unreadable t + ct_alreadyImported t + unvalidatedDraftCount batches"
proof -
  have "unvalidatedDraftCount batches = length (filter isUnvalidatedDraft (run_errors batches))"
    by (simp add: unvalidatedDraftCount_def foldl_length run_errors_def filter_concat comp_def)
  then show ?thesis
    using channel_rows [of "run_errors batches"] channel_entries [of "run_errors batches"]
    by (simp add: channelTilesAll_def Let_def foldl_length run_channels run_rows)
qed


subsection \<open>The downloads can be read back\<close>

text \<open>A reader of RFC 4180 text: whether it is inside quotes, the cell and the record read so far.\<close>

fun csv_read :: "bool \<Rightarrow> string \<Rightarrow> string list \<Rightarrow> string \<Rightarrow> string list list" where
  "csv_read quoted cell acc [] = [acc @ [cell]]"
| "csv_read False cell acc (c # s) =
     (if c = comma_char then csv_read False '''' (acc @ [cell]) s
      else if c = lf_char then (acc @ [cell]) # csv_read False '''' [] s
      else if c = quote_char \<and> cell = '''' then csv_read True cell acc s
      else csv_read False (cell @ [c]) acc s)"
| "csv_read True cell acc (c # s) =
     (if c = quote_char then
        (case s of
           d # s' \<Rightarrow> if d = quote_char then csv_read True (cell @ [c]) acc s' else csv_read False cell acc s
         | [] \<Rightarrow> csv_read False cell acc s)
      else csv_read True (cell @ [c]) acc s)"

lemma special_chars [simp]:
  "quote_char \<noteq> comma_char" "quote_char \<noteq> lf_char" "comma_char \<noteq> lf_char"
  "comma_char \<noteq> quote_char" "lf_char \<noteq> quote_char" "lf_char \<noteq> comma_char"
  by (simp_all add: quote_char_def comma_char_def lf_char_def)

definition cell_ends :: "string \<Rightarrow> bool" where
  "cell_ends s \<longleftrightarrow> s = '''' \<or> hd s = comma_char \<or> hd s = lf_char"

lemma csv_read_quoted:
  "cell_ends s \<Longrightarrow>
   csv_read True cell acc
     (concat (map (\<lambda>c. if c = quote_char then [quote_char, quote_char] else [c]) v) @ [quote_char] @ s) =
   csv_read False (cell @ v) acc s"
proof (induction v arbitrary: cell)
  case Nil
  then show ?case by (cases s) (auto simp: cell_ends_def)
next
  case (Cons c v)
  from Cons.IH [of "cell @ [c]"] Cons.prems show ?case by (cases "c = quote_char") simp_all
qed

lemma csv_read_plain:
  "cell_ends s \<Longrightarrow> list_all (\<lambda>c. c \<noteq> quote_char \<and> c \<noteq> comma_char \<and> c \<noteq> lf_char) v \<Longrightarrow>
   csv_read False cell acc (v @ s) = csv_read False (cell @ v) acc s"
proof (induction v arbitrary: cell)
  case (Cons c v)
  from Cons.IH [of "cell @ [c]"] Cons.prems show ?case by simp
qed simp

lemma csv_read_cell: "cell_ends s \<Longrightarrow> csv_read False '''' acc (csvCell v @ s) = csv_read False v acc s"
proof -
  assume ends: "cell_ends s"
  show ?thesis
  proof (cases "list_ex (\<lambda>c. c = quote_char \<or> c = comma_char \<or> c = cr_char \<or> c = lf_char) v")
    case True
    then show ?thesis using csv_read_quoted [OF ends, of "''''" acc v] by (simp add: csvCell_def)
  next
    case False
    then have "list_all (\<lambda>c. c \<noteq> quote_char \<and> c \<noteq> comma_char \<and> c \<noteq> lf_char) v"
      by (auto simp: list_all_iff list_ex_iff)
    then show ?thesis using csv_read_plain [OF ends, of v "''''" acc] False by (simp add: csvCell_def)
  qed
qed

lemma csv_read_line:
  "cells \<noteq> [] \<Longrightarrow> s = '''' \<or> hd s = lf_char \<Longrightarrow>
   csv_read False '''' acc (csv_line cells @ s) =
     (if s = '''' then [acc @ cells] else (acc @ cells) # csv_read False '''' [] (tl s))"
proof (induction cells arbitrary: acc)
  case (Cons c cells)
  show ?case
  proof (cases cells)
    case Nil
    then show ?thesis using Cons.prems csv_read_cell [of s acc c]
      by (cases s) (auto simp: csv_line_def cell_ends_def)
  next
    case more: (Cons d ds)
    have "csv_line (c # cells) = csvCell c @ comma_char # csv_line cells"
      by (simp add: csv_line_def more)
    then show ?thesis
      using csv_read_cell [of "comma_char # csv_line cells @ s" acc c] Cons.IH [of "acc @ [c]"] Cons.prems more
      by (simp add: cell_ends_def)
  qed
qed simp

lemma csv_read_lines:
  "list_all (\<lambda>cells. cells \<noteq> []) records \<Longrightarrow> records \<noteq> [] \<Longrightarrow>
   csv_read False '''' [] (join [lf_char] (map csv_line records)) = records"
proof (induction records)
  case (Cons r rs)
  show ?case
  proof (cases rs)
    case Nil
    then show ?thesis using csv_read_line [of r "''''" "[]"] Cons.prems by simp
  next
    case more: (Cons r' rs')
    then show ?thesis
      using csv_read_line [of r "lf_char # join [lf_char] (map csv_line rs)" "[]"] Cons.IH Cons.prems more by simp
  qed
qed simp

lemma csv_headers:
  "UNREADABLE_CSV_HEADER = csv_line [''Row'', ''Field'', ''Why it could not be read'']"
  "UNREADABLE_CSV_HEADER_DOC = csv_line [''Field'', ''Why it could not be read'']"
  "UNREADABLE_CSV_HEADER_ALL = csv_line [''File'', ''Row'', ''Field'', ''Why it could not be read'']"
  "UNREADABLE_CSV_HEADER_ALL_DOC = csv_line [''File'', ''Field'', ''Why it could not be read'']"
  "ALREADY_IMPORTED_CSV_HEADER_ALL = csv_line [''File'', ''Row'', ''Invoice id'']"
  "ALREADY_IMPORTED_CSV_HEADER_ALL_DOC = csv_line [''File'', ''Invoice id'']"
  by (simp_all add: csv_line_def csvCell_def quote_char_def comma_char_def cr_char_def lf_char_def
      UNREADABLE_CSV_HEADER_def UNREADABLE_CSV_HEADER_DOC_def UNREADABLE_CSV_HEADER_ALL_def
      UNREADABLE_CSV_HEADER_ALL_DOC_def ALREADY_IMPORTED_CSV_HEADER_ALL_def
      ALREADY_IMPORTED_CSV_HEADER_ALL_DOC_def)

lemma csv_file:
  "header \<noteq> [] \<Longrightarrow> (\<And>r. cells r \<noteq> []) \<Longrightarrow>
   csv_read False '''' [] (join [lf_char] (csv_line header # map (\<lambda>r. csv_line (cells r)) rows)) =
     header # map cells rows"
  using csv_read_lines [of "header # map cells rows"] by (simp add: comp_def list_all_iff)

text \<open>C25: the downloads. A reader of RFC 4180 text reads each of the three files back as its header and
  exactly one record per row of the screen, with the cells of that row, whatever commas, quotes and
  line breaks file names and messages hold.\<close>

theorem csv_downloads_roundtrip:
  "csv_read False '''' [] (unreadableCsv rows unit) =
     (if unit = Document then [''Field'', ''Why it could not be read'']
      else [''Row'', ''Field'', ''Why it could not be read'']) # map (unreadable_cells unit) rows \<and>
   csv_read False '''' [] (unreadableCsvAll rows_all unit) =
     (if unit = Document then [''File'', ''Field'', ''Why it could not be read'']
      else [''File'', ''Row'', ''Field'', ''Why it could not be read'']) # map (unreadable_all_cells unit) rows_all \<and>
   csv_read False '''' [] (alreadyImportedCsvAll imported unit) =
     (if unit = Document then [''File'', ''Invoice id''] else [''File'', ''Row'', ''Invoice id''])
       # map (already_imported_cells unit) imported"
proof -
  have cells: "unreadable_cells unit r \<noteq> []" "unreadable_all_cells unit r' \<noteq> []" "already_imported_cells unit i \<noteq> []"
    for r r' i
    by (simp_all add: unreadable_cells_def unreadable_all_cells_def already_imported_cells_def Let_def)
  show ?thesis
    unfolding unreadableCsv_def unreadableCsvAll_def alreadyImportedCsvAll_def csv_headers if_distrib [of csv_line, symmetric]
    by (intro conjI csv_file cells) simp_all
qed


subsection \<open>Requests stay inside the run\<close>

lemma strip_suffix: "\<exists>u. s = u @ strip_fuel n ws s"
proof (induction n arbitrary: s)
  case (Suc n)
  show ?case
  proof (cases "strip_one ws s")
    case (Some s')
    then obtain w where "s = w @ s'"
      by (auto simp: strip_one_def starts_with_def split: option.splits dest!: find_Some_iff [THEN iffD1])
        (metis append_take_drop_id)
    moreover obtain u where "s' = u @ strip_fuel n ws s'" using Suc by blast
    ultimately show ?thesis using Some by (metis append.assoc option.case(2) strip_fuel.simps(2))
  qed simp
qed simp

lemma strip_one_prefix: "strip_one ws (p @ q) = None \<Longrightarrow> strip_one ws p = None"
  by (auto simp: strip_one_def starts_with_iff find_None_iff split: option.splits)

lemma trim_trim [simp]: "trim (trim s) = trim s"
proof -
  define l where "l = strip js_space s"
  define t where "t = strip (map rev js_space) (rev l)"
  have "strip_one js_space l = None" unfolding l_def by (rule strip_stuck) (rule js_space_not_Nil)
  moreover obtain u where "rev l = u @ t" using strip_suffix [of "rev l"] by (auto simp: t_def strip_def)
  then have "l = rev t @ rev u" by (metis rev_append rev_rev_ident)
  ultimately have "strip_one js_space (rev t) = None" using strip_one_prefix by metis
  then have left: "strip js_space (rev t) = rev t" by (rule strip_unchanged)
  have "strip_one (map rev js_space) t = None"
    unfolding t_def by (rule strip_stuck) (auto dest: js_space_not_Nil)
  then have right: "strip (map rev js_space) t = t" by (rule strip_unchanged)
  have "trim s = rev t" by (simp add: trim_def t_def l_def)
  then show ?thesis by (simp add: trim_def left right)
qed

definition filter_ok :: "review_filter \<Rightarrow> bool" where
  "filter_ok s \<longleftrightarrow> 0 \<le> rf_offset s \<and> trim (rf_q s) = rf_q s"

interpretation review_filter: machine initialReviewFilter reviewFilterReducer filter_ok
proof
  show "filter_ok initialReviewFilter" by (simp add: initialReviewFilter_def filter_ok_def)
  show "filter_ok (reviewFilterReducer s a)" if "filter_ok s" for s a
    using that by (cases a) (auto simp: filter_ok_def Let_def)
qed

definition values_of :: "string \<Rightarrow> list_options \<Rightarrow> string list" where
  "values_of k opts = map snd (filter (\<lambda>p. fst p = k) (list_params opts))"

lemma param_values:
  "filter (\<lambda>p. fst p = k) (flag_param k' b) = (if k = k' then flag_param k' b else [])"
  "filter (\<lambda>p. fst p = k) (text_param k' t) = (if k = k' then text_param k' t else [])"
  "filter (\<lambda>p. fst p = k) (int_param k' n) = (if k = k' then int_param k' n else [])"
  "filter (\<lambda>p. fst p = k) (batch_params ids) = (if k = ''import_batch_id'' then batch_params ids else [])"
  by (auto simp: flag_param_def text_param_def int_param_def batch_params_def filter_map comp_def split: option.splits)

lemma values_of_list_params:
  "values_of ''import_batch_id'' opts = filter (\<lambda>i. i \<noteq> '''') (lo_importBatchIds opts)"
  "values_of ''limit'' opts = map snd (int_param '''' (lo_limit opts))"
  "values_of ''offset'' opts = map snd (int_param '''' (lo_offset opts))"
  "values_of ''q'' opts = map snd (text_param '''' (lo_q opts))"
  by (simp_all add: values_of_def list_params_def param_values)
    (simp_all add: batch_params_def comp_def int_param_def text_param_def split: option.splits)

lemma reviewQueryAll_options:
  "reviewQueryAll batchIds pill extra = Inr opts \<Longrightarrow>
     batchIds \<noteq> [] \<and> '''' \<notin> set batchIds \<and> lo_importBatchIds opts = batchIds \<and> lo_limit opts = qe_limit extra \<and>
     lo_offset opts = qe_offset extra \<and> lo_q opts = (if truthy (qe_q extra) then qe_q extra else None)"
  by (cases pill) (auto simp: reviewQueryAll_def Let_def filterToQuery_def no_options_def list_ex_iff split: if_splits)

text \<open>C27: requests of the review. After any sequence of filter actions, a request of the run is refused
  exactly when the run has no batch or an empty batch id, which would list the whole tenant; a
  request that goes out carries one \<open>import_batch_id\<close> per batch of the run, in order, and nothing
  else under that name, the page size, a non-negative offset, and a search text only if there is one,
  trimmed.\<close>

theorem review_requests_scoped:
  "let s = foldl reviewFilterReducer initialReviewFilter acts in
     (case reviewPageQueryAll batchIds s of
        Inl e \<Rightarrow> batchIds = [] \<or> '''' \<in> set batchIds
      | Inr opts \<Rightarrow> batchIds \<noteq> [] \<and> '''' \<notin> set batchIds \<and>
          values_of ''import_batch_id'' opts = batchIds \<and>
          values_of ''limit'' opts = [''50''] \<and>
          values_of ''offset'' opts = [show_int (rf_offset s)] \<and> 0 \<le> rf_offset s \<and>
          values_of ''q'' opts = (if rf_q s = '''' then [] else [rf_q s]) \<and> trim (rf_q s) = rf_q s)"
proof -
  define s where "s = foldl reviewFilterReducer initialReviewFilter acts"
  have ok: "filter_ok s" unfolding s_def by (rule review_filter.good_run)
  have show50: "show_int 50 = ''50''" by code_simp
  show ?thesis
  proof (cases "reviewPageQueryAll batchIds s")
    case (Inl e)
    then show ?thesis unfolding s_def [symmetric] Let_def
      by (auto simp: reviewPageQueryAll_def reviewQueryAll_def Let_def list_ex_iff split: if_splits)
  next
    case (Inr opts)
    then have "batchIds \<noteq> [] \<and> '''' \<notin> set batchIds" "lo_importBatchIds opts = batchIds"
        "lo_limit opts = Some 50" "lo_offset opts = Some (rf_offset s)"
        "lo_q opts = (if rf_q s = '''' then None else Some (rf_q s))"
      by (auto simp: reviewPageQueryAll_def page_extra_def REVIEW_PAGE_SIZE_def truthy_def dest!: reviewQueryAll_options)
    moreover from this(1) have "filter (\<lambda>i. i \<noteq> '''') batchIds = batchIds" by (auto simp: filter_id_conv)
    ultimately show ?thesis using ok Inr unfolding s_def [symmetric] Let_def
      by (simp add: values_of_list_params int_param_def text_param_def show50 filter_ok_def)
  qed
qed


subsection \<open>Paging reaches every row once\<close>

definition rows_shown :: "pagination \<Rightarrow> int list" where
  "rows_shown p = (if pg_total p = 0 \<or> pager_last p < pager_first p then [] else [pager_first p..pager_last p])"

text \<open>Clicking Next as long as it is enabled, at most the given number of pages.\<close>

fun pager_walk :: "nat \<Rightarrow> pagination \<Rightarrow> pagination list" where
  "pager_walk 0 p = []"
| "pager_walk (Suc k) p =
     p # (if pn_canNext (pagerNav p) then pager_walk k (p\<lparr>pg_offset := pn_nextOffset (pagerNav p)\<rparr>) else [])"

lemma le_int_div_iff: "0 < l \<Longrightarrow> a \<le> x div l \<longleftrightarrow> a * l \<le> x" for a x l :: int
proof
  assume l: "0 < l" and "a \<le> x div l"
  then have "l * a \<le> l * (x div l)" by simp
  moreover have "x = l * (x div l) + x mod l" by simp
  ultimately show "a * l \<le> x" using pos_mod_sign [OF l, of x] mult.commute [of a l] by linarith
next
  assume l: "0 < l" and le: "a * l \<le> x"
  show "a \<le> x div l"
  proof (rule ccontr)
    assume "\<not> a \<le> x div l"
    then have "l * (x div l + 1) \<le> l * a" using l by simp
    then show False using le mult_div_mod_eq [of l x] pos_mod_bound [OF l, of x] by (simp add: algebra_simps)
  qed
qed

lemma pages_more: "1 \<le> l \<Longrightarrow> 0 \<le> k \<Longrightarrow> l * (k + 1) < t \<longleftrightarrow> k + 1 < - (- t div l)" for l t k :: int
proof -
  assume l: "1 \<le> l"
  have "- (- t div l) \<le> k + 1 \<longleftrightarrow> - (k + 1) \<le> - t div l" by linarith
  also have "\<dots> \<longleftrightarrow> - (k + 1) * l \<le> - t" using l by (simp add: le_int_div_iff)
  also have "\<dots> \<longleftrightarrow> t \<le> l * (k + 1)" by (simp add: algebra_simps)
  finally show ?thesis by linarith
qed

lemma pager_walk_from:
  assumes "1 \<le> l" "0 \<le> t" "0 \<le> k" "k = 0 \<or> l * k < t" "nat (t - l * k) < n"
  shows "concat (map rows_shown (pager_walk n \<lparr>pg_limit = l, pg_offset = l * k, pg_total = t\<rparr>)) = [l * k + 1..t] \<and>
    map pager_page (pager_walk n \<lparr>pg_limit = l, pg_offset = l * k, pg_total = t\<rparr>) =
      [k + 1..max 1 (- (- t div l))]"
  using assms
proof (induction n arbitrary: k)
  case (Suc n)
  let ?p = "\<lparr>pg_limit = l, pg_offset = l * k, pg_total = t\<rparr>" and ?P = "- (- t div l)"
  have next_offset: "l * k + l = l * (k + 1)" by (simp add: algebra_simps)
  have page: "pager_page ?p = min (max 1 ?P) (k + 1)"
    using Suc.prems by (simp add: pager_page_def pager_pages_def)
  show ?case
  proof (cases "l * (k + 1) < t")
    case True
    then have more: "k + 1 < ?P" using pages_more Suc.prems by blast
    have "0 \<le> l * (k + 1)" using Suc.prems by simp
    with True have "t \<noteq> 0" by linarith
    with True have rows: "rows_shown ?p = [l * k + 1..l * k + l]"
      using Suc.prems by (auto simp: rows_shown_def pager_first_def pager_last_def next_offset)
    have IH: "concat (map rows_shown (pager_walk n (?p\<lparr>pg_offset := l * (k + 1)\<rparr>))) = [l * (k + 1) + 1..t] \<and>
      map pager_page (pager_walk n (?p\<lparr>pg_offset := l * (k + 1)\<rparr>)) = [k + 1 + 1..max 1 ?P]"
      using Suc.IH [of "k + 1"] Suc.prems True by (simp add: algebra_simps)
    have "[l * k + 1..l * (k + 1)] @ [l * (k + 1) + 1..t] = [l * k + 1..t]"
      by (rule upto_split2 [symmetric]) (use Suc.prems True in \<open>simp_all add: algebra_simps\<close>)
    moreover have "(k + 1) # [k + 1 + 1..max 1 ?P] = [k + 1..max 1 ?P]"
      using more by (simp add: upto_rec1 [of "k + 1"])
    ultimately show ?thesis
      using IH True page rows more Suc.prems(3) by (simp add: pagerNav_def next_offset)
  next
    case False
    then have last: "\<not> k + 1 < ?P" using pages_more Suc.prems by blast
    have "max 1 ?P = k + 1"
    proof (cases "k = 0")
      case False
      with Suc.prems have "l * (k - 1 + 1) < t" "0 \<le> k - 1" by auto
      then have "k < ?P" using pages_more [of l "k - 1" t] Suc.prems(1) by simp
      with last Suc.prems(3) show ?thesis by simp
    qed (use last in simp)
    moreover have "0 \<le> l * k" using Suc.prems by simp
    with Suc.prems(4) have "t = 0 \<Longrightarrow> k = 0" by linarith
    then have "rows_shown ?p = [l * k + 1..t]"
      using False by (cases "t = 0") (auto simp: rows_shown_def pager_first_def pager_last_def algebra_simps)
    ultimately show ?thesis
      using False page by (simp add: pagerNav_def next_offset)
  qed
qed simp

text \<open>Paging. From the first page, clicking Next while it is enabled visits the pages 1 to the number
  of pages the label names, in order, and the pages show every row from 1 to the total, in order and
  once each. One click per row is enough.\<close>

theorem pager_covers:
  assumes "1 \<le> limit" and "0 \<le> rows"
  shows "concat (map rows_shown (pager_walk (nat rows + 1) \<lparr>pg_limit = limit, pg_offset = 0, pg_total = rows\<rparr>)) = [1..rows] \<and>
    map pager_page (pager_walk (nat rows + 1) \<lparr>pg_limit = limit, pg_offset = 0, pg_total = rows\<rparr>) =
      [1..pager_pages \<lparr>pg_limit = limit, pg_offset = 0, pg_total = rows\<rparr>]"
  using pager_walk_from [of limit rows 0 "nat rows + 1"] assms by (simp add: pager_pages_def)

theorem pager_covers_witness:
  "concat (map rows_shown (pager_walk 6 \<lparr>pg_limit = 2, pg_offset = 0, pg_total = 5\<rparr>)) = [1..5] \<and>
   map pager_page (pager_walk 6 \<lparr>pg_limit = 2, pg_offset = 0, pg_total = 5\<rparr>) = [1..3]"
  using pager_covers [of 2 5] by (simp add: pager_pages_def)

end
