(* ===== verification/Review_Submit.thy ===== *)
theory Review_Submit
  imports Review_Batch
begin

text \<open>
  Submitting the selected invoices of a review: the bulk bar and the results panel of
  \<open>lib/reviewBatch.ts\<close>, and the handlers of \<open>components/ReviewInvoicesTab.tsx\<close> that drive them. A click
  runs the handler of the last render, so its reads see the rendered state while its writes update
  the current one; the in-flight flag is a ref and is read at its current value.
\<close>

subsection \<open>The bar\<close>

datatype bulk_phase = Bulk_Idle | Armed | Submitting
datatype bulk_action = Arm | Cancel | Confirm | Bulk_Settled

fun bulkPhaseReducer :: "bulk_phase \<Rightarrow> bulk_action \<Rightarrow> bulk_phase" where
  "bulkPhaseReducer p Arm = (if p = Bulk_Idle then Armed else p)"
| "bulkPhaseReducer p Cancel = (if p = Submitting then p else Bulk_Idle)"
| "bulkPhaseReducer p Confirm = (if p = Armed then Submitting else p)"
| "bulkPhaseReducer p Bulk_Settled = Bulk_Idle"

definition BATCH_SUBMIT_MAX_IDS :: int where "BATCH_SUBMIT_MAX_IDS = 200"

record bulk_bar_view =
  bb_visible :: bool
  bb_eligible :: "string list"
  bb_notReady :: nat
  bb_countLabel :: string
  bb_note :: "string option"
  bb_submitLabel :: string
  bb_confirmPrompt :: string
  bb_confirmDetail :: string
  bb_confirmLabel :: string
  bb_canSubmit :: bool
  bb_submitAllLabel :: string
  bb_canSubmitAll :: bool

definition bulkBarView :: "string list \<Rightarrow> invoice list \<Rightarrow> bulk_phase \<Rightarrow> bool \<Rightarrow> bulk_bar_view" where
  "bulkBarView selected rows phase pageLoading =
    (let eligible = pruneSelection selected rows;
         pageEligible = length (selectableIds rows);
         notReady = length rows - pageEligible;
         n = length eligible;
         is_open = (\<not> pageLoading \<and> phase \<noteq> Submitting)
     in \<lparr>bb_visible = (n > 0), bb_eligible = eligible, bb_notReady = notReady,
         bb_countLabel = show_nat n @ '' selected on this page'',
         bb_note = (if notReady > 0 then Some (show_nat notReady @ '' of the '' @ show_nat (length rows) @ '' ''
             @ (if length rows = 1 then ''row'' else ''rows'') @ '' on this page cannot be sent.'') else None),
         bb_submitLabel = ''Submit '' @ show_nat n @ '' for transmission'',
         bb_confirmPrompt = ''Send '' @ show_nat n @ '' '' @ (if n = 1 then ''invoice'' else ''invoices'')
             @ '' for transmission?'',
         bb_confirmDetail = ''They move to '' @ ss_label (invoiceStatusStyle Queued)
             @ '' for transmission. Nothing on this screen can pull them back.'',
         bb_confirmLabel = ''Yes, send '' @ show_nat n @ '' now'',
         bb_canSubmit = (n > 0 \<and> is_open),
         bb_submitAllLabel = ''Submit all '' @ show_nat pageEligible @ '' on this page for transmission'',
         bb_canSubmitAll = (pageEligible > 0 \<and> is_open)\<rparr>)"

record submit_result_row =
  sr_invoiceNumber :: string
  sr_label :: string
  sr_enqueued :: bool

record bulk_outcome =
  bo_results :: "submit_result_row list option"
  bo_clearSelection :: bool

text \<open>The response is \<^const>\<open>None\<close> when the request failed, else the items, themselves possibly missing.\<close>

definition bulkOutcome :: "submit_item list option option \<Rightarrow> (string \<rightharpoonup> string) \<Rightarrow> bulk_outcome" where
  "bulkOutcome res numbersById =
    (case res of
       None \<Rightarrow> \<lparr>bo_results = None, bo_clearSelection = False\<rparr>
     | Some items \<Rightarrow>
         \<lparr>bo_results = Some (map (\<lambda>item.
            \<lparr>sr_invoiceNumber = (case numbersById (si_invoice_id item) of Some n \<Rightarrow> n | None \<Rightarrow> si_invoice_id item),
             sr_label = (if si_enqueued item then ''Queued''
               else case si_reason item of Some r \<Rightarrow> skipReasonLabel r | None \<Rightarrow> ''Not queued''),
             sr_enqueued = si_enqueued item\<rparr>) (case items of None \<Rightarrow> [] | Some l \<Rightarrow> l)),
          bo_clearSelection = True\<rparr>)"

subsection \<open>The tab\<close>

text \<open>The state a render sees. \<open>ts_page\<close> stands for the identity of the rows: a page that is read anew is a new object, also
  when it holds the same rows.\<close>

record tab_state =
  ts_page :: nat
  ts_rows :: "invoice list"
  ts_loading :: bool
  ts_selected :: "string list"
  ts_phase :: bulk_phase
  ts_results :: "submit_result_row list option"
  ts_submitError :: bool

text \<open>A request on the wire: the ids it carries, the render it was sent from, and the numbers of that
  page's invoices.\<close>

record sent_request =
  sq_ids :: "string list"
  sq_from :: tab_state

record bulk_tab =
  bk_now :: tab_state
  bk_view :: tab_state
  bk_submitInFlight :: bool
  bk_sent :: "sent_request list"
  bk_answered :: nat

definition the_bar :: "tab_state \<Rightarrow> bulk_bar_view" where
  "the_bar v = bulkBarView (ts_selected v) (ts_rows v) (ts_phase v) (ts_loading v)"

text \<open>\<open>toPhase\<close> reads the rendered phase and reports whether it changed anything.\<close>

definition toPhase :: "bulk_action \<Rightarrow> bulk_tab \<Rightarrow> bulk_tab \<times> bool" where
  "toPhase a t =
    (let nxt = bulkPhaseReducer (ts_phase (bk_view t)) a in
     if nxt = ts_phase (bk_view t) then (t, False)
     else (t\<lparr>bk_now := (bk_now t)\<lparr>ts_phase := nxt\<rparr>\<rparr>, True))"

definition disarm :: "bulk_tab \<Rightarrow> bulk_tab" where
  "disarm t = fst (toPhase Cancel (t\<lparr>bk_now := (bk_now t)\<lparr>ts_submitError := False\<rparr>\<rparr>))"

definition set_selected :: "string list \<Rightarrow> bulk_tab \<Rightarrow> bulk_tab" where
  "set_selected sel t = t\<lparr>bk_now := (bk_now t)\<lparr>ts_selected := sel\<rparr>\<rparr>"

definition toggleAll :: "bulk_tab \<Rightarrow> bulk_tab" where
  "toggleAll t =
    (let v = bk_view t in
     disarm (set_selected (if selectAllState (ts_selected v) (ts_rows v) = AllSelected then []
                           else selectableIds (ts_rows v)) t))"

definition submit :: "bulk_tab \<Rightarrow> bulk_tab" where
  "submit t =
    (let ids = bb_eligible (the_bar (bk_view t)) in
     if length ids = 0 then t
     else let (t', moved) = toPhase Confirm t in
       if \<not> moved then t
       else if bk_submitInFlight t' then t'
       else t'\<lparr>bk_submitInFlight := True, bk_now := (bk_now t')\<lparr>ts_submitError := False\<rparr>,
               bk_sent := bk_sent t' @ [\<lparr>sq_ids = ids, sq_from = bk_view t'\<rparr>]\<rparr>)"

definition submitAll :: "bulk_tab \<Rightarrow> bulk_tab" where
  "submitAll t =
    (if ts_phase (bk_view t) = Bulk_Idle
     then fst (toPhase Arm (set_selected (selectableIds (ts_rows (bk_view t))) t))
     else submit t)"

definition numbersById :: "sent_request \<Rightarrow> (string \<rightharpoonup> string)" where
  "numbersById q = map_of (rev (map (\<lambda>r. (iv_id r, iv_invoice_number r)) (ts_rows (sq_from q))))"

text \<open>The rest of \<open>submit\<close> after its \<open>await\<close>: its updates read the current phase, and a success
  reloads the page.\<close>

definition answer :: "submit_item list option option \<Rightarrow> bulk_tab \<Rightarrow> bulk_tab" where
  "answer res t =
    (let oc = bulkOutcome res (numbersById (last (bk_sent t)));
         s = bk_now t;
         s = s\<lparr>ts_results := bo_results oc, ts_phase := bulkPhaseReducer (ts_phase s) Bulk_Settled,
               ts_loading := (if res = None then ts_loading s else True),
               ts_selected := (if bo_clearSelection oc then [] else ts_selected s),
               ts_submitError := (if res = None then True else ts_submitError s)\<rparr>
     in t\<lparr>bk_now := s, bk_submitInFlight := False, bk_answered := bk_answered t + 1\<rparr>)"

datatype tab_event =
    Page_Loading
  | Page_Ready "invoice list"
  | Toggle_Row string
  | Toggle_All
  | Clear_Click
  | Submit_Click
  | Cancel_Click
  | Confirm_Click
  | Submit_All_Click
  | Answered "submit_item list option option"
  | Render

text \<open>A click on a button that the last render disabled or left out does nothing; an answer comes only
  while a request is open. Rendering new rows runs the effect that prunes the selection and disarms.\<close>

definition step :: "bulk_tab \<Rightarrow> tab_event \<Rightarrow> bulk_tab" where
  "step t e =
    (let v = bk_view t; bar = the_bar v in
     case e of
       Page_Loading \<Rightarrow> t\<lparr>bk_now := (bk_now t)\<lparr>ts_loading := True\<rparr>\<rparr>
     | Page_Ready rows \<Rightarrow> t\<lparr>bk_now := (bk_now t)\<lparr>ts_page := ts_page (bk_now t) + 1, ts_rows := rows, ts_loading := False\<rparr>\<rparr>
     | Toggle_Row i \<Rightarrow> disarm (set_selected (toggleSelection (ts_selected (bk_now t)) i) t)
     | Toggle_All \<Rightarrow> toggleAll t
     | Clear_Click \<Rightarrow> if bb_visible bar \<and> ts_phase v = Bulk_Idle then disarm (set_selected [] t) else t
     | Submit_Click \<Rightarrow>
         if bb_visible bar \<and> ts_phase v = Bulk_Idle \<and> bb_canSubmit bar then fst (toPhase Arm t) else t
     | Cancel_Click \<Rightarrow> if bb_visible bar \<and> ts_phase v = Armed then disarm t else t
     | Confirm_Click \<Rightarrow> if bb_visible bar \<and> ts_phase v \<noteq> Bulk_Idle \<and> bb_canSubmit bar then submit t else t
     | Submit_All_Click \<Rightarrow> if bb_canSubmitAll bar then submitAll t else t
     | Answered res \<Rightarrow> if bk_submitInFlight t then answer res t else t
     | Render \<Rightarrow>
         (let s = bk_now t;
              s = (if ts_page s = ts_page v then s
                   else s\<lparr>ts_selected := pruneSelection (ts_selected s) (ts_rows s),
                          ts_phase := (if ts_phase s = Submitting then ts_phase s else Bulk_Idle)\<rparr>)
          in t\<lparr>bk_now := s, bk_view := s\<rparr>))"

definition fresh_tab :: tab_state where
  "fresh_tab = \<lparr>ts_page = 0, ts_rows = [], ts_loading = True, ts_selected = [], ts_phase = Bulk_Idle, ts_results = None,
     ts_submitError = False\<rparr>"

definition tab_start :: bulk_tab where
  "tab_start = \<lparr>bk_now = fresh_tab, bk_view = fresh_tab, bk_submitInFlight = False, bk_sent = [], bk_answered = 0\<rparr>"


subsection \<open>What can be sent\<close>

definition open_requests :: "bulk_tab \<Rightarrow> nat" where
  "open_requests t = length (bk_sent t) - bk_answered t"

definition request_ok :: "sent_request \<Rightarrow> bool" where
  "request_ok q \<longleftrightarrow> sq_ids q \<noteq> [] \<and>
     sq_ids q = pruneSelection (ts_selected (sq_from q)) (ts_rows (sq_from q)) \<and>
     ts_phase (sq_from q) = Armed \<and> \<not> ts_loading (sq_from q)"

definition tab_ok :: "bulk_tab \<Rightarrow> bool" where
  "tab_ok t \<longleftrightarrow> length (bk_sent t) = bk_answered t + (if bk_submitInFlight t then 1 else 0) \<and>
     list_all request_ok (bk_sent t)"

lemma toPhase_keeps:
  "bk_sent (fst (toPhase a t)) = bk_sent t" "bk_answered (fst (toPhase a t)) = bk_answered t"
  "bk_submitInFlight (fst (toPhase a t)) = bk_submitInFlight t" "bk_view (fst (toPhase a t)) = bk_view t"
  by (simp_all add: toPhase_def Let_def)

lemma tab_ok_keeps:
  "bk_sent t' = bk_sent t \<Longrightarrow> bk_answered t' = bk_answered t \<Longrightarrow>
   bk_submitInFlight t' = bk_submitInFlight t \<Longrightarrow> tab_ok t \<Longrightarrow> tab_ok t'"
  by (simp add: tab_ok_def)

lemma tab_ok_toPhase: "tab_ok t \<Longrightarrow> tab_ok (fst (toPhase a t))"
  by (rule tab_ok_keeps [of _ t]) (simp_all add: toPhase_keeps)

lemma tab_ok_disarm: "tab_ok t \<Longrightarrow> tab_ok (disarm t)"
  unfolding disarm_def by (rule tab_ok_toPhase, rule tab_ok_keeps [of _ t]) simp_all

lemma tab_ok_set_selected: "tab_ok t \<Longrightarrow> tab_ok (set_selected sel t)"
  by (rule tab_ok_keeps [of _ t]) (simp_all add: set_selected_def)

lemma submit_eq:
  "submit t =
    (if bb_eligible (the_bar (bk_view t)) = [] \<or> \<not> snd (toPhase Confirm t) then t
     else if bk_submitInFlight t then fst (toPhase Confirm t)
     else (fst (toPhase Confirm t))\<lparr>bk_submitInFlight := True,
       bk_now := (bk_now (fst (toPhase Confirm t)))\<lparr>ts_submitError := False\<rparr>,
       bk_sent := bk_sent t @ [\<lparr>sq_ids = bb_eligible (the_bar (bk_view t)), sq_from = bk_view t\<rparr>]\<rparr>)"
  by (simp add: submit_def Let_def case_prod_unfold toPhase_keeps)

lemma tab_ok_submit:
  assumes ok: "tab_ok t" and loading: "\<not> ts_loading (bk_view t)"
  shows "tab_ok (submit t)"
proof (cases "bb_eligible (the_bar (bk_view t)) = [] \<or> \<not> snd (toPhase Confirm t) \<or> bk_submitInFlight t")
  case True
  then show ?thesis using ok tab_ok_toPhase by (auto simp: submit_eq)
next
  case False
  then have "ts_phase (bk_view t) = Armed"
    by (cases "ts_phase (bk_view t)") (simp_all add: toPhase_def)
  with False ok loading show ?thesis
    by (auto simp: submit_eq tab_ok_def request_ok_def toPhase_keeps the_bar_def bulkBarView_def Let_def)
qed

lemma bar_open:
  "bb_canSubmit (the_bar v) \<Longrightarrow> \<not> ts_loading v" "bb_canSubmitAll (the_bar v) \<Longrightarrow> \<not> ts_loading v"
  by (simp_all add: the_bar_def bulkBarView_def Let_def)

lemmas tab_ok_intros = tab_ok_toPhase tab_ok_disarm tab_ok_set_selected tab_ok_submit

lemma tab_ok_step: "tab_ok t \<Longrightarrow> tab_ok (step t e)"
proof (cases e)
  case (Answered res)
  moreover assume "tab_ok t"
  ultimately show ?thesis by (auto simp: step_def answer_def tab_ok_def Let_def)
next
  case Render
  moreover assume "tab_ok t"
  ultimately show ?thesis by (simp add: step_def tab_ok_def Let_def)
qed (auto simp: step_def Let_def toggleAll_def submitAll_def bar_open intro!: tab_ok_intros,
     auto simp: tab_ok_def)

interpretation submit_tab: machine tab_start step tab_ok
proof
  show "tab_ok tab_start" by (simp add: tab_start_def tab_ok_def)
qed (rule tab_ok_step)

text \<open>C8: submitting from a review. Whatever the clicks, page loads, answers and renders, at most one
  request is open, a request is sent only from a render that was armed and not loading its page, and it
  carries at least one id, each the id of a selected invoice of that page that can be submitted.\<close>

theorem submit_only_armed:
  "let t = foldl step tab_start es in
     length (bk_sent t) = bk_answered t + (if bk_submitInFlight t then 1 else 0) \<and>
     list_all (\<lambda>q. ts_phase (sq_from q) = Armed \<and> \<not> ts_loading (sq_from q) \<and> sq_ids q \<noteq> [] \<and>
       list_all (\<lambda>i. i \<in> set (ts_selected (sq_from q)) \<and>
         list_ex (\<lambda>r. iv_id r = i \<and> iv_can_submit r) (ts_rows (sq_from q))) (sq_ids q)) (bk_sent t)"
  using submit_tab.good_run [of es]
  by (auto simp: tab_ok_def request_ok_def Let_def list_all_iff list_ex_iff submit_selection.set_prune
      isRowSelectable_def)


text \<open>C40: confirming sends. On a rendered tab, clicking Submit and then, once that has rendered, Confirm
  sends one request with exactly the eligible ids if the bar is open and no request is on its way, and
  sends nothing otherwise.\<close>

theorem arm_confirm_sends:
  "bk_sent (foldl step \<lparr>bk_now = v, bk_view = v, bk_submitInFlight = flight, bk_sent = reqs, bk_answered = n\<rparr>
       [Submit_Click, Render, Confirm_Click]) =
     reqs @ (if bb_canSubmit (the_bar v) \<and> \<not> flight
             then [\<lparr>sq_ids = pruneSelection (ts_selected v) (ts_rows v), sq_from = v\<lparr>ts_phase := Armed\<rparr>\<rparr>]
             else [])"
  by (cases "ts_phase v")
    (auto simp: step_def submit_eq toPhase_def the_bar_def bulkBarView_def Let_def)

end
