(* ===== verification/Api_Client.thy ===== *)
theory Api_Client
  imports Import_Flow
begin

text \<open>
  The gateway client every screen uses (\<open>packages/api-client\<close>: \<open>client.ts\<close>, \<open>apiFailure.ts\<close>,
  \<open>async-state.ts\<close>) and the wrapper that signs its requests and watches its refusals
  (\<open>lib/authedFetch.ts\<close>). \<open>fetch\<close>, \<open>JSON.parse\<close> (through \<open>res.json()\<close>) and \<open>String\<close> of a value
  other than a text are the platform's and appear as arguments.
\<close>

subsection \<open>Errors\<close>

datatype api_error_kind = Network | Http | Malformed

record api_error =
  ae_kind :: api_error_kind
  ae_message :: string
  ae_status :: "int option"
  ae_body :: json

text \<open>What a promise of the client can reject with.\<close>

datatype failure = Api_Error api_error | Session_Ended | Other_Failure string

definition api_error :: "api_error_kind \<Rightarrow> string \<Rightarrow> int option \<Rightarrow> json \<Rightarrow> api_error" where
  "api_error k m s b = \<lparr>ae_kind = k, ae_message = m, ae_status = s, ae_body = b\<rparr>"

subsection \<open>apiFetch\<close>

text \<open>The answer of \<open>fetch\<close>: a rejection with its message and the message of its cause (empty when it
  has none), or a response; \<^const>\<open>None\<close> when reading the body rejects.\<close>

record response =
  rs_status :: int
  rs_statusText :: string
  rs_json :: "json option"
  rs_text :: "string option"

datatype fetch_answer = Fetch_Rejects string string | Fetch_Responds response

record fetch_options =
  fo_method :: "string option"
  fo_body :: "json option"
  fo_token :: "string option"
  fo_asText :: bool

text \<open>The request handed to \<open>fetch\<close>.\<close>

record wire_request =
  wr_url :: string
  wr_method :: string
  wr_headers :: "(string \<times> string) list"
  wr_body :: "json option"

definition res_ok :: "response \<Rightarrow> bool" where
  "res_ok res \<longleftrightarrow> 200 \<le> rs_status res \<and> rs_status res < 300"

definition non_empty_text :: "string option \<Rightarrow> bool" where
  "non_empty_text t \<longleftrightarrow> t \<noteq> None \<and> t \<noteq> Some ''''"

definition fetch_request :: "string \<Rightarrow> fetch_options \<Rightarrow> wire_request" where
  "fetch_request url opts =
    \<lparr>wr_url = url, wr_method = (case fo_method opts of None \<Rightarrow> ''GET'' | Some m \<Rightarrow> m),
     wr_headers =
       (case fo_token opts of None \<Rightarrow> [] | Some t \<Rightarrow> if t = '''' then [] else [(''Authorization'', ''Bearer '' @ t)]) @
       (if fo_body opts \<noteq> None then [(''Content-Type'', ''application/json'')] else []),
     wr_body = fo_body opts\<rparr>"

text \<open>\<open>'error' in body\<close> on a truthy object.\<close>

definition error_field :: "json \<Rightarrow> json option" where
  "error_field body = (case body of JObj fs \<Rightarrow> map_of fs ''error'' | _ \<Rightarrow> None)"

definition js_String :: "(json \<Rightarrow> string) \<Rightarrow> json \<Rightarrow> string" where
  "js_String other v = (case v of JStr s \<Rightarrow> s | _ \<Rightarrow> other v)"

definition apiFetch ::
  "(json \<Rightarrow> string) \<Rightarrow> (wire_request \<Rightarrow> fetch_answer) \<Rightarrow> string \<Rightarrow> fetch_options \<Rightarrow> api_error + json"
where
  "apiFetch other fetch url opts =
    (case fetch (fetch_request url opts) of
       Fetch_Rejects msg cause \<Rightarrow>
         Inl (api_error Network (if cause \<noteq> '''' then msg @ '': '' @ cause else msg) None JUndefined)
     | Fetch_Responds res \<Rightarrow>
         if \<not> res_ok res then
           (case rs_json res of
              None \<Rightarrow> Inl (api_error Http (rs_statusText res) (Some (rs_status res)) JUndefined)
            | Some body \<Rightarrow> Inl (api_error Http
                (case error_field body of None \<Rightarrow> rs_statusText res | Some e \<Rightarrow> js_String other e)
                (Some (rs_status res)) body))
         else if rs_status res = 204 then Inr JUndefined
         else if fo_asText opts then
           (case rs_text res of Some t \<Rightarrow> Inr (JStr t)
            | None \<Rightarrow> Inl (api_error Malformed ''malformed response body'' (Some (rs_status res)) JUndefined))
         else
           (case rs_json res of Some b \<Rightarrow> Inr b
            | None \<Rightarrow> Inl (api_error Malformed ''malformed response body'' (Some (rs_status res)) JUndefined)))"

text \<open>\<open>countsAsIssue\<close>: the signal of the request, if it was aborted whether by a timeout, and whether the
  error is an \<open>AbortError\<close>, a \<open>TimeoutError\<close> or a \<open>TypeError\<close> of the platform.\<close>

datatype abort_signal = Not_Aborted | Aborted_By_Caller | Aborted_By_Timeout
datatype thrown = Thrown_Api api_error | Abort_Error | Timeout_Error | Type_Error | Thrown_Other

definition countsAsIssue :: "thrown \<Rightarrow> abort_signal \<Rightarrow> bool" where
  "countsAsIssue err signal =
    (if signal = Aborted_By_Caller then False
     else if signal = Aborted_By_Timeout \<and> err = Abort_Error then True
     else if err = Abort_Error then False
     else case err of
       Thrown_Api e \<Rightarrow> (if ae_kind e = Http
         then (case ae_status e of None \<Rightarrow> False | Some s \<Rightarrow> 500 \<le> s \<and> s \<le> 599) else True)
     | Timeout_Error \<Rightarrow> True
     | Type_Error \<Rightarrow> True
     | _ \<Rightarrow> False)"

subsection \<open>The signed fetch\<close>

definition NOT_ACTIVE_MEMBER_MESSAGE :: string where
  "NOT_ACTIVE_MEMBER_MESSAGE = ''your membership in this workspace is not active''"

definition WORKSPACE_LOCKED_MESSAGE :: string where
  "WORKSPACE_LOCKED_MESSAGE = ''this workspace is scheduled for deletion''"

definition isUnauthorized :: "failure \<Rightarrow> bool" where
  "isUnauthorized e = (case e of Api_Error a \<Rightarrow> ae_kind a = Http \<and> ae_status a = Some 401 | _ \<Rightarrow> False)"

definition isSuspended :: "failure \<Rightarrow> bool" where
  "isSuspended e = (case e of Api_Error a \<Rightarrow> ae_kind a = Http \<and> ae_status a = Some 403 \<and>
       error_field (ae_body a) = Some (JStr NOT_ACTIVE_MEMBER_MESSAGE) | _ \<Rightarrow> False)"

definition isWorkspaceLocked :: "failure \<Rightarrow> bool" where
  "isWorkspaceLocked e = (case e of Api_Error a \<Rightarrow> ae_kind a = Http \<and> ae_status a = Some 403 \<and>
       error_field (ae_body a) = Some (JStr WORKSPACE_LOCKED_MESSAGE) | _ \<Rightarrow> False)"

datatype seam = On_Unauthorized | On_Suspended | On_Locked

text \<open>The getter gives a token, possibly none, or fails as a promise can. The result is the callbacks
  called and the answer.\<close>

definition createAuthedFetch ::
  "failure + string option \<Rightarrow> (fetch_options \<Rightarrow> api_error + json) \<Rightarrow> fetch_options \<Rightarrow> seam list \<times> (failure + json)"
where
  "createAuthedFetch getToken send opts =
    (let answer = (case getToken of Inl e \<Rightarrow> Inl e
           | Inr token \<Rightarrow> (case send (opts\<lparr>fo_token := token\<rparr>) of Inl a \<Rightarrow> Inl (Api_Error a) | Inr b \<Rightarrow> Inr b))
     in case answer of
          Inr b \<Rightarrow> ([], Inr b)
        | Inl e \<Rightarrow>
            (if isUnauthorized e then [On_Unauthorized]
             else if isSuspended e then [On_Suspended]
             else if isWorkspaceLocked e then [On_Locked] else [], Inl e))"

subsection \<open>Async state\<close>

record 'a async_state =
  as_status :: async_status
  as_data :: "'a option"
  as_error :: "api_error option"

text \<open>The success of an action carries the caller's emptiness test, or its absence. The default test on
  a value is \<open>data == null\<close> or an empty array: an argument, as the data is of any type.\<close>

datatype 'a async_action =
    Reset bool
  | Async_Start
  | Success 'a "('a \<Rightarrow> bool) option"
  | Async_Failure api_error

definition initialState :: "bool \<Rightarrow> 'a async_state" where
  "initialState immediate = \<lparr>as_status = (if immediate then A_Loading else A_Idle), as_data = None, as_error = None\<rparr>"

definition resolveStatus :: "('a \<Rightarrow> bool) \<Rightarrow> 'a \<Rightarrow> ('a \<Rightarrow> bool) option \<Rightarrow> async_status" where
  "resolveStatus default_empty data isEmpty =
     (if (case isEmpty of Some p \<Rightarrow> p data | None \<Rightarrow> default_empty data) then A_Empty else A_Ready)"

fun asyncReducer :: "('a \<Rightarrow> bool) \<Rightarrow> 'a async_state \<Rightarrow> 'a async_action \<Rightarrow> 'a async_state" where
  "asyncReducer d s (Reset immediate) = initialState immediate"
| "asyncReducer d s Async_Start = \<lparr>as_status = A_Loading, as_data = None, as_error = None\<rparr>"
| "asyncReducer d s (Success data isEmpty) =
     (let status = resolveStatus d data isEmpty
      in \<lparr>as_status = status, as_data = (if status = A_Ready then Some data else None), as_error = None\<rparr>)"
| "asyncReducer d s (Async_Failure e) = \<lparr>as_status = A_Error, as_data = None, as_error = Some e\<rparr>"

definition toApiError :: "failure \<Rightarrow> api_error" where
  "toApiError err = (case err of
      Api_Error a \<Rightarrow> a
    | Session_Ended \<Rightarrow> api_error Network ''session ended'' None JUndefined
    | Other_Failure m \<Rightarrow> api_error Network m None JUndefined)"

text \<open>\<open>useAsync\<close>: its state and the counter of its runs. A run starts and takes the next number; the
  answer of run \<open>n\<close> arrives some time later, once; the cleanup of an effect only counts up.\<close>

record 'a use_async =
  ua_state :: "'a async_state"
  ua_runId :: nat

datatype 'a async_event =
    Run_Starts
  | Run_Answers nat "failure + 'a"
  | Effect_Cleanup

fun useAsync :: "('a \<Rightarrow> bool) \<Rightarrow> ('a \<Rightarrow> bool) option \<Rightarrow> 'a use_async \<Rightarrow> 'a async_event \<Rightarrow> 'a use_async" where
  "useAsync d isEmpty u Run_Starts =
     \<lparr>ua_state = asyncReducer d (ua_state u) Async_Start, ua_runId = ua_runId u + 1\<rparr>"
| "useAsync d isEmpty u (Run_Answers n answer) =
     (if n = ua_runId u then
        u\<lparr>ua_state := asyncReducer d (ua_state u)
            (case answer of Inr data \<Rightarrow> Success data isEmpty | Inl err \<Rightarrow> Async_Failure (toApiError err))\<rparr>
      else u)"
| "useAsync d isEmpty u Effect_Cleanup = u\<lparr>ua_runId := ua_runId u + 1\<rparr>"

definition fresh_async :: "bool \<Rightarrow> 'a use_async" where
  "fresh_async immediate = \<lparr>ua_state = initialState immediate, ua_runId = 0\<rparr>"


subsection \<open>The last run decides\<close>

fun bumps :: "'a async_event list \<Rightarrow> nat" where
  "bumps [] = 0"
| "bumps (Run_Answers n a # es) = bumps es"
| "bumps (e # es) = Suc (bumps es)"

lemma bumps_append [simp]: "bumps (es @ fs) = bumps es + bumps fs"
  by (induction es rule: bumps.induct) simp_all

definition is_start :: "'a async_event \<Rightarrow> bool" where
  "is_start e = (case e of Run_Starts \<Rightarrow> True | _ \<Rightarrow> False)"

definition state_consistent :: "'a async_state \<Rightarrow> bool" where
  "state_consistent s \<longleftrightarrow> (as_data s \<noteq> None \<longleftrightarrow> as_status s = A_Ready) \<and> (as_error s \<noteq> None \<longleftrightarrow> as_status s = A_Error)"

text \<open>The value shown and the event that brought it.\<close>

definition shown_from :: "('a \<Rightarrow> bool) \<Rightarrow> ('a \<Rightarrow> bool) option \<Rightarrow> 'a async_event list \<Rightarrow> 'a \<Rightarrow> bool" where
  "shown_from d isEmpty es x \<longleftrightarrow> (\<exists>pre post. es = pre @ Run_Answers (bumps pre) (Inr x) # post \<and>
     list_all (\<lambda>e. \<not> is_start e) post \<and> resolveStatus d x isEmpty = A_Ready)"

lemma shown_from_snoc: "shown_from d p es x \<Longrightarrow> \<not> is_start e \<Longrightarrow> shown_from d p (es @ [e]) x"
proof -
  assume "shown_from d p es x" and e: "\<not> is_start e"
  then obtain pre post where "es @ [e] = pre @ Run_Answers (bumps pre) (Inr x) # (post @ [e])"
      "list_all (\<lambda>e. \<not> is_start e) (post @ [e])" "resolveStatus d x p = A_Ready"
    by (auto simp: shown_from_def)
  then show ?thesis unfolding shown_from_def by blast
qed

lemma useAsync_inv:
  "let u = foldl (useAsync d p) (fresh_async i) es in
     ua_runId u = bumps es \<and> state_consistent (ua_state u) \<and>
     (case as_data (ua_state u) of None \<Rightarrow> True | Some x \<Rightarrow> shown_from d p es x)"
proof (induction es rule: rev_induct)
  case Nil
  show ?case by (simp add: fresh_async_def initialState_def state_consistent_def)
next
  case (snoc e es)
  define u where "u = foldl (useAsync d p) (fresh_async i) es"
  have IH: "ua_runId u = bumps es" "state_consistent (ua_state u)"
      "case as_data (ua_state u) of None \<Rightarrow> True | Some x \<Rightarrow> shown_from d p es x"
    using snoc by (simp_all add: u_def Let_def)
  have fold: "foldl (useAsync d p) (fresh_async i) (es @ [e]) = useAsync d p u e" by (simp add: u_def)
  show ?case
  proof (cases e)
    case Run_Starts
    then show ?thesis using IH unfolding fold by (simp add: state_consistent_def)
  next
    case Effect_Cleanup
    then show ?thesis using IH shown_from_snoc [of d p es _ e] unfolding fold
      by (auto simp: is_start_def split: option.splits)
  next
    case (Run_Answers n a)
    then show ?thesis
    proof (cases "n = bumps es")
      case True
      have "shown_from d p (es @ [Run_Answers (bumps es) (Inr x)]) x" if "resolveStatus d x p = A_Ready" for x
        using that by (force simp: shown_from_def)
      with IH True Run_Answers show ?thesis unfolding fold
        by (cases a) (auto simp: state_consistent_def Let_def resolveStatus_def split: option.splits)
    next
      case False
      with IH Run_Answers shown_from_snoc [of d p es _ e] show ?thesis unfolding fold
        by (auto simp: is_start_def split: option.splits)
    qed
  qed
qed

text \<open>C28: async state. After any runs, cleanups and answers, in whatever order the answers come: data is
  shown exactly in the ready state and an error exactly in the error state, and data shown was the answer
  of the run that was the latest one when it came, with no run started since, and is not empty.\<close>

theorem useAsync_latest:
  "let u = foldl (useAsync default_empty isEmpty) (fresh_async immediate) es in
     (as_data (ua_state u) \<noteq> None \<longleftrightarrow> as_status (ua_state u) = A_Ready) \<and>
     (as_error (ua_state u) \<noteq> None \<longleftrightarrow> as_status (ua_state u) = A_Error) \<and>
     (case as_data (ua_state u) of None \<Rightarrow> True
      | Some x \<Rightarrow> \<exists>pre post. es = pre @ Run_Answers (bumps pre) (Inr x) # post \<and>
          list_all (\<lambda>e. \<not> is_start e) post \<and> resolveStatus default_empty x isEmpty = A_Ready)"
  using useAsync_inv [of default_empty isEmpty immediate es]
  unfolding Let_def state_consistent_def shown_from_def [abs_def] by blast

end
