(* ===== verification/Session.thy ===== *)
theory Session
  imports Api_Client
begin

text \<open>
  The persisted session (\<open>lib/session.ts\<close>, with the personas of \<open>auth.ts\<close>): its record, the guard that
  reads it back, the unverified reading of a token, and what a page boots into. \<open>JSON.parse\<close> of a text
  and of decoded bytes, \<open>JSON.stringify\<close> and \<open>localStorage\<close> are the platform's and appear as arguments;
  a \<open>/me\<close> answer is kept as the JSON value it is.
\<close>

subsection \<open>Personas and sessions\<close>

datatype persona_id = Firm_Persona | Inhouse_Persona
datatype mode = Firm_Mode | Inhouse_Mode

record persona =
  pe_id :: persona_id
  pe_name :: string
  pe_title :: string
  pe_initials :: string
  pe_org :: string
  pe_email :: string
  pe_access :: string
  pe_mode :: mode
  pe_subject :: string
  pe_tenantId :: string
  pe_role :: string

fun APP_PERSONAS :: "persona_id \<Rightarrow> persona" where
  "APP_PERSONAS Firm_Persona =
    \<lparr>pe_id = Firm_Persona, pe_name = ''Chinedu Okafor'', pe_title = ''Firm accountant'', pe_initials = ''CO'',
     pe_org = ''Okafor & Partners'', pe_email = ''c.okafor@okafor.ng'',
     pe_access = ''PLATFORM '' @ middle_dot @ '' FIRM'', pe_mode = Firm_Mode,
     pe_subject = ''c0000000-0000-0000-0000-000000000001'',
     pe_tenantId = ''11111111-1111-1111-1111-111111111111'', pe_role = ''authenticated''\<rparr>"
| "APP_PERSONAS Inhouse_Persona =
    \<lparr>pe_id = Inhouse_Persona, pe_name = ''Ngozi Balogun'', pe_title = ''In-house accountant'', pe_initials = ''NB'',
     pe_org = ''Honeywell Group'', pe_email = ''n.balogun@honeywell.ng'',
     pe_access = ''PLATFORM '' @ middle_dot @ '' IN-HOUSE'', pe_mode = Inhouse_Mode,
     pe_subject = ''c0000000-0000-0000-0000-000000000002'',
     pe_tenantId = ''22222222-2222-2222-2222-222222222222'', pe_role = ''authenticated''\<rparr>"

record session =
  ss_persona :: persona
  ss_token :: "string option"
  ss_me :: "json option"
  ss_verified :: bool
  ss_handoff :: bool
  ss_renewal :: "(string \<times> rat) option"

subsection \<open>Reading JSON values\<close>

text \<open>\<open>v?.k\<close> on a parsed value; only objects have the keys read below.\<close>

definition member :: "json \<Rightarrow> string \<Rightarrow> json" where
  "member v k = (case v of JObj fs \<Rightarrow> get fs k | _ \<Rightarrow> JUndefined)"

definition is_string :: "json \<Rightarrow> bool" where
  "is_string v = (case v of JStr _ \<Rightarrow> True | _ \<Rightarrow> False)"

definition string_of :: "json \<Rightarrow> string" where
  "string_of v = (case v of JStr s \<Rightarrow> s | _ \<Rightarrow> '''')"

definition persona_text :: "persona_id \<Rightarrow> string" where
  "persona_text p = (case p of Firm_Persona \<Rightarrow> ''firm'' | Inhouse_Persona \<Rightarrow> ''inhouse'')"

text \<open>\<open>hasOwnProperty.call(APP_PERSONAS, v)\<close>: a property key is coerced to text, so an array of one such
  value passes as well.\<close>

fun persona_key :: "json \<Rightarrow> persona_id option" where
  "persona_key (JStr s) =
     (if s = ''firm'' then Some Firm_Persona else if s = ''inhouse'' then Some Inhouse_Persona else None)"
| "persona_key (JArr [v]) = persona_key v"
| "persona_key _ = None"

definition MODE_BY_KIND :: "(string \<times> mode) list" where
  "MODE_BY_KIND = [(''firm'', Firm_Mode), (''in_house'', Inhouse_Mode)]"

definition user_id :: "json \<Rightarrow> json" where
  "user_id me = member (member me ''user'') ''id''"

definition tenant_id :: "json \<Rightarrow> json" where
  "tenant_id me = member (member me ''tenant'') ''id''"

definition tenant_kind :: "json \<Rightarrow> json" where
  "tenant_kind me = member (member me ''tenant'') ''kind''"

definition isHandoffMe :: "json \<Rightarrow> bool" where
  "isHandoffMe me \<longleftrightarrow> is_string (user_id me) \<and> is_string (tenant_id me) \<and> is_string (tenant_kind me) \<and>
     string_of (tenant_kind me) \<in> fst ` set MODE_BY_KIND"

definition handoffPersona :: "json \<Rightarrow> persona" where
  "handoffPersona me = (APP_PERSONAS Firm_Persona)\<lparr>pe_name := '''', pe_initials := '''', pe_email := '''',
     pe_mode := the (map_of MODE_BY_KIND (string_of (tenant_kind me))),
     pe_subject := string_of (user_id me), pe_tenantId := string_of (tenant_id me)\<rparr>"

subsection \<open>The record\<close>

definition SESSION_SCHEMA_VERSION :: rat where "SESSION_SCHEMA_VERSION = 1"

definition json_text :: "string option \<Rightarrow> json" where
  "json_text t = (case t of None \<Rightarrow> JNull | Some s \<Rightarrow> JStr s)"

definition session_record :: "session \<Rightarrow> json" where
  "session_record s = JObj (
     [(''v'', JNum SESSION_SCHEMA_VERSION), (''personaId'', JStr (persona_text (pe_id (ss_persona s)))),
      (''token'', json_text (ss_token s)), (''me'', (case ss_me s of None \<Rightarrow> JNull | Some m \<Rightarrow> m)),
      (''verified'', JBool (ss_verified s))] @
     (if ss_handoff s then [(''handoff'', JBool True)] else []) @
     (case ss_renewal s of
        Some (refreshToken, receivedAt) \<Rightarrow>
          if ss_handoff s then [(''refresh_token'', JStr refreshToken), (''received_at'', JNum receivedAt)] else []
      | None \<Rightarrow> []))"

definition serializeSession :: "(json \<Rightarrow> string) \<Rightarrow> session \<Rightarrow> string" where
  "serializeSession stringify s = stringify (session_record s)"

definition renewalPairOk :: "json \<Rightarrow> bool" where
  "renewalPairOk p \<longleftrightarrow>
     member p ''refresh_token'' = JUndefined \<and> member p ''received_at'' = JUndefined \<or>
     member p ''handoff'' = JBool True \<and> is_string (member p ''refresh_token'') \<and>
     member p ''refresh_token'' \<noteq> JStr '''' \<and>
     (case member p ''received_at'' of JNum _ \<Rightarrow> True | _ \<Rightarrow> False)"

definition is_object :: "json \<Rightarrow> bool" where
  "is_object v = (case v of JObj _ \<Rightarrow> True | JArr _ \<Rightarrow> True | _ \<Rightarrow> False)"

definition session_of :: "json \<Rightarrow> session option" where
  "session_of p =
    (let token = member p ''token''; me = member p ''me''; verified = member p ''verified'' in
     case persona_key (member p ''personaId'') of
       None \<Rightarrow> None
     | Some pid \<Rightarrow>
         if member p ''v'' = JNum SESSION_SCHEMA_VERSION \<and>
            (is_string token \<or> token = JNull) \<and>
            (verified = JBool True \<or> verified = JBool False) \<and>
            (me = JNull \<or> is_object me) \<and>
            (member p ''handoff'' \<noteq> JBool True \<or> isHandoffMe me) \<and> renewalPairOk p
         then Some (
           let base = \<lparr>ss_persona = APP_PERSONAS pid,
                 ss_token = (if is_string token then Some (string_of token) else None),
                 ss_me = (if me = JNull then None else Some me), ss_verified = (verified = JBool True),
                 ss_handoff = False, ss_renewal = None\<rparr>
           in if member p ''handoff'' = JBool True
              then base\<lparr>ss_persona := handoffPersona me, ss_handoff := True,
                 ss_renewal := (case (member p ''refresh_token'', member p ''received_at'') of
                    (JStr r, JNum n) \<Rightarrow> Some (r, n) | _ \<Rightarrow> None)\<rparr>
              else base)
         else None)"

text \<open>\<open>parseStoredSession\<close>: \<open>parse\<close> gives \<^const>\<open>None\<close> where \<open>JSON.parse\<close> throws, which is caught.\<close>

definition parseStoredSession :: "(string \<Rightarrow> json option) \<Rightarrow> string option \<Rightarrow> session option" where
  "parseStoredSession parse raw = Option.bind (Option.bind raw parse) session_of"

subsection \<open>Tokens\<close>

definition b64_val :: "char \<Rightarrow> nat option" where
  "b64_val c = (if 65 \<le> byte c \<and> byte c \<le> 90 then Some (byte c - 65)
     else if 97 \<le> byte c \<and> byte c \<le> 122 then Some (byte c - 71)
     else if 48 \<le> byte c \<and> byte c \<le> 57 then Some (byte c + 4)
     else if c = CHR ''+'' then Some 62
     else if c = CHR ''/'' then Some 63 else None)"

fun b64_bytes :: "nat list \<Rightarrow> string" where
  "b64_bytes (a # b # c # d # r) =
     [char_of (4 * a + b div 16), char_of (16 * (b mod 16) + c div 4), char_of (64 * (c mod 4) + d)] @ b64_bytes r"
| "b64_bytes [a, b, c] = [char_of (4 * a + b div 16), char_of (16 * (b mod 16) + c div 4)]"
| "b64_bytes [a, b] = [char_of (4 * a + b div 16)]"
| "b64_bytes _ = []"

text \<open>\<open>atob\<close>: ASCII white space is dropped; one or two \<open>=\<close> may close a text whose length is a multiple of
  four; a remainder of one digit or any other character throws.\<close>

definition atob :: "string \<Rightarrow> string option" where
  "atob s =
    (let t = filter (\<lambda>c. byte c \<notin> {9, 10, 12, 13, 32}) s;
         t = (if length t mod 4 = 0 then
                (if take 2 (rev t) = ''=='' then take (length t - 2) t
                 else if take 1 (rev t) = ''='' then take (length t - 1) t else t)
              else t)
     in if length t mod 4 = 1 then None else map_option b64_bytes (those (map b64_val t)))"

definition pad_four :: "string \<Rightarrow> string" where
  "pad_four s = s @ replicate ((4 - length s mod 4) mod 4) CHR ''=''"

text \<open>\<open>parse_bytes\<close> is \<open>JSON.parse(new TextDecoder().decode(bytes))\<close>, \<^const>\<open>None\<close> where it throws.\<close>

definition decodeJwtPayload :: "(string \<Rightarrow> json option) \<Rightarrow> string option \<Rightarrow> json option" where
  "decodeJwtPayload parse_bytes token =
    (case token of None \<Rightarrow> None
     | Some t \<Rightarrow>
         (let parts = split_on CHR ''.'' t in
          if length parts \<noteq> 3 \<or> parts ! 1 = '''' then None
          else
            (let b64 = map (\<lambda>c. if c = CHR ''-'' then CHR ''+'' else if c = CHR ''_'' then CHR ''/'' else c) (parts ! 1)
             in case Option.bind (atob (pad_four b64)) parse_bytes of
                  Some (JObj fs) \<Rightarrow> Some (JObj fs)
                | _ \<Rightarrow> None)))"

definition claim :: "(string \<Rightarrow> json option) \<Rightarrow> string option \<Rightarrow> string \<Rightarrow> json" where
  "claim parse_bytes token k = (case decodeJwtPayload parse_bytes token of None \<Rightarrow> JUndefined | Some c \<Rightarrow> member c k)"

definition isStaffToken :: "(string \<Rightarrow> json option) \<Rightarrow> string option \<Rightarrow> bool" where
  "isStaffToken parse_bytes token \<longleftrightarrow> member (claim parse_bytes token ''app_metadata'') ''staff'' = JBool True"

definition isTokenExpired :: "(string \<Rightarrow> json option) \<Rightarrow> string option \<Rightarrow> rat \<Rightarrow> bool" where
  "isTokenExpired parse_bytes token nowMs =
     (case claim parse_bytes token ''exp'' of JNum e \<Rightarrow> nowMs \<ge> e * 1000 | _ \<Rightarrow> False)"

text \<open>\<open>resolveBootSession\<close> on what \<open>localStorage\<close> holds; \<^const>\<open>None\<close> also where the read throws.\<close>

definition resolveBootSession ::
  "(string \<Rightarrow> json option) \<Rightarrow> (string \<Rightarrow> json option) \<Rightarrow> string option \<Rightarrow> rat \<Rightarrow> session option"
where
  "resolveBootSession parse parse_bytes stored now =
    (case parseStoredSession parse stored of
       None \<Rightarrow> None
     | Some s \<Rightarrow> if ss_renewal s = None \<and> isTokenExpired parse_bytes (ss_token s) now then None else Some s)"

subsection \<open>A stored session comes back as it was\<close>

text \<open>What the app stores: a persona session is one of the two personas without renewal, a hand-off
  session belongs to the person of its \<open>/me\<close> answer, and a refresh token is never empty.\<close>

definition session_ok :: "session \<Rightarrow> bool" where
  "session_ok s \<longleftrightarrow>
     (case ss_me s of None \<Rightarrow> \<not> ss_handoff s | Some me \<Rightarrow> is_object me \<and>
        (if ss_handoff s then isHandoffMe me \<and> ss_persona s = handoffPersona me else True)) \<and>
     (if ss_handoff s then True else ss_persona s = APP_PERSONAS (pe_id (ss_persona s)) \<and> ss_renewal s = None) \<and>
     (case ss_renewal s of None \<Rightarrow> True | Some (r, n) \<Rightarrow> r \<noteq> '''')"

lemma persona_key_text [simp]: "persona_key (JStr (persona_text p)) = Some p"
  by (cases p) (simp_all add: persona_text_def)

lemma APP_PERSONAS_id [simp]: "pe_id (APP_PERSONAS p) = p"
  by (cases p) simp_all

lemma isHandoffMe_object: "isHandoffMe me \<Longrightarrow> is_object me"
  by (cases me) (simp_all add: isHandoffMe_def user_id_def member_def is_string_def is_object_def)

lemma member_simps [simp]:
  "member (JObj []) k = JUndefined"
  "member (JObj ((k', v) # fs)) k = (if k = k' then v else member (JObj fs) k)"
  by (simp_all add: member_def get_def)

lemma record_members:
  fixes s
  defines "p \<equiv> session_record s"
  shows "member p ''v'' = JNum SESSION_SCHEMA_VERSION"
    "member p ''personaId'' = JStr (persona_text (pe_id (ss_persona s)))"
    "member p ''token'' = json_text (ss_token s)"
    "member p ''me'' = (case ss_me s of None \<Rightarrow> JNull | Some m \<Rightarrow> m)"
    "member p ''verified'' = JBool (ss_verified s)"
    "member p ''handoff'' = (if ss_handoff s then JBool True else JUndefined)"
    "member p ''refresh_token'' =
      (if ss_handoff s then (case ss_renewal s of None \<Rightarrow> JUndefined | Some (r, n) \<Rightarrow> JStr r) else JUndefined)"
    "member p ''received_at'' =
      (if ss_handoff s then (case ss_renewal s of None \<Rightarrow> JUndefined | Some (r, n) \<Rightarrow> JNum n) else JUndefined)"
  unfolding p_def session_record_def by (simp_all split: option.split)

lemma json_text_cases:
  "is_string (json_text t) = (t \<noteq> None)" "json_text t = JNull \<longleftrightarrow> t = None"
  "t = Some u \<Longrightarrow> string_of (json_text t) = u"
  by (cases t; simp add: json_text_def is_string_def string_of_def)+

lemma object_not_null: "is_object m \<Longrightarrow> m \<noteq> JNull"
  by (cases m) (simp_all add: is_object_def)

lemma session_of_record:
  assumes ok: "session_ok s"
  shows "session_of (session_record s) = Some s"
proof (cases "ss_handoff s")
  case True
  with ok obtain me where me: "ss_me s = Some me" "is_object me" "isHandoffMe me" "ss_persona s = handoffPersona me"
    by (auto simp: session_ok_def split: option.splits)
  have pair: "renewalPairOk (session_record s)"
    using ok True by (auto simp: renewalPairOk_def record_members session_ok_def is_string_def split: option.splits)
  have "session_of (session_record s) = Some \<lparr>ss_persona = ss_persona s, ss_token = ss_token s, ss_me = ss_me s,
      ss_verified = ss_verified s, ss_handoff = ss_handoff s, ss_renewal = ss_renewal s\<rparr>"
    using True me pair object_not_null [OF me(2)]
    by (cases "ss_token s"; cases "ss_renewal s")
      (auto simp: session_of_def record_members json_text_cases Let_def simp del: persona_key.simps)
  then show ?thesis by simp
next
  case False
  then have persona: "ss_persona s = APP_PERSONAS (pe_id (ss_persona s))" "ss_renewal s = None"
    using ok by (simp_all add: session_ok_def)
  have pair: "renewalPairOk (session_record s)" using False by (simp add: renewalPairOk_def record_members)
  have "session_of (session_record s) = Some \<lparr>ss_persona = APP_PERSONAS (pe_id (ss_persona s)),
      ss_token = ss_token s, ss_me = ss_me s, ss_verified = ss_verified s, ss_handoff = ss_handoff s,
      ss_renewal = ss_renewal s\<rparr>"
    using ok False persona(2) pair object_not_null
    by (cases "ss_token s"; cases "ss_me s")
      (auto simp: session_of_def record_members json_text_cases Let_def session_ok_def simp del: persona_key.simps)
  then show ?thesis by (simp flip: persona(1))
qed

lemma session_of_ok:
  assumes p: "session_of p = Some s"
  shows "session_ok s"
proof -
  from p obtain pid where pid: "persona_key (member p ''personaId'') = Some pid"
    by (auto simp: session_of_def Let_def split: option.splits)
  have me: "is_object m" if "isHandoffMe m" for m using isHandoffMe_object that by blast
  show ?thesis
  proof (cases "member p ''handoff'' = JBool True")
    case True
    with p pid have "s = \<lparr>ss_persona = handoffPersona (member p ''me''),
          ss_token = (if is_string (member p ''token'') then Some (string_of (member p ''token'')) else None),
          ss_me = (if member p ''me'' = JNull then None else Some (member p ''me'')),
          ss_verified = (member p ''verified'' = JBool True), ss_handoff = True,
          ss_renewal = (case (member p ''refresh_token'', member p ''received_at'') of
             (JStr r, JNum n) \<Rightarrow> Some (r, n) | _ \<Rightarrow> None)\<rparr>"
        "isHandoffMe (member p ''me'')" "renewalPairOk p"
      by (simp_all add: session_of_def Let_def split: if_splits)
    then show ?thesis
      using me object_not_null
      by (auto simp: session_ok_def renewalPairOk_def split: json.splits)
  next
    case False
    with p pid have "s = \<lparr>ss_persona = APP_PERSONAS pid,
          ss_token = (if is_string (member p ''token'') then Some (string_of (member p ''token'')) else None),
          ss_me = (if member p ''me'' = JNull then None else Some (member p ''me'')),
          ss_verified = (member p ''verified'' = JBool True), ss_handoff = False, ss_renewal = None\<rparr>"
        "member p ''me'' = JNull \<or> is_object (member p ''me'')"
      by (simp_all add: session_of_def Let_def split: if_splits)
    then show ?thesis by (auto simp: session_ok_def)
  qed
qed

text \<open>C24: the stored session. Where \<open>JSON.parse\<close> reads back what \<open>JSON.stringify\<close> wrote, a session the app
  stores is restored as it was; and whatever the storage holds, a session restored from it is one the
  app could have stored: a known persona, or a hand-off whose persona is the user and tenant of its own
  \<open>/me\<close> answer.\<close>

theorem stored_session_restores:
  assumes "session_ok s" and "parse (stringify (session_record s)) = Some (session_record s)"
  shows "parseStoredSession parse (Some (serializeSession stringify s)) = Some s \<and>
    (case parseStoredSession parse raw of None \<Rightarrow> True | Some t \<Rightarrow> session_ok t)"
proof
  show "parseStoredSession parse (Some (serializeSession stringify s)) = Some s"
    using assms session_of_record by (simp add: parseStoredSession_def serializeSession_def)
  show "case parseStoredSession parse raw of None \<Rightarrow> True | Some t \<Rightarrow> session_ok t"
    by (auto simp: parseStoredSession_def bind_eq_Some_conv session_of_ok split: option.splits)
qed

definition sample_me :: json where
  "sample_me = JObj [(''user'', JObj [(''id'', JStr ''u1'')]),
     (''tenant'', JObj [(''id'', JStr ''t1''), (''kind'', JStr ''in_house'')])]"

definition sample_session :: session where
  "sample_session = \<lparr>ss_persona = handoffPersona sample_me, ss_token = Some ''a.b.c'', ss_me = Some sample_me,
     ss_verified = True, ss_handoff = True, ss_renewal = Some (''r1'', 1000)\<rparr>"

lemma sample_session_ok: "session_ok sample_session"
  by (simp add: session_ok_def sample_session_def sample_me_def is_object_def isHandoffMe_def user_id_def
      tenant_id_def tenant_kind_def is_string_def string_of_def MODE_BY_KIND_def)

theorem stored_session_witness:
  "parseStoredSession (\<lambda>t. if t = ''stored'' then Some (session_record sample_session) else None)
     (Some (serializeSession (\<lambda>v. ''stored'') sample_session)) = Some sample_session"
  by (rule stored_session_restores [THEN conjunct1]) (simp_all add: sample_session_ok)

end
