(* ===== verification/Renewal.thy ===== *)
theory Renewal
  imports Session
begin

text \<open>
  On-demand renewal of a session (\<open>lib/renewal.ts\<close>). A session object is a reference with its fields,
  and \<open>===\<close> on sessions compares references. The clock is read in milliseconds as a rational number;
  the products with 0.8 and 1000 are exact here. \<open>localStorage\<close>, the gateway's answers and the reading of
  token bytes are arguments or events.
\<close>

subsection \<open>When a renewal is due\<close>

type_synonym obj = "nat \<times> session"

definition RENEW_AT_FRACTION :: rat where "RENEW_AT_FRACTION = 8 / 10"
definition RENEW_TIMEOUT_MS :: int where "RENEW_TIMEOUT_MS = 15000"

definition tokenTimes :: "(string \<Rightarrow> json option) \<Rightarrow> string option \<Rightarrow> (rat \<times> rat) option" where
  "tokenTimes pb token = (case (claim pb token ''iat'', claim pb token ''exp'') of
      (JNum issued, JNum expires) \<Rightarrow> Some (issued, expires) | _ \<Rightarrow> None)"

definition tokenTenant :: "(string \<Rightarrow> json option) \<Rightarrow> string option \<Rightarrow> string option" where
  "tokenTenant pb token = (case member (claim pb token ''app_metadata'') ''tenant_id'' of
      JStr s \<Rightarrow> Some s | _ \<Rightarrow> None)"

definition lifetimeFrom :: "(string \<Rightarrow> json option) \<Rightarrow> session \<Rightarrow> rat \<Rightarrow> rat option" where
  "lifetimeFrom pb s fraction = (case (ss_renewal s, tokenTimes pb (ss_token s)) of
      (Some (_, receivedAt), Some (issued, expires)) \<Rightarrow> Some (receivedAt + (expires - issued) * 1000 * fraction)
    | _ \<Rightarrow> None)"

definition renewAt :: "(string \<Rightarrow> json option) \<Rightarrow> session \<Rightarrow> rat option" where
  "renewAt pb s = lifetimeFrom pb s RENEW_AT_FRACTION"

definition deadline :: "(string \<Rightarrow> json option) \<Rightarrow> session \<Rightarrow> rat option" where
  "deadline pb s = lifetimeFrom pb s 1"

definition isRenewalDue :: "(string \<Rightarrow> json option) \<Rightarrow> session \<Rightarrow> rat \<Rightarrow> bool" where
  "isRenewalDue pb s now = (if ss_renewal s = None then False
     else (case renewAt pb s of None \<Rightarrow> True | Some t \<Rightarrow> now \<ge> t))"

subsection \<open>The refresh request\<close>

text \<open>\<open>refreshTokens\<close> on the answer of \<^const>\<open>apiFetch\<close>.\<close>

definition refreshTokens :: "failure + json \<Rightarrow> failure + string \<times> string" where
  "refreshTokens answer = (case answer of
      Inl e \<Rightarrow> Inl e
    | Inr body \<Rightarrow>
        (case (member body ''access_token'', member body ''refresh_token'') of
           (JStr access, JStr refresh) \<Rightarrow>
             if access = '''' \<or> refresh = ''''
             then Inl (Api_Error (api_error Malformed ''refresh answered without both tokens'' (Some 200) JUndefined))
             else Inr (access, refresh)
         | _ \<Rightarrow> Inl (Api_Error (api_error Malformed ''refresh answered without both tokens'' (Some 200) JUndefined))))"

definition refreshSession :: "session \<Rightarrow> rat \<Rightarrow> failure + json \<Rightarrow> failure + session" where
  "refreshSession s now answer = (case refreshTokens answer of
      Inl e \<Rightarrow> Inl e
    | Inr (access, refresh) \<Rightarrow> Inr (s\<lparr>ss_token := Some access, ss_renewal := Some (refresh, now)\<rparr>))"

text \<open>\<open>me?.user.id\<close> and \<open>me?.tenant.id\<close>, \<^const>\<open>JUndefined\<close> without \<open>/me\<close> answer.\<close>

definition subject :: "session \<Rightarrow> json" where
  "subject s = (case ss_me s of None \<Rightarrow> JUndefined | Some me \<Rightarrow> user_id me)"

definition tenant :: "session \<Rightarrow> json" where
  "tenant s = (case ss_me s of None \<Rightarrow> JUndefined | Some me \<Rightarrow> tenant_id me)"

definition sameSubject :: "session option \<Rightarrow> session \<Rightarrow> bool" where
  "sameSubject a b = (case a of None \<Rightarrow> False | Some s \<Rightarrow> subject s = subject b)"

subsection \<open>The renewer\<close>

text \<open>A promise of \<open>renew\<close>: the session it started from; while its request is out, the stored session it
  sent and when; its settlement.\<close>

datatype settlement = Out session rat | Resolved "string option" | Rejected_Ended

record promise =
  pr_start :: obj
  pr_state :: settlement

datatype observed =
    Renewed obj session         \<comment> \<open>the session handed to \<open>onRenewed\<close> and the one it renews\<close>
  | Adopted obj session         \<comment> \<open>the same, from another tab\<close>
  | Ended obj bool
  | Requested obj string

text \<open>\<open>current\<close>, \<open>ended\<close>, \<open>inflight\<close>; every promise so far; the next reference; what storage holds; what the
  renewer did.\<close>

record renewer =
  rw_current :: "obj option"
  rw_ended :: "nat option"
  rw_inflight :: "nat option"
  rw_promises :: "promise list"
  rw_next :: nat
  rw_stored :: "session option"
  rw_log :: "observed list"

definition createRenewer :: renewer where
  "createRenewer = \<lparr>rw_current = None, rw_ended = None, rw_inflight = None, rw_promises = [], rw_next = 0,
     rw_stored = None, rw_log = []\<rparr>"

text \<open>\<open>track\<close>; \<open>end\<close> without its throw; the callback of the page untracks at once (\<open>expireSession\<close> of
  \<open>App.tsx\<close>).\<close>

definition track :: "obj option \<Rightarrow> renewer \<Rightarrow> renewer" where
  "track s w =
    (if map_option fst s = map_option fst (rw_current w) then w
     else w\<lparr>rw_current := s, rw_inflight := None,
            rw_ended := (if s \<noteq> None \<and> map_option fst s \<noteq> rw_ended w then None else rw_ended w)\<rparr>)"

definition end_session :: "obj \<Rightarrow> bool \<Rightarrow> renewer \<Rightarrow> renewer" where
  "end_session s keep w =
    (if rw_ended w = Some (fst s) then w
     else track None (w\<lparr>rw_ended := Some (fst s), rw_log := rw_log w @ [Ended s keep]\<rparr>))"

text \<open>The part of \<open>renew\<close> before its request: the renewer after it and the state of the promise.\<close>

definition renew_start :: "(string \<Rightarrow> json option) \<Rightarrow> obj \<Rightarrow> rat \<Rightarrow> renewer \<Rightarrow> renewer \<times> settlement" where
  "renew_start pb start now w =
    (if \<not> sameSubject (rw_stored w) (snd start) then (end_session start True w, Rejected_Ended)
     else let stored = the (rw_stored w) in
       if map_option fst (ss_renewal stored) \<noteq> map_option fst (ss_renewal (snd start)) \<and> \<not> isRenewalDue pb stored now
       then (w\<lparr>rw_current := Some (rw_next w, stored), rw_next := rw_next w + 1,
               rw_log := rw_log w @ [Adopted (rw_next w, stored) (snd start)]\<rparr>, Resolved (ss_token stored))
       else (w\<lparr>rw_log := rw_log w @ [Requested start (case ss_renewal stored of Some (r, _) \<Rightarrow> r | None \<Rightarrow> '''')]\<rparr>,
             Out stored now))"

text \<open>The part after it, on the answer.\<close>

definition renew_finish ::
  "(string \<Rightarrow> json option) \<Rightarrow> obj \<Rightarrow> session \<Rightarrow> rat \<Rightarrow> failure + json \<Rightarrow> rat \<Rightarrow> renewer \<Rightarrow> renewer \<times> settlement"
where
  "renew_finish pb start stored sentAt answer now w =
    (if map_option fst (rw_current w) \<noteq> Some (fst start) then (w, Rejected_Ended)
     else if \<not> sameSubject (rw_stored w) (snd start) then (end_session start True w, Rejected_Ended)
     else case refreshSession stored sentAt answer of
       Inr next_session \<Rightarrow>
         (if (case tokenTenant pb (ss_token next_session) of None \<Rightarrow> True | Some t \<Rightarrow> JStr t \<noteq> tenant (snd start))
             \<or> tokenTimes pb (ss_token next_session) = None
          then (end_session start False w, Rejected_Ended)
          else (w\<lparr>rw_current := Some (rw_next w, next_session), rw_next := rw_next w + 1,
                  rw_log := rw_log w @ [Renewed (rw_next w, next_session) (snd start)]\<rparr>,
                Resolved (ss_token next_session)))
     | Inl e \<Rightarrow>
         (if (case e of Api_Error a \<Rightarrow> ae_kind a = Http \<and> (ae_status a = Some 400 \<or> ae_status a = Some 401) | _ \<Rightarrow> False)
          then (end_session start False w, Rejected_Ended)
          else case deadline pb (snd start) of
            None \<Rightarrow> (end_session start True w, Rejected_Ended)
          | Some until \<Rightarrow> if now \<ge> until then (end_session start True w, Rejected_Ended)
                          else (w, Resolved (ss_token (snd start)))))"

text \<open>\<open>fresh\<close>: no session, a token at once, a rejection, or a promise by its number.\<close>

datatype fresh_answer = No_Session | Token "string option" | Rejects | Promise nat

definition fresh :: "(string \<Rightarrow> json option) \<Rightarrow> rat \<Rightarrow> renewer \<Rightarrow> renewer \<times> fresh_answer" where
  "fresh pb now w =
    (case rw_current w of
       None \<Rightarrow> (w, No_Session)
     | Some s \<Rightarrow>
         if rw_ended w = Some (fst s) then (w, Rejects)
         else if \<not> isRenewalDue pb (snd s) now then (w, Token (ss_token (snd s)))
         else case rw_inflight w of
           Some p \<Rightarrow> (w, Promise p)
         | None \<Rightarrow>
             (let (w', st) = renew_start pb s now w; p = length (rw_promises w')
              in (w'\<lparr>rw_promises := rw_promises w' @ [\<lparr>pr_start = s, pr_state = st\<rparr>], rw_inflight := Some p\<rparr>,
                  Promise p)))"

text \<open>The answer of the request of promise \<open>p\<close>, and the \<open>finally\<close> that clears a settled promise.\<close>

definition settle :: "(string \<Rightarrow> json option) \<Rightarrow> nat \<Rightarrow> failure + json \<Rightarrow> rat \<Rightarrow> renewer \<Rightarrow> renewer" where
  "settle pb p answer now w =
    (case pr_state (rw_promises w ! p) of
       Out stored sentAt \<Rightarrow>
         (let (w', st) = renew_finish pb (pr_start (rw_promises w ! p)) stored sentAt answer now w
          in w'\<lparr>rw_promises := (rw_promises w')[p := (rw_promises w' ! p)\<lparr>pr_state := st\<rparr>]\<rparr>)
     | _ \<Rightarrow> w)"

definition is_out :: "promise \<Rightarrow> bool" where
  "is_out pr = (case pr_state pr of Out _ _ \<Rightarrow> True | _ \<Rightarrow> False)"

definition clear :: "nat \<Rightarrow> renewer \<Rightarrow> renewer" where
  "clear p w = (if rw_inflight w = Some p then w\<lparr>rw_inflight := None\<rparr> else w)"

subsection \<open>What can happen\<close>

text \<open>The page tracks a session object it made (sign-in, boot, an update of the seat), which is new, or
  none; it asks for a token; an answer arrives; a settled promise runs its \<open>finally\<close>; and any tab may
  write the storage at any time. Tracking the current session again, as the page does after a renewal,
  changes nothing.\<close>

inductive renewer_step :: "(string \<Rightarrow> json option) \<Rightarrow> renewer \<Rightarrow> renewer \<Rightarrow> bool" for pb where
  Track_New: "renewer_step pb w (track (Some (rw_next w, s)) (w\<lparr>rw_next := rw_next w + 1\<rparr>))"
| Track_Current: "renewer_step pb w (track (rw_current w) w)"
| Track_None: "renewer_step pb w (track None w)"
| Fresh: "renewer_step pb w (fst (fresh pb now w))"
| Answer: "p < length (rw_promises w) \<Longrightarrow> renewer_step pb w (settle pb p answer now w)"
| Finally: "p < length (rw_promises w) \<Longrightarrow> \<not> is_out (rw_promises w ! p) \<Longrightarrow> renewer_step pb w (clear p w)"
| Storage: "renewer_step pb w (w\<lparr>rw_stored := st\<rparr>)"

inductive reachable :: "(string \<Rightarrow> json option) \<Rightarrow> renewer \<Rightarrow> bool" for pb where
  Created: "reachable pb createRenewer"
| Step: "reachable pb w \<Longrightarrow> renewer_step pb w w' \<Longrightarrow> reachable pb w'"

inductive_cases renewer_stepE: "renewer_step pb w w'"


subsection \<open>One request at a time, never for a stranger\<close>

definition ended_refs :: "renewer \<Rightarrow> nat list" where
  "ended_refs w = concat (map (\<lambda>ob. case ob of Ended s keep \<Rightarrow> [fst s] | _ \<Rightarrow> []) (rw_log w))"

definition observed_ok :: "(string \<Rightarrow> json option) \<Rightarrow> observed \<Rightarrow> bool" where
  "observed_ok pb ob = (case ob of
      Renewed n s \<Rightarrow> subject (snd n) = subject s \<and> tokenTimes pb (ss_token (snd n)) \<noteq> None \<and>
        (case tokenTenant pb (ss_token (snd n)) of None \<Rightarrow> False | Some t \<Rightarrow> JStr t = tenant s)
    | Adopted n s \<Rightarrow> subject (snd n) = subject s
    | _ \<Rightarrow> True)"

definition promise_ok :: "promise \<Rightarrow> bool" where
  "promise_ok pr = (case pr_state pr of Out stored _ \<Rightarrow> subject stored = subject (snd (pr_start pr)) | _ \<Rightarrow> True)"

definition current_ref :: "renewer \<Rightarrow> nat option" where
  "current_ref w = map_option fst (rw_current w)"

definition out_for_current :: "renewer \<Rightarrow> nat \<Rightarrow> bool" where
  "out_for_current w p \<longleftrightarrow> p < length (rw_promises w) \<and> is_out (rw_promises w ! p) \<and>
     current_ref w = Some (fst (pr_start (rw_promises w ! p)))"

definition refs_ok :: "renewer \<Rightarrow> bool" where
  "refs_ok w \<longleftrightarrow> (\<forall>r. current_ref w = Some r \<longrightarrow> r < rw_next w \<and> r \<notin> set (ended_refs w)) \<and>
     (\<forall>pr \<in> set (rw_promises w). fst (pr_start pr) < rw_next w) \<and>
     (\<forall>r \<in> set (ended_refs w). r < rw_next w) \<and> distinct (ended_refs w)"

definition renewer_ok :: "(string \<Rightarrow> json option) \<Rightarrow> renewer \<Rightarrow> bool" where
  "renewer_ok pb w \<longleftrightarrow> refs_ok w \<and> (\<forall>p. out_for_current w p \<longrightarrow> rw_inflight w = Some p) \<and>
     list_all promise_ok (rw_promises w) \<and> list_all (observed_ok pb) (rw_log w)"

lemmas renewer_defs = renewer_ok_def refs_ok_def current_ref_def out_for_current_def

lemma refs_okD:
  "renewer_ok pb w \<Longrightarrow> current_ref w = Some r \<Longrightarrow> r < rw_next w"
  "renewer_ok pb w \<Longrightarrow> pr \<in> set (rw_promises w) \<Longrightarrow> fst (pr_start pr) < rw_next w"
  by (simp_all add: renewer_ok_def refs_ok_def)

lemma ok_track_new:
  "renewer_ok pb w \<Longrightarrow> renewer_ok pb (track (Some (rw_next w, s)) (w\<lparr>rw_next := rw_next w + 1\<rparr>))"
  by (fastforce simp: track_def renewer_defs ended_refs_def dest: nth_mem)

lemma ok_track_none: "renewer_ok pb w \<Longrightarrow> renewer_ok pb (track None w)"
  by (auto simp: track_def renewer_defs ended_refs_def)

lemma ok_clear: "renewer_ok pb w \<Longrightarrow> \<not> is_out (rw_promises w ! p) \<Longrightarrow> renewer_ok pb (clear p w)"
  by (auto simp: clear_def renewer_defs ended_refs_def)

lemma ok_end:
  assumes "renewer_ok pb w" "current_ref w = Some (fst s)"
  shows "renewer_ok pb (end_session s keep w)" "rw_promises (end_session s keep w) = rw_promises w"
    "current_ref (end_session s keep w) = None \<or> end_session s keep w = w"
  using assms
  by (auto simp: end_session_def track_def renewer_defs ended_refs_def observed_ok_def split: option.splits)


lemma sameSubjectD: "sameSubject a b \<Longrightarrow> \<exists>s. a = Some s \<and> subject s = subject b"
  by (auto simp: sameSubject_def split: option.splits)

lemma ok_adopt:
  "renewer_ok pb w \<Longrightarrow> observed_ok pb ob \<Longrightarrow> (case ob of Ended _ _ \<Rightarrow> False | _ \<Rightarrow> True) \<Longrightarrow>
   renewer_ok pb (w\<lparr>rw_current := Some (rw_next w, s), rw_next := rw_next w + 1, rw_log := rw_log w @ [ob]\<rparr>)"
  by (fastforce simp: renewer_defs ended_refs_def dest: nth_mem split: observed.splits)

lemma ok_log:
  "renewer_ok pb w \<Longrightarrow> observed_ok pb ob \<Longrightarrow> (case ob of Ended _ _ \<Rightarrow> False | _ \<Rightarrow> True) \<Longrightarrow>
   renewer_ok pb (w\<lparr>rw_log := rw_log w @ [ob]\<rparr>)"
  by (auto simp: renewer_defs ended_refs_def split: observed.splits)

lemma renew_start_ok:
  assumes ok: "renewer_ok pb w" and cur: "current_ref w = Some (fst start)"
    and eq: "renew_start pb start now w = (w', st)"
  shows "renewer_ok pb w' \<and> rw_promises w' = rw_promises w \<and> rw_next w \<le> rw_next w' \<and> fst start < rw_next w \<and>
    promise_ok \<lparr>pr_start = start, pr_state = st\<rparr>"
proof -
  have lt: "fst start < rw_next w" using ok cur by (rule refs_okD)
  show ?thesis
  proof (cases "sameSubject (rw_stored w) (snd start)")
    case False
    then have "w' = end_session start True w" "st = Rejected_Ended" using eq by (simp_all add: renew_start_def)
    moreover have "rw_next (end_session start True w) = rw_next w" by (simp add: end_session_def track_def)
    ultimately show ?thesis using ok_end [OF ok cur] lt by (simp add: promise_ok_def)
  next
    case True
    then obtain stored where st: "rw_stored w = Some stored" "subject stored = subject (snd start)"
      using sameSubjectD by blast
    then show ?thesis
      using eq True lt ok ok_adopt [OF ok, of "Adopted (rw_next w, stored) (snd start)" stored]
        ok_log [OF ok, of "Requested start (case ss_renewal stored of Some (r, _) \<Rightarrow> r | None \<Rightarrow> '''')"]
      by (auto simp: renew_start_def Let_def observed_ok_def promise_ok_def split: if_splits)
  qed
qed

lemma ok_add_promise:
  assumes "renewer_ok pb w'" "rw_inflight w = None" "fst s < rw_next w'" "promise_ok \<lparr>pr_start = s, pr_state = st\<rparr>"
    and none: "\<And>q. \<not> out_for_current w' q"
  shows "renewer_ok pb (w'\<lparr>rw_promises := rw_promises w' @ [\<lparr>pr_start = s, pr_state = st\<rparr>],
    rw_inflight := Some (length (rw_promises w'))\<rparr>)"
  using assms by (auto simp: renewer_defs ended_refs_def nth_append less_Suc_eq split: if_splits)

lemma renew_start_none:
  assumes "renewer_ok pb w" "current_ref w = Some (fst start)" "rw_inflight w = None"
    and "renew_start pb start now w = (w', st)"
  shows "\<not> out_for_current w' q"
proof -
  have no: "\<not> out_for_current w q" for q using assms(1,3) by (auto simp: renewer_ok_def)
  have small: "fst (pr_start (rw_promises w ! q)) < rw_next w" if "q < length (rw_promises w)" for q
    using refs_okD(2) [OF assms(1) nth_mem [OF that]] .
  show ?thesis
    using assms(4) no [of q] small [of q]
    by (auto simp: renew_start_def Let_def end_session_def track_def out_for_current_def current_ref_def
        split: if_splits)
qed

lemma ok_fresh:
  assumes ok: "renewer_ok pb w"
  shows "renewer_ok pb (fst (fresh pb now w))"
proof (cases "rw_current w")
  case (Some s)
  then have cur: "current_ref w = Some (fst s)" by (simp add: current_ref_def)
  obtain w' st where eq: "renew_start pb s now w = (w', st)" by fastforce
  note start = renew_start_ok [OF ok cur eq]
  show ?thesis
  proof (cases "rw_inflight w")
    case None
    have "renewer_ok pb (w'\<lparr>rw_promises := rw_promises w' @ [\<lparr>pr_start = s, pr_state = st\<rparr>],
        rw_inflight := Some (length (rw_promises w'))\<rparr>)"
      using start None renew_start_none [OF ok cur None eq] by (intro ok_add_promise) auto
    then show ?thesis using ok Some None by (simp add: fresh_def eq Let_def)
  qed (use ok Some in \<open>simp add: fresh_def\<close>)
qed (use ok in \<open>simp add: fresh_def\<close>)

lemma ok_set_state:
  assumes "renewer_ok pb w" "p < length (rw_promises w)" "promise_ok ((rw_promises w ! p)\<lparr>pr_state := st\<rparr>)"
    "\<not> is_out ((rw_promises w ! p)\<lparr>pr_state := st\<rparr>)"
  shows "renewer_ok pb (w\<lparr>rw_promises := (rw_promises w)[p := (rw_promises w ! p)\<lparr>pr_state := st\<rparr>]\<rparr>)"
  using assms
  by (auto simp: renewer_defs ended_refs_def nth_list_update list_all_length split: if_splits
      dest!: set_update_subset_insert [THEN subsetD])

lemma renew_finish_ok:
  assumes ok: "renewer_ok pb w" and sub: "subject stored = subject (snd start)"
    and eq: "renew_finish pb start stored sentAt answer now w = (w', st)"
  shows "renewer_ok pb w' \<and> rw_promises w' = rw_promises w \<and> (\<forall>a b. st \<noteq> Out a b)"
proof (cases "current_ref w = Some (fst start)")
  case False
  then show ?thesis using ok eq by (auto simp: renew_finish_def current_ref_def)
next
  case True
  note ends = ok_end [OF ok True]
  show ?thesis
  proof (cases "refreshSession stored sentAt answer")
    case (Inl e)
    then show ?thesis using eq ok ends True
      by (auto simp: renew_finish_def current_ref_def split: if_splits option.splits)
  next
    case (Inr n)
    then have "subject n = subject (snd start)"
      using sub by (auto simp: refreshSession_def subject_def split: sum.splits)
    then show ?thesis
      using eq ok ends True Inr ok_adopt [OF ok, of "Renewed (rw_next w, n) (snd start)" n]
      by (auto simp: renew_finish_def current_ref_def observed_ok_def split: if_splits option.splits)
  qed
qed

lemma ok_settle:
  assumes ok: "renewer_ok pb w" and p: "p < length (rw_promises w)"
  shows "renewer_ok pb (settle pb p answer now w)"
proof (cases "pr_state (rw_promises w ! p)")
  case (Out stored sentAt)
  obtain w' st where eq: "renew_finish pb (pr_start (rw_promises w ! p)) stored sentAt answer now w = (w', st)"
    by fastforce
  have "promise_ok (rw_promises w ! p)" using ok p by (simp add: renewer_ok_def list_all_length)
  then have "subject stored = subject (snd (pr_start (rw_promises w ! p)))" by (simp add: promise_ok_def Out)
  note fin = renew_finish_ok [OF ok this eq]
  have st: "promise_ok (pr\<lparr>pr_state := st\<rparr>)" "\<not> is_out (pr\<lparr>pr_state := st\<rparr>)" for pr
    using fin by (cases st; simp add: promise_ok_def is_out_def)+
  have "renewer_ok pb (w'\<lparr>rw_promises := (rw_promises w')[p := (rw_promises w' ! p)\<lparr>pr_state := st\<rparr>]\<rparr>)"
    using fin p st by (intro ok_set_state) auto
  then show ?thesis by (simp add: settle_def Out eq)
qed (use ok in \<open>simp_all add: settle_def\<close>)

lemma ok_step: "renewer_step pb w w' \<Longrightarrow> renewer_ok pb w \<Longrightarrow> renewer_ok pb w'"
proof (induction rule: renewer_step.induct)
  case (Track_New w s)
  then show ?case by (rule ok_track_new)
next
  case (Track_Current w)
  then show ?case by (simp add: track_def)
next
  case (Storage w st)
  then show ?case by (auto simp: renewer_defs ended_refs_def)
qed (simp_all add: ok_track_new ok_track_none ok_fresh ok_settle ok_clear)

lemma reachable_ok: "reachable pb w \<Longrightarrow> renewer_ok pb w"
proof (induction rule: reachable.induct)
  case Created
  show ?case by (auto simp: createRenewer_def renewer_defs ended_refs_def)
qed (rule ok_step)


lemma late_answer_discarded:
  assumes "p < length (rw_promises w)" "\<not> out_for_current w p"
  shows "rw_current (settle pb p answer now w) = rw_current w" "rw_ended (settle pb p answer now w) = rw_ended w"
    "rw_stored (settle pb p answer now w) = rw_stored w" "rw_log (settle pb p answer now w) = rw_log w"
  using assms
  by (simp_all add: settle_def renew_finish_def out_for_current_def is_out_def current_ref_def split: settlement.splits)

text \<open>C9: the renewer. In every reachable state, whatever tabs write and however answers and clicks
  interleave: of the refresh requests that are out, at most one is for the session object in use; the answer to any
  other (of an object replaced while its request was out) neither takes over, nor ends a session, nor writes storage; a session
  ends at most once and is never in use afterwards; and a session that took over, by a refresh or from another tab,
  belongs to the user of the one it replaced, a refreshed one also to its tenant by a token whose times can be
  read.\<close>

theorem renewer_safe:
  assumes "reachable pb w"
  shows "length (filter (out_for_current w) [0..<length (rw_promises w)]) \<le> 1 \<and>
    list_all (\<lambda>p. out_for_current w p \<or>
        (rw_current (settle pb p answer now w) = rw_current w \<and> rw_ended (settle pb p answer now w) = rw_ended w \<and>
         rw_stored (settle pb p answer now w) = rw_stored w \<and> rw_log (settle pb p answer now w) = rw_log w))
      [0..<length (rw_promises w)] \<and>
    distinct (ended_refs w) \<and>
    (case current_ref w of None \<Rightarrow> True | Some r \<Rightarrow> r \<notin> set (ended_refs w)) \<and>
    list_all (\<lambda>ob. case ob of
       Renewed n s \<Rightarrow> subject (snd n) = subject s \<and> tokenTimes pb (ss_token (snd n)) \<noteq> None \<and>
         (case tokenTenant pb (ss_token (snd n)) of None \<Rightarrow> False | Some t \<Rightarrow> JStr t = tenant s)
     | Adopted n s \<Rightarrow> subject (snd n) = subject s
     | _ \<Rightarrow> True) (rw_log w)"
proof -
  have ok: "renewer_ok pb w" using assms by (rule reachable_ok)
  let ?l = "filter (out_for_current w) [0..<length (rw_promises w)]"
  have "set ?l \<subseteq> set_option (rw_inflight w)" using ok by (auto simp: renewer_ok_def)
  then have "card (set ?l) \<le> card (set_option (rw_inflight w))" by (intro card_mono) auto
  also have "\<dots> \<le> 1" by (cases "rw_inflight w") simp_all
  finally have "length ?l \<le> 1" by (simp add: distinct_card [symmetric])
  moreover have "list_all (observed_ok pb) (rw_log w)" using ok by (simp add: renewer_ok_def)
  moreover have "list_all (\<lambda>p. out_for_current w p \<or>
        (rw_current (settle pb p answer now w) = rw_current w \<and> rw_ended (settle pb p answer now w) = rw_ended w \<and>
         rw_stored (settle pb p answer now w) = rw_stored w \<and> rw_log (settle pb p answer now w) = rw_log w))
      [0..<length (rw_promises w)]"
    by (auto simp: list_all_iff late_answer_discarded)
  ultimately show ?thesis
    using ok unfolding observed_ok_def [abs_def]
    by (simp add: renewer_ok_def refs_ok_def split: option.split)
qed

definition renewing :: "(string \<Rightarrow> json option) \<Rightarrow> renewer" where
  "renewing pb = fst (fresh pb 0 ((track (Some (rw_next createRenewer, sample_session))
     (createRenewer\<lparr>rw_next := rw_next createRenewer + 1\<rparr>))\<lparr>rw_stored := Some sample_session\<rparr>))"

lemma renewing_reachable: "reachable pb (renewing pb)"
  unfolding renewing_def by (intro reachable.Step [OF _ Fresh] reachable.Step [OF _ Storage] reachable.Step [OF _ Track_New] Created)

theorem renewer_witness:
  "length (filter (out_for_current (renewing (\<lambda>t. None))) [0..<length (rw_promises (renewing (\<lambda>t. None)))]) \<le> 1 \<and>
   rw_log (renewing (\<lambda>t. None)) = [Requested (0, sample_session) ''r1'']"
proof
  show "length (filter (out_for_current (renewing (\<lambda>t. None)))
      [0..<length (rw_promises (renewing (\<lambda>t. None)))]) \<le> 1"
    using renewer_safe [OF renewing_reachable] by blast
  show "rw_log (renewing (\<lambda>t. None)) = [Requested (0, sample_session) ''r1'']"
    by (simp add: renewing_def fresh_def track_def createRenewer_def renew_start_def sameSubject_def Let_def
        isRenewalDue_def renewAt_def lifetimeFrom_def tokenTimes_def claim_def decodeJwtPayload_def sample_session_def
        split: option.splits)
qed

end
