(* ===== verification/Route.thy ===== *)
theory Route
  imports Session
begin

text \<open>
  The addresses of the app (\<open>lib/route.ts\<close>): the path of a view, its drill-downs and the review of an
  import, the query a view owns, and the reading of an address back. A URL is the text up to its first
  question mark (\<open>pathname\<close>) and the text from it on (\<open>search\<close>); the removal of \<open>.\<close> and \<open>..\<close> segments by
  the browser's URL parser is not modelled.
\<close>

subsection \<open>Views and paths\<close>

datatype view = V_Dashboard | V_Invoices | V_Approvals | V_Rules | V_Customers | V_Reports | V_Workflows
  | V_Clients | V_Audit | V_Settings | V_Create | V_Detail | V_Extraction | V_Account

datatype settings_tab = T_Members | T_Roles | T_Connectors | T_Api | T_Signing | T_Company | T_Workspace

fun ROUTE_PATHS :: "view \<Rightarrow> string" where
  "ROUTE_PATHS V_Dashboard = ''/''"
| "ROUTE_PATHS V_Invoices = ''/invoices''"
| "ROUTE_PATHS V_Approvals = ''/approvals''"
| "ROUTE_PATHS V_Rules = ''/rules''"
| "ROUTE_PATHS V_Customers = ''/customers''"
| "ROUTE_PATHS V_Reports = ''/reports''"
| "ROUTE_PATHS V_Workflows = ''/workflows''"
| "ROUTE_PATHS V_Clients = ''/clients''"
| "ROUTE_PATHS V_Audit = ''/audit''"
| "ROUTE_PATHS V_Settings = ''/settings''"
| "ROUTE_PATHS V_Create = ''/create''"
| "ROUTE_PATHS V_Detail = ''/invoice''"
| "ROUTE_PATHS V_Extraction = ''/extraction''"
| "ROUTE_PATHS V_Account = ''/account''"

definition route_views :: "view list" where
  "route_views = [V_Dashboard, V_Invoices, V_Approvals, V_Rules, V_Customers, V_Reports, V_Workflows,
     V_Clients, V_Audit, V_Settings, V_Create, V_Detail, V_Extraction, V_Account]"

definition PATH_TO_VIEW :: "string \<Rightarrow> view option" where
  "PATH_TO_VIEW = map_of (rev (map (\<lambda>v. (ROUTE_PATHS v, v)) route_views))"

record route =
  rt_view :: view
  rt_id :: "string option"

definition DRILLDOWN_SEGMENT :: "string \<Rightarrow> view option" where
  "DRILLDOWN_SEGMENT =
     map_of [(''invoices'', V_Detail), (''extraction'', V_Extraction), (''workflows'', V_Workflows)]"

definition routePath :: "view \<Rightarrow> string option \<Rightarrow> string" where
  "routePath view ident = (case ident of
      None \<Rightarrow> ROUTE_PATHS view
    | Some i \<Rightarrow>
        (if view = V_Detail then ''/invoices/'' @ encodeURIComponent i
         else if view = V_Extraction then ''/extraction/'' @ encodeURIComponent i
         else if view = V_Workflows then ''/workflows/'' @ encodeURIComponent i
         else ROUTE_PATHS view))"

text \<open>At most one trailing slash is dropped, never the root's own.\<close>

definition normalized_path :: "string \<Rightarrow> string" where
  "normalized_path p = (if length p > 1 \<and> last p = CHR ''/'' then butlast p else p)"

definition parseRoute :: "string \<Rightarrow> route option" where
  "parseRoute pathname =
    (let n = normalized_path pathname in
     case PATH_TO_VIEW n of
       Some v \<Rightarrow> Some \<lparr>rt_view = v, rt_id = None\<rparr>
     | None \<Rightarrow>
         (case filter (\<lambda>s. s \<noteq> []) (split_on CHR ''/'' n) of
            [a, b] \<Rightarrow>
              (case DRILLDOWN_SEGMENT a of
                 None \<Rightarrow> None
               | Some v \<Rightarrow> map_option (\<lambda>i. \<lparr>rt_view = v, rt_id = Some i\<rparr>) (decodeURIComponent b))
          | _ \<Rightarrow> None))"

subsection \<open>The review of an import\<close>

definition is_hex :: "char \<Rightarrow> bool" where
  "is_hex c \<longleftrightarrow> hex_val c \<noteq> None"

text \<open>The regular expression \<open>REVIEW_UUID\<close>, and \<open>INVOICE_ID\<close>, which is the same one.\<close>

definition canonical_uuid :: "string \<Rightarrow> bool" where
  "canonical_uuid s \<longleftrightarrow> map length (split_on CHR ''-'' s) = [8, 4, 4, 4, 12] \<and>
     list_all (list_all is_hex) (split_on CHR ''-'' s)"

definition REVIEW_PATH_PREFIX :: string where "REVIEW_PATH_PREFIX = ''/imports/''"
definition REVIEW_PATH_SUFFIX :: string where "REVIEW_PATH_SUFFIX = ''/review''"
definition REVIEW_PATH_MAX_IDS :: nat where "REVIEW_PATH_MAX_IDS = 5"

definition reviewPath :: "string list \<Rightarrow> string" where
  "reviewPath ids = REVIEW_PATH_PREFIX @ join '','' ids @ REVIEW_PATH_SUFFIX"

definition ends_with :: "string \<Rightarrow> string \<Rightarrow> bool" where
  "ends_with w s = starts_with (rev w) (rev s)"

definition parseReviewPath :: "string \<Rightarrow> string list option" where
  "parseReviewPath pathname =
    (let n = normalized_path pathname in
     if \<not> starts_with REVIEW_PATH_PREFIX n \<or> \<not> ends_with REVIEW_PATH_SUFFIX n then None
     else
       (let inner = drop (length REVIEW_PATH_PREFIX) (take (length n - length REVIEW_PATH_SUFFIX) n);
            segments = split_on CHR '','' inner
        in if length segments > REVIEW_PATH_MAX_IDS then None
           else if list_all canonical_uuid segments then Some segments else None))"

definition reviewNavIds :: "view \<Rightarrow> create_step \<Rightarrow> string list \<Rightarrow> string list" where
  "reviewNavIds view createStep reviewBatchIds =
    (if view = V_Create \<and> createStep = Step_Review \<and> length reviewBatchIds > 0 then reviewBatchIds else [])"

subsection \<open>Addresses\<close>

record route_params =
  rp_id :: "string option"
  rp_settingsTab :: "settings_tab option"
  rp_q :: string
  rp_auditInvoice :: "string option"
  rp_reviewBatchIds :: "string list"

record parsed_location =
  pl_view :: view
  pl_invoiceId :: "string option"
  pl_jobId :: "string option"
  pl_policyId :: "string option"
  pl_settingsTab :: settings_tab
  pl_q :: string
  pl_auditInvoice :: "string option"
  pl_reviewBatchIds :: "string list"

fun tab_text :: "settings_tab \<Rightarrow> string" where
  "tab_text T_Members = ''members''"
| "tab_text T_Roles = ''roles''"
| "tab_text T_Connectors = ''connectors''"
| "tab_text T_Api = ''api''"
| "tab_text T_Signing = ''signing''"
| "tab_text T_Company = ''company''"
| "tab_text T_Workspace = ''workspace''"

definition SETTINGS_TAB_TABLE :: "(string \<times> settings_tab) list" where
  "SETTINGS_TAB_TABLE = map (\<lambda>t. (tab_text t, t))
     [T_Members, T_Roles, T_Connectors, T_Api, T_Signing, T_Company, T_Workspace]"

definition routeUrl :: "view \<Rightarrow> route_params \<Rightarrow> string" where
  "routeUrl view params =
    (let path = routePath view (rp_id params) in
     if view = V_Settings then
       path @ ''/'' @ tab_text (case rp_settingsTab params of None \<Rightarrow> T_Members | Some t \<Rightarrow> t)
     else if view = V_Create then
       (if length (rp_reviewBatchIds params) > 0 then reviewPath (rp_reviewBatchIds params) else path)
     else if view = V_Invoices \<and> rp_q params \<noteq> [] then path @ ''?'' @ search_params [(''q'', rp_q params)]
     else
       (case rp_auditInvoice params of
          Some a \<Rightarrow> if view = V_Audit \<and> a \<noteq> [] then path @ ''?'' @ search_params [(''invoice'', a)] else path
        | None \<Rightarrow> path))"

definition pathname_of :: "string \<Rightarrow> string" where
  "pathname_of url = takeWhile (\<lambda>c. c \<noteq> CHR ''?'') url"

definition search_of :: "string \<Rightarrow> string" where
  "search_of url = dropWhile (\<lambda>c. c \<noteq> CHR ''?'') url"

definition routeQuery :: "view \<Rightarrow> route_params \<Rightarrow> string" where
  "routeQuery view params = search_of (routeUrl view params)"

definition settings_segment :: "string \<Rightarrow> string option" where
  "settings_segment n =
    (if starts_with ''/settings/'' n then
       (let seg = drop (length ''/settings/'') n in
        if seg \<noteq> [] \<and> list_all (\<lambda>c. c \<notin> {CHR ''/'', CHR ''?'', CHR ''#''}) seg then Some seg else None)
     else None)"

definition parseLocation :: "string \<Rightarrow> string \<Rightarrow> parsed_location" where
  "parseLocation pathname search =
    (let route = parseRoute pathname;
         drill = (\<lambda>v. case route of Some r \<Rightarrow> if rt_view r = v then rt_id r else None | None \<Rightarrow> None);
         n = normalized_path pathname;
         ids = (if starts_with REVIEW_PATH_PREFIX n then parseReviewPath n else None);
         (view, tab, batch) = (case route of
             Some r \<Rightarrow> (rt_view r, T_Members, [])
           | None \<Rightarrow>
               (let base = (case ids of Some is \<Rightarrow> (V_Create, is) | None \<Rightarrow> (V_Dashboard, [])) in
                if n = ''/settings/buyers'' then (V_Customers, T_Members, snd base)
                else (case settings_segment n of
                    Some seg \<Rightarrow>
                      (V_Settings,
                       (case map_of SETTINGS_TAB_TABLE seg of Some t \<Rightarrow> t | None \<Rightarrow> T_Members), snd base)
                  | None \<Rightarrow> (fst base, T_Members, snd base))));
         rawInvoice = (if view = V_Audit then search_get search ''invoice'' else None)
     in \<lparr>pl_view = view, pl_invoiceId = drill V_Detail, pl_jobId = drill V_Extraction,
         pl_policyId = drill V_Workflows, pl_settingsTab = tab,
         pl_q = (if view = V_Invoices
                 then clampFilterText (case search_get search ''q'' of None \<Rightarrow> [] | Some q \<Rightarrow> q) else []),
         pl_auditInvoice = (case rawInvoice of
             Some a \<Rightarrow> if canonical_uuid a then Some a else None | None \<Rightarrow> None),
         pl_reviewBatchIds = batch\<rparr>)"

definition ID_PATTERN :: "view \<Rightarrow> string option" where
  "ID_PATTERN v = (if v = V_Detail then Some ''/invoices/:id''
     else if v = V_Extraction then Some ''/extraction/:id''
     else if v = V_Workflows then Some ''/workflows/:id'' else None)"

definition routeName :: "string \<Rightarrow> string" where
  "routeName pathname =
    (case parseRoute pathname of
       Some r \<Rightarrow>
         (case ID_PATTERN (rt_view r) of
            Some p \<Rightarrow> if rt_id r \<noteq> None then p else ROUTE_PATHS (rt_view r)
          | None \<Rightarrow> ROUTE_PATHS (rt_view r))
     | None \<Rightarrow>
         (let n = normalized_path pathname in
          if parseReviewPath n \<noteq> None then ''/imports/:ids/review''
          else if settings_segment n \<noteq> None then ''/settings/:tab''
          else ''<unmatched>''))"

subsection \<open>Paths come back\<close>

lemma normalized_no_slash: "p \<noteq> [] \<Longrightarrow> last p \<noteq> CHR ''/'' \<Longrightarrow> normalized_path p = p"
  by (simp add: normalized_path_def)

lemma normalized_segment:
  "i \<noteq> [] \<Longrightarrow> CHR ''/'' \<notin> set i \<Longrightarrow> normalized_path (p @ i) = p @ i"
  by (rule normalized_no_slash) (auto dest: last_in_set)

lemma PATH_TO_VIEW_path: "PATH_TO_VIEW (ROUTE_PATHS v) = Some v"
  by (cases v) (simp_all add: PATH_TO_VIEW_def route_views_def)

lemma PATH_TO_VIEW_path_of: "PATH_TO_VIEW p = Some v \<Longrightarrow> p = ROUTE_PATHS v"
  unfolding PATH_TO_VIEW_def by (drule map_of_SomeD) auto

lemma normalized_ROUTE_PATHS: "normalized_path (ROUTE_PATHS v) = ROUTE_PATHS v"
  by (cases v) (simp_all add: normalized_path_def)

lemma parseRoute_path: "parseRoute (ROUTE_PATHS v) = Some \<lparr>rt_view = v, rt_id = None\<rparr>"
  by (simp add: parseRoute_def normalized_ROUTE_PATHS PATH_TO_VIEW_path)

text \<open>Two segments are never a path of the table, whose entries have one slash only.\<close>

lemma two_slashes: "PATH_TO_VIEW p = Some v \<Longrightarrow> length (filter (\<lambda>c. c = CHR ''/'') p) = 1"
  by (drule PATH_TO_VIEW_path_of) (cases v; simp)

lemma encode_not_Nil: "i \<noteq> [] \<Longrightarrow> encodeURIComponent i \<noteq> []"
  by (cases i) (simp_all add: encodeURIComponent_def percent_def)

lemma parseRoute_segments:
  assumes "a \<noteq> []" "CHR ''/'' \<notin> set a" "b \<noteq> []" "CHR ''/'' \<notin> set b"
  shows "parseRoute (''/'' @ a @ ''/'' @ b) = (case DRILLDOWN_SEGMENT a of None \<Rightarrow> None
     | Some v \<Rightarrow> map_option (\<lambda>i. \<lparr>rt_view = v, rt_id = Some i\<rparr>) (decodeURIComponent b))"
proof -
  let ?p = "''/'' @ a @ ''/'' @ b"
  have n: "normalized_path ?p = ?p" using normalized_segment [of b "''/'' @ a @ ''/''"] assms by simp
  have "PATH_TO_VIEW ?p = None"
  proof (cases "PATH_TO_VIEW ?p")
    case (Some v)
    with two_slashes [of ?p v] show ?thesis by simp
  qed
  moreover have "split_on CHR ''/'' ?p = [[], a, b]"
    using assms by (simp add: split_on_append split_on_none)
  ultimately show ?thesis using assms n by (simp add: parseRoute_def Let_def)
qed

lemma parseRoute_drilldown:
  assumes "DRILLDOWN_SEGMENT a = Some v" "i \<noteq> []" "valid_utf8 i"
  shows "parseRoute (''/'' @ a @ ''/'' @ encodeURIComponent i) = Some \<lparr>rt_view = v, rt_id = Some i\<rparr>"
proof -
  have "a = ''invoices'' \<or> a = ''extraction'' \<or> a = ''workflows''"
    using assms(1) by (auto simp: DRILLDOWN_SEGMENT_def split: if_splits)
  then have "a \<noteq> []" "CHR ''/'' \<notin> set a" by auto
  then show ?thesis
    using assms by (simp add: parseRoute_segments encode_not_Nil slash_not_encoded uri_component.dec_enc
        del: append_Cons append.simps)
qed

lemma parseRoute_settings: "parseRoute (''/settings/'' @ tab_text t) = None"
proof -
  have "tab_text t \<noteq> []" "CHR ''/'' \<notin> set (tab_text t)" by (cases t; simp)+
  then show ?thesis
    using parseRoute_segments [of "''settings''" "tab_text t"] by (simp add: DRILLDOWN_SEGMENT_def)
qed

subsection \<open>Review paths\<close>

lemma is_hex_neq: "\<not> is_hex CHR '',''" "\<not> is_hex CHR ''/''" "\<not> is_hex CHR ''?''"
  by (simp_all add: is_hex_def hex_val_def byte_def)

lemma canonical_uuid_chars: "canonical_uuid s \<Longrightarrow> c \<in> set s \<Longrightarrow> is_hex c \<or> c = CHR ''-''"
proof -
  assume u: "canonical_uuid s" and c: "c \<in> set s"
  have mem: "set (join sep ws) \<subseteq> set sep \<union> \<Union> (set ` set ws)" for sep ws
    by (induction sep ws rule: join.induct) auto
  have "set s \<subseteq> {CHR ''-''} \<union> \<Union> (set ` set (split_on CHR ''-'' s))"
    using mem [of "''-''" "split_on CHR ''-'' s"] by (simp add: join_split_on)
  with u c show ?thesis by (auto simp: canonical_uuid_def list_all_iff)
qed

lemma canonical_uuid_plain:
  assumes "canonical_uuid s"
  shows "CHR '','' \<notin> set s" "CHR ''/'' \<notin> set s" "CHR ''?'' \<notin> set s" "s \<noteq> []"
  using canonical_uuid_chars [OF assms] is_hex_neq assms by (auto simp: canonical_uuid_def)

lemma ends_with_iff: "ends_with w s \<longleftrightarrow> (\<exists>p. s = p @ w)"
  by (auto simp: ends_with_def starts_with_def) (metis append_take_drop_id rev_append rev_rev_ident)

lemma normalized_slash: "p \<noteq> [] \<Longrightarrow> normalized_path (p @ ''/'') = p"
  by (simp add: normalized_path_def)

lemma reviewPath_not_Nil: "reviewPath ids \<noteq> []"
  by (simp add: reviewPath_def REVIEW_PATH_PREFIX_def)

lemma normalized_reviewPath: "normalized_path (reviewPath ids) = reviewPath ids"
  by (rule normalized_no_slash) (simp_all add: reviewPath_def REVIEW_PATH_PREFIX_def REVIEW_PATH_SUFFIX_def)

lemma parseReviewPath_reviewPath:
  assumes "list_all canonical_uuid ids" "ids \<noteq> []" "length ids \<le> REVIEW_PATH_MAX_IDS"
  shows "parseReviewPath (reviewPath ids) = Some ids" "parseReviewPath (reviewPath ids @ ''/'') = Some ids"
proof -
  have inner: "split_on CHR '','' (join '','' ids) = ids"
    using assms canonical_uuid_plain(1) by (intro split_on_join) (auto simp: list_all_iff)
  have pre: "starts_with REVIEW_PATH_PREFIX (reviewPath ids)" "ends_with REVIEW_PATH_SUFFIX (reviewPath ids)"
    by (simp_all add: reviewPath_def starts_with_def ends_with_def)
  have n: "normalized_path (reviewPath ids) = reviewPath ids" "normalized_path (reviewPath ids @ ''/'') = reviewPath ids"
    by (rule normalized_reviewPath) (rule normalized_slash [OF reviewPath_not_Nil])
  have cut: "drop (length REVIEW_PATH_PREFIX) (take (length (reviewPath ids) - length REVIEW_PATH_SUFFIX) (reviewPath ids))
      = join '','' ids"
    by (simp add: reviewPath_def)
  show "parseReviewPath (reviewPath ids) = Some ids" "parseReviewPath (reviewPath ids @ ''/'') = Some ids"
    using assms pre by (simp_all only: parseReviewPath_def n Let_def cut inner) auto
qed

lemma normalized_cases: "p = normalized_path p \<or> p = normalized_path p @ ''/''"
proof (cases "length p > 1 \<and> last p = CHR ''/''")
  case True
  then have "p = butlast p @ [last p]" by (cases p) auto
  then show ?thesis using True by (simp add: normalized_path_def)
qed (auto simp: normalized_path_def)

lemma parseReviewPath_shape:
  assumes "parseReviewPath p = Some ids"
  shows "list_all canonical_uuid ids \<and> ids \<noteq> [] \<and> length ids \<le> REVIEW_PATH_MAX_IDS \<and>
    (p = reviewPath ids \<or> p = reviewPath ids @ ''/'')"
proof -
  define n where "n = normalized_path p"
  define inner where "inner = drop (length REVIEW_PATH_PREFIX) (take (length n - length REVIEW_PATH_SUFFIX) n)"
  have parts: "starts_with REVIEW_PATH_PREFIX n" "ends_with REVIEW_PATH_SUFFIX n"
      "ids = split_on CHR '','' inner" "length ids \<le> REVIEW_PATH_MAX_IDS" "list_all canonical_uuid ids"
    using assms by (auto simp: parseReviewPath_def Let_def n_def inner_def split: if_splits)
  have ne: "ids \<noteq> []" using parts(3) by (cases inner) (auto split: list.splits)
  obtain q where q: "n = q @ REVIEW_PATH_SUFFIX" using parts(2) ends_with_iff by blast
  have join: "join '','' ids = inner" by (simp add: parts(3) join_split_on)
  have "inner \<noteq> []" using parts(3,5) by (auto simp: canonical_uuid_def)
  then have long: "length REVIEW_PATH_PREFIX < length q" using q by (simp add: inner_def)
  have "REVIEW_PATH_PREFIX = take (length REVIEW_PATH_PREFIX) q"
    using parts(1) q long by (simp add: starts_with_def)
  then have "q = REVIEW_PATH_PREFIX @ inner" using q by (metis append_take_drop_id append_eq_conv_conj
        add_diff_cancel_right' inner_def length_append)
  then have "n = reviewPath ids" using q join by (simp add: reviewPath_def)
  then show ?thesis using parts(4,5) ne normalized_cases [of p] by (simp add: n_def)
qed

text \<open>Review paths. A path names an import review exactly if it is the path the app writes for one
  to five canonical ids, with at most one slash after it; then those ids are read, in their order and
  each in its own spelling. No other text yields an id.\<close>

theorem review_path_exact:
  "parseReviewPath p = Some ids \<longleftrightarrow>
     list_all canonical_uuid ids \<and> 1 \<le> length ids \<and> length ids \<le> 5 \<and>
     (p = reviewPath ids \<or> p = reviewPath ids @ ''/'')"
  using parseReviewPath_shape [of p ids] parseReviewPath_reviewPath [of ids]
  by (cases ids) (auto simp: REVIEW_PATH_MAX_IDS_def)

subsection \<open>Addresses come back\<close>

text \<open>What the address of a view with its parameters stands for: the parameters the view owns.\<close>

definition addressed :: "view \<Rightarrow> route_params \<Rightarrow> parsed_location" where
  "addressed v p = \<lparr>pl_view = v,
     pl_invoiceId = (if v = V_Detail then rp_id p else None),
     pl_jobId = (if v = V_Extraction then rp_id p else None),
     pl_policyId = (if v = V_Workflows then rp_id p else None),
     pl_settingsTab = (if v = V_Settings then (case rp_settingsTab p of None \<Rightarrow> T_Members | Some t \<Rightarrow> t) else T_Members),
     pl_q = (if v = V_Invoices then clampFilterText (rp_q p) else []),
     pl_auditInvoice = (if v = V_Audit
        then (case rp_auditInvoice p of Some a \<Rightarrow> if canonical_uuid a then Some a else None | None \<Rightarrow> None) else None),
     pl_reviewBatchIds = (if v = V_Create then rp_reviewBatchIds p else [])\<rparr>"

definition params_ok :: "route_params \<Rightarrow> bool" where
  "params_ok p \<longleftrightarrow> (case rp_id p of None \<Rightarrow> True | Some i \<Rightarrow> i \<noteq> [] \<and> valid_utf8 i) \<and>
     valid_utf8 (rp_q p) \<and> (case rp_auditInvoice p of None \<Rightarrow> True | Some a \<Rightarrow> valid_utf8 a) \<and>
     list_all canonical_uuid (rp_reviewBatchIds p) \<and> length (rp_reviewBatchIds p) \<le> REVIEW_PATH_MAX_IDS"

lemma no_question:
  "CHR ''?'' \<notin> set (routePath v i)" "CHR ''?'' \<notin> set (tab_text t)"
  "list_all canonical_uuid ids \<Longrightarrow> CHR ''?'' \<notin> set (reviewPath ids)"
proof -
  have "CHR ''?'' \<notin> set (ROUTE_PATHS v)" by (cases v) simp_all
  then show "CHR ''?'' \<notin> set (routePath v i)"
    using slash_not_encoded(2) by (auto simp: routePath_def split: option.split)
  show "CHR ''?'' \<notin> set (tab_text t)" by (cases t) simp_all
  have "list_all canonical_uuid ids \<Longrightarrow> CHR ''?'' \<notin> set (join '','' ids)"
    by (induction "'',''" ids rule: join.induct) (auto simp: canonical_uuid_plain)
  then show "list_all canonical_uuid ids \<Longrightarrow> CHR ''?'' \<notin> set (reviewPath ids)"
    by (simp add: reviewPath_def REVIEW_PATH_PREFIX_def REVIEW_PATH_SUFFIX_def)
qed

lemma url_parts:
  assumes "CHR ''?'' \<notin> set p"
  shows "pathname_of p = p" "search_of p = []" "pathname_of (p @ ''?'' @ q) = p" "search_of (p @ ''?'' @ q) = ''?'' @ q"
proof -
  have "\<forall>c \<in> set p. c \<noteq> CHR ''?''" using assms by metis
  then show "pathname_of p = p" "search_of p = []" "pathname_of (p @ ''?'' @ q) = p"
      "search_of (p @ ''?'' @ q) = ''?'' @ q"
    by (simp_all add: pathname_of_def search_of_def takeWhile_append dropWhile_append)
qed

lemma search_get_empty: "search_get [] k = None"
  by (simp add: search_get_def search_pairs_def)

lemma parseLocation_routed:
  assumes "parseRoute p = Some \<lparr>rt_view = v, rt_id = i\<rparr>"
  shows "parseLocation p s = \<lparr>pl_view = v, pl_invoiceId = (if v = V_Detail then i else None),
     pl_jobId = (if v = V_Extraction then i else None), pl_policyId = (if v = V_Workflows then i else None),
     pl_settingsTab = T_Members,
     pl_q = (if v = V_Invoices then clampFilterText (case search_get s ''q'' of None \<Rightarrow> [] | Some q \<Rightarrow> q) else []),
     pl_auditInvoice = (case if v = V_Audit then search_get s ''invoice'' else None of
        Some a \<Rightarrow> if canonical_uuid a then Some a else None | None \<Rightarrow> None),
     pl_reviewBatchIds = []\<rparr>"
  by (simp add: parseLocation_def assms Let_def)

lemma parseLocation_settings:
  "parseLocation (''/settings/'' @ tab_text t) [] = \<lparr>pl_view = V_Settings, pl_invoiceId = None, pl_jobId = None,
     pl_policyId = None, pl_settingsTab = t, pl_q = [], pl_auditInvoice = None, pl_reviewBatchIds = []\<rparr>"
proof -
  have n: "normalized_path (''/settings/'' @ tab_text t) = ''/settings/'' @ tab_text t"
    by (rule normalized_segment) (cases t; simp)+
  have seg: "settings_segment (''/settings/'' @ tab_text t) = Some (tab_text t)"
    by (cases t) (simp_all add: settings_segment_def starts_with_def)
  have tab: "map_of SETTINGS_TAB_TABLE (tab_text t) = Some t"
    by (cases t) (simp_all add: SETTINGS_TAB_TABLE_def)
  have "''/settings/'' @ tab_text t \<noteq> ''/settings/buyers''" by (cases t) simp_all
  moreover have "\<not> starts_with REVIEW_PATH_PREFIX (''/settings/'' @ tab_text t)"
    by (simp add: REVIEW_PATH_PREFIX_def starts_with_def)
  ultimately show ?thesis
    by (simp add: parseLocation_def parseRoute_settings n seg tab Let_def del: append_Cons append.simps)
qed

lemma parseRoute_review:
  assumes "list_all canonical_uuid ids"
  shows "parseRoute (reviewPath ids) = None"
proof -
  have plain: "CHR ''/'' \<notin> set (join '','' ids)"
    using assms by (induction "'',''" ids rule: join.induct) (auto simp: canonical_uuid_plain)
  have "PATH_TO_VIEW (reviewPath ids) = None"
  proof (cases "PATH_TO_VIEW (reviewPath ids)")
    case (Some v)
    with two_slashes [of "reviewPath ids" v] show ?thesis
      by (simp add: reviewPath_def REVIEW_PATH_PREFIX_def REVIEW_PATH_SUFFIX_def)
  qed
  moreover have "split_on CHR ''/'' (reviewPath ids) = [[], ''imports'', join '','' ids, ''review'']"
    using plain by (simp add: reviewPath_def REVIEW_PATH_PREFIX_def REVIEW_PATH_SUFFIX_def split_on_append)
  ultimately show ?thesis
    by (simp add: parseRoute_def normalized_reviewPath Let_def DRILLDOWN_SEGMENT_def)
qed

lemma parseLocation_review:
  assumes "list_all canonical_uuid ids" "ids \<noteq> []" "length ids \<le> REVIEW_PATH_MAX_IDS"
  shows "parseLocation (reviewPath ids) [] = \<lparr>pl_view = V_Create, pl_invoiceId = None, pl_jobId = None,
     pl_policyId = None, pl_settingsTab = T_Members, pl_q = [], pl_auditInvoice = None, pl_reviewBatchIds = ids\<rparr>"
proof -
  have "starts_with REVIEW_PATH_PREFIX (reviewPath ids)" by (simp add: reviewPath_def)
  moreover have "settings_segment (reviewPath ids) = None" "reviewPath ids \<noteq> ''/settings/buyers''"
    by (simp_all add: settings_segment_def starts_with_def reviewPath_def REVIEW_PATH_PREFIX_def)
  ultimately show ?thesis
    using assms parseReviewPath_reviewPath(1) [OF assms] parseRoute_review [OF assms(1)]
    by (simp add: parseLocation_def normalized_reviewPath Let_def)
qed

lemma parseRoute_routePath:
  assumes "params_ok p"
  shows "parseRoute (routePath v (rp_id p)) = Some \<lparr>rt_view = v,
    rt_id = (if v \<in> {V_Detail, V_Extraction, V_Workflows} then rp_id p else None)\<rparr>"
proof (cases "rp_id p")
  case None
  then show ?thesis by (simp add: routePath_def parseRoute_path)
next
  case (Some i)
  then have "i \<noteq> []" "valid_utf8 i" using assms by (simp_all add: params_ok_def)
  then have drill: "DRILLDOWN_SEGMENT a = Some w \<Longrightarrow>
      parseRoute (''/'' @ a @ ''/'' @ encodeURIComponent i) = Some \<lparr>rt_view = w, rt_id = Some i\<rparr>" for a w
    by (simp add: parseRoute_drilldown del: append_Cons append.simps)
  show ?thesis
    using Some drill [of "''invoices''" V_Detail] drill [of "''extraction''" V_Extraction]
      drill [of "''workflows''" V_Workflows]
    by (auto simp: routePath_def parseRoute_path DRILLDOWN_SEGMENT_def)
qed

lemma routeUrl_query:
  assumes "params_ok p" "v \<noteq> V_Settings" "v \<noteq> V_Create"
  shows "pathname_of (routeUrl v p) = routePath v (rp_id p)"
    "v = V_Invoices \<Longrightarrow> (case search_get (search_of (routeUrl v p)) ''q'' of None \<Rightarrow> [] | Some q \<Rightarrow> q) = rp_q p"
    "v = V_Audit \<Longrightarrow> search_get (search_of (routeUrl v p)) ''invoice'' =
       (case rp_auditInvoice p of Some a \<Rightarrow> if a = [] then None else Some a | None \<Rightarrow> None)"
proof -
  note path = url_parts [OF no_question(1) [of v "rp_id p"]]
  have ok: "valid_utf8 (rp_q p)" "rp_auditInvoice p = Some a \<Longrightarrow> valid_utf8 a" for a
    using assms(1) by (auto simp: params_ok_def)
  have keys: "valid_utf8 ''q''" "valid_utf8 ''invoice''" by (simp_all add: byte_def)
  show "pathname_of (routeUrl v p) = routePath v (rp_id p)"
    using assms path by (auto simp: routeUrl_def Let_def split: option.split)
  show "(case search_get (search_of (routeUrl v p)) ''q'' of None \<Rightarrow> [] | Some q \<Rightarrow> q) = rp_q p" if "v = V_Invoices"
    using that path ok(1) search_get_one [OF keys(1) ok(1)]
    by (cases "rp_q p = []") (simp_all add: routeUrl_def Let_def search_get_empty split: option.split)
  show "search_get (search_of (routeUrl v p)) ''invoice'' =
       (case rp_auditInvoice p of Some a \<Rightarrow> if a = [] then None else Some a | None \<Rightarrow> None)" if "v = V_Audit"
    using that path ok(2) search_get_one [OF keys(2) ok(2)]
    by (cases "rp_auditInvoice p") (auto simp: routeUrl_def Let_def search_get_empty)
qed

text \<open>C29: an address comes back. Parsing the path and the query of the address of a view gives that view
  and the parameters it owns: the id of a drill-down, the settings tab, the (clamped) search of the
  invoice list, the invoice an audit list is filtered by if it is a canonical id, and the batches of a
  review; nothing of another view's parameters is carried.\<close>

theorem route_roundtrip:
  assumes "params_ok p"
  shows "parseLocation (pathname_of (routeUrl v p)) (search_of (routeUrl v p)) = addressed v p"
proof -
  have no_uuid: "\<not> canonical_uuid []" by (simp add: canonical_uuid_def)
  consider "v = V_Settings" | "v = V_Create" "rp_reviewBatchIds p = []" | "v = V_Create" "rp_reviewBatchIds p \<noteq> []"
    | "v \<noteq> V_Settings" "v \<noteq> V_Create" by blast
  then show ?thesis
  proof cases
    case 1
    then have "routeUrl v p = ''/settings/'' @ tab_text (case rp_settingsTab p of None \<Rightarrow> T_Members | Some t \<Rightarrow> t)"
      by (simp add: routeUrl_def routePath_def split: option.split)
    moreover have "CHR ''?'' \<notin> set (''/settings/'' @ tab_text t)" for t using no_question(2) [of t] by simp
    ultimately show ?thesis using 1 parseLocation_settings by (simp add: url_parts addressed_def)
  next
    case 2
    then have url: "routeUrl v p = ROUTE_PATHS V_Create" by (simp add: routeUrl_def routePath_def split: option.split)
    have "CHR ''?'' \<notin> set (ROUTE_PATHS V_Create)" by simp
    note parts = url_parts(1,2) [OF this]
    show ?thesis
      unfolding url parts parseLocation_routed [OF parseRoute_path] using 2 by (simp add: addressed_def)
  next
    case 3
    then have "routeUrl v p = reviewPath (rp_reviewBatchIds p)" by (simp add: routeUrl_def Let_def)
    then show ?thesis
      using 3 assms no_question(3) parseLocation_review
      by (simp add: url_parts addressed_def params_ok_def)
  next
    case 4
    show ?thesis
      unfolding routeUrl_query(1) [OF assms 4] parseLocation_routed [OF parseRoute_routePath [OF assms]]
      using 4 routeUrl_query(2,3) [OF assms 4] no_uuid
      by (auto simp: addressed_def split: option.split)
  qed
qed

definition sample_params :: route_params where
  "sample_params = \<lparr>rp_id = Some ''a/b?'', rp_settingsTab = Some T_Roles, rp_q = ''Dangote & Sons'',
     rp_auditInvoice = None, rp_reviewBatchIds = []\<rparr>"

theorem route_roundtrip_witness:
  "parseLocation (pathname_of (routeUrl V_Detail sample_params)) (search_of (routeUrl V_Detail sample_params))
     = addressed V_Detail sample_params \<and>
   parseLocation (pathname_of (routeUrl V_Invoices sample_params)) (search_of (routeUrl V_Invoices sample_params))
     = addressed V_Invoices sample_params"
proof -
  have "params_ok sample_params" by (simp add: params_ok_def sample_params_def byte_def)
  from route_roundtrip [OF this] show ?thesis by blast
qed

text \<open>The name a page is reported under is one of a fixed list, whatever its address.\<close>

definition route_names :: "string list" where
  "route_names = map ROUTE_PATHS route_views @ [''/invoices/:id'', ''/extraction/:id'', ''/workflows/:id'',
     ''/imports/:ids/review'', ''/settings/:tab'', ''<unmatched>'']"

lemma routeName_bounded: "routeName p \<in> set route_names"
proof -
  have "ROUTE_PATHS v \<in> set route_names" for v by (cases v) (simp_all add: route_names_def route_views_def)
  moreover have "ID_PATTERN v = Some q \<Longrightarrow> q \<in> set route_names" for v q
    by (auto simp: ID_PATTERN_def route_names_def split: if_splits)
  moreover have "''/imports/:ids/review'' \<in> set route_names" "''/settings/:tab'' \<in> set route_names"
      "''<unmatched>'' \<in> set route_names"
    by (simp_all add: route_names_def)
  ultimately show ?thesis
    unfolding routeName_def Let_def by (simp split: option.split)
qed

subsection \<open>What a reading of an address gives\<close>

lemma parseLocation_search:
  "parseLocation p s = (parseLocation p [])\<lparr>
     pl_q := (if pl_view (parseLocation p []) = V_Invoices
       then clampFilterText (case search_get s ''q'' of None \<Rightarrow> [] | Some q \<Rightarrow> q) else []),
     pl_auditInvoice := (if pl_view (parseLocation p []) = V_Audit
       then (case search_get s ''invoice'' of Some a \<Rightarrow> if canonical_uuid a then Some a else None | None \<Rightarrow> None)
       else None)\<rparr>"
  unfolding parseLocation_def Let_def by (simp split: prod.split)

lemma clampFilterText_again: "valid_utf8 q \<Longrightarrow> clampFilterText (clampFilterText q) = clampFilterText q"
  using clampFilterText_whole_chars [of q] by (auto simp: clampFilterText_def [of "clampFilterText q"])

lemma valid_clamp: "valid_utf8 q \<Longrightarrow> valid_utf8 (clampFilterText q)"
  using clampFilterText_whole_chars [of q] by auto

lemma parsed_batches: "list_all canonical_uuid (pl_reviewBatchIds (parseLocation p s)) \<and>
    length (pl_reviewBatchIds (parseLocation p s)) \<le> REVIEW_PATH_MAX_IDS"
proof -
  have "pl_reviewBatchIds (parseLocation p s) = [] \<or> parseReviewPath (normalized_path p) = Some (pl_reviewBatchIds (parseLocation p s))"
    by (auto simp: parseLocation_def Let_def split: option.split)
  then show ?thesis using parseReviewPath_shape by (auto simp: REVIEW_PATH_MAX_IDS_def)
qed

end
