(* ===== verification/Workflows.thy ===== *)
theory Workflows
  imports Session "HOL-Library.Multiset"
begin

text \<open>
  Approval policies (\<open>lib/workflows.ts\<close>): the tree of steps a policy is, its lanes, the edits of the
  builder, the scenario simulator and the policy list; and the wire of \<open>lib/policies.ts\<close>. A JavaScript
  number is a rational, with \<^const>\<open>None\<close> for \<open>NaN\<close>; \<open>String(n)\<close>, \<open>Number(text)\<close> and the locale's money
  format are arguments. The type of the source forbids a condition inside a branch but its edits cast
  to that type; here the tree may nest, and that it does not is proved.
\<close>

subsection \<open>Policies\<close>

type_synonym js_number = "rat option"

datatype cond_op = Op_Greater | Op_At_Least | Op_Less | Op_At_Most

datatype wf_node =
    Approval (node_id: string) string string bool "string option"
      \<comment> \<open>role key, deadline, delegation, its delegate\<close>
  | Notify (node_id: string) string string
  | Auto_Approve (node_id: string)
  | Condition (node_id: string) cond_op js_number "wf_node list" "wf_node list"

datatype node_type = Is_Approval | Is_Notify | Is_Auto | Is_Condition

fun type_of_node :: "wf_node \<Rightarrow> node_type" where
  "type_of_node (Approval _ _ _ _ _) = Is_Approval"
| "type_of_node (Notify _ _ _) = Is_Notify"
| "type_of_node (Auto_Approve _) = Is_Auto"
| "type_of_node (Condition _ _ _ _ _) = Is_Condition"

datatype policy_status = Published | Draft_Version

record amount_band =
  ab_lower :: "string option"
  ab_upper :: "string option"
  ab_currency :: string

record policy_scopes =
  sc_document_types :: "string list"
  sc_entity_ids :: "string list"
  sc_workflow_role_keys :: "string list"
  sc_amount_band :: "amount_band option"

record policy =
  po_id :: string
  po_name :: string
  po_position :: int
  po_scopes :: policy_scopes
  po_status :: policy_status
  po_version :: int
  po_activeVersion :: "int option"
  po_activeScoped :: bool
  po_nodes :: "wf_node list"

definition CATCH_ALL_SCOPES :: policy_scopes where
  "CATCH_ALL_SCOPES = \<lparr>sc_document_types = [], sc_entity_ids = [], sc_workflow_role_keys = [], sc_amount_band = None\<rparr>"

definition isCatchAll :: "policy_scopes \<Rightarrow> bool" where
  "isCatchAll s \<longleftrightarrow> length (sc_document_types s) = 0 \<and> length (sc_entity_ids s) = 0 \<and>
     length (sc_workflow_role_keys s) = 0 \<and> sc_amount_band s = None"

definition SCOPE_DOCUMENT_TYPES :: "(string \<times> string) list" where
  "SCOPE_DOCUMENT_TYPES = [(''commercial_invoice'', ''Commercial invoices''), (''credit_note'', ''Credit notes''),
     (''debit_note'', ''Debit notes'')]"

definition setScopes :: "policy \<Rightarrow> policy_scopes \<Rightarrow> policy" where
  "setScopes p scopes = p\<lparr>po_scopes := scopes\<rparr>"

text \<open>The regular expression \<open>\B(?=(\d{3})+(?!\d))\<close>: inside a word, before a run of digits whose length
  is a multiple of three.\<close>

fun group_thousands :: "bool \<Rightarrow> string \<Rightarrow> string" where
  "group_thousands in_word [] = []"
| "group_thousands in_word (c # s) =
    (if in_word \<and> is_digit c \<and> length (takeWhile is_digit (c # s)) mod 3 = 0 then '','' else []) @
    c # group_thousands (is_alnum c \<or> c = CHR ''_'') s"

definition boundLabel :: "string \<Rightarrow> string" where
  "boundLabel t =
    (let parts = split_on CHR ''.'' t;
         whole = hd parts; decs = (case tl parts of f # _ \<Rightarrow> f | [] \<Rightarrow> []);
         grouped = group_thousands False (if whole = [] then ''0'' else whole)
     in if list_all (\<lambda>c. c = CHR ''0'') decs then grouped else grouped @ ''.'' @ decs)"

definition scopeSummary :: "policy_scopes \<Rightarrow> string" where
  "scopeSummary s =
    (if isCatchAll s then ''All invoices''
     else
       (let types = map snd (filter (\<lambda>t. fst t \<in> set (sc_document_types s)) SCOPE_DOCUMENT_TYPES);
            clients = length (sc_entity_ids s);
            roles = length (sc_workflow_role_keys s);
            range = (\<lambda>b. case (ab_lower b, ab_upper b) of
                (Some l, Some u) \<Rightarrow> boundLabel l @ en_dash @ boundLabel u
              | (Some l, None) \<Rightarrow> boundLabel l @ '' and above''
              | (None, Some u) \<Rightarrow> ''up to '' @ boundLabel u
              | (None, None) \<Rightarrow> []);
            band = (case sc_amount_band s of
                None \<Rightarrow> [] | Some b \<Rightarrow> join '' '' (filter (\<lambda>t. t \<noteq> []) [ab_currency b, range b]))
        in join ('' '' @ middle_dot @ '' '')
             ((if types \<noteq> [] then [join '', '' types] else []) @
              (if clients > 0 then [show_nat clients @ '' '' @ (if clients = 1 then ''client'' else ''clients'')] else []) @
              (if band \<noteq> [] then [band] else []) @
              (if roles > 0 then [''Created by '' @ show_nat roles @ '' '' @ (if roles = 1 then ''role'' else ''roles'')]
               else []))))"

text \<open>The inputs of the scope editor.\<close>

definition currencyText :: "string \<Rightarrow> string" where
  "currencyText raw = take 3 (map (\<lambda>c. if 97 \<le> byte c \<and> byte c \<le> 122 then char_of (byte c - 32) else c)
     (filter (\<lambda>c. 65 \<le> byte c \<and> byte c \<le> 90 \<or> 97 \<le> byte c \<and> byte c \<le> 122) raw))"

definition boundText :: "string \<Rightarrow> string \<Rightarrow> string" where
  "boundText raw prev =
    (let cleaned = filter (\<lambda>c. is_digit c \<or> c = CHR ''.'') raw;
         (whole, rest) = span is_digit cleaned
     in if length whole \<le> 12 \<and> (case rest of [] \<Rightarrow> True | d # decs \<Rightarrow> list_all is_digit decs \<and> length decs \<le> 2)
        then cleaned else prev)"

definition bandFrom :: "string \<Rightarrow> string \<Rightarrow> string \<Rightarrow> amount_band option" where
  "bandFrom currency lower upper =
    (if currency = [] \<and> lower = [] \<and> upper = [] then None
     else Some \<lparr>ab_lower = (if lower = [] then None else Some lower),
                ab_upper = (if upper = [] then None else Some upper), ab_currency = currency\<rparr>)"

subsection \<open>The policy list\<close>

fun find_at :: "('a \<Rightarrow> bool) \<Rightarrow> 'a list \<Rightarrow> nat option" where
  "find_at p [] = None"
| "find_at p (x # xs) = (if p x then Some 0 else map_option Suc (find_at p xs))"

datatype direction = Up | Down

definition swap_at :: "'a list \<Rightarrow> nat \<Rightarrow> nat \<Rightarrow> 'a list" where
  "swap_at xs i j = xs[i := xs ! j, j := xs ! i]"

definition moveOrder :: "policy list \<Rightarrow> string \<Rightarrow> direction \<Rightarrow> string list option" where
  "moveOrder ps ident dir =
    (case find_at (\<lambda>p. po_id p = ident) ps of
       None \<Rightarrow> None
     | Some i \<Rightarrow>
         (case dir of
            Up \<Rightarrow> if i = 0 then None else Some (swap_at (map po_id ps) i (i - 1))
          | Down \<Rightarrow> if i + 1 \<ge> length ps then None else Some (swap_at (map po_id ps) i (i + 1))))"

record list_lock =
  ll_anyScoped :: bool
  ll_moveUp :: "nat \<Rightarrow> bool"
  ll_moveDown :: "nat \<Rightarrow> bool"
  ll_deletable :: "nat \<Rightarrow> bool"

definition listLock :: "policy list \<Rightarrow> list_lock" where
  "listLock ps =
    (let n = length ps; anyScoped = list_ex (\<lambda>p. \<not> isCatchAll (po_scopes p) \<or> po_activeScoped p) ps
     in \<lparr>ll_anyScoped = anyScoped,
         ll_moveUp = (\<lambda>i. i > 0 \<and> \<not> (i + 1 = n \<and> anyScoped)),
         ll_moveDown = (\<lambda>i. i + 1 < n \<and> \<not> (i + 2 = n \<and> anyScoped)),
         ll_deletable = (\<lambda>i. \<not> (i + 1 = n \<and> anyScoped))\<rparr>)"

definition insertAboveLast :: "policy list \<Rightarrow> policy \<Rightarrow> policy list" where
  "insertAboveLast ps created = (if length ps = 0 then [created] else butlast ps @ [created, last ps])"

definition replacePolicy :: "policy list \<Rightarrow> policy \<Rightarrow> policy list" where
  "replacePolicy ps next_policy = map (\<lambda>p. if po_id p = po_id next_policy then next_policy else p) ps"

definition removePolicy :: "policy list \<Rightarrow> string \<Rightarrow> policy list" where
  "removePolicy ps ident = filter (\<lambda>p. po_id p \<noteq> ident) ps"

subsection \<open>Lanes\<close>

text \<open>A lane key is \<open>root\<close>, \<open><id>:then\<close> or \<open><id>:else\<close>; a drop target is \<open><lane key>#<index>\<close>, whose index
  the canvas writes in decimal (a text of anything else is read as 0 here).\<close>

definition parseLoc :: "string \<Rightarrow> string \<times> nat" where
  "parseLoc loc = (case split_on CHR ''#'' loc of
      laneKey # i # _ \<Rightarrow> (laneKey, if list_all is_digit i then digits_val i else 0)
    | laneKey # [] \<Rightarrow> (laneKey, 0) | [] \<Rightarrow> ([], 0))"

definition lane_parts :: "string \<Rightarrow> string \<times> bool" where
  "lane_parts laneKey = (case split_on CHR '':'' laneKey of
      ident # b # _ \<Rightarrow> (ident, b \<noteq> ''else'') | ident # [] \<Rightarrow> (ident, True) | [] \<Rightarrow> ([], True))"

definition getLane :: "policy \<Rightarrow> string \<Rightarrow> wf_node list" where
  "getLane policy laneKey =
    (if laneKey = ''root'' then po_nodes policy
     else
       (let (ident, is_then) = lane_parts laneKey in
        case find (\<lambda>n. node_id n = ident) (po_nodes policy) of
          Some (Condition c op v t e) \<Rightarrow> if is_then then t else e
        | _ \<Rightarrow> po_nodes policy))"

fun find_in_branches :: "string \<Rightarrow> wf_node list \<Rightarrow> (wf_node \<times> string \<times> nat) option" where
  "find_in_branches ident [] = None"
| "find_in_branches ident (Condition c op v t e # ns) =
    (case find_at (\<lambda>n. node_id n = ident) t of
       Some j \<Rightarrow> Some (t ! j, c @ '':then'', j)
     | None \<Rightarrow>
         (case find_at (\<lambda>n. node_id n = ident) e of
            Some j \<Rightarrow> Some (e ! j, c @ '':else'', j)
          | None \<Rightarrow> find_in_branches ident ns))"
| "find_in_branches ident (n # ns) = find_in_branches ident ns"

definition findNode :: "policy \<Rightarrow> string \<Rightarrow> (wf_node \<times> string \<times> nat) option" where
  "findNode policy ident =
    (case find_at (\<lambda>n. node_id n = ident) (po_nodes policy) of
       Some i \<Rightarrow> Some (po_nodes policy ! i, ''root'', i)
     | None \<Rightarrow> find_in_branches ident (po_nodes policy))"

definition canDrop :: "node_type \<Rightarrow> string \<Rightarrow> bool" where
  "canDrop ty laneKey \<longleftrightarrow> \<not> (ty = Is_Condition \<and> laneKey \<noteq> ''root'')"

definition set_branch :: "bool \<Rightarrow> wf_node list \<Rightarrow> wf_node \<Rightarrow> wf_node" where
  "set_branch is_then lane n = (case n of
      Condition c op v t e \<Rightarrow> if is_then then Condition c op v lane e else Condition c op v t lane
    | _ \<Rightarrow> n)"

definition withLane :: "policy \<Rightarrow> string \<Rightarrow> wf_node list \<Rightarrow> policy" where
  "withLane policy laneKey lane =
    (if laneKey = ''root'' then policy\<lparr>po_nodes := lane\<rparr>
     else
       (let (ident, is_then) = lane_parts laneKey in
        policy\<lparr>po_nodes := map (\<lambda>n. if node_id n \<noteq> ident then n else set_branch is_then lane n) (po_nodes policy)\<rparr>))"

text \<open>\<open>Array.splice\<close> from a non-negative index.\<close>

definition spliced :: "'a list \<Rightarrow> nat \<Rightarrow> nat \<Rightarrow> 'a option \<Rightarrow> 'a list" where
  "spliced xs i removed ins = take i xs @ (case ins of None \<Rightarrow> [] | Some x \<Rightarrow> [x]) @ drop (i + removed) xs"

subsection \<open>Edits\<close>

definition newNodeId :: "nat \<Rightarrow> string \<times> nat" where
  "newNodeId nodeSeq = (''wn'' @ show_nat nodeSeq, nodeSeq + 1)"

definition newNode :: "node_type \<Rightarrow> nat \<Rightarrow> wf_node \<times> nat" where
  "newNode ty nodeSeq =
    (let (ident, nodeSeq) = newNodeId nodeSeq in
     (case ty of
        Is_Condition \<Rightarrow> Condition ident Op_Greater (Some 100000000) [] []
      | Is_Notify \<Rightarrow> Notify ident ''Tax Team'' ''Email''
      | Is_Auto \<Rightarrow> Auto_Approve ident
      | Is_Approval \<Rightarrow> Approval ident ''fin_mgr'' ''48'' False None, nodeSeq))"

definition newPolicyId :: "nat \<Rightarrow> string \<times> nat" where
  "newPolicyId policySeq = (''poln'' @ show_nat policySeq, policySeq + 1)"

definition newPolicy :: "nat \<Rightarrow> policy \<times> nat" where
  "newPolicy policySeq =
    (let (ident, policySeq) = newPolicyId policySeq in
     (\<lparr>po_id = ident, po_name = ''Untitled policy'', po_position = 0, po_scopes = CATCH_ALL_SCOPES,
       po_status = Draft_Version, po_version = 1, po_activeVersion = None, po_activeScoped = False, po_nodes = []\<rparr>,
      policySeq))"

definition insertNode :: "policy \<Rightarrow> string \<Rightarrow> nat \<Rightarrow> wf_node \<Rightarrow> policy" where
  "insertNode policy laneKey i node =
    (if \<not> canDrop (type_of_node node) laneKey then policy
     else withLane policy laneKey (spliced (getLane policy laneKey) i 0 (Some node)))"

definition deleteNode :: "policy \<Rightarrow> string \<Rightarrow> policy" where
  "deleteNode policy ident =
    (case findNode policy ident of
       None \<Rightarrow> policy
     | Some (node, laneKey, i) \<Rightarrow> withLane policy laneKey (spliced (getLane policy laneKey) i 1 None))"

definition moveNode :: "policy \<Rightarrow> string \<Rightarrow> string \<Rightarrow> nat \<Rightarrow> policy" where
  "moveNode policy ident laneKey i =
    (case findNode policy ident of
       None \<Rightarrow> policy
     | Some (node, source, pos) \<Rightarrow>
         if \<not> canDrop (type_of_node node) laneKey then policy
         else
           (let removed = withLane policy source (spliced (getLane policy source) pos 1 None);
                t = (if laneKey = source \<and> pos < i then i - 1 else i)
            in withLane removed laneKey (spliced (getLane removed laneKey) t 0 (Some node))))"

definition appendNode :: "policy \<Rightarrow> node_type \<Rightarrow> nat \<Rightarrow> (policy \<times> string) \<times> nat" where
  "appendNode policy ty nodeSeq =
    (let (node, nodeSeq) = newNode ty nodeSeq
     in ((insertNode policy ''root'' (length (po_nodes policy)) node, node_id node), nodeSeq))"

text \<open>A patch of the inspector: the fields it sets. A field the node's kind does not have changes nothing
  the program reads.\<close>

record node_patch =
  np_role :: "string option"
  np_sla :: "string option"
  np_delegate :: "bool option"
  np_delegateTo :: "string option"
  np_op :: "cond_op option"
  np_value :: "js_number option"
  np_target :: "string option"
  np_channel :: "string option"

definition patched :: "'a option \<Rightarrow> 'a \<Rightarrow> 'a" where
  "patched p old = (case p of None \<Rightarrow> old | Some x \<Rightarrow> x)"

definition merge_patch :: "wf_node \<Rightarrow> node_patch \<Rightarrow> wf_node" where
  "merge_patch n p = (case n of
      Approval i role sla delegate to \<Rightarrow>
        Approval i (patched (np_role p) role) (patched (np_sla p) sla) (patched (np_delegate p) delegate)
          (case np_delegateTo p of None \<Rightarrow> to | Some x \<Rightarrow> Some x)
    | Notify i target channel \<Rightarrow> Notify i (patched (np_target p) target) (patched (np_channel p) channel)
    | Auto_Approve i \<Rightarrow> Auto_Approve i
    | Condition i op v t e \<Rightarrow> Condition i (patched (np_op p) op) (patched (np_value p) v) t e)"

definition updateNode :: "policy \<Rightarrow> string \<Rightarrow> node_patch \<Rightarrow> policy" where
  "updateNode policy ident patch =
    (case findNode policy ident of
       None \<Rightarrow> policy
     | Some (node, laneKey, i) \<Rightarrow>
         (let lane = getLane policy laneKey
          in withLane policy laneKey (spliced lane i 1 (Some (merge_patch (lane ! i) patch)))))"

definition clearSteps :: "policy \<Rightarrow> policy" where
  "clearSteps policy = policy\<lparr>po_nodes := []\<rparr>"

definition renamePolicy :: "policy \<Rightarrow> string \<Rightarrow> policy" where
  "renamePolicy policy name = policy\<lparr>po_name := name\<rparr>"

subsection \<open>Labels\<close>

fun countApprovals :: "wf_node list \<Rightarrow> nat" where
  "countApprovals [] = 0"
| "countApprovals (Approval _ _ _ _ _ # ns) = countApprovals ns + 1"
| "countApprovals (Condition _ _ _ t e # ns) = countApprovals t + countApprovals e + countApprovals ns"
| "countApprovals (_ # ns) = countApprovals ns"

definition is_condition :: "wf_node \<Rightarrow> bool" where
  "is_condition n \<longleftrightarrow> type_of_node n = Is_Condition"

definition countConditions :: "wf_node list \<Rightarrow> nat" where
  "countConditions ns = length (filter is_condition ns)"

definition policySummary :: "policy \<Rightarrow> string" where
  "policySummary policy =
    (let a = countApprovals (po_nodes policy); c = countConditions (po_nodes policy)
     in join ('' '' @ middle_dot @ '' '')
          ([show_nat a @ '' '' @ (if a = 1 then ''approval'' else ''approvals'')] @
           (if c > 0 then [show_nat c @ '' '' @ (if c = 1 then ''condition'' else ''conditions'')] else [])))"

fun opLabel :: "cond_op \<Rightarrow> string" where
  "opLabel Op_Greater = ''greater than''"
| "opLabel Op_At_Least = ''at least''"
| "opLabel Op_Less = ''less than''"
| "opLabel Op_At_Most = ''at most''"

definition ruleText :: "(js_number \<Rightarrow> string) \<Rightarrow> cond_op \<Rightarrow> js_number \<Rightarrow> string" where
  "ruleText fmt op v = ''Amount '' @ opLabel op @ '' '' @ fmt v"

definition slaText :: "string \<Rightarrow> string" where
  "slaText sla = (if sla = ''0'' then ''no deadline'' else ''within '' @ sla @ ''h'')"

subsection \<open>The scenario simulator\<close>

text \<open>\<open>Number(x) || 0\<close>: a number that is none counts as 0.\<close>

definition or_zero :: "js_number \<Rightarrow> rat" where
  "or_zero v = (case v of None \<Rightarrow> 0 | Some x \<Rightarrow> x)"

definition evalCondition :: "cond_op \<Rightarrow> js_number \<Rightarrow> js_number \<Rightarrow> bool" where
  "evalCondition op v amount =
    (let a = or_zero amount; v = or_zero v in
     case op of Op_Greater \<Rightarrow> a > v | Op_At_Least \<Rightarrow> a \<ge> v | Op_Less \<Rightarrow> a < v | Op_At_Most \<Rightarrow> a \<le> v)"

record sim_result =
  sr_steps :: "(wf_node \<times> bool) list"  \<comment> \<open>the node, and whether it came through a condition\<close>
  sr_auto :: bool

definition take_nodes :: "wf_node list \<Rightarrow> bool \<Rightarrow> sim_result \<Rightarrow> sim_result" where
  "take_nodes ns viaCondition r = foldl (\<lambda>r n.
      \<lparr>sr_steps = sr_steps r @ [(n, viaCondition)],
       sr_auto = (if type_of_node n = Is_Auto then True else sr_auto r)\<rparr>) r ns"

definition simulate :: "policy \<Rightarrow> js_number \<Rightarrow> sim_result" where
  "simulate policy amount = foldl (\<lambda>r n.
      (case n of
         Condition _ op v t e \<Rightarrow> take_nodes (if evalCondition op v amount then t else e) True r
       | _ \<Rightarrow> take_nodes [n] False r)) \<lparr>sr_steps = [], sr_auto = False\<rparr> (po_nodes policy)"

subsection \<open>The wire\<close>

datatype policy_step_wire = Policy_Step
  (pw_id: string) (pw_kind: string) (pw_workflow_role_key: "string option") (pw_sla_hours: js_number)
  (pw_allow_delegation: bool) (pw_delegate_user_id: "string option") (pw_cond_op: "string option")
  (pw_cond_amount: "string option") (pw_notify_target: "string option") (pw_notify_channel: "string option")
  (pw_then: "policy_step_wire list") (pw_else: "policy_step_wire list")

record policy_version_wire =
  pv_version :: int
  pv_is_active :: bool
  pv_scoped :: bool

record policy_wire =
  pq_id :: string
  pq_name :: string
  pq_position :: int
  pq_scopes :: policy_scopes
  pq_status :: policy_status
  pq_version :: int
  pq_steps :: "policy_step_wire list"
  pq_versions :: "policy_version_wire list"

text \<open>A step of the request body, one constructor per shape \<open>stepInput\<close> builds; a deadline that is \<open>NaN\<close>
  is written as \<open>null\<close>.\<close>

datatype step_input =
    Approval_Input string js_number bool "string option"
  | Notify_Input string string
  | Auto_Input
  | Condition_Input cond_op string "step_input list" "step_input list"

definition slaFromHours :: "(rat \<Rightarrow> string) \<Rightarrow> js_number \<Rightarrow> string" where
  "slaFromHours str hours = (case hours of None \<Rightarrow> ''0'' | Some h \<Rightarrow> str h)"

definition hoursFromSla :: "(string \<Rightarrow> js_number) \<Rightarrow> string \<Rightarrow> js_number" where
  "hoursFromSla num sla = (if sla = ''0'' then None else num sla)"

definition or_empty :: "string option \<Rightarrow> string" where
  "or_empty t = (case t of None \<Rightarrow> '''' | Some s \<Rightarrow> s)"

definition branchNode :: "(rat \<Rightarrow> string) \<Rightarrow> policy_step_wire \<Rightarrow> wf_node option" where
  "branchNode str s =
    (if pw_kind s = ''approval'' then
       Some (if pw_allow_delegation s
         then Approval (pw_id s) (or_empty (pw_workflow_role_key s)) (slaFromHours str (pw_sla_hours s)) True
                (Some (or_empty (pw_delegate_user_id s)))
         else Approval (pw_id s) (or_empty (pw_workflow_role_key s)) (slaFromHours str (pw_sla_hours s)) False None)
     else if pw_kind s = ''notify'' then
       Some (Notify (pw_id s) (or_empty (pw_notify_target s)) (or_empty (pw_notify_channel s)))
     else if pw_kind s = ''autoapprove'' then Some (Auto_Approve (pw_id s))
     else None)"

definition branchNodes :: "(rat \<Rightarrow> string) \<Rightarrow> policy_step_wire list \<Rightarrow> wf_node list" where
  "branchNodes str steps = List.map_filter (branchNode str) steps"

text \<open>\<open>s.cond_op as CondOp\<close> of the four texts the server states (any other is read as the last), and
  \<open>Number(s.cond_amount)\<close>, 0 of \<open>null\<close>.\<close>

definition cond_op_of :: "string option \<Rightarrow> cond_op" where
  "cond_op_of t = (if t = Some ''>'' then Op_Greater else if t = Some ''>='' then Op_At_Least
     else if t = Some ''<'' then Op_Less else Op_At_Most)"

definition cond_op_text :: "cond_op \<Rightarrow> string" where
  "cond_op_text op = (case op of Op_Greater \<Rightarrow> ''>'' | Op_At_Least \<Rightarrow> ''>='' | Op_Less \<Rightarrow> ''<'' | Op_At_Most \<Rightarrow> ''<='')"

definition nodesFromSteps :: "(string \<Rightarrow> js_number) \<Rightarrow> (rat \<Rightarrow> string) \<Rightarrow> policy_step_wire list \<Rightarrow> wf_node list" where
  "nodesFromSteps num str steps = List.map_filter (\<lambda>s.
      if pw_kind s = ''condition''
      then Some (Condition (pw_id s) (cond_op_of (pw_cond_op s))
             (case pw_cond_amount s of None \<Rightarrow> Some 0 | Some t \<Rightarrow> num t)
             (branchNodes str (pw_then s)) (branchNodes str (pw_else s)))
      else branchNode str s) steps"

text \<open>\<open>String(n)\<close> of \<open>NaN\<close> is \<open>NaN\<close>.\<close>

definition number_text :: "(rat \<Rightarrow> string) \<Rightarrow> js_number \<Rightarrow> string" where
  "number_text str v = (case v of None \<Rightarrow> ''NaN'' | Some x \<Rightarrow> str x)"

fun stepInput :: "(string \<Rightarrow> js_number) \<Rightarrow> (rat \<Rightarrow> string) \<Rightarrow> wf_node \<Rightarrow> step_input" where
  "stepInput num str (Approval i role sla delegate to) =
     Approval_Input role (hoursFromSla num sla) delegate
       (if delegate \<and> or_empty to \<noteq> '''' then to else None)"
| "stepInput num str (Notify i target channel) = Notify_Input target channel"
| "stepInput num str (Auto_Approve i) = Auto_Input"
| "stepInput num str (Condition i op v t e) =
     Condition_Input op (number_text str v) (map (stepInput num str) t) (map (stepInput num str) e)"

definition stepInputsFromNodes :: "(string \<Rightarrow> js_number) \<Rightarrow> (rat \<Rightarrow> string) \<Rightarrow> wf_node list \<Rightarrow> step_input list" where
  "stepInputsFromNodes num str ns = map (stepInput num str) ns"

definition toPolicy :: "(string \<Rightarrow> js_number) \<Rightarrow> (rat \<Rightarrow> string) \<Rightarrow> policy_wire \<Rightarrow> policy" where
  "toPolicy num str w = \<lparr>po_id = pq_id w, po_name = pq_name w, po_position = pq_position w,
     po_scopes = pq_scopes w, po_status = pq_status w, po_version = pq_version w,
     po_activeVersion = map_option pv_version (find pv_is_active (pq_versions w)),
     po_activeScoped = list_ex (\<lambda>v. pv_is_active v \<and> pv_scoped v) (pq_versions w),
     po_nodes = nodesFromSteps num str (pq_steps w)\<rparr>"

definition policyStanding :: "policy \<Rightarrow> string" where
  "policyStanding p = (case po_activeVersion p of
      None \<Rightarrow> if po_version p = 1 \<and> po_status p = Draft_Version then ''Never published'' else ''Not in force''
    | Some a \<Rightarrow>
        if po_version p = a then ''v'' @ show_int a @ '' in force''
        else ''v'' @ show_int a @ '' in force '' @ middle_dot @ '' v'' @ show_int (po_version p) @ '' draft'')"

definition policyInForce :: "policy list \<Rightarrow> string \<Rightarrow> policy option" where
  "policyInForce ps selfId = find (\<lambda>p. po_id p \<noteq> selfId \<and> po_activeVersion p \<noteq> None) ps"

text \<open>A bound of only a dot is sent as none; the whole tree is always sent, the scopes only when edited.\<close>

definition wireScopes :: "policy_scopes \<Rightarrow> policy_scopes" where
  "wireScopes s = (case sc_amount_band s of
      None \<Rightarrow> s
    | Some b \<Rightarrow>
        (let bound = (\<lambda>v. if v = Some ''.'' then None else v)
         in s\<lparr>sc_amount_band := Some (b\<lparr>ab_lower := bound (ab_lower b), ab_upper := bound (ab_upper b)\<rparr>)\<rparr>))"

record policy_body =
  pb_name :: string
  pb_scopes :: "policy_scopes option"
  pb_steps :: "step_input list"

definition putApprovalPolicyDraft ::
  "(string \<Rightarrow> js_number) \<Rightarrow> (rat \<Rightarrow> string) \<Rightarrow> string \<Rightarrow> string \<Rightarrow> policy \<Rightarrow> bool \<Rightarrow> policy_body request"
where
  "putApprovalPolicyDraft num str base ident p sendScopes =
     request PUT (base @ ''/api/invoice/v1/approval-policies/'' @ ident @ ''/draft'')
       (Some \<lparr>pb_name = po_name p, pb_scopes = (if sendScopes then Some (wireScopes (po_scopes p)) else None),
              pb_steps = stepInputsFromNodes num str (po_nodes p)\<rparr>)"

subsection \<open>The catch-all stays last\<close>

lemma find_at_Some: "find_at p xs = Some i \<Longrightarrow> i < length xs \<and> p (xs ! i)"
  by (induction xs arbitrary: i) (auto split: if_splits)

lemma find_at_None: "find_at p xs = None \<longleftrightarrow> (\<forall>x \<in> set xs. \<not> p x)"
  by (induction xs) auto

lemma find_at_distinct:
  assumes "distinct (map f xs)" "i < length xs"
  shows "find_at (\<lambda>x. f x = f (xs ! i)) xs = Some i"
  using assms
proof (induction xs arbitrary: i)
  case (Cons x xs)
  then show ?case by (cases i) auto
qed simp

lemma last_swap:
  assumes "distinct xs" "i < length xs" "j < length xs" "i \<noteq> j"
  shows "last (swap_at xs i j) = last xs \<longleftrightarrow> i + 1 \<noteq> length xs \<and> j + 1 \<noteq> length xs"
proof -
  have ne: "xs \<noteq> []" "swap_at xs i j \<noteq> []" using assms by (auto simp: swap_at_def)
  define m where "m = length xs - 1"
  have m: "m < length xs" "last xs = xs ! m" "last (swap_at xs i j) = swap_at xs i j ! m"
    using ne by (simp_all add: m_def last_conv_nth swap_at_def)
  have "swap_at xs i j ! m = (if m = j then xs ! i else if m = i then xs ! j else xs ! m)"
    using m(1) by (simp add: swap_at_def nth_list_update)
  moreover have "i + 1 \<noteq> length xs \<and> j + 1 \<noteq> length xs \<longleftrightarrow> m \<noteq> i \<and> m \<noteq> j"
    using assms(2,3) by (auto simp: m_def)
  ultimately show ?thesis
    unfolding m(2,3) using assms m(1) by (auto simp: nth_eq_iff_index_eq)
qed

lemma mset_swap_at: "i < length xs \<Longrightarrow> j < length xs \<Longrightarrow> mset (swap_at xs i j) = mset xs"
  unfolding swap_at_def by (rule mset_swap)

text \<open>An order that only reorders the rows and, while any policy is scoped, leaves the last one last.\<close>

definition order_allowed :: "policy list \<Rightarrow> string list \<Rightarrow> bool" where
  "order_allowed ps ids \<longleftrightarrow> mset ids = mset (map po_id ps) \<and>
     (if list_ex (\<lambda>p. \<not> isCatchAll (po_scopes p) \<or> po_activeScoped p) ps then last ids = po_id (last ps) else True)"

lemma swap_allowed:
  assumes "distinct (map po_id ps)" "i < length ps" "j < length ps" "i \<noteq> j"
  shows "order_allowed ps (swap_at (map po_id ps) i j) \<longleftrightarrow>
    \<not> ((i + 1 = length ps \<or> j + 1 = length ps) \<and> ll_anyScoped (listLock ps))"
proof -
  have "ps \<noteq> []" using assms(2) by auto
  then show ?thesis
    using last_swap [of "map po_id ps" i j] mset_swap_at [of i "map po_id ps" j] assms
    by (auto simp: order_allowed_def listLock_def Let_def last_map)
qed

lemma moveOrder_at:
  assumes "distinct (map po_id ps)" "i < length ps"
  shows "moveOrder ps (po_id (ps ! i)) Up = (if i = 0 then None else Some (swap_at (map po_id ps) i (i - 1)))"
    and "moveOrder ps (po_id (ps ! i)) Down =
      (if i + 1 \<ge> length ps then None else Some (swap_at (map po_id ps) i (i + 1)))"
  by (simp_all add: moveOrder_def find_at_distinct [OF assms])

text \<open>The lock of the policy list. An arrow is enabled exactly when its move is possible, only
  reorders the list and, while any policy is scoped, leaves the catch-all last; deleting is enabled
  exactly when it would not remove that catch-all; and a created policy lands before it.\<close>

theorem listLock_exact:
  assumes "distinct (map po_id ps)" and "i < length ps"
  shows "ll_moveUp (listLock ps) i = (case moveOrder ps (po_id (ps ! i)) Up of
      None \<Rightarrow> False | Some ids \<Rightarrow> order_allowed ps ids) \<and>
    ll_moveDown (listLock ps) i = (case moveOrder ps (po_id (ps ! i)) Down of
      None \<Rightarrow> False | Some ids \<Rightarrow> order_allowed ps ids) \<and>
    ll_deletable (listLock ps) i =
      (if ll_anyScoped (listLock ps) then last ps \<in> set (removePolicy ps (po_id (ps ! i))) else True) \<and>
    last (insertAboveLast ps created) = last ps"
proof (intro conjI)
  have ne: "ps \<noteq> []" using assms(2) by auto
  show "ll_moveUp (listLock ps) i = (case moveOrder ps (po_id (ps ! i)) Up of
      None \<Rightarrow> False | Some ids \<Rightarrow> order_allowed ps ids)"
    using assms swap_allowed [OF assms, of "i - 1"]
    by (cases "i = 0") (auto simp: moveOrder_at listLock_def Let_def)
  show "ll_moveDown (listLock ps) i = (case moveOrder ps (po_id (ps ! i)) Down of
      None \<Rightarrow> False | Some ids \<Rightarrow> order_allowed ps ids)"
    using assms swap_allowed [OF assms, of "i + 1"]
    by (cases "i + 1 < length ps") (auto simp: moveOrder_at listLock_def Let_def)
  have "last ps \<in> set (removePolicy ps (po_id (ps ! i))) \<longleftrightarrow> i + 1 \<noteq> length ps"
    using assms ne nth_eq_iff_index_eq [OF assms(1), of "length ps - 1" i]
    by (auto simp: removePolicy_def last_conv_nth)
  then show "ll_deletable (listLock ps) i =
      (if ll_anyScoped (listLock ps) then last ps \<in> set (removePolicy ps (po_id (ps ! i))) else True)"
    by (auto simp: listLock_def Let_def)
  show "last (insertAboveLast ps created) = last ps" using ne by (simp add: insertAboveLast_def)
qed

definition sample_policy :: "string \<Rightarrow> policy_scopes \<Rightarrow> policy" where
  "sample_policy ident scopes = \<lparr>po_id = ident, po_name = ident, po_position = 0, po_scopes = scopes,
     po_status = Published, po_version = 1, po_activeVersion = Some 1, po_activeScoped = False, po_nodes = []\<rparr>"

definition sample_policies :: "policy list" where
  "sample_policies = [sample_policy ''p1'' (CATCH_ALL_SCOPES\<lparr>sc_document_types := [''credit_note'']\<rparr>),
     sample_policy ''p2'' CATCH_ALL_SCOPES]"

theorem listLock_witness:
  "\<not> ll_moveDown (listLock sample_policies) 0 \<and>
   (case moveOrder sample_policies ''p1'' Down of None \<Rightarrow> False | Some ids \<Rightarrow> \<not> order_allowed sample_policies ids)"
proof -
  have ok: "distinct (map po_id sample_policies)" "0 < length sample_policies"
    by (simp_all add: sample_policies_def sample_policy_def)
  have "po_id (sample_policies ! 0) = ''p1''" by (simp add: sample_policies_def sample_policy_def)
  moreover have "\<not> ll_moveDown (listLock sample_policies) 0"
    by (simp add: listLock_def sample_policies_def sample_policy_def Let_def isCatchAll_def CATCH_ALL_SCOPES_def)
  moreover have "moveOrder sample_policies ''p1'' Down \<noteq> None"
    by (simp add: moveOrder_def sample_policies_def sample_policy_def)
  ultimately show ?thesis using listLock_exact [OF ok] by (auto split: option.splits)
qed

end
