(* ===== verification/Workflow_Edits.thy ===== *)
theory Workflow_Edits
  imports Workflows
begin

text \<open>
  What the edits of an approval policy do to its tree (\<open>lib/workflows.ts\<close>): every edit changes one lane,
  a drag puts a step where it was dropped, no sequence of edits nests conditions or duplicates a step,
  and a saved tree reads back (\<open>lib/policies.ts\<close>).
\<close>

subsection \<open>Trees\<close>

fun kids :: "wf_node \<Rightarrow> wf_node list" where
  "kids (Condition i op v t e) = t @ e"
| "kids _ = []"

definition ids_of :: "wf_node \<Rightarrow> string list" where
  "ids_of n = node_id n # map node_id (kids n)"

definition all_ids :: "wf_node list \<Rightarrow> string list" where
  "all_ids ns = concat (map ids_of ns)"

text \<open>Two levels deep, every step once, and no id that a lane key could not carry.\<close>

definition two_deep :: "wf_node list \<Rightarrow> bool" where
  "two_deep ns \<longleftrightarrow> list_all (\<lambda>n. list_all (\<lambda>k. \<not> is_condition k) (kids n)) ns"

definition plain_id :: "string \<Rightarrow> bool" where
  "plain_id i \<longleftrightarrow> CHR '':'' \<notin> set i"

definition tree_ok :: "wf_node list \<Rightarrow> bool" where
  "tree_ok ns \<longleftrightarrow> two_deep ns \<and> distinct (all_ids ns) \<and> list_all plain_id (all_ids ns)"

lemma all_ids_simps [simp]:
  "all_ids [] = []" "all_ids (n # ns) = ids_of n @ all_ids ns" "all_ids (ms @ ns) = all_ids ms @ all_ids ns"
  by (simp_all add: all_ids_def)

lemma two_deep_simps [simp]:
  "two_deep []" "two_deep (n # ns) \<longleftrightarrow> list_all (\<lambda>k. \<not> is_condition k) (kids n) \<and> two_deep ns"
  "two_deep (ms @ ns) \<longleftrightarrow> two_deep ms \<and> two_deep ns"
  by (simp_all add: two_deep_def)

lemma is_condition_simps [simp]:
  "is_condition (Condition i op v t e)" "\<not> is_condition (Approval i r s d to)" "\<not> is_condition (Notify i a b)"
  "\<not> is_condition (Auto_Approve i)"
  by (simp_all add: is_condition_def)

lemma conditionE: "is_condition n \<Longrightarrow> \<exists>op v t e. n = Condition (node_id n) op v t e"
  by (cases n) simp_all

lemma kids_not_condition: "\<not> is_condition n \<Longrightarrow> kids n = []"
  by (cases n) simp_all

lemma ids_of_in: "n \<in> set ns \<Longrightarrow> i \<in> set (ids_of n) \<Longrightarrow> i \<in> set (all_ids ns)"
  by (auto simp: all_ids_def)

lemma node_id_in_ids [simp]: "node_id n \<in> set (ids_of n)"
  by (simp add: ids_of_def)

lemma distinct_tops: "distinct (all_ids ns) \<Longrightarrow> distinct (map node_id ns)"
proof (induction ns)
  case (Cons n ns)
  have "node_id n \<notin> node_id ` set ns"
  proof
    assume "node_id n \<in> node_id ` set ns"
    then obtain m where "m \<in> set ns" "node_id m = node_id n" by auto
    then have "node_id n \<in> set (all_ids ns)" using ids_of_in [of m ns] node_id_in_ids [of m] by simp
    with Cons.prems show False using node_id_in_ids [of n] by (auto simp del: node_id_in_ids)
  qed
  with Cons show ?case by simp
qed simp

subsection \<open>One lane at a time\<close>

datatype lane = Root | Branch string bool

definition lane_of :: "string \<Rightarrow> lane" where
  "lane_of laneKey = (if laneKey = ''root'' then Root else (case lane_parts laneKey of (c, b) \<Rightarrow> Branch c b))"

definition lane_key :: "lane \<Rightarrow> string" where
  "lane_key l = (case l of Root \<Rightarrow> ''root'' | Branch c b \<Rightarrow> c @ (if b then '':then'' else '':else''))"

definition on_branch :: "bool \<Rightarrow> (wf_node list \<Rightarrow> wf_node list) \<Rightarrow> wf_node \<Rightarrow> wf_node" where
  "on_branch b f n = (case n of
      Condition c op v t e \<Rightarrow> if b then Condition c op v (f t) e else Condition c op v t (f e) | _ \<Rightarrow> n)"

definition on_lane :: "lane \<Rightarrow> (wf_node list \<Rightarrow> wf_node list) \<Rightarrow> wf_node list \<Rightarrow> wf_node list" where
  "on_lane l f ns = (case l of
      Root \<Rightarrow> f ns | Branch c b \<Rightarrow> map (\<lambda>n. if node_id n = c then on_branch b f n else n) ns)"

definition branch_of :: "bool \<Rightarrow> wf_node \<Rightarrow> wf_node list" where
  "branch_of b n = (case n of Condition c op v t e \<Rightarrow> if b then t else e | _ \<Rightarrow> [])"

text \<open>A lane of the tree: the root, or a branch of one of its conditions.\<close>

definition lane_exists :: "lane \<Rightarrow> wf_node list \<Rightarrow> bool" where
  "lane_exists l ns \<longleftrightarrow> (case l of Root \<Rightarrow> True | Branch c b \<Rightarrow> list_ex (\<lambda>n. node_id n = c \<and> is_condition n) ns)"

definition lane_at :: "lane \<Rightarrow> wf_node list \<Rightarrow> wf_node list" where
  "lane_at l ns = (case l of Root \<Rightarrow> ns | Branch c b \<Rightarrow> concat (map (\<lambda>n. if node_id n = c then branch_of b n else []) ns))"

lemma lane_of_key:
  assumes "case l of Root \<Rightarrow> True | Branch c b \<Rightarrow> plain_id c"
  shows "lane_of (lane_key l) = l"
proof (cases l)
  case (Branch c b)
  then have c: "CHR '':'' \<notin> set c" using assms by (simp add: plain_id_def)
  have "c @ CHR '':'' # w \<noteq> ''root''" for w
  proof
    assume "c @ CHR '':'' # w = ''root''"
    then have "CHR '':'' \<in> set ''root''" by (metis in_set_conv_decomp)
    then show False by simp
  qed
  then show ?thesis
    using Branch split_on_append [OF c] by (cases b) (auto simp: lane_of_def lane_key_def lane_parts_def split_on_none)
qed (simp add: lane_of_def lane_key_def)

lemma concat_only:
  assumes "distinct (map f xs)" "x \<in> set xs"
  shows "concat (map (\<lambda>y. if f y = f x then g y else []) xs) = g x"
  using assms
proof (induction xs)
  case (Cons y ys)
  show ?case
  proof (cases "x = y")
    case True
    have "f z \<noteq> f x" if "z \<in> set ys" for z using Cons.prems(1) True that by (metis distinct.simps(2) image_eqI list.set_map list.simps(9))
    then have "concat (map (\<lambda>y. if f y = f x then g y else []) ys) = []" by auto
    then show ?thesis using True by simp
  next
    case False
    then have "x \<in> set ys" "f y \<noteq> f x" using Cons.prems by auto
    then show ?thesis using Cons by simp
  qed
qed simp

lemma getLane_at:
  assumes "distinct (map node_id (po_nodes p))" "lane_exists (lane_of k) (po_nodes p)"
  shows "getLane p k = lane_at (lane_of k) (po_nodes p)"
proof (cases "k = ''root''")
  case False
  obtain c b where k: "lane_parts k = (c, b)" by (cases "lane_parts k")
  with assms(2) False obtain n where n: "n \<in> set (po_nodes p)" "node_id n = c" "is_condition n"
    by (auto simp: lane_exists_def lane_of_def list_ex_iff)
  have "find (\<lambda>m. node_id m = c) (po_nodes p) = Some n"
    using find_distinct [OF assms(1) n(1)] n(2) by simp
  moreover have "concat (map (\<lambda>m. if node_id m = c then branch_of b m else []) (po_nodes p)) = branch_of b n"
    using concat_only [OF assms(1) n(1)] n(2) by simp
  ultimately show ?thesis using k False n(3)
    by (cases n) (simp_all add: getLane_def lane_of_def lane_at_def branch_of_def)
qed (simp add: getLane_def lane_of_def lane_at_def)

lemma set_branch_on_branch:
  "set_branch b (f (branch_of b n)) n = on_branch b f n"
  by (cases n) (simp_all add: set_branch_def on_branch_def branch_of_def)

text \<open>Reading a lane, changing it and writing it back changes that lane and no other.\<close>

lemma edit_lane:
  assumes "distinct (map node_id (po_nodes p))" "lane_exists (lane_of k) (po_nodes p)"
  shows "withLane p k (f (getLane p k)) = p\<lparr>po_nodes := on_lane (lane_of k) f (po_nodes p)\<rparr>"
proof (cases "k = ''root''")
  case True
  then show ?thesis by (simp add: withLane_def getLane_def on_lane_def lane_of_def)
next
  case False
  obtain c b where k: "lane_parts k = (c, b)" by (cases "lane_parts k")
  have lane: "getLane p k = lane_at (Branch c b) (po_nodes p)"
    using getLane_at [OF assms] False k by (simp add: lane_of_def)
  have same: "set_branch b (f (getLane p k)) n = on_branch b f n" if "n \<in> set (po_nodes p)" "node_id n = c" for n
    using concat_only [OF assms(1) that(1), of "branch_of b"] that(2) set_branch_on_branch [of b f n]
    by (simp add: lane lane_at_def)
  have "map (\<lambda>n. if node_id n \<noteq> c then n else set_branch b (f (getLane p k)) n) (po_nodes p) =
    map (\<lambda>n. if node_id n = c then on_branch b f n else n) (po_nodes p)"
    using same by (intro map_cong) auto
  then show ?thesis using False k by (simp add: withLane_def on_lane_def lane_of_def)
qed

text \<open>A key of no lane changes nothing.\<close>

lemma edit_no_lane:
  assumes "\<not> lane_exists (lane_of k) (po_nodes p)"
  shows "withLane p k lane = p"
proof -
  obtain c b where k: "lane_parts k = (c, b)" by (cases "lane_parts k")
  have root: "k \<noteq> ''root''" using assms by (auto simp: lane_exists_def lane_of_def)
  have "set_branch b lane n = n" if "n \<in> set (po_nodes p)" "node_id n = c" for n
    using assms that root k by (cases n) (auto simp: lane_exists_def lane_of_def list_ex_iff set_branch_def)
  then have "map (\<lambda>n. if node_id n \<noteq> c then n else set_branch b lane n) (po_nodes p) = po_nodes p"
    by (intro map_idI) auto
  then show ?thesis using root k by (simp add: withLane_def)
qed

subsection \<open>Finding a step\<close>

lemma ids_unique:
  "distinct (all_ids ns) \<Longrightarrow> m \<in> set ns \<Longrightarrow> n \<in> set ns \<Longrightarrow> x \<in> set (ids_of m) \<Longrightarrow> x \<in> set (ids_of n) \<Longrightarrow> m = n"
  by (induction ns) (auto dest: ids_of_in)

lemma ids_of_distinct: "distinct (all_ids ns) \<Longrightarrow> n \<in> set ns \<Longrightarrow> distinct (ids_of n)"
  by (induction ns) auto

lemma branch_of_kids: "set (branch_of b n) \<subseteq> set (kids n)"
  by (cases n) (auto simp: branch_of_def)

lemma find_in_branches_Some:
  "find_in_branches ident ns = Some (node, k, j) \<Longrightarrow>
   \<exists>b m. m \<in> set ns \<and> is_condition m \<and> k = lane_key (Branch (node_id m) b) \<and>
     j < length (branch_of b m) \<and> branch_of b m ! j = node \<and> node_id node = ident"
proof (induction ident ns rule: find_in_branches.induct)
  case (2 ident c op v t e ns)
  show ?case
  proof (cases "find_at (\<lambda>n. node_id n = ident) t")
    case (Some i)
    with "2.prems" find_at_Some [OF Some] show ?thesis
      by (intro exI [of _ True] exI [of _ "Condition c op v t e"]) (auto simp: lane_key_def branch_of_def)
  next
    case None
    show ?thesis
    proof (cases "find_at (\<lambda>n. node_id n = ident) e")
      case (Some i)
      with None "2.prems" find_at_Some [OF Some] show ?thesis
        by (intro exI [of _ False] exI [of _ "Condition c op v t e"]) (auto simp: lane_key_def branch_of_def)
    next
      case None
      with \<open>find_at (\<lambda>n. node_id n = ident) t = None\<close> "2.prems" have "find_in_branches ident ns = Some (node, k, j)"
        by simp
      with "2.IH" \<open>find_at (\<lambda>n. node_id n = ident) t = None\<close> None show ?thesis by fastforce
    qed
  qed
qed (simp; fastforce)+

lemma find_at_mem: "find_at p xs = Some i \<Longrightarrow> \<exists>x \<in> set xs. p x"
  using find_at_Some by fastforce

lemma find_in_branches_None:
  "find_in_branches ident ns = None \<longleftrightarrow> (\<forall>n \<in> set ns. \<forall>x \<in> set (kids n). node_id x \<noteq> ident)"
  by (induction ident ns rule: find_in_branches.induct)
    (auto simp: find_at_None split: option.splits dest!: find_at_mem)

lemma findNode_None: "findNode p ident = None \<longleftrightarrow> ident \<notin> set (all_ids (po_nodes p))"
  by (auto simp: findNode_def find_at_None find_in_branches_None all_ids_def ids_of_def split: option.splits
      dest!: find_at_mem)

text \<open>A step is found in the lane that holds it, at its place.\<close>

lemma findNode_Some:
  assumes ok: "tree_ok (po_nodes p)" and found: "findNode p ident = Some (node, k, i)"
  shows "lane_exists (lane_of k) (po_nodes p) \<and> k = lane_key (lane_of k) \<and>
    i < length (lane_at (lane_of k) (po_nodes p)) \<and> lane_at (lane_of k) (po_nodes p) ! i = node \<and> node_id node = ident"
proof (cases "find_at (\<lambda>n. node_id n = ident) (po_nodes p)")
  case (Some j)
  with found find_at_Some [OF Some] show ?thesis
    by (auto simp: findNode_def lane_of_def lane_exists_def lane_key_def lane_at_def)
next
  case None
  with found have "find_in_branches ident (po_nodes p) = Some (node, k, i)" by (simp add: findNode_def)
  then obtain b m where m: "m \<in> set (po_nodes p)" "is_condition m" "k = lane_key (Branch (node_id m) b)"
    "i < length (branch_of b m)" "branch_of b m ! i = node" "node_id node = ident"
    using find_in_branches_Some by blast
  have "distinct (map node_id (po_nodes p))" using ok distinct_tops by (simp add: tree_ok_def)
  then have lane: "lane_at (Branch (node_id m) b) (po_nodes p) = branch_of b m"
    using concat_only [OF _ m(1), of node_id "branch_of b"] by (simp add: lane_at_def)
  have "plain_id (node_id m)"
    using ok m(1) ids_of_in [OF m(1) node_id_in_ids] by (simp add: tree_ok_def list_all_iff)
  then have "lane_of k = Branch (node_id m) b" using lane_of_key [of "Branch (node_id m) b"] m(3) by simp
  then show ?thesis using m lane by (auto simp: lane_exists_def list_ex_iff)
qed

subsection \<open>Taking a step out\<close>

definition others :: "string \<Rightarrow> wf_node list \<Rightarrow> wf_node list" where
  "others ident = filter (\<lambda>n. node_id n \<noteq> ident)"

definition prune :: "string \<Rightarrow> wf_node \<Rightarrow> wf_node" where
  "prune ident n = (case n of
      Condition c op v t e \<Rightarrow> Condition c op v (others ident t) (others ident e) | _ \<Rightarrow> n)"

text \<open>The tree without a step, wherever the step is.\<close>

definition without :: "string \<Rightarrow> wf_node list \<Rightarrow> wf_node list" where
  "without ident ns = map (prune ident) (others ident ns)"

lemma others_id: "ident \<notin> node_id ` set ns \<Longrightarrow> others ident ns = ns"
  unfolding others_def by (rule filter_True) auto

lemma prune_id: "ident \<notin> set (map node_id (kids n)) \<Longrightarrow> prune ident n = n"
proof (cases n)
  case (Condition c op v t e)
  assume "ident \<notin> set (map node_id (kids n))"
  then have "others ident t = t" "others ident e = e" using Condition by (auto intro!: others_id)
  then show ?thesis using Condition by (simp add: prune_def)
qed (simp_all add: prune_def)

lemma drop_one:
  assumes "distinct (map node_id xs)" "i < length xs" "node_id (xs ! i) = ident"
  shows "spliced xs i 1 None = others ident xs"
proof -
  have xs: "xs = take i xs @ xs ! i # drop (Suc i) xs" using assms(2) by (rule id_take_nth_drop)
  then have "distinct (map node_id (take i xs @ xs ! i # drop (Suc i) xs))" using assms(1) by simp
  then have "others ident (take i xs) = take i xs" "others ident (drop (Suc i) xs) = drop (Suc i) xs"
    using assms(3) by (auto intro!: others_id simp del: append_take_drop_id)
  moreover have "others ident xs = others ident (take i xs) @ others ident (drop (Suc i) xs)"
    using assms(3) by (subst xs) (simp add: others_def)
  ultimately show ?thesis by (simp add: spliced_def)
qed

lemma kids_distinct: "distinct (all_ids ns) \<Longrightarrow> n \<in> set ns \<Longrightarrow> distinct (map node_id (kids n))"
  by (drule (1) ids_of_distinct) (simp add: ids_of_def)

lemma on_lane_out:
  assumes ok: "tree_ok ns" and lane: "lane_exists l ns" "i < length (lane_at l ns)"
    and ident: "node_id (lane_at l ns ! i) = ident"
  shows "on_lane l (\<lambda>xs. spliced xs i 1 None) ns = without ident ns"
proof (cases l)
  case Root
  have d: "distinct (all_ids ns)" using ok by (simp add: tree_ok_def)
  have top: "lane_at l ns ! i \<in> set ns" using Root lane(2) by (simp add: lane_at_def)
  have "prune ident n = n" if "n \<in> set (others ident ns)" for n
  proof (rule prune_id, rule notI)
    assume "ident \<in> set (map node_id (kids n))"
    then have "ident \<in> set (ids_of n)" by (simp add: ids_of_def)
    moreover have "ident \<in> set (ids_of (lane_at l ns ! i))" using ident node_id_in_ids by metis
    moreover have "n \<in> set ns" using that by (simp add: others_def)
    ultimately have "n = lane_at l ns ! i" using ids_unique [OF d _ top] by blast
    then show False using that ident by (simp add: others_def)
  qed
  then have "without ident ns = others ident ns" unfolding without_def by (intro map_idI) auto
  then show ?thesis
    using drop_one [OF distinct_tops [OF d], of i ident] lane(2) ident Root by (simp add: on_lane_def lane_at_def)
next
  case (Branch c b)
  have d: "distinct (all_ids ns)" using ok by (simp add: tree_ok_def)
  obtain m where m: "m \<in> set ns" "node_id m = c" "is_condition m"
    using lane(1) Branch by (auto simp: lane_exists_def list_ex_iff)
  have at: "lane_at l ns = branch_of b m"
    using concat_only [OF distinct_tops [OF d] m(1), of "branch_of b"] m(2) Branch by (simp add: lane_at_def)
  have inm: "ident \<in> set (map node_id (branch_of b m))" using lane(2) ident at by (metis image_eqI list.set_map nth_mem)
  then have kid: "ident \<in> set (map node_id (kids m))" using branch_of_kids [of b m] by auto
  have dm: "distinct (map node_id (kids m))" "node_id m \<notin> set (map node_id (kids m))"
    using ids_of_distinct [OF d m(1)] by (simp_all add: ids_of_def)
  have only: "n = m" if "n \<in> set ns" "ident \<in> set (ids_of n)" for n
    using ids_unique [OF d that(1) m(1) that(2)] kid by (simp add: ids_of_def)
  have tops: "others ident ns = ns"
  proof (rule others_id, rule notI)
    assume "ident \<in> node_id ` set ns"
    then obtain n where "n \<in> set ns" "node_id n = ident" by auto
    then have "m = n" using only [of n] node_id_in_ids [of n] by simp
    then show False using \<open>node_id n = ident\<close> dm(2) kid by simp
  qed
  have node: "(if node_id n = c then on_branch b (\<lambda>xs. spliced xs i 1 None) n else n) = prune ident n"
    if "n \<in> set ns" for n
  proof (cases "n = m")
    case True
    obtain op v t e where mc: "m = Condition c op v t e" using conditionE [OF m(3)] m(2) by metis
    have dt: "distinct (map node_id t)" "distinct (map node_id e)" "set (map node_id t) \<inter> set (map node_id e) = {}"
      using dm(1) mc by simp_all
    have cut: "spliced (branch_of b m) i 1 None = others ident (branch_of b m)"
      using drop_one [of "branch_of b m" i ident] dt lane(2) ident at mc by (cases b) (simp_all add: branch_of_def)
    have "ident \<notin> node_id ` set (branch_of (\<not> b) m)" using inm dt(3) mc by (cases b) (auto simp: branch_of_def)
    then have "others ident (branch_of (\<not> b) m) = branch_of (\<not> b) m" by (rule others_id)
    then show ?thesis using True cut mc by (cases b) (simp_all add: on_branch_def prune_def branch_of_def)
  next
    case False
    then have "ident \<notin> set (ids_of n)" using only that by blast
    then have "prune ident n = n" by (intro prune_id) (simp add: ids_of_def)
    moreover have "node_id n \<noteq> c"
      using False that m distinct_tops [OF d] by (auto simp: distinct_map inj_on_def)
    ultimately show ?thesis by simp
  qed
  have "map (\<lambda>n. if node_id n = c then on_branch b (\<lambda>xs. spliced xs i 1 None) n else n) ns = map (prune ident) ns"
    by (rule map_cong [OF refl node])
  then show ?thesis unfolding Branch on_lane_def without_def tops by simp
qed

lemma tops_distinct: "tree_ok ns \<Longrightarrow> distinct (map node_id ns)"
  by (simp add: tree_ok_def distinct_tops)

lemma taken_out:
  assumes "tree_ok (po_nodes p)" "findNode p ident = Some (node, k, i)"
  shows "withLane p k (spliced (getLane p k) i 1 None) = p\<lparr>po_nodes := without ident (po_nodes p)\<rparr>"
  using findNode_Some [OF assms] assms(1)
    edit_lane [OF tops_distinct [OF assms(1)], of k "\<lambda>xs. spliced xs i 1 None"] on_lane_out
  by simp

lemma deleteNode_eq:
  assumes "tree_ok (po_nodes p)"
  shows "deleteNode p ident = p\<lparr>po_nodes := without ident (po_nodes p)\<rparr>"
proof (cases "findNode p ident")
  case None
  then have gone: "ident \<notin> set (all_ids (po_nodes p))" by (simp add: findNode_None)
  have "others ident (po_nodes p) = po_nodes p"
    using gone by (intro others_id) (auto simp: all_ids_def ids_of_def)
  moreover have "prune ident n = n" if "n \<in> set (po_nodes p)" for n
    using gone that by (intro prune_id) (auto simp: all_ids_def ids_of_def)
  ultimately have "without ident (po_nodes p) = po_nodes p" by (simp add: without_def map_idI)
  then show ?thesis using None by (simp add: deleteNode_def)
next
  case (Some x)
  obtain node k i where "x = (node, k, i)" by (cases x)
  then show ?thesis using Some taken_out [OF assms] by (simp add: deleteNode_def)
qed

subsection \<open>A drag\<close>

lemma without_keeps:
  assumes "tree_ok ns" "lane_exists l ns" "case l of Root \<Rightarrow> True | Branch c b \<Rightarrow> c \<noteq> ident"
  shows "lane_exists l (without ident ns)"
    and "lane_at l (without ident ns) = (if l = Root then without ident ns else others ident (lane_at l ns))"
proof -
  have id: "node_id (prune ident n) = node_id n" "is_condition (prune ident n) = is_condition n" for n
    by (cases n; simp add: prune_def)+
  show "lane_exists l (without ident ns)"
    using assms(2,3) by (auto simp: lane_exists_def list_ex_iff without_def others_def id split: lane.splits)
  show "lane_at l (without ident ns) = (if l = Root then without ident ns else others ident (lane_at l ns))"
  proof (cases l)
    case (Branch c b)
    have pb: "branch_of b (prune ident n) = others ident (branch_of b n)" for n
      by (cases n) (simp_all add: prune_def branch_of_def others_def)
    have "c \<noteq> ident" using assms(3) Branch by simp
    then have "concat (map (\<lambda>n. if node_id n = c then branch_of b n else []) (without ident ns)) =
        others ident (concat (map (\<lambda>n. if node_id n = c then branch_of b n else []) ns))"
      by (induction ns) (auto simp: without_def others_def id pb [unfolded others_def])
    then show ?thesis using Branch by (simp add: lane_at_def)
  qed (simp add: lane_at_def)
qed

lemma tree_others: "distinct (map node_id xs) \<Longrightarrow> i < length xs \<Longrightarrow> node_id (xs ! i) = ident \<Longrightarrow>
  length (others ident (take k xs)) = (if i < k then min k (length xs) - 1 else min k (length xs))"
proof -
  assume d: "distinct (map node_id xs)" and i: "i < length xs" "node_id (xs ! i) = ident"
  show ?thesis
  proof (cases "i < k")
    case True
    have "others ident (take k xs) = spliced (take k xs) i 1 None"
      using drop_one [of "take k xs" i ident] d i True by (simp add: take_map [symmetric])
    then show ?thesis using True i by (simp add: spliced_def min_def)
  next
    case False
    have "ident \<notin> node_id ` set (take k xs)"
    proof
      assume "ident \<in> node_id ` set (take k xs)"
      then obtain j where "j < k" "j < length xs" "node_id (xs ! j) = ident" by (auto simp: in_set_conv_nth)
      then show False using d i False nth_eq_iff_index_eq [OF d, of j i] by simp
    qed
    then show ?thesis using False by (simp add: others_id)
  qed
qed

lemma lane_at_Branch:
  assumes "tree_ok ns" "x \<in> set (lane_at (Branch c b) ns)"
  obtains m where "m \<in> set ns" "node_id m = c" "is_condition m" "x \<in> set (branch_of b m)"
proof -
  from assms(2) obtain m where "m \<in> set ns" "node_id m = c" "x \<in> set (branch_of b m)"
    by (auto simp: lane_at_def split: if_splits)
  moreover then have "is_condition m" by (cases m) (auto simp: branch_of_def)
  ultimately show thesis using that by blast
qed

lemma lane_unique:
  assumes ok: "tree_ok ns" and x: "x \<in> set (lane_at l ns)" and y: "y \<in> set (lane_at l' ns)"
    and same: "node_id x = node_id y"
  shows "l = l'"
proof -
  have d: "distinct (all_ids ns)" using ok by (simp add: tree_ok_def)
  have kid: "node_id z \<in> set (ids_of m)" "node_id z \<noteq> node_id m"
    if mem: "m \<in> set ns" and br: "z \<in> set (branch_of b m)" for z b m
  proof -
    have "node_id z \<in> node_id ` set (kids m)" using br branch_of_kids by blast
    then show "node_id z \<in> set (ids_of m)" "node_id z \<noteq> node_id m"
      using ids_of_distinct [OF d mem] by (auto simp: ids_of_def)
  qed
  have top: "False"
    if u: "u \<in> set ns" and v: "v \<in> set (lane_at (Branch c b) ns)" and uv: "node_id u = node_id v" for u v c b
  proof -
    obtain m where m: "m \<in> set ns" "v \<in> set (branch_of b m)" using lane_at_Branch [OF ok v] by metis
    have "u = m" using ids_unique [OF d u m(1)] kid(1) [OF m] uv node_id_in_ids by metis
    then show False using kid(2) [OF m] uv by simp
  qed
  show ?thesis
  proof (cases l)
    case Root
    then show ?thesis using x y top same by (cases l') (auto simp: lane_at_def [of Root])
  next
    case (Branch c b)
    show ?thesis
    proof (cases l')
      case Root
      then have "y \<in> set ns" "x \<in> set (lane_at (Branch c b) ns)" using x y Branch by (simp_all add: lane_at_def [of Root])
      then show ?thesis using top same by metis
    next
      case branch': (Branch c' b')
      obtain m where m: "m \<in> set ns" "node_id m = c" "is_condition m" "x \<in> set (branch_of b m)"
        using lane_at_Branch [OF ok] x Branch by metis
      obtain m' where m': "m' \<in> set ns" "node_id m' = c'" "y \<in> set (branch_of b' m')"
        using lane_at_Branch [OF ok] y branch' by metis
      have "m = m'" using ids_unique [OF d m(1) m'(1)] kid(1) [OF m(1,4)] kid(1) [OF m'(1,3)] same by metis
      moreover obtain op v t e where mc: "m = Condition c op v t e" using conditionE [OF m(3)] m(2) by metis
      have "set (map node_id t) \<inter> set (map node_id e) = {}"
        using ids_of_distinct [OF d m(1)] mc by (simp add: ids_of_def)
      then have "b = b'" using m(4) m'(3) \<open>m = m'\<close> same mc
        by (cases b; cases b') (auto simp: branch_of_def)
      ultimately show ?thesis using m m' Branch branch' by simp
    qed
  qed
qed

lemma dropped_elsewhere:
  assumes ok: "tree_ok (po_nodes p)" and found: "findNode p ident = Some (node, k, i)"
    and l: "lane_exists l (po_nodes p)" and drop: "canDrop (type_of_node node) (lane_key l)"
  shows "case l of Root \<Rightarrow> True | Branch c b \<Rightarrow> c \<noteq> ident" "lane_of (lane_key l) = l"
proof -
  have plain: "case l of Root \<Rightarrow> True | Branch c b \<Rightarrow> plain_id c"
  proof (cases l)
    case (Branch c b)
    then obtain m where m: "m \<in> set (po_nodes p)" "node_id m = c" using l by (auto simp: lane_exists_def list_ex_iff)
    then show ?thesis
      using Branch ok ids_of_in [OF m(1) node_id_in_ids] by (simp add: tree_ok_def list_all_iff)
  qed simp
  then show key: "lane_of (lane_key l) = l" by (rule lane_of_key)
  show "case l of Root \<Rightarrow> True | Branch c b \<Rightarrow> c \<noteq> ident"
  proof (cases l)
    case (Branch c b)
    then obtain m where m: "m \<in> set (po_nodes p)" "node_id m = c" "is_condition m"
      using l by (auto simp: lane_exists_def list_ex_iff)
    have "c \<noteq> ident"
    proof
      assume "c = ident"
      have "node_id node = node_id m" using findNode_Some [OF ok found] m(2) \<open>c = ident\<close> by simp
      moreover have "node \<in> set (lane_at (lane_of k) (po_nodes p))"
        using findNode_Some [OF ok found] by (metis nth_mem)
      moreover have "m \<in> set (lane_at Root (po_nodes p))" using m(1) by (simp add: lane_at_def)
      ultimately have "lane_of k = Root" using lane_unique [OF ok] by metis
      then have "node \<in> set (po_nodes p)"
        using \<open>node \<in> set (lane_at (lane_of k) (po_nodes p))\<close> by (simp add: lane_at_def)
      then have "node = m"
        using tops_distinct [OF ok] m(1) \<open>node_id node = node_id m\<close> by (auto simp: distinct_map inj_on_def)
      then have "type_of_node node = Is_Condition" using m(3) by (simp add: is_condition_def)
      moreover have "lane_key l \<noteq> ''root''" using key Branch by (auto simp: lane_of_def)
      ultimately show False using drop by (simp add: canDrop_def)
    qed
    then show ?thesis using Branch by simp
  qed simp
qed

lemma before_drop:
  assumes ok: "tree_ok (po_nodes p)" and found: "findNode p ident = Some (node, k, i)"
    and j: "j \<le> length (lane_at l (po_nodes p))"
  shows "length (others ident (take j (lane_at l (po_nodes p)))) = (if l = lane_of k \<and> i < j then j - 1 else j)"
proof -
  let ?ns = "po_nodes p"
  note src = findNode_Some [OF ok found]
  have at: "lane_at (lane_of k) ?ns ! i \<in> set (lane_at (lane_of k) ?ns)" using src by (intro nth_mem) simp
  show ?thesis
  proof (cases "l = lane_of k")
    case True
    have "distinct (map node_id (lane_at l ?ns))"
    proof (cases l)
      case Root
      then show ?thesis using tops_distinct [OF ok] by (simp add: lane_at_def)
    next
      case (Branch c b)
      then have "lane_exists (Branch c b) ?ns" using True src by simp
      then obtain m where m: "m \<in> set ?ns" "node_id m = c" "is_condition m"
        by (auto simp: lane_exists_def list_ex_iff)
      have "lane_at l ?ns = branch_of b m"
        using concat_only [OF tops_distinct [OF ok] m(1), of "branch_of b"] m(2) Branch by (simp add: lane_at_def)
      moreover obtain op v t e where "m = Condition c op v t e" using conditionE [OF m(3)] m(2) by metis
      moreover have "distinct (map node_id (kids m))"
        using ok m(1) by (intro kids_distinct) (simp_all add: tree_ok_def)
      ultimately show ?thesis by (auto simp: branch_of_def)
    qed
    then show ?thesis using tree_others [of "lane_at l ?ns" i ident j] src True j by simp
  next
    case False
    have "ident \<notin> node_id ` set (take j (lane_at l ?ns))"
    proof
      assume "ident \<in> node_id ` set (take j (lane_at l ?ns))"
      then obtain x where "x \<in> set (lane_at l ?ns)" "node_id x = ident" by (auto dest: in_set_takeD)
      then have "l = lane_of k" using lane_unique [OF ok _ at] src by metis
      with False show False by contradiction
    qed
    then show ?thesis using False j by (simp add: others_id)
  qed
qed

lemma insert_splice: "spliced xs t 0 (Some x) = take t xs @ x # drop t xs"
  by (simp add: spliced_def)

text \<open>C20: a drag. Dropping a step on a lane at an index (where it may be dropped) takes it out of the tree
  and puts it into that lane, after exactly the other steps that stood before the drop point; every other
  lane only loses it.\<close>

theorem moveNode_lands:
  assumes "tree_ok (po_nodes p)" and "findNode p ident = Some (node, k, i)"
    and "lane_exists l (po_nodes p)" and "canDrop (type_of_node node) (lane_key l)"
    and "j \<le> length (lane_at l (po_nodes p))"
  shows "moveNode p ident (lane_key l) j =
    (let before = length (others ident (take j (lane_at l (po_nodes p))))
     in p\<lparr>po_nodes := on_lane l (\<lambda>xs. take before xs @ node # drop before xs) (without ident (po_nodes p))\<rparr>)"
proof -
  let ?ns = "po_nodes p"
  define q where "q = p\<lparr>po_nodes := without ident ?ns\<rparr>"
  note dst = dropped_elsewhere [OF assms(1-4)]
  have id: "node_id (prune ident n) = node_id n" for n by (cases n) (simp_all add: prune_def)
  have "distinct (map node_id (po_nodes q))"
    using tops_distinct [OF assms(1)] by (simp add: q_def without_def others_def comp_def id distinct_map_filter)
  moreover have "lane_exists (lane_of (lane_key l)) (po_nodes q)"
    using without_keeps(1) [OF assms(1,3) dst(1)] dst(2) by (simp add: q_def)
  ultimately have put: "withLane q (lane_key l) (f (getLane q (lane_key l))) =
      q\<lparr>po_nodes := on_lane l f (po_nodes q)\<rparr>" for f
    using edit_lane [of q "lane_key l" f] dst(2) by simp
  have key: "lane_key l = k \<longleftrightarrow> l = lane_of k" using findNode_Some [OF assms(1,2)] dst(2) by metis
  have "moveNode p ident (lane_key l) j =
      withLane q (lane_key l) (spliced (getLane q (lane_key l)) (if l = lane_of k \<and> i < j then j - 1 else j) 0 (Some node))"
    using assms(2,4) key taken_out [OF assms(1,2)] by (simp add: moveNode_def Let_def q_def)
  also have "\<dots> = q\<lparr>po_nodes := on_lane l
      (\<lambda>xs. spliced xs (if l = lane_of k \<and> i < j then j - 1 else j) 0 (Some node)) (po_nodes q)\<rparr>"
    by (rule put)
  finally show ?thesis using before_drop [OF assms(1,2,5)] by (simp add: q_def Let_def insert_splice)
qed

subsection \<open>Any edits\<close>

text \<open>The handlers of the builder (\<open>components/WorkflowBuilder.tsx\<close>) on the working policy and the id counter.\<close>

datatype edit =
    Append_Step node_type
  | Drop_New string nat node_type
  | Remove_Step string
  | Drop_Step string string nat
  | Patch_Step string node_patch
  | Clear_Steps

fun apply_edit :: "policy \<times> nat \<Rightarrow> edit \<Rightarrow> policy \<times> nat" where
  "apply_edit (p, nodeSeq) (Append_Step ty) =
     (case appendNode p ty nodeSeq of ((p', nodeId), nodeSeq') \<Rightarrow> (p', nodeSeq'))"
| "apply_edit (p, nodeSeq) (Drop_New laneKey i ty) =
     (case newNode ty nodeSeq of (node, nodeSeq') \<Rightarrow> (insertNode p laneKey i node, nodeSeq'))"
| "apply_edit (p, nodeSeq) (Remove_Step ident) = (deleteNode p ident, nodeSeq)"
| "apply_edit (p, nodeSeq) (Drop_Step ident laneKey i) = (moveNode p ident laneKey i, nodeSeq)"
| "apply_edit (p, nodeSeq) (Patch_Step ident patch) = (updateNode p ident patch, nodeSeq)"
| "apply_edit (p, nodeSeq) Clear_Steps = (clearSteps p, nodeSeq)"

text \<open>No id the counter will mint is in use.\<close>

definition fresh_from_seq :: "nat \<Rightarrow> wf_node list \<Rightarrow> bool" where
  "fresh_from_seq nodeSeq ns \<longleftrightarrow> (\<forall>m \<ge> nodeSeq. ''wn'' @ show_nat m \<notin> set (all_ids ns))"

lemma prune_simps: "node_id (prune ident n) = node_id n" "is_condition (prune ident n) = is_condition n"
    "kids (prune ident n) = others ident (kids n)"
  by (cases n; simp add: prune_def others_def)+

lemma all_ids_without:
  "x \<in> set (all_ids (without ident ns)) \<Longrightarrow> x \<in> set (all_ids ns) \<and> x \<noteq> ident"
  by (auto simp: all_ids_def without_def others_def ids_of_def prune_simps)

lemma without_ok:
  assumes "tree_ok ns"
  shows "tree_ok (without ident ns)"
proof -
  have "distinct (all_ids (without ident ns))" if "distinct (all_ids ns)"
    using that
  proof (induction ns)
    case (Cons n ns)
    have "distinct (map node_id (others ident (kids n)))"
      using Cons.prems by (simp add: ids_of_def others_def distinct_map_filter)
    moreover have "set (ids_of (prune ident n)) \<subseteq> set (ids_of n)"
      by (auto simp: ids_of_def prune_simps others_def)
    moreover have "set (all_ids (without ident ns)) \<subseteq> set (all_ids ns)" using all_ids_without by blast
    moreover have "distinct (ids_of (prune ident n))"
      using Cons.prems calculation(1) by (auto simp: ids_of_def prune_simps others_def)
    ultimately show ?case using Cons by (auto simp: without_def others_def)
  qed (simp add: without_def others_def)
  moreover have "two_deep (without ident ns)" if "two_deep ns"
    using that by (auto simp: two_deep_def without_def others_def prune_simps list_all_iff)
  moreover have "list_all plain_id (all_ids (without ident ns))" if "list_all plain_id (all_ids ns)"
    using that all_ids_without by (fastforce simp: list_all_iff)
  ultimately show ?thesis using assms by (simp add: tree_ok_def)
qed

text \<open>Putting a step whose ids are new into a lane.\<close>

lemma put_ids:
  assumes "distinct (map node_id ns)" "lane_exists l ns" "l = Root \<or> \<not> is_condition x"
  shows "mset (all_ids (on_lane l (\<lambda>xs. take t xs @ x # drop t xs) ns)) = mset (all_ids ns) + mset (ids_of x)"
proof (cases l)
  case Root
  have "mset (all_ids ns) = mset (all_ids (take t ns @ drop t ns))" by simp
  then show ?thesis using Root by (simp add: on_lane_def del: append_take_drop_id)
next
  case (Branch c b)
  then obtain m where m: "m \<in> set ns" "node_id m = c" "is_condition m" using assms(2) by (auto simp: lane_exists_def list_ex_iff)
  obtain xs ys where ns: "ns = xs @ m # ys" using split_list [OF m(1)] by blast
  let ?f = "\<lambda>xs. take t xs @ x # drop t xs"
  have rest: "map (\<lambda>n. if node_id n = c then on_branch b ?f n else n) zs = zs" if "set zs \<subseteq> set xs \<union> set ys" for zs
  proof (intro map_idI)
    fix z assume "z \<in> set zs"
    then have "node_id z \<in> node_id ` set xs \<union> node_id ` set ys" using that by auto
    moreover have "c \<notin> node_id ` set xs \<union> node_id ` set ys" using assms(1) m(2) ns by simp
    ultimately have "node_id z \<noteq> c" by metis
    then show "(if node_id z = c then on_branch b ?f z else z) = z" by simp
  qed
  have x: "ids_of x = [node_id x]" using assms(3) Branch kids_not_condition by (simp add: ids_of_def)
  have "mset (map node_id (take t zs @ x # drop t zs)) = mset (map node_id zs) + {#node_id x#}" for zs
  proof -
    have "mset (map node_id zs) = mset (map node_id (take t zs @ drop t zs))" by simp
    then show ?thesis by (simp del: append_take_drop_id)
  qed
  then have "mset (ids_of (on_branch b ?f m)) = mset (ids_of m) + mset (ids_of x)"
    using m(3) x by (cases m) (simp_all add: on_branch_def ids_of_def)
  then show ?thesis using Branch m(2) rest [of xs] rest [of ys] ns by (simp add: on_lane_def)
qed

lemma put_ok:
  assumes ok: "tree_ok ns" and l: "lane_exists l ns" "l = Root \<or> \<not> is_condition x"
    and x: "set (ids_of x) \<inter> set (all_ids ns) = {}" "distinct (ids_of x)" "list_all plain_id (ids_of x)"
      "list_all (\<lambda>k. \<not> is_condition k) (kids x)"
  shows "tree_ok (on_lane l (\<lambda>xs. take t xs @ x # drop t xs) ns)"
proof -
  let ?f = "\<lambda>xs. take t xs @ x # drop t xs" let ?r = "on_lane l ?f ns"
  have ids: "mset (all_ids ?r) = mset (all_ids ns @ ids_of x)"
    using put_ids [OF tops_distinct [OF ok] l] by simp
  have "distinct (all_ids ?r)"
    using mset_eq_imp_distinct_iff [OF ids] ok x(1,2) by (auto simp: tree_ok_def)
  moreover have "list_all plain_id (all_ids ?r)"
    using mset_eq_setD [OF ids] ok x(3) by (auto simp: tree_ok_def list_all_iff)
  moreover have "two_deep ?r"
  proof (cases l)
    case Root
    have "two_deep (take t ns @ drop t ns)" using ok by (simp add: tree_ok_def)
    then show ?thesis using Root x(4) by (simp add: on_lane_def del: append_take_drop_id)
  next
    case (Branch c b)
    have "list_all (\<lambda>k. \<not> is_condition k) (kids (on_branch b ?f n))" if "list_all (\<lambda>k. \<not> is_condition k) (kids n)" for n
      using that l(2) Branch by (cases n) (auto simp: on_branch_def list_all_iff dest: in_set_takeD in_set_dropD)
    then show ?thesis using ok Branch by (auto simp: on_lane_def tree_ok_def two_deep_def list_all_iff)
  qed
  ultimately show ?thesis by (simp add: tree_ok_def)
qed

lemma same_shape:
  assumes "\<And>xs. map node_id (f xs) = map node_id xs" "\<And>xs. map is_condition (f xs) = map is_condition xs"
    "\<And>xs. map kids (f xs) = map kids xs"
  shows "all_ids (on_lane l f ns) = all_ids ns" "tree_ok (on_lane l f ns) = tree_ok ns"
proof -
  have pairs: "map ids_of xs = map2 (\<lambda>i ks. i # map node_id ks) (map node_id xs) (map kids xs)" for xs
    by (induction xs) (simp_all add: ids_of_def)
  have ids: "map ids_of (f xs) = map ids_of xs" for xs
    using assms(1,3) [of xs] by (simp only: pairs)
  have deep: "list_all (\<lambda>k. \<not> is_condition k) (f xs) = list_all (\<lambda>k. \<not> is_condition k) xs" for xs
    using assms(2) [of xs] by (metis (mono_tags, lifting) list.pred_map comp_apply list_all_cong)
  have branch: "ids_of (on_branch b f n) = ids_of n"
    "list_all (\<lambda>k. \<not> is_condition k) (kids (on_branch b f n)) = list_all (\<lambda>k. \<not> is_condition k) (kids n)" for b n
    using assms(1) deep by (cases n; simp add: on_branch_def ids_of_def)+
  show all: "all_ids (on_lane l f ns) = all_ids ns"
  proof (cases l)
    case Root
    then show ?thesis using ids by (simp add: on_lane_def all_ids_def)
  next
    case (Branch c b)
    have "map ids_of (map (\<lambda>n. if node_id n = c then on_branch b f n else n) ns) = map ids_of ns"
      using branch(1) by simp
    then show ?thesis unfolding Branch on_lane_def all_ids_def lane.case by (rule arg_cong [where f = concat])
  qed
  have "two_deep (on_lane l f ns) = two_deep ns"
  proof (cases l)
    case Root
    have "two_deep xs = list_all (list_all (\<lambda>k. \<not> is_condition k)) (map kids xs)" for xs
      by (simp add: two_deep_def list_all_iff)
    then show ?thesis using Root assms(3) by (simp add: on_lane_def)
  next
    case (Branch c b)
    have "two_deep (map (\<lambda>n. if node_id n = c then on_branch b f n else n) ns) = two_deep ns"
      by (induction ns) (simp_all add: branch(2))
    then show ?thesis using Branch by (simp add: on_lane_def)
  qed
  then show "tree_ok (on_lane l f ns) = tree_ok ns" using all by (simp add: tree_ok_def)
qed

definition patch_at :: "nat \<Rightarrow> node_patch \<Rightarrow> wf_node list \<Rightarrow> wf_node list" where
  "patch_at i patch xs = (if i < length xs then xs[i := merge_patch (xs ! i) patch] else xs)"

lemma merge_patch_shape:
  "node_id (merge_patch n patch) = node_id n" "is_condition (merge_patch n patch) = is_condition n"
  "kids (merge_patch n patch) = kids n"
  by (cases n; simp add: merge_patch_def is_condition_def)+

lemma map_patch_at: "(\<And>n. f (merge_patch n patch) = f n) \<Longrightarrow> map f (patch_at i patch xs) = map f xs"
  by (simp add: patch_at_def map_update list_update_same_conv)

lemmas patch_shape = same_shape [of "patch_at i patch" for i patch, OF map_patch_at map_patch_at map_patch_at,
    OF merge_patch_shape]

lemma updateNode_eq:
  assumes ok: "tree_ok (po_nodes p)" and found: "findNode p ident = Some (node, k, i)"
  shows "updateNode p ident patch = p\<lparr>po_nodes := on_lane (lane_of k) (patch_at i patch) (po_nodes p)\<rparr>"
proof -
  note src = findNode_Some [OF ok found]
  have "getLane p k = lane_at (lane_of k) (po_nodes p)" using getLane_at tops_distinct [OF ok] src by blast
  then have "spliced (getLane p k) i 1 (Some (merge_patch (getLane p k ! i) patch)) = patch_at i patch (getLane p k)"
    using src by (simp add: spliced_def patch_at_def upd_conv_take_nth_drop)
  then show ?thesis
    using found edit_lane [OF tops_distinct [OF ok], of k "patch_at i patch"] src
    by (simp add: updateNode_def Let_def)
qed

lemma updateNode_ok:
  assumes "tree_ok (po_nodes p)"
  shows "tree_ok (po_nodes (updateNode p ident patch)) \<and>
    all_ids (po_nodes (updateNode p ident patch)) = all_ids (po_nodes p)"
proof (cases "findNode p ident")
  case (Some x)
  obtain node k i where "x = (node, k, i)" by (cases x)
  then show ?thesis using updateNode_eq [OF assms] patch_shape assms Some by simp
qed (simp add: updateNode_def assms)

lemma newNode_facts:
  assumes "newNode ty nodeSeq = (node, nodeSeq')"
  shows "nodeSeq' = nodeSeq + 1" "node_id node = ''wn'' @ show_nat nodeSeq" "kids node = []"
  using assms by (auto simp: newNode_def newNodeId_def split: node_type.splits)

lemma show_nat_plain: "plain_id (''wn'' @ show_nat m)"
proof -
  have "CHR '':'' \<notin> set (show_nat m)"
    using show_nat_digits [of m] by (auto simp: list_all_iff is_digit_def)
  then show ?thesis by (simp add: plain_id_def)
qed

text \<open>A new step goes into a lane, or nowhere if the key names none.\<close>

lemma insertNode_ok:
  assumes ok: "tree_ok (po_nodes p)" and new: "node_id node \<notin> set (all_ids (po_nodes p))" "kids node = []"
    "plain_id (node_id node)"
  shows "tree_ok (po_nodes (insertNode p k t node)) \<and>
    set (all_ids (po_nodes (insertNode p k t node))) \<subseteq> insert (node_id node) (set (all_ids (po_nodes p)))"
proof (cases "canDrop (type_of_node node) k \<and> lane_exists (lane_of k) (po_nodes p)")
  case True
  let ?f = "\<lambda>xs. take t xs @ node # drop t xs"
  have put: "insertNode p k t node = p\<lparr>po_nodes := on_lane (lane_of k) ?f (po_nodes p)\<rparr>"
    using True edit_lane [OF tops_distinct [OF ok], of k ?f] by (simp add: insertNode_def insert_splice)
  have l: "lane_of k = Root \<or> \<not> is_condition node"
    using True by (auto simp: canDrop_def lane_of_def is_condition_def)
  have ids: "ids_of node = [node_id node]" using new(2) by (simp add: ids_of_def)
  have "tree_ok (on_lane (lane_of k) ?f (po_nodes p))"
    using True new ids by (intro put_ok [OF ok _ l]) simp_all
  moreover have "set (all_ids (on_lane (lane_of k) ?f (po_nodes p))) = insert (node_id node) (set (all_ids (po_nodes p)))"
    using mset_eq_setD [of _ "all_ids (po_nodes p) @ ids_of node"] put_ids [OF tops_distinct [OF ok] _ l, of t] True ids
    by simp
  ultimately show ?thesis using put by simp
next
  case False
  then have "insertNode p k t node = p" using edit_no_lane by (auto simp: insertNode_def)
  then show ?thesis using ok by auto
qed

text \<open>A step that was taken out shares no id with what is left.\<close>

lemma found_at_top:
  assumes ok: "tree_ok (po_nodes p)" and found: "findNode p ident = Some (node, k, i)"
  shows "node \<in> set (po_nodes p) \<or> \<not> is_condition node"
proof -
  have mem: "node \<in> set (lane_at (lane_of k) (po_nodes p))" using findNode_Some [OF ok found] by (metis nth_mem)
  show ?thesis
  proof (cases "lane_of k")
    case Root
    then show ?thesis using mem by (simp add: lane_at_def)
  next
    case (Branch c b)
    then obtain m where m: "m \<in> set (po_nodes p)" "node \<in> set (branch_of b m)"
      using lane_at_Branch [OF ok, of node c b] mem by metis
    then have "node \<in> set (kids m)" using branch_of_kids by blast
    then show ?thesis using ok m(1) by (auto simp: tree_ok_def two_deep_def list_all_iff)
  qed
qed

lemma found_ids:
  assumes ok: "tree_ok (po_nodes p)" and found: "findNode p ident = Some (node, k, i)"
  shows "set (ids_of node) \<subseteq> set (all_ids (po_nodes p))"
    and "set (ids_of node) \<inter> set (all_ids (without ident (po_nodes p))) = {}"
    and "distinct (ids_of node)" and "list_all (\<lambda>k. \<not> is_condition k) (kids node)"
proof -
  have d: "distinct (all_ids (po_nodes p))" using ok by (simp add: tree_ok_def)
  have id: "node_id node = ident" using findNode_Some [OF ok found] by simp
  note top = found_at_top [OF ok found]
  have plain: "ids_of node = [ident]" if "\<not> is_condition node"
    using that id kids_not_condition by (simp add: ids_of_def)
  have "ident \<in> set (all_ids (po_nodes p))" using found findNode_None [of p ident] by auto
  then show "set (ids_of node) \<subseteq> set (all_ids (po_nodes p))"
    using top plain ids_of_in [of node "po_nodes p"] by (cases "is_condition node") auto
  show "distinct (ids_of node)" "list_all (\<lambda>k. \<not> is_condition k) (kids node)"
    using top plain ids_of_distinct [OF d] ok kids_not_condition
    by (cases "is_condition node"; auto simp: tree_ok_def two_deep_def list_all_iff)+
  show "set (ids_of node) \<inter> set (all_ids (without ident (po_nodes p))) = {}"
  proof (cases "is_condition node")
    case True
    have False if "x \<in> set (ids_of node)" "n \<in> set (others ident (po_nodes p))" "x \<in> set (ids_of (prune ident n))" for x n
    proof -
      have n: "n \<in> set (po_nodes p)" "node_id n \<noteq> ident" "x \<in> set (ids_of n)"
        using that by (auto simp: ids_of_def prune_simps others_def)
      then have "node = n" using True top ids_unique [OF d _ n(1) that(1) n(3)] by simp
      then show False using n(2) id by simp
    qed
    then show ?thesis by (auto simp: without_def all_ids_def)
  next
    case False
    then show ?thesis using plain all_ids_without by auto
  qed
qed

lemma moveNode_ok:
  assumes ok: "tree_ok (po_nodes p)"
  shows "tree_ok (po_nodes (moveNode p ident k j)) \<and> set (all_ids (po_nodes (moveNode p ident k j))) \<subseteq> set (all_ids (po_nodes p))"
proof (cases "\<exists>node source i. findNode p ident = Some (node, source, i) \<and> canDrop (type_of_node node) k")
  case False
  then have "moveNode p ident k j = p" by (auto simp: moveNode_def split: option.split)
  then show ?thesis using ok by simp
next
  case True
  then obtain node source i where found: "findNode p ident = Some (node, source, i)"
    and drop: "canDrop (type_of_node node) k" by blast
  define q where "q = p\<lparr>po_nodes := without ident (po_nodes p)\<rparr>"
  define t where "t = (if k = source \<and> i < j then j - 1 else j)"
  let ?f = "\<lambda>xs. take t xs @ node # drop t xs"
  have qok: "tree_ok (po_nodes q)" using without_ok [OF ok] by (simp add: q_def)
  have less: "set (all_ids (po_nodes q)) \<subseteq> set (all_ids (po_nodes p))" using all_ids_without by (auto simp: q_def)
  note ids = found_ids [OF ok found]
  have move: "moveNode p ident k j = withLane q k (spliced (getLane q k) t 0 (Some node))"
    using found drop taken_out [OF ok found] by (simp add: moveNode_def Let_def q_def t_def)
  show ?thesis
  proof (cases "lane_exists (lane_of k) (po_nodes q)")
    case True
    have put: "moveNode p ident k j = q\<lparr>po_nodes := on_lane (lane_of k) ?f (po_nodes q)\<rparr>"
      using move edit_lane [OF tops_distinct [OF qok] True, of ?f] by (simp add: insert_splice)
    have l: "lane_of k = Root \<or> \<not> is_condition node"
      using drop by (auto simp: canDrop_def lane_of_def is_condition_def)
    have "list_all plain_id (ids_of node)" using ids(1) ok by (auto simp: tree_ok_def list_all_iff)
    then have "tree_ok (on_lane (lane_of k) ?f (po_nodes q))"
      using put_ok [OF qok True l _ ids(3) _ ids(4)] ids(2) by (simp add: q_def)
    moreover have "set (all_ids (on_lane (lane_of k) ?f (po_nodes q))) = set (all_ids (po_nodes q)) \<union> set (ids_of node)"
      using mset_eq_setD [of _ "all_ids (po_nodes q) @ ids_of node"] put_ids [OF tops_distinct [OF qok] True l, of t] by simp
    ultimately show ?thesis using put ids(1) less by simp
  next
    case False
    then have "moveNode p ident k j = q" using move edit_no_lane by simp
    then show ?thesis using qok less by simp
  qed
qed

definition edits_ok :: "policy \<times> nat \<Rightarrow> bool" where
  "edits_ok w \<longleftrightarrow> tree_ok (po_nodes (fst w)) \<and> fresh_from_seq (snd w) (po_nodes (fst w))"

lemma fresh_mono: "fresh_from_seq m ns \<Longrightarrow> set (all_ids ms) \<subseteq> set (all_ids ns) \<Longrightarrow> fresh_from_seq m ms"
  by (auto simp: fresh_from_seq_def)

lemma insert_new_ok:
  assumes "tree_ok (po_nodes p)" "fresh_from_seq m (po_nodes p)" "newNode ty m = (node, m')"
  shows "edits_ok (insertNode p k t node, m')"
proof -
  note n = newNode_facts [OF assms(3)]
  have "node_id node \<notin> set (all_ids (po_nodes p))" using assms(2) n by (simp add: fresh_from_seq_def)
  then have "tree_ok (po_nodes (insertNode p k t node)) \<and>
    set (all_ids (po_nodes (insertNode p k t node))) \<subseteq> insert (node_id node) (set (all_ids (po_nodes p)))"
    using n show_nat_plain by (intro insertNode_ok assms(1)) simp_all
  moreover from this have "fresh_from_seq m' (po_nodes (insertNode p k t node))"
    using assms(2) n by (auto simp: fresh_from_seq_def)
  ultimately show ?thesis by (simp add: edits_ok_def)
qed

lemma apply_edit_ok: "edits_ok w \<Longrightarrow> edits_ok (apply_edit w e)"
proof -
  assume w: "edits_ok w"
  obtain p m where pm: "w = (p, m)" by (cases w)
  with w have ok: "tree_ok (po_nodes p)" "fresh_from_seq m (po_nodes p)" by (simp_all add: edits_ok_def)
  show ?thesis
  proof (cases e)
    case (Append_Step ty)
    obtain node m' where n: "newNode ty m = (node, m')" by (cases "newNode ty m")
    then show ?thesis using insert_new_ok [OF ok n] Append_Step pm by (simp add: appendNode_def)
  next
    case (Drop_New k t ty)
    obtain node m' where n: "newNode ty m = (node, m')" by (cases "newNode ty m")
    then show ?thesis using insert_new_ok [OF ok n] Drop_New pm by simp
  next
    case (Remove_Step ident)
    moreover have "set (all_ids (without ident (po_nodes p))) \<subseteq> set (all_ids (po_nodes p))" using all_ids_without by blast
    ultimately show ?thesis
      using ok without_ok fresh_mono pm deleteNode_eq [OF ok(1)] by (simp add: edits_ok_def)
  next
    case (Drop_Step ident k j)
    then show ?thesis using ok moveNode_ok fresh_mono pm by (simp add: edits_ok_def)
  next
    case (Patch_Step ident patch)
    then show ?thesis using ok updateNode_ok fresh_mono pm by (simp add: edits_ok_def)
  next
    case Clear_Steps
    then show ?thesis using pm by (simp add: edits_ok_def clearSteps_def tree_ok_def fresh_from_seq_def)
  qed
qed

text \<open>C19: editing. Whatever edits the builder applies, in whatever order and to whatever lane keys and
  indices, no condition ever stands inside a branch and no step occurs twice in the policy.\<close>

theorem edits_keep_tree:
  assumes "edits_ok (p, nodeSeq)"
  shows "two_deep (po_nodes (fst (foldl apply_edit (p, nodeSeq) es))) \<and>
    distinct (all_ids (po_nodes (fst (foldl apply_edit (p, nodeSeq) es))))"
proof -
  have "edits_ok (foldl apply_edit w es)" if "edits_ok w" for w
    using that by (induction es arbitrary: w) (simp_all add: apply_edit_ok)
  then show ?thesis using assms by (simp add: edits_ok_def tree_ok_def)
qed

definition sample_tree :: policy where
  "sample_tree = (sample_policy ''p1'' CATCH_ALL_SCOPES)\<lparr>po_nodes :=
     [Approval ''a'' ''fin_mgr'' ''48'' False None,
      Condition ''c'' Op_Greater (Some 100) [Notify ''n'' ''Board'' ''Email''] [Auto_Approve ''x'']]\<rparr>"

lemma sample_tree_ok: "edits_ok (sample_tree, 1000)"
proof -
  have "''wn'' @ show_nat m \<notin> set (all_ids (po_nodes sample_tree))" for m
    by (simp add: sample_tree_def ids_of_def)
  then show ?thesis
    by (simp add: edits_ok_def fresh_from_seq_def)
      (simp add: tree_ok_def sample_tree_def ids_of_def plain_id_def)
qed

theorem edits_witness:
  "distinct (all_ids (po_nodes (fst (foldl apply_edit (sample_tree, 1000)
     [Append_Step Is_Condition, Drop_Step ''a'' ''c:else'' 1, Remove_Step ''n'']))))"
  using edits_keep_tree [OF sample_tree_ok] by blast

theorem moveNode_witness:
  "moveNode sample_tree ''a'' ''c:else'' 1 = sample_tree\<lparr>po_nodes :=
     [Condition ''c'' Op_Greater (Some 100) [Notify ''n'' ''Board'' ''Email'']
        [Auto_Approve ''x'', Approval ''a'' ''fin_mgr'' ''48'' False None]]\<rparr>"
proof -
  let ?l = "Branch ''c'' False"
  have ok: "tree_ok (po_nodes sample_tree)" using sample_tree_ok by (simp add: edits_ok_def)
  have found: "findNode sample_tree ''a'' = Some (Approval ''a'' ''fin_mgr'' ''48'' False None, ''root'', 0)"
    by (simp add: findNode_def sample_tree_def)
  have l: "lane_exists ?l (po_nodes sample_tree)" "canDrop (type_of_node (Approval ''a'' ''fin_mgr'' ''48'' False None)) (lane_key ?l)"
    "1 \<le> length (lane_at ?l (po_nodes sample_tree))"
    by (simp_all add: lane_exists_def sample_tree_def canDrop_def lane_at_def branch_of_def)
  have key: "lane_key ?l = ''c:else''" by (simp add: lane_key_def)
  show ?thesis
    using moveNode_lands [OF ok found l] unfolding key
    by (simp add: sample_tree_def lane_at_def branch_of_def others_def without_def prune_def on_lane_def on_branch_def)
qed

subsection \<open>A saved tree reads back\<close>

text \<open>The step the server answers for a step it was sent: the same fields, an id of its own, and an amount
  whose text may be rescaled.\<close>

fun stored :: "(string \<Rightarrow> js_number) \<Rightarrow> step_input \<Rightarrow> policy_step_wire \<Rightarrow> bool" where
  "stored num (Approval_Input role hours delegate to) s \<longleftrightarrow> pw_kind s = ''approval'' \<and>
     pw_workflow_role_key s = Some role \<and> pw_sla_hours s = hours \<and> pw_allow_delegation s = delegate \<and>
     pw_delegate_user_id s = to"
| "stored num (Notify_Input target channel) s \<longleftrightarrow> pw_kind s = ''notify'' \<and>
     pw_notify_target s = Some target \<and> pw_notify_channel s = Some channel"
| "stored num Auto_Input s \<longleftrightarrow> pw_kind s = ''autoapprove''"
| "stored num (Condition_Input op amount t e) s \<longleftrightarrow> pw_kind s = ''condition'' \<and>
     pw_cond_op s = Some (cond_op_text op) \<and>
     (case pw_cond_amount s of None \<Rightarrow> False | Some u \<Rightarrow> num u = num amount) \<and>
     list_all2 (stored num) t (pw_then s) \<and> list_all2 (stored num) e (pw_else s)"

text \<open>What the builder can save: a deadline of \<open>0\<close> or the text of a number, an amount that is a number.\<close>

fun saveable :: "(string \<Rightarrow> js_number) \<Rightarrow> (rat \<Rightarrow> string) \<Rightarrow> wf_node \<Rightarrow> bool" where
  "saveable num str (Approval i role sla delegate to) \<longleftrightarrow>
     sla = ''0'' \<or> (case num sla of None \<Rightarrow> False | Some h \<Rightarrow> str h = sla)"
| "saveable num str (Condition i op v t e) \<longleftrightarrow>
     (case v of None \<Rightarrow> False | Some x \<Rightarrow> num (str x) = Some x) \<and>
     list_all (saveable num str) t \<and> list_all (saveable num str) e"
| "saveable num str n \<longleftrightarrow> True"

text \<open>A step up to its id and to the two ways of writing that anyone may act for it.\<close>

fun bare :: "wf_node \<Rightarrow> wf_node" where
  "bare (Approval i role sla delegate to) =
     Approval [] role sla delegate (if delegate then Some (or_empty to) else None)"
| "bare (Notify i target channel) = Notify [] target channel"
| "bare (Auto_Approve i) = Auto_Approve []"
| "bare (Condition i op v t e) = Condition [] op v (map bare t) (map bare e)"

lemma cond_op_of_text: "cond_op_of (Some (cond_op_text op)) = op"
  by (cases op) (simp_all add: cond_op_of_def cond_op_text_def)

lemma branch_reads_back:
  assumes "\<not> is_condition n" "saveable num str n" "stored num (stepInput num str n) s"
  shows "\<exists>n'. branchNode str s = Some n' \<and> bare n' = bare n \<and> pw_kind s \<noteq> ''condition''"
  using assms
  by (cases n) (auto simp: branchNode_def slaFromHours_def hoursFromSla_def or_empty_def split: option.splits if_splits)

lemma branches_read_back:
  "list_all (\<lambda>n. \<not> is_condition n) ns \<Longrightarrow> list_all (saveable num str) ns \<Longrightarrow>
   list_all2 (stored num) (map (stepInput num str) ns) steps \<Longrightarrow> map bare (branchNodes str steps) = map bare ns"
proof (induction ns arbitrary: steps)
  case (Cons n ns)
  from Cons.prems(3) obtain s ss where ss: "steps = s # ss" "stored num (stepInput num str n) s"
    "list_all2 (stored num) (map (stepInput num str) ns) ss" by (auto simp: list_all2_Cons1)
  then show ?case using Cons branch_reads_back [of n num str s] by (auto simp: branchNodes_def List.map_filter_simps)
qed (simp add: branchNodes_def List.map_filter_simps)

text \<open>C34: saving. Where the server answers the steps it was sent, the tree read from its answer is the
  tree that was saved, up to the server's own ids.\<close>

theorem saved_tree_reads_back:
  assumes "two_deep ns" and "list_all (saveable num str) ns"
    and "list_all2 (stored num) (stepInputsFromNodes num str ns) steps"
  shows "map bare (nodesFromSteps num str steps) = map bare ns"
  using assms
proof (induction ns arbitrary: steps)
  case Nil
  then show ?case by (simp add: stepInputsFromNodes_def nodesFromSteps_def List.map_filter_simps)
next
  case (Cons n ns)
  from Cons.prems(3) obtain s ss where ss: "steps = s # ss" "stored num (stepInput num str n) s"
    "list_all2 (stored num) (stepInputsFromNodes num str ns) ss"
    by (auto simp: list_all2_Cons1 stepInputsFromNodes_def)
  have rest: "map bare (nodesFromSteps num str ss) = map bare ns" using Cons ss(3) by simp
  show ?case
  proof (cases "is_condition n")
    case True
    then obtain i op v t e where n: "n = Condition i op v t e" by (cases n) auto
    have "map bare (branchNodes str (pw_then s)) = map bare t" "map bare (branchNodes str (pw_else s)) = map bare e"
      using Cons.prems(1,2) ss(2) n by (auto intro!: branches_read_back)
    then show ?thesis
      using Cons.prems(2) ss(1,2) n rest
      by (auto simp: nodesFromSteps_def List.map_filter_simps cond_op_of_text number_text_def split: option.splits)
  next
    case False
    then show ?thesis
      using Cons.prems(2) ss(1) rest branch_reads_back [OF False _ ss(2)]
      by (auto simp: nodesFromSteps_def List.map_filter_simps)
  qed
qed

definition sample_num :: "string \<Rightarrow> js_number" where
  "sample_num t = (if t = ''48'' then Some 48 else if t = ''100'' \<or> t = ''100.00'' then Some 100 else None)"

definition sample_str :: "rat \<Rightarrow> string" where
  "sample_str x = (if x = 48 then ''48'' else ''100'')"

theorem saved_tree_witness:
  "map bare (nodesFromSteps sample_num sample_str
     [Policy_Step ''1'' ''approval'' (Some ''fin_mgr'') (Some 48) False None None None None None [] [],
      Policy_Step ''2'' ''condition'' None None False None (Some ''>'') (Some ''100.00'') None None
        [Policy_Step ''3'' ''notify'' None None False None None None (Some ''Board'') (Some ''Email'') [] []]
        [Policy_Step ''4'' ''autoapprove'' None None False None None None None None [] []]])
   = map bare (po_nodes sample_tree)"
  by (rule saved_tree_reads_back)
    (simp_all add: sample_tree_def stepInputsFromNodes_def hoursFromSla_def number_text_def cond_op_text_def
      sample_num_def sample_str_def or_empty_def)

end
