(* ===== verification/Members.thy ===== *)
theory Members
  imports Workflows
begin

text \<open>
  Members and pending invites of a workspace (\<open>lib/members.ts\<close>): the roster and its projections, the
  last-admin guard and the locks of the screen, and the invite pipeline from pasted text to chips.
  Lower-casing is ASCII's. Initials and names derived from an address, the sentences of the drawer and
  the expiry line are not modelled.
\<close>

subsection \<open>Members\<close>

text \<open>The wire's vocabulary is wider than the types of the source, which cast; any other text is kept.\<close>

datatype access_role = Admin | Preparer | Reviewer | Other_Role string
datatype member_status = Active | Invited | Suspended | Removed | Other_Status string
datatype client_access = All_Clients | Clients "string list"

record member =
  mb_id :: string
  mb_name :: string
  mb_email :: "string option"
  mb_role :: access_role
  mb_status :: member_status
  mb_isYou :: bool
  mb_clientAccess :: "client_access option"

definition is_approver_role :: "access_role \<Rightarrow> bool" where
  "is_approver_role r \<longleftrightarrow> r = Admin \<or> r = Reviewer"

definition delegateCandidates :: "member list \<Rightarrow> (string \<times> string) list" where
  "delegateCandidates ms = map (\<lambda>m. (mb_id m, mb_name m))
     (filter (\<lambda>m. mb_status m = Active \<and> (mb_role m = Admin \<or> mb_role m = Reviewer)) ms)"

definition REMOVED_NAME :: string where "REMOVED_NAME = ''Deleted member''"

definition ineligibleDelegateReason :: "member list \<Rightarrow> string \<Rightarrow> string \<Rightarrow> string option" where
  "ineligibleDelegateReason ms delegateId stepTitle =
    (if delegateId = [] then None
     else
       (let m = find (\<lambda>x. mb_id x = delegateId) ms in
        if (case m of Some x \<Rightarrow> mb_status x = Active \<and> (mb_role x = Admin \<or> mb_role x = Reviewer) | None \<Rightarrow> False)
        then None
        else
          (let name = (case m of
               None \<Rightarrow> REMOVED_NAME
             | Some x \<Rightarrow> if mb_name x \<noteq> [] then mb_name x
                 else (case mb_email x of Some e \<Rightarrow> if e \<noteq> [] then e else REMOVED_NAME | None \<Rightarrow> REMOVED_NAME))
           in Some (name @ '' can no longer be a delegate on '' @ stepTitle
                @ ''. Pick another delegate or switch delegation off.''))))"

definition activeAdmins :: "member list \<Rightarrow> member list" where
  "activeAdmins ms = filter (\<lambda>m. mb_role m = Admin \<and> mb_status m = Active) ms"

definition replaceMember :: "member list \<Rightarrow> member \<Rightarrow> member list" where
  "replaceMember ms next_row = map (\<lambda>m. if mb_id m = mb_id next_row then next_row else m) ms"

definition addMembers :: "member list \<Rightarrow> member list \<Rightarrow> member list" where
  "addMembers ms added = ms @ added"

definition removeMember :: "member list \<Rightarrow> string \<Rightarrow> member list" where
  "removeMember ms ident = filter (\<lambda>m. mb_id m \<noteq> ident) ms"

definition isProtectedAdmin :: "member list \<Rightarrow> member \<Rightarrow> bool" where
  "isProtectedAdmin ms m =
    (if mb_role m \<noteq> Admin \<or> mb_status m \<noteq> Active then False else length (activeAdmins ms) = 1)"

definition text_contains :: "string \<Rightarrow> string \<Rightarrow> bool" where
  "text_contains q s \<longleftrightarrow> list_ex (\<lambda>i. starts_with q (drop i s)) [0..<length s + 1]"

definition isFiltering :: "string \<Rightarrow> access_role option \<Rightarrow> bool" where
  "isFiltering query roleFilter \<longleftrightarrow> trim query \<noteq> [] \<or> roleFilter \<noteq> None"

definition filterMembers :: "member list \<Rightarrow> string \<Rightarrow> access_role option \<Rightarrow> member list" where
  "filterMembers ms query roleFilter =
    (if \<not> isFiltering query roleFilter then ms
     else
       (let q = ascii_lower (trim query) in
        filter (\<lambda>m.
          (case roleFilter of Some r \<Rightarrow> \<not> (mb_status m = Removed \<or> mb_role m \<noteq> r) | None \<Rightarrow> True) \<and>
          (q = [] \<or> text_contains q (ascii_lower (mb_name m)) \<or>
           text_contains q (ascii_lower (case mb_email m of None \<Rightarrow> [] | Some e \<Rightarrow> e)))) ms))"

subsection \<open>Client access\<close>

record client_entity =
  ce_id :: string
  ce_name :: string
  ce_active :: bool

definition pickerClients :: "client_entity list \<Rightarrow> client_access \<Rightarrow> (string \<times> string) list" where
  "pickerClients entities access =
    (let held = (case access of All_Clients \<Rightarrow> [] | Clients ids \<Rightarrow> ids)
     in map (\<lambda>e. (ce_id e, ce_name e)) (filter (\<lambda>e. ce_active e \<or> ce_id e \<in> set held) entities))"

definition clientAccessLabel :: "client_access option \<Rightarrow> string option" where
  "clientAccessLabel access = (case access of
      None \<Rightarrow> None
    | Some All_Clients \<Rightarrow> Some ''All clients''
    | Some (Clients ids) \<Rightarrow>
        if length ids = 0 then Some ''No clients''
        else Some (if length ids = 1 then ''1 client'' else show_nat (length ids) @ '' clients''))"

definition clientAccessTitle :: "client_entity list \<Rightarrow> client_access option \<Rightarrow> string option" where
  "clientAccessTitle entities access = (case access of
      Some (Clients ids) \<Rightarrow>
        (let names = map snd (filter (\<lambda>c. fst c \<in> set ids) (pickerClients entities (Clients ids)))
         in if length names > 0 then Some (join '', '' names) else None)
    | _ \<Rightarrow> None)"

definition filterClientRoster :: "(string \<times> string) list \<Rightarrow> string \<Rightarrow> (string \<times> string) list" where
  "filterClientRoster clients query =
    (let q = ascii_lower (trim query)
     in if q = [] then clients else filter (\<lambda>c. text_contains q (ascii_lower (snd c))) clients)"

definition needsClientPick :: "client_access \<Rightarrow> bool" where
  "needsClientPick access = (case access of All_Clients \<Rightarrow> False | Clients ids \<Rightarrow> length ids = 0)"

subsection \<open>Locks\<close>

definition ROLE_ADMIN_ONLY :: string where "ROLE_ADMIN_ONLY = ''Only an admin can change an access role.''"
definition MEMBER_ADMIN_ONLY :: string where "MEMBER_ADMIN_ONLY = ''Only an admin can manage members.''"
definition MEMBER_CLIENTS_ADMIN_ONLY :: string where
  "MEMBER_CLIENTS_ADMIN_ONLY = ''Only an admin can choose a member'' @ bytes [39] @ ''s clients.''"
definition WFROLE_ADMIN_ONLY :: string where "WFROLE_ADMIN_ONLY = ''Only an admin can change workflow roles.''"
definition INVITE_ADMIN_ONLY :: string where "INVITE_ADMIN_ONLY = ''Only an admin can invite people.''"
definition PROTECTED_ADMIN_NOTE :: string where
  "PROTECTED_ADMIN_NOTE = ''You'' @ bytes [39] @ ''re the only admin. Promote someone else first.''"

definition viewerIsAdmin :: "member list \<Rightarrow> bool" where
  "viewerIsAdmin ms \<longleftrightarrow> list_ex (\<lambda>m. mb_isYou m \<and> mb_role m = Admin \<and> mb_status m = Active) ms"

definition roleCardsLock :: "member list \<Rightarrow> member \<Rightarrow> string option" where
  "roleCardsLock ms row = (if \<not> viewerIsAdmin ms then Some ROLE_ADMIN_ONLY
     else if isProtectedAdmin ms row then Some PROTECTED_ADMIN_NOTE else None)"

definition memberActionsLock :: "member list \<Rightarrow> member \<Rightarrow> string option" where
  "memberActionsLock ms row = (if \<not> viewerIsAdmin ms then Some MEMBER_ADMIN_ONLY
     else if isProtectedAdmin ms row then Some PROTECTED_ADMIN_NOTE else None)"

definition clientPickerLock :: "member list \<Rightarrow> string option" where
  "clientPickerLock ms = (if viewerIsAdmin ms then None else Some MEMBER_CLIENTS_ADMIN_ONLY)"

definition workflowRolesLock :: "member list \<Rightarrow> string option" where
  "workflowRolesLock ms = (if viewerIsAdmin ms then None else Some WFROLE_ADMIN_ONLY)"

definition inviteActionsLock :: "member list \<Rightarrow> string option" where
  "inviteActionsLock ms = (if viewerIsAdmin ms then None else Some INVITE_ADMIN_ONLY)"

definition viewerHasNoClients :: "member list \<Rightarrow> bool" where
  "viewerHasNoClients ms \<longleftrightarrow> list_ex (\<lambda>m. mb_isYou m \<and> mb_status m = Active \<and> mb_role m \<noteq> Admin \<and>
     mb_clientAccess m = Some (Clients [])) ms"

datatype company_setup_access = Setup_Add | Setup_Wait | Setup_Loading | Setup_Error

definition companySetupAccess :: "async_status \<Rightarrow> member list \<Rightarrow> company_setup_access" where
  "companySetupAccess membersState ms =
    (if membersState = A_Error then Setup_Error
     else if membersState = A_Idle then Setup_Add
     else if (membersState = A_Loading \<or> membersState = A_Ready) \<and> length ms = 0 then Setup_Loading
     else if viewerIsAdmin ms then Setup_Add else Setup_Wait)"

datatype members_surface = Surface_Loading | Surface_Error | Surface_Empty | Surface_Roster

definition membersSurface :: "async_status \<Rightarrow> members_surface" where
  "membersSurface status =
    (if status = A_Loading then Surface_Loading
     else if status = A_Error then Surface_Error
     else if status = A_Idle \<or> status = A_Empty then Surface_Empty
     else Surface_Roster)"

subsection \<open>Invites\<close>

datatype invite_verdict = Verdict_Ok | Already_Member | Already_Invited | Malformed_Address

definition address_separators :: "string list" where
  "address_separators = [[CHR '',''], [CHR '';'']] @ js_space"

text \<open>\<open>split(/[,;\s]+/)\<close>: cut at every separator; the empty pieces a run of them leaves are dropped by the
  caller, as the empty pieces at the ends are.\<close>

lemma address_separators_ne: "w \<in> set address_separators \<Longrightarrow> w \<noteq> []"
  by (auto simp: address_separators_def js_space_def bytes_def)

function address_pieces :: "string \<Rightarrow> string \<Rightarrow> string list" where
  "address_pieces piece [] = [piece]"
| "address_pieces piece (c # s) =
    (case strip_one address_separators (c # s) of
       Some rest \<Rightarrow> piece # address_pieces [] rest
     | None \<Rightarrow> address_pieces (piece @ [c]) s)"
  by pat_completeness auto
termination
proof (relation "measure (\<lambda>(piece, s). length s)")
  fix piece :: string and c s rest
  assume "strip_one address_separators (c # s) = Some rest"
  from strip_one_shorter [OF this address_separators_ne]
  show "(([], rest), (piece, c # s)) \<in> measure (\<lambda>(piece, s). length s)" by simp
qed simp_all

text \<open>Keep the first spelling of each address; the two callers start from nothing and from the chips.\<close>

definition add_unseen :: "string list \<Rightarrow> string \<Rightarrow> string list" where
  "add_unseen out address = (if ascii_lower address \<in> ascii_lower ` set out then out else out @ [address])"

definition parseEmailInput :: "string \<Rightarrow> string list" where
  "parseEmailInput raw = foldl add_unseen [] (filter (\<lambda>a. a \<noteq> []) (address_pieces [] raw))"

definition mergeChips :: "string list \<Rightarrow> string list \<Rightarrow> string list" where
  "mergeChips current added = foldl add_unseen current added"

definition has_space :: "string \<Rightarrow> bool" where
  "has_space s \<longleftrightarrow> list_ex (\<lambda>i. strip_one js_space (drop i s) \<noteq> None) [0..<length s]"

text \<open>The regular expression \<open>EMAIL_RE\<close>: one \<open>@\<close>, no white space, and a dot inside the domain.\<close>

definition isValidEmail :: "string \<Rightarrow> bool" where
  "isValidEmail s = (case split_on CHR ''@'' s of
      [local, domain] \<Rightarrow> local \<noteq> [] \<and> \<not> has_space s \<and> CHR ''.'' \<in> set (butlast (drop 1 domain))
    | _ \<Rightarrow> False)"

definition local_tokens :: "string \<Rightarrow> string list" where
  "local_tokens email = filter (\<lambda>t. t \<noteq> [])
     (split_on CHR ''.'' (map (\<lambda>c. if c \<in> set ''._+-'' then CHR ''.'' else c) (hd (split_on CHR ''@'' email))))"

definition hasDerivableName :: "string \<Rightarrow> bool" where
  "hasDerivableName email \<longleftrightarrow> length (local_tokens email) > 0"

definition email_or_empty :: "member \<Rightarrow> string" where
  "email_or_empty m = (case mb_email m of None \<Rightarrow> [] | Some e \<Rightarrow> e)"

definition classifyInvites :: "member list \<Rightarrow> string list \<Rightarrow> invite_verdict list" where
  "classifyInvites existing addresses = map (\<lambda>address.
      if \<not> isValidEmail address then Malformed_Address
      else case find (\<lambda>m. ascii_lower (email_or_empty m) = ascii_lower address) existing of
          None \<Rightarrow> Verdict_Ok
        | Some m \<Rightarrow> if mb_status m = Invited then Already_Invited else Already_Member) addresses"

definition MAX_EMAIL_BYTES :: nat where "MAX_EMAIL_BYTES = 254"

text \<open>The control characters, those of the second block in their UTF-8 encoding.\<close>

definition has_control :: "string \<Rightarrow> bool" where
  "has_control s \<longleftrightarrow> list_ex (\<lambda>c. byte c < 32 \<or> byte c = 127) s \<or>
     list_ex (\<lambda>i. byte (s ! i) = 0xC2 \<and> 0x80 \<le> byte (s ! (i + 1)) \<and> byte (s ! (i + 1)) < 0xA0) [0..<length s - 1]"

definition chipVerdicts :: "member list \<Rightarrow> string list \<Rightarrow> string list \<Rightarrow> invite_verdict list" where
  "chipVerdicts existing chips serverRefused = map2 (\<lambda>c v.
      if v = Verdict_Ok \<and> (\<not> hasDerivableName c \<or> length c > MAX_EMAIL_BYTES \<or> has_control c \<or> c \<in> set serverRefused)
      then Malformed_Address else v) chips (classifyInvites existing chips)"

subsection \<open>Pending invites\<close>

datatype invite_account = Account_None | Account_Unconfirmed | Account_Confirmed | Account_Unknown

record pending_invite =
  pi_id :: string
  pi_email :: string
  pi_role :: access_role
  pi_expiresAt :: string
  pi_delivery :: string
  pi_account :: "invite_account option"

record invitation_wire =
  iw_id :: string
  iw_email :: string
  iw_role :: access_role
  iw_expires_at :: string
  iw_delivery :: string
  iw_account :: "string option"

definition toPendingInvite :: "invitation_wire \<Rightarrow> pending_invite" where
  "toPendingInvite w = \<lparr>pi_id = iw_id w, pi_email = iw_email w, pi_role = iw_role w, pi_expiresAt = iw_expires_at w,
     pi_delivery = iw_delivery w,
     pi_account = (case iw_account w of None \<Rightarrow> None
       | Some a \<Rightarrow> Some (if a = ''none'' then Account_None else if a = ''unconfirmed'' then Account_Unconfirmed
           else if a = ''confirmed'' then Account_Confirmed else Account_Unknown))\<rparr>"

definition removeInvite :: "pending_invite list \<Rightarrow> string \<Rightarrow> pending_invite list" where
  "removeInvite invites ident = filter (\<lambda>i. pi_id i \<noteq> ident) invites"

definition upsertInvites :: "pending_invite list \<Rightarrow> pending_invite list \<Rightarrow> pending_invite list" where
  "upsertInvites invites items =
     map (\<lambda>i. case find (\<lambda>x. pi_id x = pi_id i) items of
         None \<Rightarrow> i
       | Some n \<Rightarrow> if pi_account n = None \<and> pi_account i \<noteq> None then n\<lparr>pi_account := pi_account i\<rparr> else n) invites
     @ filter (\<lambda>n. \<not> list_ex (\<lambda>i. pi_id i = pi_id n) invites) items"

definition inviteAccountLine :: "pending_invite \<Rightarrow> string option" where
  "inviteAccountLine i = (if pi_account i = Some Account_Unconfirmed then Some ''Account created, email not confirmed''
     else if pi_account i = Some Account_Confirmed then Some ''Confirmed, not joined'' else None)"

subsection \<open>The last admin\<close>

lemma activeAdmins_replace:
  assumes "distinct (map mb_id ms)" "row \<in> set ms" "mb_id next_row = mb_id row"
  shows "activeAdmins (replaceMember ms next_row) \<noteq> [] \<longleftrightarrow>
    mb_role next_row = Admin \<and> mb_status next_row = Active \<or> (\<exists>m \<in> set (activeAdmins ms). m \<noteq> row)"
proof -
  have "mb_id m = mb_id row \<longleftrightarrow> m = row" if "m \<in> set ms" for m
    using assms(1,2) that by (auto simp: distinct_map inj_on_def)
  then show ?thesis
    using assms by (auto simp: activeAdmins_def replaceMember_def filter_empty_conv)
qed

lemma only_admin:
  assumes "distinct (map mb_id ms)" "row \<in> set ms" "viewerIsAdmin ms"
  shows "isProtectedAdmin ms row \<longleftrightarrow> \<not> (\<exists>m \<in> set (activeAdmins ms). m \<noteq> row)"
proof -
  have d: "distinct (activeAdmins ms)" using assms(1) by (simp add: activeAdmins_def distinct_map)
  obtain v where v: "v \<in> set (activeAdmins ms)" using assms(3) by (auto simp: viewerIsAdmin_def activeAdmins_def list_ex_iff)
  show ?thesis
  proof (cases "row \<in> set (activeAdmins ms)")
    case True
    then have "length (activeAdmins ms) = 1 \<longleftrightarrow> set (activeAdmins ms) = {row}"
      using d by (metis One_nat_def card_1_singleton_iff distinct_card insertI1 singletonD)
    then show ?thesis using True by (auto simp: isProtectedAdmin_def activeAdmins_def)
  next
    case False
    then show ?thesis using v assms(2) by (auto simp: isProtectedAdmin_def activeAdmins_def)
  qed
qed

text \<open>C32: the last admin. To an admin, the controls of a member are open exactly when the workspace keeps an
  active admin after the change: suspending or removing the member, or giving it another access role.
  To anyone else they are closed.\<close>

theorem last_admin_kept:
  assumes "distinct (map mb_id ms)" and "row \<in> set ms"
  shows "(memberActionsLock ms row = None) =
      (viewerIsAdmin ms \<and> activeAdmins (replaceMember ms (row\<lparr>mb_status := Suspended\<rparr>)) \<noteq> []) \<and>
    (memberActionsLock ms row = None) =
      (viewerIsAdmin ms \<and> activeAdmins (removeMember ms (mb_id row)) \<noteq> []) \<and>
    (roleCardsLock ms row = None) =
      (viewerIsAdmin ms \<and> activeAdmins (replaceMember ms (row\<lparr>mb_role := Preparer\<rparr>)) \<noteq> [])"
proof -
  have id: "mb_id m = mb_id row \<longleftrightarrow> m = row" if "m \<in> set ms" for m
    using assms that by (auto simp: distinct_map inj_on_def)
  then have "activeAdmins (removeMember ms (mb_id row)) \<noteq> [] \<longleftrightarrow> (\<exists>m \<in> set (activeAdmins ms). m \<noteq> row)"
    by (auto simp: activeAdmins_def removeMember_def filter_empty_conv)
  then show ?thesis
    using only_admin [OF assms] activeAdmins_replace [OF assms, of "row\<lparr>mb_status := Suspended\<rparr>"]
      activeAdmins_replace [OF assms, of "row\<lparr>mb_role := Preparer\<rparr>"]
    by (auto simp: memberActionsLock_def roleCardsLock_def)
qed

subsection \<open>Chips\<close>

lemma add_unseen_distinct:
  "distinct (map ascii_lower out) \<Longrightarrow> distinct (map ascii_lower (foldl add_unseen out as))"
  by (induction as arbitrary: out) (auto simp: add_unseen_def)

lemma add_unseen_set:
  "ascii_lower ` set (foldl add_unseen out as) = ascii_lower ` set out \<union> ascii_lower ` set as"
  by (induction as arbitrary: out) (auto simp: add_unseen_def)

lemma add_unseen_keeps: "\<exists>new. foldl add_unseen out as = out @ new \<and> set new \<subseteq> set as"
proof (induction as arbitrary: out)
  case (Cons a as)
  obtain new where new: "foldl add_unseen (add_unseen out a) as = add_unseen out a @ new" "set new \<subseteq> set as"
    using Cons [of "add_unseen out a"] by blast
  consider "add_unseen out a = out" | "add_unseen out a = out @ [a]"
    by (cases "ascii_lower a \<in> ascii_lower ` set out") (simp_all add: add_unseen_def)
  then show ?case
  proof cases
    case 1
    then show ?thesis using new by (intro exI [of _ new]) auto
  next
    case 2
    then show ?thesis using new by (intro exI [of _ "a # new"]) auto
  qed
qed simp

definition pasted :: "string list \<Rightarrow> string list" where
  "pasted raws = concat (map (\<lambda>raw. filter (\<lambda>a. a \<noteq> []) (address_pieces [] raw)) raws)"

definition chips_after :: "string list \<Rightarrow> string list" where
  "chips_after raws = foldl (\<lambda>chips raw. mergeChips chips (parseEmailInput raw)) [] raws"

lemma chips_after_snoc: "chips_after (raws @ [raw]) = mergeChips (chips_after raws) (parseEmailInput raw)"
  by (simp add: chips_after_def)

lemma chips_set: "ascii_lower ` set (chips_after raws) = ascii_lower ` set (pasted raws) \<and>
    set (chips_after raws) \<subseteq> set (pasted raws) \<and> distinct (map ascii_lower (chips_after raws))"
proof (induction raws rule: rev_induct)
  case (snoc raw raws)
  let ?as = "filter (\<lambda>a. a \<noteq> []) (address_pieces [] raw)"
  have "set (parseEmailInput raw) \<subseteq> set ?as" "ascii_lower ` set (parseEmailInput raw) = ascii_lower ` set ?as"
    using add_unseen_keeps [of "[]" ?as] add_unseen_set [of "[]" ?as] by (auto simp: parseEmailInput_def)
  moreover have "set (mergeChips (chips_after raws) (parseEmailInput raw)) \<subseteq>
      set (chips_after raws) \<union> set (parseEmailInput raw)"
    using add_unseen_keeps [of "chips_after raws" "parseEmailInput raw"] by (auto simp: mergeChips_def)
  ultimately show ?case
    using snoc add_unseen_set [of "chips_after raws" "parseEmailInput raw"]
      add_unseen_distinct [of "chips_after raws" "parseEmailInput raw"]
    by (auto simp: chips_after_snoc pasted_def mergeChips_def)
qed (simp add: chips_after_def pasted_def)

lemma chipVerdicts_map:
  "chipVerdicts existing chips refused = map (\<lambda>c. hd (chipVerdicts existing [c] refused)) chips"
  by (induction chips) (simp_all add: chipVerdicts_def classifyInvites_def)

lemma chip_ok:
  "hd (chipVerdicts existing [c] refused) = Verdict_Ok \<longleftrightarrow>
     isValidEmail c \<and> hasDerivableName c \<and> length c \<le> 254 \<and> \<not> has_control c \<and> c \<notin> set refused \<and>
     ascii_lower c \<notin> ascii_lower ` email_or_empty ` set existing"
proof -
  have "find (\<lambda>m. ascii_lower (email_or_empty m) = ascii_lower c) existing = None \<longleftrightarrow>
      ascii_lower c \<notin> ascii_lower ` email_or_empty ` set existing"
    by (auto simp: find_None_iff image_iff)
  then show ?thesis
    by (auto simp: chipVerdicts_def classifyInvites_def MAX_EMAIL_BYTES_def split: option.splits if_splits)
qed

text \<open>The invite chips. Whatever texts are pasted, every address in them becomes a chip, once up to case
  and in a spelling that was pasted; and a chip may be sent exactly if it is a valid address of a length
  and characters the server takes, that no member or pending invite has and that was not refused.\<close>

theorem invite_chips_exact:
  "distinct (map ascii_lower (chips_after raws)) \<and> set (chips_after raws) \<subseteq> set (pasted raws) \<and>
   ascii_lower ` set (chips_after raws) = ascii_lower ` set (pasted raws) \<and>
   map (\<lambda>v. v = Verdict_Ok) (chipVerdicts existing (chips_after raws) refused) =
     map (\<lambda>c. isValidEmail c \<and> hasDerivableName c \<and> length c \<le> 254 \<and> \<not> has_control c \<and> c \<notin> set refused \<and>
       ascii_lower c \<notin> ascii_lower ` email_or_empty ` set existing) (chips_after raws)"
proof -
  have "map (\<lambda>v. v = Verdict_Ok) (chipVerdicts existing (chips_after raws) refused) =
      map (\<lambda>c. hd (chipVerdicts existing [c] refused) = Verdict_Ok) (chips_after raws)"
    by (subst chipVerdicts_map) simp
  then show ?thesis using chips_set [of raws] by (simp add: chip_ok)
qed

definition sample_members :: "member list" where
  "sample_members =
     [\<lparr>mb_id = ''u1'', mb_name = ''Ada'', mb_email = Some ''ada@x.ng'', mb_role = Admin, mb_status = Active,
       mb_isYou = True, mb_clientAccess = None\<rparr>,
      \<lparr>mb_id = ''u2'', mb_name = ''Bola'', mb_email = None, mb_role = Reviewer, mb_status = Active,
       mb_isYou = False, mb_clientAccess = None\<rparr>]"

theorem last_admin_witness:
  "memberActionsLock sample_members (sample_members ! 0) \<noteq> None \<and>
   memberActionsLock sample_members (sample_members ! 1) = None"
proof -
  have "distinct (map mb_id sample_members)" "sample_members ! 0 \<in> set sample_members"
    "sample_members ! 1 \<in> set sample_members"
    by (simp_all add: sample_members_def)
  note lock = last_admin_kept [OF this(1,2), THEN conjunct1] last_admin_kept [OF this(1,3), THEN conjunct1]
  show ?thesis unfolding lock
    by (simp add: sample_members_def viewerIsAdmin_def activeAdmins_def replaceMember_def)
qed

end
