(* ===== verification/Roles.thy ===== *)
theory Roles
  imports Members
begin

text \<open>
  Workflow roles (\<open>lib/roles.ts\<close>): a seat with its title and its holders, what a seat resolves to on the
  card, the canvas and the inspector, the policy steps that name it, the picker of the role dialog, and
  what a change of access role would leave unsigned. Lower-casing is ASCII's.
\<close>

subsection \<open>Seats\<close>

record role =
  ro_key :: string
  ro_title :: string
  ro_desc :: string
  ro_members :: "string list"

record resolved =
  rv_text :: string
  rv_warn :: bool

record role_use =
  ru_id :: string
  ru_name :: string
  ru_steps :: int
  ru_scope :: bool

record role_steps =
  rp_total :: nat
  rp_policies :: "(string \<times> nat) list"

definition isApprover :: "access_role \<Rightarrow> bool" where
  "isApprover r \<longleftrightarrow> r = Admin \<or> r = Reviewer"

definition replaceRole :: "role list \<Rightarrow> role \<Rightarrow> role list" where
  "replaceRole rs next_role = map (\<lambda>r. if ro_key r = ro_key next_role then next_role else r) rs"

definition addRole :: "role list \<Rightarrow> role \<Rightarrow> role list" where
  "addRole rs next_role = rs @ [next_role]"

definition removeRole :: "role list \<Rightarrow> string \<Rightarrow> role list" where
  "removeRole rs key = filter (\<lambda>r. ro_key r \<noteq> key) rs"

text \<open>\<open>roleOf\<close>: the role and whether it stands in for a deleted one.\<close>

definition roleOf :: "role list \<Rightarrow> string \<Rightarrow> role \<times> bool" where
  "roleOf rs key = (case find (\<lambda>r. ro_key r = key) rs of
      Some r \<Rightarrow> (r, False)
    | None \<Rightarrow> (\<lparr>ro_key = key, ro_title = ''Deleted role'', ro_desc = '''', ro_members = []\<rparr>, True))"

definition holders :: "role list \<Rightarrow> member list \<Rightarrow> string \<Rightarrow> member list" where
  "holders rs ms key = (case find (\<lambda>r. ro_key r = key) rs of
      None \<Rightarrow> []
    | Some role \<Rightarrow> List.map_filter (\<lambda>i. find (\<lambda>m. mb_id m = i) ms) (ro_members role))"

definition activeHolders :: "role list \<Rightarrow> member list \<Rightarrow> string \<Rightarrow> member list" where
  "activeHolders rs ms key = filter (\<lambda>m. mb_status m = Active \<and> isApprover (mb_role m)) (holders rs ms key)"

definition rolesOfMember :: "role list \<Rightarrow> string \<Rightarrow> role list" where
  "rolesOfMember rs memberId = filter (\<lambda>r. memberId \<in> set (ro_members r)) rs"

definition rosterRoleCell :: "role list \<Rightarrow> string \<Rightarrow> string \<times> string" where
  "rosterRoleCell rs memberId =
    (let titles = map ro_title (rolesOfMember rs memberId); extra = length titles - 1
     in if length titles = 0 then (em_dash, [])
        else (if extra > 0 then hd titles @ '' +'' @ show_nat extra else hd titles, join (bytes [10]) titles))"

datatype resolution = Seat_Missing | Seat_Empty | Seat_Blocked string nat | Seat_Held string nat

definition resolution :: "role list \<Rightarrow> member list \<Rightarrow> string \<Rightarrow> resolution" where
  "resolution rs ms key =
    (if \<not> list_ex (\<lambda>r. ro_key r = key) rs then Seat_Missing
     else
       (let all = holders rs ms key;
            active = filter (\<lambda>m. mb_status m = Active \<and> isApprover (mb_role m)) all;
            extra = length all - 1
        in if length all = 0 then Seat_Empty
           else if length active = 0 then Seat_Blocked (mb_name (hd all)) extra
           else Seat_Held (mb_name (hd active)) extra))"

definition resolve :: "role list \<Rightarrow> member list \<Rightarrow> string \<Rightarrow> resolved" where
  "resolve rs ms key =
    (let named = (\<lambda>primary extra. if extra > 0 then primary @ '' +'' @ show_nat extra else primary) in
     case resolution rs ms key of
       Seat_Missing \<Rightarrow> \<lparr>rv_text = ''Role no longer exists'', rv_warn = True\<rparr>
     | Seat_Empty \<Rightarrow> \<lparr>rv_text = ''Nobody assigned'', rv_warn = True\<rparr>
     | Seat_Blocked primary extra \<Rightarrow> \<lparr>rv_text = named primary extra, rv_warn = True\<rparr>
     | Seat_Held primary extra \<Rightarrow> \<lparr>rv_text = named primary extra, rv_warn = False\<rparr>)"

definition inspectorResolve :: "role list \<Rightarrow> member list \<Rightarrow> string \<Rightarrow> resolved" where
  "inspectorResolve rs ms key = (case resolution rs ms key of
       Seat_Missing \<Rightarrow> \<lparr>rv_text = ''Role no longer exists'', rv_warn = True\<rparr>
     | Seat_Empty \<Rightarrow> \<lparr>rv_text = ''Nobody holds this role '' @ em_dash @ '' this step will block'', rv_warn = True\<rparr>
     | Seat_Blocked primary extra \<Rightarrow>
         \<lparr>rv_text = ''Currently: '' @ primary @ '' '' @ em_dash @ '' this step will block'', rv_warn = True\<rparr>
     | Seat_Held primary extra \<Rightarrow> \<lparr>rv_text = ''Currently: '' @ primary, rv_warn = False\<rparr>)"

definition unassignedRoles :: "role list \<Rightarrow> member list \<Rightarrow> role list" where
  "unassignedRoles rs ms = filter (\<lambda>r. length (activeHolders rs ms (ro_key r)) = 0) rs"

subsection \<open>Steps that name a seat\<close>

definition names_key :: "string set \<Rightarrow> wf_node \<Rightarrow> bool" where
  "names_key keys n = (case n of Approval _ role _ _ _ \<Rightarrow> role \<in> keys | _ \<Rightarrow> False)"

definition count_steps :: "string set \<Rightarrow> wf_node list \<Rightarrow> nat" where
  "count_steps keys ns = sum_list (map (\<lambda>n. case n of
      Condition _ _ _ t e \<Rightarrow> length (filter (names_key keys) (t @ e))
    | _ \<Rightarrow> if names_key keys n then 1 else 0) ns)"

definition stepsForKeys :: "policy list \<Rightarrow> string set \<Rightarrow> role_steps" where
  "stepsForKeys ps keys = foldl (\<lambda>r p.
      (let n = count_steps keys (po_nodes p)
       in if n > 0 then \<lparr>rp_total = rp_total r + n, rp_policies = rp_policies r @ [(po_name p, n)]\<rparr> else r))
     \<lparr>rp_total = 0, rp_policies = []\<rparr> ps"

definition steps :: "policy list \<Rightarrow> string \<Rightarrow> role_steps" where
  "steps ps key = stepsForKeys ps {key}"

definition stepsForMember :: "policy list \<Rightarrow> role list \<Rightarrow> string \<Rightarrow> role_steps option" where
  "stepsForMember ps rs memberId =
    (let found = stepsForKeys ps (set (map ro_key (rolesOfMember rs memberId)))
     in if rp_total found > 0 then Some found else None)"

definition filterRoles :: "role list \<Rightarrow> string \<Rightarrow> role list" where
  "filterRoles rs query =
    (let q = ascii_lower (trim query)
     in if q = [] then rs
        else filter (\<lambda>r. text_contains q (ascii_lower (ro_title r)) \<or> text_contains q (ascii_lower (ro_desc r))) rs)"

definition role_intro :: "role list \<Rightarrow> string" where
  "role_intro rs =
    (let head = ''A role is a named seat in your approval policies'';
         tail = ''Workflow steps point at the role; the people here are who actually signs.'';
         named = map ro_title (take 2 rs)
     in if length named = 2 then head @ '' '' @ em_dash @ '' '' @ join '', '' named @ ''. '' @ tail
        else head @ ''. '' @ tail)"

definition roleUsage :: "int \<Rightarrow> int \<Rightarrow> string" where
  "roleUsage n p =
    (if p = 0 then ''not used in any policy''
     else show_int n @ '' approval '' @ (if n = 1 then ''step'' else ''steps'') @ '' '' @ middle_dot @ '' '' @
       show_int p @ '' '' @ (if p = 1 then ''policy'' else ''policies''))"

record use_summary =
  us_steps :: int
  us_policies :: int
  us_scopes :: int

definition use_summary_of :: "role_use list option \<Rightarrow> use_summary" where
  "use_summary_of uses =
    (let rows = (case uses of None \<Rightarrow> [] | Some us \<Rightarrow> us)
     in \<lparr>us_steps = sum_list (map ru_steps rows), us_policies = int (length rows),
         us_scopes = int (length (filter ru_scope rows))\<rparr>)"

definition draftSteps :: "policy list \<Rightarrow> string \<Rightarrow> nat" where
  "draftSteps ps key = rp_total (steps (filter (\<lambda>p. po_status p = Draft_Version) ps) key)"

definition unassignedNotice :: "nat \<Rightarrow> string" where
  "unassignedNotice n =
    (if n = 1 then ''1 role has nobody active assigned. Approval steps pointed at it will block.''
     else show_nat n @ '' roles have nobody active assigned. Approval steps pointed at them will block.'')"

subsection \<open>Changing an access role\<close>

definition leavesApproverRole :: "member \<Rightarrow> access_role \<Rightarrow> bool" where
  "leavesApproverRole m next_role \<longleftrightarrow> mb_status m = Active \<and> isApprover (mb_role m) \<and> next_role = Preparer"

definition approverGaps :: "role list \<Rightarrow> member list \<Rightarrow> string \<Rightarrow> access_role \<Rightarrow> role list" where
  "approverGaps rs ms memberId next_role =
    (case find (\<lambda>m. mb_id m = memberId) ms of
       None \<Rightarrow> []
     | Some m \<Rightarrow>
         if \<not> leavesApproverRole m next_role then []
         else filter (\<lambda>r.
           (let active = activeHolders rs ms (ro_key r)
            in length active = 1 \<and> mb_id (hd active) = memberId)) rs)"

definition approverGapNotice :: "string \<Rightarrow> string list \<Rightarrow> string" where
  "approverGapNotice name titles =
    (let tail = (if length titles = 1 then ''this role will block until someone else holds it.''
                 else ''these roles will block until someone else holds them.'')
     in name @ '' is the only admin or reviewer in '' @ join ('' '' @ middle_dot @ '' '') titles
        @ ''. Approval steps for '' @ tail)"

subsection \<open>The role dialog\<close>

definition pickerMembers :: "member list \<Rightarrow> member list" where
  "pickerMembers ms = filter (\<lambda>m. mb_status m = Active \<or> mb_status m = Suspended) ms"

definition hiddenInvitedCount :: "member list \<Rightarrow> nat" where
  "hiddenInvitedCount ms = length (filter (\<lambda>m. mb_status m = Invited) ms)"

definition filterPickerMembers :: "member list \<Rightarrow> string \<Rightarrow> member list" where
  "filterPickerMembers ms query =
    (let q = ascii_lower (trim query)
     in if q = [] then ms
        else filter (\<lambda>m. text_contains q (ascii_lower (mb_name m)) \<or> text_contains q (ascii_lower (email_or_empty m))) ms)"

definition pickerSelectionCount :: "nat \<Rightarrow> member list \<Rightarrow> string" where
  "pickerSelectionCount selected ms = show_nat selected @ '' of '' @ show_nat (length (pickerMembers ms)) @ '' selected''"

definition pickerHiddenAmongSelected :: "string list \<Rightarrow> member list \<Rightarrow> nat" where
  "pickerHiddenAmongSelected selected ms =
     length (filter (\<lambda>i. i \<notin> mb_id ` set (pickerMembers ms)) selected)"

definition canSaveRole :: "string \<Rightarrow> bool" where
  "canSaveRole name \<longleftrightarrow> trim name \<noteq> []"

definition rolePatch :: "role \<Rightarrow> string \<Rightarrow> string \<Rightarrow> (string \<times> string) list" where
  "rolePatch current title desc = (if title \<noteq> ro_title current then [(''title'', title)] else []) @
     (if desc \<noteq> ro_desc current then [(''desc'', desc)] else [])"

definition rolesSurface :: "async_status \<Rightarrow> async_status \<Rightarrow> members_surface" where
  "rolesSurface rolesStatus membersStatus =
    (if rolesStatus = A_Error \<or> membersStatus = A_Error then Surface_Error
     else if rolesStatus = A_Loading \<or> membersStatus = A_Loading then Surface_Loading
     else if rolesStatus = A_Idle \<or> rolesStatus = A_Empty \<or> membersStatus = A_Idle \<or> membersStatus = A_Empty
     then Surface_Empty
     else Surface_Roster)"

subsection \<open>Requests and refusals\<close>

datatype role_body =
    Role_Body string string
  | Role_Patch "(string \<times> string) list"
  | Role_Members "string list"

definition roles_url :: "string \<Rightarrow> string" where
  "roles_url base = base @ ''/api/invoice/v1/workflow-roles''"

definition createWorkflowRole :: "string \<Rightarrow> string \<Rightarrow> string \<Rightarrow> role_body request" where
  "createWorkflowRole base title desc = request POST (roles_url base) (Some (Role_Body title desc))"

definition updateWorkflowRole :: "string \<Rightarrow> string \<Rightarrow> (string \<times> string) list \<Rightarrow> role_body request" where
  "updateWorkflowRole base key patch =
     request PATCH (roles_url base @ ''/'' @ encodeURIComponent key) (Some (Role_Patch patch))"

definition deleteWorkflowRole :: "string \<Rightarrow> string \<Rightarrow> role_body request" where
  "deleteWorkflowRole base key = request DELETE (roles_url base @ ''/'' @ encodeURIComponent key) None"

definition setRoleMembers :: "string \<Rightarrow> string \<Rightarrow> string list \<Rightarrow> role_body request" where
  "setRoleMembers base key memberIds =
     request PUT (roles_url base @ ''/'' @ encodeURIComponent key @ ''/members'') (Some (Role_Members memberIds))"

text \<open>\<open>f\<close> answers each request with a role or a failure; the second request is for the key of the first answer.\<close>

definition createStaffedRole ::
  "(role_body request \<Rightarrow> failure + role) \<Rightarrow> string \<Rightarrow> string \<Rightarrow> string \<Rightarrow> string list \<Rightarrow> failure + role"
where
  "createStaffedRole f base title desc memberIds =
    (case f (createWorkflowRole base title desc) of
       Inl e \<Rightarrow> Inl e
     | Inr created \<Rightarrow>
         if length memberIds = 0 then Inr created else f (setRoleMembers base (ro_key created) memberIds))"

definition conflict_body :: "failure \<Rightarrow> json" where
  "conflict_body err = (case err of Api_Error a \<Rightarrow> if ae_status a = Some 409 then ae_body a else JUndefined | _ \<Rightarrow> JUndefined)"

definition inUsePolicyNames :: "failure \<Rightarrow> string list" where
  "inUsePolicyNames err = (case member (conflict_body err) ''policies'' of
      JArr ps \<Rightarrow> List.map_filter (\<lambda>p. case member p ''name'' of JStr s \<Rightarrow> Some s | _ \<Rightarrow> None) ps
    | _ \<Rightarrow> [])"

definition inUseInvoices :: "failure \<Rightarrow> string list \<times> rat" where
  "inUseInvoices err = (case member (conflict_body err) ''invoices'' of
      JArr is \<Rightarrow>
        (let numbers = List.map_filter (\<lambda>i. case member i ''invoice_number'' of JStr s \<Rightarrow> Some s | _ \<Rightarrow> None) is;
             tot = (case member (conflict_body err) ''invoices_total'' of JNum n \<Rightarrow> n | _ \<Rightarrow> 0)
         in (numbers, max tot (of_nat (length numbers))))
    | _ \<Rightarrow> ([], 0))"

definition DELETE_REFUSED_IN_FORCE :: string where
  "DELETE_REFUSED_IN_FORCE =
     ''The delete is refused while a policy in force names it in a scope or an approval step.''"

definition DRAFT_TAIL :: string where
  "DRAFT_TAIL = ''A draft that names it keeps it, and those steps cannot publish until you point them somewhere else.''"

definition deleteRoleConfirm :: "string \<Rightarrow> use_summary \<Rightarrow> nat \<Rightarrow> string" where
  "deleteRoleConfirm title u draftStepCount =
    (let tail = (if draftStepCount > 0 then '' '' @ DRAFT_TAIL else [])
     in if us_policies u = 0 then ''Delete '' @ title @ ''? '' @ DELETE_REFUSED_IN_FORCE @ tail
        else
          (let scope = (if us_scopes u > 0
             then '' '' @ show_int (us_scopes u) @ '' '' @
               (if us_scopes u = 1 then ''policy names'' else ''policies name'') @ '' it in a creator scope.''
             else [])
           in ''Delete '' @ title @ ''? In force: '' @ roleUsage (us_steps u) (us_policies u) @ ''.'' @ scope
              @ '' '' @ DELETE_REFUSED_IN_FORCE @ tail))"

subsection \<open>Gaps\<close>

definition can_sign :: "member list \<Rightarrow> string \<Rightarrow> bool" where
  "can_sign ms i = (case find (\<lambda>m. mb_id m = i) ms of
      None \<Rightarrow> False | Some m \<Rightarrow> mb_status m = Active \<and> isApprover (mb_role m))"

lemma find_key:
  "distinct (map ro_key rs) \<Longrightarrow> r \<in> set rs \<Longrightarrow> find (\<lambda>x. ro_key x = ro_key r) rs = Some r"
  by (rule find_distinct)

lemma activeHolders_ids:
  assumes "distinct (map ro_key rs)" "r \<in> set rs"
  shows "map mb_id (activeHolders rs ms (ro_key r)) = filter (can_sign ms) (ro_members r)"
proof -
  have "map mb_id (filter (\<lambda>m. mb_status m = Active \<and> isApprover (mb_role m))
      (List.map_filter (\<lambda>i. find (\<lambda>m. mb_id m = i) ms) is)) = filter (can_sign ms) is" for "is"
  proof (induction "is")
    case (Cons i "is")
    show ?case
    proof (cases "find (\<lambda>m. mb_id m = i) ms")
      case None
      then show ?thesis using Cons by (simp add: List.map_filter_simps can_sign_def)
    next
      case (Some m)
      then have "mb_id m = i" using find_SomeD by fast
      then show ?thesis using Some Cons by (simp add: List.map_filter_simps can_sign_def)
    qed
  qed (simp add: List.map_filter_simps)
  then show ?thesis by (simp add: activeHolders_def holders_def find_key [OF assms])
qed

lemma unassigned_iff:
  assumes "distinct (map ro_key rs)" "r \<in> set rs"
  shows "r \<in> set (unassignedRoles rs ms) \<longleftrightarrow> (\<forall>i \<in> set (ro_members r). \<not> can_sign ms i)"
proof -
  have "length (activeHolders rs ms (ro_key r)) = 0 \<longleftrightarrow> map mb_id (activeHolders rs ms (ro_key r)) = []" by simp
  then show ?thesis using assms(2) by (auto simp: unassignedRoles_def activeHolders_ids [OF assms] filter_empty_conv)
qed

lemma find_replace:
  assumes "m \<in> set ms"
  shows "find (\<lambda>x. mb_id x = i) (replaceMember ms (m\<lparr>mb_role := r\<rparr>)) =
    (if i = mb_id m then Some (m\<lparr>mb_role := r\<rparr>) else find (\<lambda>x. mb_id x = i) ms)"
proof -
  have "find (\<lambda>x. mb_id x = i) (replaceMember ms (m\<lparr>mb_role := r\<rparr>)) =
    (if i = mb_id m then (if mb_id m \<in> mb_id ` set ms then Some (m\<lparr>mb_role := r\<rparr>) else None)
     else find (\<lambda>x. mb_id x = i) ms)"
    by (induction ms) (auto simp: replaceMember_def)
  then show ?thesis using assms by simp
qed

lemma filter_single:
  assumes "distinct is"
  shows "filter p is = [i] \<longleftrightarrow> i \<in> set is \<and> p i \<and> (\<forall>j \<in> set is. p j \<longrightarrow> j = i)"
proof -
  have "ys = [i]" if "distinct ys" "set ys = {i}" for ys
    using that by (cases ys; cases "tl ys") auto
  moreover have "set (filter p is) = {i}" if "filter p is = [i]" by (subst that) simp
  ultimately have "filter p is = [i] \<longleftrightarrow> set (filter p is) = {i}" using assms distinct_filter by blast
  then show ?thesis by auto
qed

lemma resolve_warn:
  "rv_warn (resolve rs ms k) = (case resolution rs ms k of Seat_Held p x \<Rightarrow> False | _ \<Rightarrow> True)"
  "rv_warn (inspectorResolve rs ms k) = (case resolution rs ms k of Seat_Held p x \<Rightarrow> False | _ \<Rightarrow> True)"
  by (cases "resolution rs ms k"; simp add: resolve_def inspectorResolve_def Let_def)+

text \<open>C33: seats and access roles. The gaps warned about are exactly the seats that someone can sign for
  and that no one can once the member has the other role; and a step shows its warning, on the card and
  in the inspector alike, exactly when no one can sign for its seat.\<close>

theorem approverGaps_exact:
  assumes "distinct (map ro_key rs)" and "list_all (\<lambda>r. distinct (ro_members r)) rs"
    and "distinct (map mb_id ms)" and "m \<in> set ms" and "next_role \<in> {Admin, Preparer, Reviewer}"
  shows "approverGaps rs ms (mb_id m) next_role = filter (\<lambda>r. r \<notin> set (unassignedRoles rs ms) \<and>
      r \<in> set (unassignedRoles rs (replaceMember ms (m\<lparr>mb_role := next_role\<rparr>)))) rs \<and>
    list_all (\<lambda>r. rv_warn (resolve rs ms (ro_key r)) = (r \<in> set (unassignedRoles rs ms)) \<and>
      rv_warn (inspectorResolve rs ms (ro_key r)) = (r \<in> set (unassignedRoles rs ms))) rs"
proof
  let ?ms' = "replaceMember ms (m\<lparr>mb_role := next_role\<rparr>)" let ?id = "mb_id m"
  have found: "find (\<lambda>x. mb_id x = ?id) ms = Some m" by (rule find_distinct [OF assms(3,4)])
  have here: "can_sign ms ?id = (mb_status m = Active \<and> isApprover (mb_role m))" by (simp add: can_sign_def found)
  have after: "can_sign ?ms' i = (if i = ?id then mb_status m = Active \<and> isApprover next_role else can_sign ms i)" for i
    by (simp add: can_sign_def find_replace [OF assms(4)])
  have gap: "(leavesApproverRole m next_role \<and> filter (can_sign ms) (ro_members r) = [?id]) =
      (r \<notin> set (unassignedRoles rs ms) \<and> r \<in> set (unassignedRoles rs ?ms'))" if "r \<in> set rs" for r
  proof -
    have "distinct (ro_members r)" using assms(2) that by (simp add: list_all_iff)
    then show ?thesis
      using assms(5) here
      by (auto simp: unassigned_iff [OF assms(1) that] filter_single leavesApproverRole_def after isApprover_def)
  qed
  have one: "(length (activeHolders rs ms (ro_key r)) = 1 \<and> mb_id (hd (activeHolders rs ms (ro_key r))) = ?id) =
      (filter (can_sign ms) (ro_members r) = [?id])" if "r \<in> set rs" for r
    unfolding activeHolders_ids [OF assms(1) that, symmetric]
    by (cases "activeHolders rs ms (ro_key r)") auto
  have "approverGaps rs ms ?id next_role =
      filter (\<lambda>r. leavesApproverRole m next_role \<and> filter (can_sign ms) (ro_members r) = [?id]) rs"
    using one by (auto simp: approverGaps_def found Let_def intro!: filter_cong)
  also have "\<dots> = filter (\<lambda>r. r \<notin> set (unassignedRoles rs ms) \<and> r \<in> set (unassignedRoles rs ?ms')) rs"
    using gap by (intro filter_cong) auto
  finally show "approverGaps rs ms ?id next_role = filter (\<lambda>r. r \<notin> set (unassignedRoles rs ms) \<and>
      r \<in> set (unassignedRoles rs ?ms')) rs" .
  have warn: "(case resolution rs ms (ro_key r) of Seat_Held p x \<Rightarrow> False | _ \<Rightarrow> True) = (r \<in> set (unassignedRoles rs ms))"
    if "r \<in> set rs" for r
    using that by (auto simp: resolution_def unassignedRoles_def activeHolders_def Let_def list_ex_iff)
  show "list_all (\<lambda>r. rv_warn (resolve rs ms (ro_key r)) = (r \<in> set (unassignedRoles rs ms)) \<and>
      rv_warn (inspectorResolve rs ms (ro_key r)) = (r \<in> set (unassignedRoles rs ms))) rs"
    using warn by (simp add: list_all_iff resolve_warn)
qed

definition sample_roles :: "role list" where
  "sample_roles = [\<lparr>ro_key = ''k'', ro_title = ''Finance'', ro_desc = '''', ro_members = [''u2'']\<rparr>,
     \<lparr>ro_key = ''l'', ro_title = ''Legal'', ro_desc = '''', ro_members = [''u1'', ''u2'']\<rparr>]"

theorem approverGaps_witness:
  "map ro_key (filter (\<lambda>r. r \<notin> set (unassignedRoles sample_roles sample_members) \<and>
      r \<in> set (unassignedRoles sample_roles
        (replaceMember sample_members ((sample_members ! 1)\<lparr>mb_role := Preparer\<rparr>)))) sample_roles) = [''k'']"
proof -
  have "distinct (map ro_key sample_roles)" "list_all (\<lambda>r. distinct (ro_members r)) sample_roles"
    "distinct (map mb_id sample_members)" "sample_members ! 1 \<in> set sample_members"
    by (simp_all add: sample_roles_def sample_members_def)
  then have "approverGaps sample_roles sample_members (mb_id (sample_members ! 1)) Preparer =
    filter (\<lambda>r. r \<notin> set (unassignedRoles sample_roles sample_members) \<and>
      r \<in> set (unassignedRoles sample_roles
        (replaceMember sample_members ((sample_members ! 1)\<lparr>mb_role := Preparer\<rparr>)))) sample_roles"
    by (intro approverGaps_exact [THEN conjunct1]) simp_all
  moreover have "map ro_key (approverGaps sample_roles sample_members (mb_id (sample_members ! 1)) Preparer) = [''k'']"
    by (simp add: approverGaps_def sample_members_def sample_roles_def leavesApproverRole_def isApprover_def
        activeHolders_def holders_def List.map_filter_simps)
  ultimately show ?thesis by simp
qed

end
