(* ===== verification/Approvals.thy ===== *)
theory Approvals
  imports Session "HOL-Library.Multiset"
begin

text \<open>
  The approval queue and the approval run of an invoice (\<open>lib/approvals.ts\<close>): which rows can be selected
  and approved, the bulk bar, the sequential posting of decisions, the results panel, and the state a run
  shows. \<open>fmtDate\<close> (a locale date) is an argument.
\<close>

subsection \<open>Rows\<close>

record approval_row_view =
  av_approvable :: bool
  av_selectable :: bool
  av_pendingOrd :: "int option"
  av_stepLabel :: string
  av_roleLabel :: string
  av_pendingHolderWarn :: bool
  av_dueAt :: "string option"
  av_overdue :: bool
  av_blockedReason :: "string option"

definition isApprovableRow :: "invoice \<Rightarrow> bool" where
  "isApprovableRow r \<longleftrightarrow> iv_can_approve r"

definition isSelectableRow :: "invoice \<Rightarrow> bool" where
  "isSelectableRow r \<longleftrightarrow> isApprovableRow r \<or> iv_approve_blocked_by_creator r"

definition approvalSelectableIds :: "invoice list \<Rightarrow> string list" where
  "approvalSelectableIds rows = map iv_id (filter isSelectableRow rows)"

definition pruneApprovalSelection :: "string list \<Rightarrow> invoice list \<Rightarrow> string list" where
  "pruneApprovalSelection sel rows = filter (\<lambda>i. i \<in> set (approvalSelectableIds rows)) sel"

definition approvalSelectAllState :: "string list \<Rightarrow> invoice list \<Rightarrow> all_state" where
  "approvalSelectAllState selected rows =
    (let selectable = approvalSelectableIds rows;
         matched = length (filter (\<lambda>i. i \<in> set selected) selectable)
     in if length selectable = 0 then NoneSelected
        else if matched = 0 then NoneSelected
        else if matched = length selectable then AllSelected else SomeSelected)"

definition approvalRowView :: "invoice \<Rightarrow> approval_row_view" where
  "approvalRowView r =
    (let approval = iv_approval r; pendingOrd = Option.bind approval ap_pending_ord
     in \<lparr>av_approvable = isApprovableRow r, av_selectable = isSelectableRow r, av_pendingOrd = pendingOrd,
         av_stepLabel = (case pendingOrd of None \<Rightarrow> em_dash | Some n \<Rightarrow> ''Step '' @ show_int (n + 1)),
         av_roleLabel = (case Option.bind approval ap_pending_role_title of None \<Rightarrow> em_dash | Some t \<Rightarrow> t),
         av_pendingHolderWarn = (case approval of None \<Rightarrow> False | Some a \<Rightarrow> ap_pending_holder_warn a),
         av_dueAt = Option.bind approval ap_due_at,
         av_overdue = (case approval of None \<Rightarrow> False | Some a \<Rightarrow> ap_overdue a),
         av_blockedReason = iv_approve_blocked_reason r\<rparr>)"

subsection \<open>The bar\<close>

datatype approval_phase = Approval_Idle | Approval_Armed | Approval_Submitting

record approval_result_row =
  ar_invoiceNumber :: string
  ar_ok :: bool
  ar_label :: string
  ar_message :: "string option"

record approvals_bar_view =
  ab_visible :: bool
  ab_eligible :: "string list"
  ab_toSend :: "string list"
  ab_localRefused :: "approval_result_row list"
  ab_notReady :: nat
  ab_countLabel :: string
  ab_note :: "string option"
  ab_refused :: "string list"
  ab_submitLabel :: string
  ab_confirmPrompt :: string
  ab_confirmDetail :: string
  ab_confirmLabel :: string
  ab_canApprove :: bool

text \<open>\<open>Map.set\<close> of the numbers under one reason: a key keeps its place.\<close>

fun add_reason :: "(string \<times> string list) list \<Rightarrow> string \<Rightarrow> string \<Rightarrow> (string \<times> string list) list" where
  "add_reason [] reason number = [(reason, [number])]"
| "add_reason ((k, ns) # m) reason number =
    (if k = reason then (k, ns @ [number]) # m else (k, ns) # add_reason m reason number)"

definition refused_lines :: "invoice list \<Rightarrow> string list" where
  "refused_lines rows =
     map (\<lambda>(reason, numbers). if reason \<noteq> [] then join '', '' numbers @ '': '' @ reason else join '', '' numbers)
       (foldl (\<lambda>m r.
          if isApprovableRow r \<or> \<not> iv_approve_blocked_by_creator r then m
          else add_reason m (case iv_approve_blocked_reason r of None \<Rightarrow> [] | Some t \<Rightarrow> t) (iv_invoice_number r)) [] rows)"

definition approvalsBarView :: "string list \<Rightarrow> invoice list \<Rightarrow> approval_phase \<Rightarrow> bool \<Rightarrow> approvals_bar_view" where
  "approvalsBarView selected rows phase pageLoading =
    (let eligible = pruneApprovalSelection selected rows;
         notReady = length rows - length (approvalSelectableIds rows);
         n = length eligible;
         selectedRows = filter (\<lambda>r. iv_id r \<in> set eligible) rows;
         approvableRows = filter isApprovableRow selectedRows;
         approvable = length approvableRows;
         is_open = (\<not> pageLoading \<and> phase \<noteq> Approval_Submitting)
     in \<lparr>ab_visible = (n > 0), ab_eligible = eligible, ab_toSend = map iv_id approvableRows,
         ab_localRefused = map (\<lambda>r. \<lparr>ar_invoiceNumber = iv_invoice_number r, ar_ok = False, ar_label = ''Not approved'',
             ar_message = iv_approve_blocked_reason r\<rparr>) (filter (\<lambda>r. \<not> isApprovableRow r) selectedRows),
         ab_notReady = notReady,
         ab_countLabel = show_nat n @ '' selected on this page'',
         ab_note = (if notReady > 0 then Some (show_nat notReady @ '' of the '' @ show_nat (length rows) @ '' '' @
             (if length rows = 1 then ''row'' else ''rows'') @ '' on this page aren'' @ bytes [39] @ ''t eligible for approval.'')
           else None),
         ab_refused = refused_lines selectedRows,
         ab_submitLabel = ''Approve '' @ show_nat approvable @ '' on this page'',
         ab_confirmPrompt = ''Approve '' @ show_nat approvable @ '' '' @ (if approvable = 1 then ''invoice'' else ''invoices'') @ ''?'',
         ab_confirmDetail = ''This can'' @ bytes [39] @ ''t be undone once you confirm, and another approver may have already acted on one of these rows.'',
         ab_confirmLabel = ''Yes, approve '' @ show_nat approvable @ '' now'',
         ab_canApprove = (approvable > 0 \<and> is_open)\<rparr>)"

subsection \<open>Posting decisions\<close>

record approve_result =
  av_id :: string
  av_failed :: "string option"  \<comment> \<open>the message of a failure\<close>

definition failure_message :: "failure \<Rightarrow> string" where
  "failure_message e = (case e of
      Api_Error a \<Rightarrow> ae_message a | Session_Ended \<Rightarrow> ''session ended'' | Other_Failure m \<Rightarrow> m)"

datatype decision_body = Approve_Body | Reject_Body "string option"

definition decision_request :: "string \<Rightarrow> string \<Rightarrow> decision_body \<Rightarrow> decision_body request" where
  "decision_request base ident b = request POST (base @ ''/api/invoice/v1/invoices/'' @ ident @ ''/approvals'') (Some b)"

definition decideInvoice :: "string \<Rightarrow> string \<Rightarrow> bool \<Rightarrow> string option \<Rightarrow> decision_body request" where
  "decideInvoice base ident approved reason =
     decision_request base ident (if approved then Approve_Body else Reject_Body reason)"

text \<open>One request after another; \<open>f k\<close> answers the \<open>k\<close>-th, and \<open>aborted k\<close> says whether the signal was
  aborted before it.\<close>

fun approve_loop ::
  "(nat \<Rightarrow> decision_body request \<Rightarrow> failure + json) \<Rightarrow> (nat \<Rightarrow> bool) \<Rightarrow> string \<Rightarrow> nat \<Rightarrow> string list \<Rightarrow> approve_result list"
where
  "approve_loop f aborted base i [] = []"
| "approve_loop f aborted base i (ident # ids) =
    (if aborted i then []
     else \<lparr>av_id = ident, av_failed = (case f i (decision_request base ident Approve_Body) of
             Inr _ \<Rightarrow> None | Inl e \<Rightarrow> Some (failure_message e))\<rparr> # approve_loop f aborted base (i + 1) ids)"

definition approveInvoices ::
  "(nat \<Rightarrow> decision_body request \<Rightarrow> failure + json) \<Rightarrow> (nat \<Rightarrow> bool) \<Rightarrow> string \<Rightarrow> string list \<Rightarrow> approve_result list"
where
  "approveInvoices f aborted base ids = approve_loop f aborted base 0 ids"

definition approvalOutcome :: "approve_result list \<Rightarrow> (string \<Rightarrow> string option) \<Rightarrow> approval_result_row list" where
  "approvalOutcome results numbersById = map (\<lambda>r.
      \<lparr>ar_invoiceNumber = (case numbersById (av_id r) of None \<Rightarrow> av_id r | Some n \<Rightarrow> n),
       ar_ok = (av_failed r = None), ar_label = (if av_failed r = None then ''Approved'' else ''Not approved''),
       ar_message = av_failed r\<rparr>) results"

definition approvalProgressLabel :: "nat \<Rightarrow> nat \<Rightarrow> string" where
  "approvalProgressLabel finished tot = show_nat finished @ '' of '' @ show_nat tot @ '' sent'' @ bytes [0xE2, 0x80, 0xA6]"

text \<open>\<open>confirmApprove\<close> of \<open>components/ApprovalsView.tsx\<close>, up to the results it shows: the rows refused here, then one row per
  answer, named by the numbers of the page. It returns before any request, and reports nothing, when there is nothing to send,
  when the confirmation is not armed, and while an earlier one is on its way.\<close>

definition confirmApprove ::
  "(nat \<Rightarrow> decision_body request \<Rightarrow> failure + json) \<Rightarrow> (nat \<Rightarrow> bool) \<Rightarrow> string \<Rightarrow> approvals_bar_view \<Rightarrow> invoice list
     \<Rightarrow> approval_phase \<Rightarrow> bool \<Rightarrow> approval_result_row list option"
where
  "confirmApprove f aborted base bar rows phase approveInFlight =
    (if length (ab_toSend bar) = 0 then None
     else if phase \<noteq> Approval_Armed then None
     else if approveInFlight then None
     else Some (ab_localRefused bar @ approvalOutcome (approveInvoices f aborted base (ab_toSend bar))
       (map_of (rev (map (\<lambda>r. (iv_id r, iv_invoice_number r)) rows)))))"

subsection \<open>The run of an invoice\<close>

record approval_run_step =
  st_ord :: int
  st_kind :: string
  st_state :: string
  st_role_title :: "string option"
  st_holder :: "(string \<times> bool) option"
  st_due_at :: "string option"
  st_overdue :: bool

record approval_run =
  an_run_id :: string
  an_state :: string
  an_steps :: "approval_run_step list"

definition isNoApprovalRun :: "failure \<Rightarrow> bool" where
  "isNoApprovalRun e = (case e of Api_Error a \<Rightarrow> ae_kind a = Http \<and> ae_status a = Some 404 | _ \<Rightarrow> False)"

definition getInvoiceApprovalRun :: "failure + approval_run \<Rightarrow> failure + approval_run option" where
  "getInvoiceApprovalRun answer = (case answer of
      Inr run \<Rightarrow> Inr (Some run) | Inl e \<Rightarrow> if isNoApprovalRun e then Inr None else Inl e)"

definition canRejectReason :: "string \<Rightarrow> bool" where
  "canRejectReason reason \<longleftrightarrow> trim reason \<noteq> []"

definition decisionBlockedReasons :: "string option \<Rightarrow> string option \<Rightarrow> string list" where
  "decisionBlockedReasons approve reject = (case (approve, reject) of
      (None, None) \<Rightarrow> []
    | (None, Some r) \<Rightarrow> [r]
    | (Some a, None) \<Rightarrow> [a]
    | (Some a, Some r) \<Rightarrow> if r = a then [a] else [a, r])"

definition pendingApprovalStep :: "approval_run \<Rightarrow> approval_run_step option" where
  "pendingApprovalStep run =
    (if an_state run \<noteq> ''open'' then None
     else foldl (\<lambda>best s.
       if st_kind s \<noteq> ''approval'' \<or> st_state s \<noteq> ''pending'' then best
       else (case best of None \<Rightarrow> Some s | Some b \<Rightarrow> if st_ord s < st_ord b then Some s else best)) None (an_steps run))"

datatype run_tone = Amber_Tone | Green_Tone | Red_Tone | Muted_Tone

definition approvalRunStateView :: "string \<Rightarrow> string \<times> run_tone" where
  "approvalRunStateView state =
    (if state = ''open'' then (''In progress'', Amber_Tone)
     else if state = ''approved'' then (''Approved'', Green_Tone)
     else if state = ''rejected'' then (''Rejected'', Red_Tone)
     else if state = ''cancelled'' then (''Voided'', Muted_Tone)
     else (state, Muted_Tone))"

record approval_pending_view =
  vp_roleTitle :: string
  vp_holderText :: "string option"
  vp_holderWarn :: bool
  vp_dueLabel :: "string option"
  vp_overdue :: bool

record approval_state_view =
  vs_label :: string
  vs_tone :: run_tone
  vs_voided :: bool
  vs_pending :: "approval_pending_view option"

definition approvalStateView :: "(string \<Rightarrow> string) \<Rightarrow> approval_run \<Rightarrow> approval_state_view" where
  "approvalStateView fmtDate run =
    (let state = approvalRunStateView (an_state run)
     in \<lparr>vs_label = fst state, vs_tone = snd state, vs_voided = (an_state run = ''cancelled''),
         vs_pending = map_option (\<lambda>s.
            \<lparr>vp_roleTitle = (case st_role_title s of None \<Rightarrow> em_dash | Some t \<Rightarrow> t),
             vp_holderText = map_option fst (st_holder s),
             vp_holderWarn = (case st_holder s of None \<Rightarrow> False | Some h \<Rightarrow> snd h),
             vp_dueLabel = (if st_overdue s then Some ''Overdue'' else map_option fmtDate (st_due_at s)),
             vp_overdue = st_overdue s\<rparr>) (pendingApprovalStep run)\<rparr>)"

subsection \<open>Every selected row is accounted for\<close>

interpretation approval_selection: row_selection iv_id isSelectableRow toggleSelection pruneApprovalSelection
  by unfold_locales (auto simp: toggleSelection_def pruneApprovalSelection_def approvalSelectableIds_def image_iff
      intro!: filter_cong)

lemma approve_loop_eq:
  "approve_loop f aborted base i ids = map (\<lambda>(k, ident).
     \<lparr>av_id = ident, av_failed = (case f k (decision_request base ident Approve_Body) of
        Inr _ \<Rightarrow> None | Inl e \<Rightarrow> Some (failure_message e))\<rparr>)
     (takeWhile (\<lambda>(k, ident). \<not> aborted k) (zip [i..<i + length ids] ids))"
proof (induction ids arbitrary: i)
  case (Cons ident ids)
  have "[i..<i + length (ident # ids)] = i # [Suc i..<Suc i + length ids]" by (simp add: upt_rec)
  then show ?case using Cons.IH [of "Suc i"] by simp
qed simp

definition selected_rows :: "string list \<Rightarrow> invoice list \<Rightarrow> invoice list" where
  "selected_rows selected rows = filter (\<lambda>r. iv_id r \<in> set selected \<and> isSelectableRow r) rows"

lemma bar_rows:
  assumes "distinct (map iv_id rows)"
  shows "filter (\<lambda>r. iv_id r \<in> set (pruneApprovalSelection selected rows)) rows = selected_rows selected rows"
  unfolding selected_rows_def
proof (rule filter_cong [OF refl])
  fix r assume r: "r \<in> set rows"
  have "q = r" if "q \<in> set rows" "iv_id q = iv_id r" for q
    using assms r that by (auto simp: distinct_map inj_on_def)
  then show "(iv_id r \<in> set (pruneApprovalSelection selected rows)) = (iv_id r \<in> set selected \<and> isSelectableRow r)"
    using r by (auto simp: approval_selection.set_prune)
qed

text \<open>The row reported for a posted invoice, and for one refused before the posting.\<close>

definition posted_row :: "(nat \<Rightarrow> decision_body request \<Rightarrow> failure + json) \<Rightarrow> string \<Rightarrow> nat \<times> invoice \<Rightarrow> approval_result_row" where
  "posted_row f base = (\<lambda>(k, r). case f k (decision_request base (iv_id r) Approve_Body) of
      Inr _ \<Rightarrow> \<lparr>ar_invoiceNumber = iv_invoice_number r, ar_ok = True, ar_label = ''Approved'', ar_message = None\<rparr>
    | Inl e \<Rightarrow> \<lparr>ar_invoiceNumber = iv_invoice_number r, ar_ok = False, ar_label = ''Not approved'',
        ar_message = Some (failure_message e)\<rparr>)"

lemma posted_rows:
  assumes "distinct (map iv_id rows)" "set rs \<subseteq> set rows"
  shows "approvalOutcome (approveInvoices f aborted base (map iv_id rs))
      (map_of (rev (map (\<lambda>r. (iv_id r, iv_invoice_number r)) rows))) =
    map (posted_row f base) (takeWhile (\<lambda>(k, r). \<not> aborted k) (zip [0..<length rs] rs))"
proof -
  let ?m = "map_of (rev (map (\<lambda>r. (iv_id r, iv_invoice_number r)) rows))"
  have number: "?m (iv_id r) = Some (iv_invoice_number r)" if "r \<in> set rs" for r
  proof (rule map_of_is_SomeI)
    show "distinct (map fst (rev (map (\<lambda>r. (iv_id r, iv_invoice_number r)) rows)))"
      using assms(1) by (simp add: rev_map [symmetric] comp_def)
  qed (use that assms(2) in auto)
  have loop: "approvalOutcome (approve_loop f aborted base i (map iv_id rs)) ?m =
      map (posted_row f base) (takeWhile (\<lambda>(k, r). \<not> aborted k) (zip [i..<i + length rs] rs))"
    if "\<And>r. r \<in> set rs \<Longrightarrow> ?m (iv_id r) = Some (iv_invoice_number r)" for rs i
    using that
  proof (induction rs arbitrary: i)
    case (Cons r rs)
    have "[i..<i + length (r # rs)] = i # [Suc i..<Suc i + length rs]" by (simp add: upt_rec)
    then show ?case using Cons.IH [of "Suc i"] Cons.prems by (simp add: approvalOutcome_def posted_row_def split: sum.split)
  qed (simp add: approvalOutcome_def)
  from loop [of rs 0, OF number] show ?thesis by (simp add: approveInvoices_def)
qed

text \<open>C21: approving a selection. A confirmation that is not armed, that comes while another is on its way or that
  has nothing to send reports nothing. Any other posts exactly the selected rows that may be approved, in page order, one
  after another until it is aborted, and reports first each selected row refused here, with its own reason and as not
  approved, then each posted row under its own number: as approved when the server took it, and else as not approved with the message
  of the failure. Without an abort every selected row is reported once.\<close>

theorem approvals_accounted:
  assumes "distinct (map iv_id rows)"
  shows "ab_toSend (approvalsBarView selected rows phase loading) =
      map iv_id (filter isApprovableRow (selected_rows selected rows)) \<and>
    confirmApprove f aborted base (approvalsBarView selected rows phase loading) rows phase busy =
      (if filter isApprovableRow (selected_rows selected rows) = [] \<or> phase \<noteq> Approval_Armed \<or> busy then None
       else Some (
         map (\<lambda>r. \<lparr>ar_invoiceNumber = iv_invoice_number r, ar_ok = False, ar_label = ''Not approved'',
               ar_message = iv_approve_blocked_reason r\<rparr>) (filter (\<lambda>r. \<not> isApprovableRow r) (selected_rows selected rows)) @
         map (\<lambda>(k, r). case f k (decision_request base (iv_id r) Approve_Body) of
               Inr _ \<Rightarrow> \<lparr>ar_invoiceNumber = iv_invoice_number r, ar_ok = True, ar_label = ''Approved'', ar_message = None\<rparr>
             | Inl e \<Rightarrow> \<lparr>ar_invoiceNumber = iv_invoice_number r, ar_ok = False, ar_label = ''Not approved'',
                 ar_message = Some (failure_message e)\<rparr>)
           (takeWhile (\<lambda>(k, r). \<not> aborted k)
             (zip [0..<length (filter isApprovableRow (selected_rows selected rows))]
                (filter isApprovableRow (selected_rows selected rows)))))) \<and>
    (case confirmApprove f (\<lambda>k. False) base (approvalsBarView selected rows phase loading) rows phase busy of
       None \<Rightarrow> True
     | Some results \<Rightarrow> mset (map ar_invoiceNumber results) = mset (map iv_invoice_number (selected_rows selected rows)))"
proof -
  let ?bar = "approvalsBarView selected rows phase loading"
  define sel where "sel = selected_rows selected rows"
  have send: "ab_toSend ?bar = map iv_id (filter isApprovableRow sel)"
    by (simp add: approvalsBarView_def Let_def bar_rows [OF assms] sel_def del: filter_filter)
  have refused: "ab_localRefused ?bar = map (\<lambda>r. \<lparr>ar_invoiceNumber = iv_invoice_number r, ar_ok = False, ar_label = ''Not approved'',
      ar_message = iv_approve_blocked_reason r\<rparr>) (filter (\<lambda>r. \<not> isApprovableRow r) sel)"
    by (simp add: approvalsBarView_def Let_def bar_rows [OF assms] sel_def del: filter_filter)
  have "set (filter isApprovableRow sel) \<subseteq> set rows" by (auto simp: sel_def selected_rows_def)
  note posted = posted_rows [OF assms this]
  have confirmed: "confirmApprove f aborted base ?bar rows phase busy =
      (if filter isApprovableRow sel = [] \<or> phase \<noteq> Approval_Armed \<or> busy then None
       else Some (ab_localRefused ?bar @ map (posted_row f base)
         (takeWhile (\<lambda>(k, r). \<not> aborted k) (zip [0..<length (filter isApprovableRow sel)] (filter isApprovableRow sel)))))"
    for aborted unfolding confirmApprove_def send posted by simp
  have number: "ar_invoiceNumber (posted_row f base (k, r)) = iv_invoice_number r" for k r
    by (simp add: posted_row_def split: sum.split)
  have all: "takeWhile (\<lambda>(k, r). \<not> False) xs = xs" for xs :: "(nat \<times> invoice) list" by (induction xs) auto
  have "map ar_invoiceNumber (map (posted_row f base) (zip [0..<length rs] rs)) = map iv_invoice_number rs" for rs
    by (rule nth_equalityI) (simp_all add: number)
  moreover have "map ar_invoiceNumber (ab_localRefused ?bar) = map iv_invoice_number (filter (\<lambda>r. \<not> isApprovableRow r) sel)"
    by (simp add: refused)
  moreover have "mset (map iv_invoice_number (filter (\<lambda>r. \<not> isApprovableRow r) sel)) +
      mset (map iv_invoice_number (filter isApprovableRow sel)) = mset (map iv_invoice_number sel)"
    by (induction sel) simp_all
  ultimately have "case confirmApprove f (\<lambda>k. False) base ?bar rows phase busy of None \<Rightarrow> True
      | Some results \<Rightarrow> mset (map ar_invoiceNumber results) = mset (map iv_invoice_number sel)"
    unfolding confirmed all by (cases "filter isApprovableRow sel = [] \<or> phase \<noteq> Approval_Armed \<or> busy")
      (simp_all only: if_True if_False option.case map_append mset_append)
  then show ?thesis
    unfolding sel_def [symmetric] confirmed refused send posted_row_def by simp
qed

definition sample_row :: "string \<Rightarrow> string \<Rightarrow> bool \<Rightarrow> bool \<Rightarrow> invoice" where
  "sample_row ident number approve creator =
     \<lparr>iv_id = ident, iv_entity_id = ''e'', iv_import_batch_id = None, iv_invoice_number = number, iv_status = Validated,
      iv_columns = (\<lambda>c. None), iv_violations = [], iv_rule_set_version_id = None, iv_created_at = '''', iv_irn = None,
      iv_csid = None, iv_qr_payload = None, iv_rejection_reasons = [], iv_kept_as_is_at = None,
      iv_kept_as_is_by = None, iv_kept_as_is_reason = None, iv_failure_kind = None, iv_document_type = None,
      iv_original_invoice_id = None, iv_line_items = [], iv_rule_set_version = None, iv_approval = None,
      iv_can_approve = approve, iv_approve_blocked_reason = None, iv_approve_blocked_by_creator = creator,
      iv_can_submit = False, iv_submit_blocked_reason = None, iv_demotion = None, iv_verdict_stale = False\<rparr>"

definition sample_page :: "invoice list" where
  "sample_page = [sample_row ''a'' ''INV-1'' True False, sample_row ''b'' ''INV-2'' False True,
     sample_row ''c'' ''INV-3'' True False, sample_row ''d'' ''INV-4'' False False]"

theorem approvals_witness:
  "map_option (map (\<lambda>row. (ar_invoiceNumber row, ar_ok row)))
     (confirmApprove (\<lambda>k r. if k = 0 then Inr JNull else Inl Session_Ended) (\<lambda>k. False) []
       (approvalsBarView [''d'', ''c'', ''b'', ''a''] sample_page Approval_Armed False) sample_page Approval_Armed False) =
   Some [(''INV-2'', False), (''INV-1'', True), (''INV-3'', False)]"
proof -
  have "distinct (map iv_id sample_page)" by (simp add: sample_page_def sample_row_def)
  note accounted = approvals_accounted [OF this, THEN conjunct2, THEN conjunct1]
  show ?thesis unfolding accounted
    by (simp add: selected_rows_def sample_page_def sample_row_def isSelectableRow_def isApprovableRow_def)
qed

end
