(* ===== verification/Extraction_Review.thy ===== *)
theory Extraction_Review
  imports Line_Items Import_Run Uri
begin

text \<open>
  The review of a read document beyond its line items (\<open>lib/extractionReview.ts\<close>): what a field says, the
  draft of corrections laid over the reading, the corrections one save posts, the requests, and the
  geometry that maps a box drawn on a page to the region stored for it and back. Coordinates are exact
  rationals where the code has doubles. The draft is the association list of its keys in insertion order.
\<close>

subsection \<open>Wire types\<close>

record page_size =
  pg_page :: int
  pg_width_px :: rat
  pg_height_px :: rat

record extraction_document =
  ed_filename :: "string option"
  ed_content_type :: "string option"
  ed_size_bytes :: int
  ed_stored_at :: string

datatype document_verdict =
    Receipt | Proforma | Quotation | Credit_Note_Verdict | Debit_Note_Verdict
  | Delivery_Note | Statement | Purchase_Order | Other_Verdict string

record extraction_detail =
  ex_id :: string
  ex_document_id :: string
  ex_state :: string
  ex_failure_kind :: "string option"
  ex_document_type :: "document_verdict option"
  ex_document :: extraction_document
  ex_pages :: "page_size list"
  ex_fields :: "field_state list"

definition AI_UNAVAILABLE_FIELD :: string where
  "AI_UNAVAILABLE_FIELD = ''document_ai_reading''"

definition isAIUnavailable :: "field_state list \<Rightarrow> bool" where
  "isAIUnavailable fs \<longleftrightarrow>
     length fs = 1 \<and> fs_name (hd fs) = AI_UNAVAILABLE_FIELD \<and> fs_reason (hd fs) = Unreadable"

subsection \<open>What a field says\<close>

definition type_notice :: "string \<Rightarrow> string" where
  "type_notice what = ''This looks like a '' @ what
     @ '', not a tax invoice. Its import was not changed. Check it before you submit an invoice from it.''"

fun DOCUMENT_TYPE_NOTICE :: "document_verdict \<Rightarrow> string option" where
  "DOCUMENT_TYPE_NOTICE Receipt = Some (type_notice ''receipt'')"
| "DOCUMENT_TYPE_NOTICE Proforma = Some (type_notice ''proforma invoice'')"
| "DOCUMENT_TYPE_NOTICE Quotation = Some (type_notice ''quotation'')"
| "DOCUMENT_TYPE_NOTICE Delivery_Note = Some (type_notice ''delivery note'')"
| "DOCUMENT_TYPE_NOTICE Statement = Some (type_notice ''statement of account'')"
| "DOCUMENT_TYPE_NOTICE Purchase_Order = Some (type_notice ''purchase order'')"
| "DOCUMENT_TYPE_NOTICE _ = None"

definition documentTypeNotice :: "document_verdict option \<Rightarrow> string option" where
  "documentTypeNotice t = Option.bind t DOCUMENT_TYPE_NOTICE"

definition FIELD_LABELS :: "(string \<times> string) list" where
  "FIELD_LABELS = map (\<lambda>f. (f_key f, f_label f)) (filter (\<lambda>f. \<not> f_line f) INVOICE_FIELDS)"

definition fieldLabel :: "string \<Rightarrow> string" where
  "fieldLabel name = (case map_of FIELD_LABELS name of Some l \<Rightarrow> l | None \<Rightarrow> name)"

fun REASON_PILLS :: "reason \<Rightarrow> string option" where
  "REASON_PILLS Unreadable = Some (''COULDN'' @ [CHR 0x27] @ ''T READ THIS CLEARLY'')"
| "REASON_PILLS Inconsistent = Some (''DOESN'' @ [CHR 0x27] @ ''T ADD UP'')"
| "REASON_PILLS Missing = Some ''NOT FOUND''"
| "REASON_PILLS Rule_Break = Some ''BREAKS A RULE''"
| "REASON_PILLS _ = None"

definition COUNT_WORDS :: "string list" where
  "COUNT_WORDS = ['''', '''', ''TWO'', ''THREE'', ''FOUR'', ''FIVE'', ''SIX'', ''SEVEN'', ''EIGHT'']"

definition reasonPill :: "reason \<Rightarrow> nat \<Rightarrow> string option" where
  "reasonPill r candidateCount =
    (if r = Clean then None
     else if r \<noteq> Ambiguous then REASON_PILLS r
     else Some (''FOUND ''
       @ (if candidateCount < length COUNT_WORDS \<and> COUNT_WORDS ! candidateCount \<noteq> ''''
          then COUNT_WORDS ! candidateCount else show_nat candidateCount)
       @ '' POSSIBLE VALUES''))"

definition NOTE_SUBTOTAL :: string where
  "NOTE_SUBTOTAL = ''The line items we read do not add up to this subtotal.''"

definition NOTE_SUPPLIER :: string where
  "NOTE_SUPPLIER = ''This document'' @ [CHR 0x27] @ ''s supplier doesn'' @ [CHR 0x27]
     @ ''t match the client you picked. It is filed from your client record either way.''"

definition NOTE_GENERIC :: string where
  "NOTE_GENERIC = ''This value disagrees with the other numbers on the document.''"

definition SUPPLIER_MISMATCH_FIELDS :: "string list" where
  "SUPPLIER_MISMATCH_FIELDS = [''supplier_tin'', ''supplier_name'']"

definition fieldNote :: "reason \<Rightarrow> string \<Rightarrow> rule_break list \<Rightarrow> string option" where
  "fieldNote r name rules =
    (if r = Rule_Break then (if rules = [] then None else Some (join '' '' (map rk_message rules)))
     else if r \<noteq> Inconsistent then None
     else if name = ''subtotal'' then Some NOTE_SUBTOTAL
     else Some (if name \<in> set SUPPLIER_MISMATCH_FIELDS then NOTE_SUPPLIER else NOTE_GENERIC))"

definition regionPhrase :: "region option \<Rightarrow> string option" where
  "regionPhrase r = map_option (\<lambda>r. ''page '' @ show_int (rg_page r)) r"

record corrected_marker =
  cm_label :: string
  cm_was :: "string option"

definition correctedMarker :: "corrected option \<Rightarrow> region option \<Rightarrow> corrected_marker option" where
  "correctedMarker c r = (case c of
     None \<Rightarrow> None
   | Some c \<Rightarrow> (case cr_method c of
       By_Typing \<Rightarrow> Some \<lparr>cm_label = ''YOU CHANGED THIS'', cm_was = map_option ((@) ''We read '') (cr_was c)\<rparr>
     | By_Pointing \<Rightarrow> Some \<lparr>cm_label = ''YOU POINTED THIS OUT'',
         cm_was = map_option ((@) ''Taken from '') (case cr_where c of Some w \<Rightarrow> Some w | None \<Rightarrow> regionPhrase r)\<rparr>
     | By_Choosing \<Rightarrow> Some \<lparr>cm_label = ''YOU CHOSE THIS'', cm_was = Some ''We found more than one candidate''\<rparr>
     | By_Undoing \<Rightarrow> None))"

subsection \<open>The draft\<close>

record draft_entry =
  dn_kind :: correction_method
  dn_value :: string
  dn_region :: "region option"

definition HEADER_FIELDS :: "string list" where
  "HEADER_FIELDS = map f_key (filter (\<lambda>f. \<not> f_line f \<and> f_extract f) INVOICE_FIELDS)"

definition apply_entry :: "draft_entry \<Rightarrow> field_state \<Rightarrow> field_state" where
  "apply_entry entry f =
    (if dn_kind entry = By_Undoing then
       f\<lparr>fs_value := Some (case Option.bind (fs_corrected f) cr_was of Some w \<Rightarrow> w | None \<Rightarrow> ''''),
         fs_corrected := None\<rparr>
     else f\<lparr>fs_value := Some (dn_value entry),
            fs_region := (if dn_kind entry = By_Choosing \<or> dn_kind entry = By_Pointing then dn_region entry
                          else fs_region f)\<rparr>)"

definition applyDraft :: "field_state list \<Rightarrow> (string \<times> draft_entry) list \<Rightarrow> field_state list" where
  "applyDraft fs entries =
     map (\<lambda>f. case map_of entries (fs_name f) of None \<Rightarrow> f | Some entry \<Rightarrow> apply_entry entry f) fs"

definition LOCKED_FIELDS :: "string list" where
  "LOCKED_FIELDS = [''invoice_number'', ''supplier_tin'', ''supplier_name'']"

definition lockedField :: "field_state \<Rightarrow> bool" where
  "lockedField f =
    (if fs_name f \<notin> set LOCKED_FIELDS then False
     else if fs_reason f = Ambiguous \<or> fs_reason f = Unreadable then False
     else fs_corrected f = None)"

definition offeredText :: "field_state \<Rightarrow> string option" where
  "offeredText f =
    (if fs_reason f \<noteq> Unreadable \<or> fs_value f \<noteq> None \<or> fs_alternatives f = [] then None
     else cd_value (hd (fs_alternatives f)))"

definition vocabularyRank :: "string \<Rightarrow> nat" where
  "vocabularyRank name =
     (case find_index (\<lambda>k. k = name) HEADER_FIELDS of Some i \<Rightarrow> i | None \<Rightarrow> length HEADER_FIELDS)"

record correction_request =
  cq_value :: string
  cq_method :: correction_method
  cq_region :: "region option"
  cq_anchor_label :: string

record correction_post =
  cp_field :: string
  cp_body :: correction_request

definition value_or_empty :: "string option \<Rightarrow> string" where
  "value_or_empty v = (case v of None \<Rightarrow> '''' | Some t \<Rightarrow> t)"

definition savable :: "field_state list \<Rightarrow> string \<Rightarrow> draft_entry \<Rightarrow> bool" where
  "savable fs name entry =
    (if dn_kind entry = By_Pointing then trim (dn_value entry) \<noteq> ''''
     else if dn_kind entry \<noteq> By_Typing then True
     else if trim (dn_value entry) = '''' then False
     else dn_value entry \<noteq> value_or_empty
       (Option.bind (map_of (rev (map (\<lambda>f. (fs_name f, f)) fs)) name) fs_value))"

definition post_of :: "string \<Rightarrow> draft_entry \<Rightarrow> correction_post" where
  "post_of name entry = \<lparr>cp_field = name,
     cp_body = \<lparr>cq_value = dn_value entry, cq_method = dn_kind entry,
       cq_region = (if dn_kind entry = By_Pointing then dn_region entry else None), cq_anchor_label = ''''\<rparr>\<rparr>"

definition savableCorrections :: "field_state list \<Rightarrow> (string \<times> draft_entry) list \<Rightarrow> correction_post list" where
  "savableCorrections fs entries =
     map (\<lambda>name. post_of name (the (map_of entries name)))
       (sort_key vocabularyRank
         (filter (\<lambda>name. savable fs name (the (map_of entries name))) (map fst entries)))"

definition typedEntry :: "draft_entry option \<Rightarrow> string \<Rightarrow> draft_entry" where
  "typedEntry prev v = (case prev of
     Some p \<Rightarrow> if dn_kind p = By_Pointing then \<lparr>dn_kind = By_Pointing, dn_value = v, dn_region = dn_region p\<rparr>
               else \<lparr>dn_kind = By_Typing, dn_value = v, dn_region = None\<rparr>
   | None \<Rightarrow> \<lparr>dn_kind = By_Typing, dn_value = v, dn_region = None\<rparr>)"

definition pointedEntry :: "draft_entry option \<Rightarrow> string option \<Rightarrow> region \<Rightarrow> draft_entry" where
  "pointedEntry prev wireValue r =
    \<lparr>dn_kind = By_Pointing,
     dn_value = (case prev of Some p \<Rightarrow> dn_value p | None \<Rightarrow> value_or_empty wireValue),
     dn_region = Some r\<rparr>"

subsection \<open>Requests\<close>

datatype extraction_body = Correction_Body correction_request | Lines_Body "line_input list"

definition extraction_url :: "string \<Rightarrow> string \<Rightarrow> string" where
  "extraction_url base jobId = base @ ''/api/submission/v1/extractions/'' @ encodeURIComponent jobId"

definition getExtractionDetail :: "string \<Rightarrow> string \<Rightarrow> extraction_body request" where
  "getExtractionDetail base jobId = request GET (extraction_url base jobId) None"

definition postFieldCorrection :: "string \<Rightarrow> string \<Rightarrow> string \<Rightarrow> correction_request \<Rightarrow> extraction_body request" where
  "postFieldCorrection base jobId name body =
     request POST (extraction_url base jobId @ ''/fields/'' @ encodeURIComponent name @ ''/corrections'')
       (Some (Correction_Body body))"

definition postLineItems :: "string \<Rightarrow> string \<Rightarrow> line_input list \<Rightarrow> extraction_body request" where
  "postLineItems base jobId lines =
     request POST (extraction_url base jobId @ ''/line-items'') (Some (Lines_Body lines))"

subsection \<open>Boxes\<close>

text \<open>\<open>Number(n.toFixed(4))\<close>: the nearest multiple of 1/10000, a tie going away from zero.\<close>

definition round4 :: "rat \<Rightarrow> rat" where
  "round4 n = (if n < 0 then - of_int \<lfloor>- n * 10000 + 1 / 2\<rfloor> else of_int \<lfloor>n * 10000 + 1 / 2\<rfloor>) / 10000"

text \<open>The percentages of \<open>highlightStyle\<close> (and of \<open>pointBoxStyle\<close>, which has the same).\<close>

record highlight =
  hl_left :: rat
  hl_top :: rat
  hl_width :: rat
  hl_height :: rat

definition highlightStyle :: "region \<Rightarrow> highlight" where
  "highlightStyle r =
    \<lparr>hl_left = round4 (rg_x0 r * 100), hl_top = round4 (rg_y0 r * 100),
     hl_width = round4 ((rg_x1 r - rg_x0 r) * 100), hl_height = round4 ((rg_y1 r - rg_y0 r) * 100)\<rparr>"

text \<open>The width of \<open>pageFrameStyle\<close> in percent and its bounds in pixels.\<close>

definition pageFrameStyle :: "rat \<Rightarrow> rat \<times> rat \<times> rat" where
  "pageFrameStyle zoom = (round4 (zoom * 100), round4 (560 * zoom), round4 (640 * zoom))"

record frame_box =
  fb_left :: rat
  fb_top :: rat
  fb_width :: rat
  fb_height :: rat

record viewport_point =
  vp_x :: rat
  vp_y :: rat

definition POINT_MIN_W :: rat where "POINT_MIN_W = 24"
definition POINT_MIN_H :: rat where "POINT_MIN_H = 12"

definition clamp01 :: "rat \<Rightarrow> rat" where
  "clamp01 v = min 1 (max 0 v)"

definition normaliseBox :: "frame_box \<Rightarrow> viewport_point \<Rightarrow> viewport_point \<Rightarrow> int \<Rightarrow> region" where
  "normaliseBox frame a b page =
    (let nx = (\<lambda>p. clamp01 ((vp_x p - fb_left frame) / fb_width frame));
         ny = (\<lambda>p. clamp01 ((vp_y p - fb_top frame) / fb_height frame))
     in \<lparr>rg_page = page, rg_x0 = min (nx a) (nx b), rg_y0 = min (ny a) (ny b),
         rg_x1 = max (nx a) (nx b), rg_y1 = max (ny a) (ny b)\<rparr>)"

definition isDrawnBox :: "viewport_point \<Rightarrow> viewport_point \<Rightarrow> bool" where
  "isDrawnBox a b \<longleftrightarrow> \<bar>vp_x b - vp_x a\<bar> \<ge> POINT_MIN_W \<and> \<bar>vp_y b - vp_y a\<bar> \<ge> POINT_MIN_H"

text \<open>\<open>docMetaLine\<close>: the label of the format (\<open>formatLabel\<close>, of the screen) and the time of day are parameters.\<close>

definition docMetaLine ::
  "(string option \<Rightarrow> string option \<Rightarrow> string) \<Rightarrow> (string \<Rightarrow> string) \<Rightarrow> extraction_document \<Rightarrow> nat \<Rightarrow> string"
where
  "docMetaLine formatLabel fmtTimeWAT doc pageCount =
     join ('' '' @ middle_dot @ '' '')
       [formatLabel (ed_filename doc) (ed_content_type doc),
        show_nat pageCount @ '' '' @ (if pageCount = 1 then ''PAGE'' else ''PAGES''),
        formatBytes (ed_size_bytes doc),
        ''STORED '' @ fmtTimeWAT (ed_stored_at doc) @ '' WAT'']"

end
