(* ===== verification/Extraction_Save.thy ===== *)
theory Extraction_Save
  imports Extraction_Review
begin

text \<open>
  The review screen of a read document (\<open>components/ExtractionReview.tsx\<close>, with the controls of
  \<open>components/ExtractionFields.tsx\<close>): the two drafts, the armed field and the one \<open>save\<close> that posts them. The
  objects a save compares by identity (a draft entry, a set of rows) carry a number that every write draws
  afresh. \<open>save\<close> runs from one \<open>await\<close> to the next: a click, the answers of its requests, the answer of the
  re-read. After every event the screen renders, which drops state tagged with another document. The screen is
  modelled with a gateway configured: without one no document is ever shown.
\<close>

subsection \<open>State\<close>

type_synonym entries = "(string \<times> nat \<times> draft_entry) list"

definition plain :: "entries \<Rightarrow> (string \<times> draft_entry) list" where
  "plain es = map (\<lambda>(name, i, e). (name, e)) es"

datatype detail_state = Detail_Loading | Detail_Failed | Detail_Loaded extraction_detail

datatype save_stage = Posting_Fields | Posting_Lines | Rereading

record save_run =
  sv_mine :: nat
  sv_jobId :: string
  sv_entries :: entries
  sv_posts :: "correction_post list"
  sv_todo :: "correction_post list"
  sv_committed :: "string list"
  sv_refusal :: "string option"
  sv_postedRows :: "(nat \<times> line_row list) option"
  sv_lineChanged :: bool
  sv_lineCommitted :: bool
  sv_stage :: save_stage

record shell =
  sh_jobId :: string
  sh_hasInvoice :: bool
  sh_fetched :: detail_state
  sh_originals :: "(string \<times> string option) option"
  sh_draft :: "(string \<times> entries) option"
  sh_lineDraft :: "(string \<times> nat \<times> line_row list) option"
  sh_armed :: "(string \<times> string) option"
  sh_merged :: "(string \<times> extraction_detail) option"
  sh_writing :: bool
  sh_writeError :: "string option"
  sh_write :: nat
  sh_next :: nat
  sh_save :: "save_run option"
  sh_sent :: "extraction_body request list"

definition of_job :: "string \<Rightarrow> (string \<times> 'a) option \<Rightarrow> 'a option" where
  "of_job jobId tagged = (case tagged of Some (j, x) \<Rightarrow> if j = jobId then Some x else None | None \<Rightarrow> None)"

definition keep_job :: "string \<Rightarrow> (string \<times> 'a) option \<Rightarrow> (string \<times> 'a) option" where
  "keep_job jobId tagged = map_option (Pair jobId) (of_job jobId tagged)"

definition shell_entries :: "shell \<Rightarrow> entries" where
  "shell_entries s = (case of_job (sh_jobId s) (sh_draft s) of Some es \<Rightarrow> es | None \<Rightarrow> [])"

definition shell_data :: "shell \<Rightarrow> extraction_detail option" where
  "shell_data s = (case of_job (sh_jobId s) (sh_merged s) of
     Some d \<Rightarrow> Some d
   | None \<Rightarrow> (case sh_fetched s of Detail_Loaded d \<Rightarrow> Some d | _ \<Rightarrow> None))"

definition UNSETTLED :: "string list" where
  "UNSETTLED = [''queued'', ''extracting'', ''failed'']"

text \<open>The document the panes show, if they are shown.\<close>

definition panes :: "shell \<Rightarrow> extraction_detail option" where
  "panes s =
    (if sh_fetched s = Detail_Failed then None
     else case shell_data s of
       None \<Rightarrow> None
     | Some d \<Rightarrow> if ex_state d \<in> set UNSETTLED \<or> ex_state d = ''dead_lettered'' \<or> isAIUnavailable (ex_fields d)
                 then None else Some d)"

definition lineRows :: "shell \<Rightarrow> (nat \<times> line_row list) option" where
  "lineRows s = of_job (sh_jobId s) (sh_lineDraft s)"

definition is_note_verdict :: "document_verdict option \<Rightarrow> bool" where
  "is_note_verdict v \<longleftrightarrow> v = Some Credit_Note_Verdict \<or> v = Some Debit_Note_Verdict"

definition save_held :: "shell \<Rightarrow> bool" where
  "save_held s = (case shell_data s of
     None \<Rightarrow> False
   | Some d \<Rightarrow> is_note_verdict (ex_document_type d) \<and> \<not> sh_hasInvoice s \<and>
       (case sh_originals s of
          Some (documentId, filed) \<Rightarrow> documentId \<noteq> ex_document_id d \<or> filed = None
        | None \<Rightarrow> True))"

definition save_posts :: "shell \<Rightarrow> extraction_detail \<Rightarrow> correction_post list" where
  "save_posts s d = savableCorrections (ex_fields d) (plain (shell_entries s))"

definition line_changed :: "shell \<Rightarrow> extraction_detail \<Rightarrow> bool" where
  "line_changed s d = (case lineRows s of
     None \<Rightarrow> False | Some (i, rows) \<Rightarrow> lineSetChanged (linesFromFields (ex_fields d)) rows)"

definition nothingToSave :: "shell \<Rightarrow> extraction_detail \<Rightarrow> bool" where
  "nothingToSave s d \<longleftrightarrow> save_posts s d = [] \<and> \<not> line_changed s d"

subsection \<open>Controls\<close>

text \<open>Which controls a header cell of \<open>ExtractionFields\<close> offers.\<close>

definition isHeaderField :: "string \<Rightarrow> bool" where
  "isHeaderField name \<longleftrightarrow>
     name \<noteq> ''original_invoice_number'' \<and> name \<noteq> ''line_items'' \<and> LINE_FIELD_RE name = None"

definition header_cells :: "extraction_detail \<Rightarrow> string \<Rightarrow> field_state list" where
  "header_cells d name = filter (\<lambda>f. isHeaderField (fs_name f) \<and> fs_name f = name) (ex_fields d)"

definition field_candidates :: "field_state \<Rightarrow> candidate list option" where
  "field_candidates f =
    (if fs_reason f = Ambiguous \<and> fs_alternatives f \<noteq> []
     then Some (\<lparr>cd_value = fs_value f, cd_region = fs_region f\<rparr> # fs_alternatives f) else None)"

definition can_type :: "extraction_detail \<Rightarrow> string \<Rightarrow> bool" where
  "can_type d name \<longleftrightarrow> list_ex (\<lambda>f. field_candidates f = None \<and> \<not> lockedField f) (header_cells d name)"

definition can_choose :: "extraction_detail \<Rightarrow> string \<Rightarrow> candidate \<Rightarrow> bool" where
  "can_choose d name c \<longleftrightarrow> list_ex (\<lambda>f. case field_candidates f of None \<Rightarrow> False | Some cs \<Rightarrow> c \<in> set cs) (header_cells d name)"

definition can_undo :: "extraction_detail \<Rightarrow> entries \<Rightarrow> string \<Rightarrow> bool" where
  "can_undo d es name \<longleftrightarrow> list_ex (\<lambda>f. correctedMarker (fs_corrected f) (fs_region f) \<noteq> None)
     (applyDraft (header_cells d name) (plain es))"

definition can_arm :: "extraction_detail \<Rightarrow> string \<Rightarrow> bool" where
  "can_arm d name \<longleftrightarrow> ex_pages d \<noteq> [] \<and> list_ex (\<lambda>f. fs_reason f = Missing) (header_cells d name)"

definition wire_value :: "extraction_detail \<Rightarrow> string \<Rightarrow> string option" where
  "wire_value d name = Option.bind (find (\<lambda>f. fs_name f = name) (ex_fields d)) fs_value"

definition draftField :: "string \<Rightarrow> (draft_entry option \<Rightarrow> draft_entry) \<Rightarrow> shell \<Rightarrow> shell" where
  "draftField name next_entry s =
    (let held = shell_entries s
     in s\<lparr>sh_draft := Some (sh_jobId s, al_set name (sh_next s, next_entry (map_option snd (map_of held name))) held),
          sh_next := sh_next s + 1\<rparr>)"

definition editLines :: "(line_row list \<Rightarrow> line_row list) \<Rightarrow> extraction_detail \<Rightarrow> shell \<Rightarrow> shell" where
  "editLines next_rows d s =
    (let rows = (case lineRows s of Some (i, rows) \<Rightarrow> rows | None \<Rightarrow> linesFromFields (ex_fields d))
     in s\<lparr>sh_lineDraft := Some (sh_jobId s, sh_next s, next_rows rows), sh_next := sh_next s + 1\<rparr>)"

definition edit_cell :: "nat \<Rightarrow> string \<Rightarrow> string \<Rightarrow> line_row list \<Rightarrow> line_row list" where
  "edit_cell pos role v rows =
    (if pos < length rows then
       rows[pos := (rows ! pos)\<lparr>lr_cells := (lr_cells (rows ! pos))
         (role := (lr_cells (rows ! pos) role)\<lparr>lc_value := v\<rparr>)\<rparr>]
     else rows)"

definition pointAt :: "region \<Rightarrow> extraction_detail \<Rightarrow> shell \<Rightarrow> shell" where
  "pointAt r d s = (case of_job (sh_jobId s) (sh_armed s) of
     None \<Rightarrow> s
   | Some name \<Rightarrow> (draftField name (\<lambda>prev. pointedEntry prev (wire_value d name) r) s)\<lparr>sh_armed := None\<rparr>)"

definition selectField :: "string \<Rightarrow> shell \<Rightarrow> shell" where
  "selectField name s = s\<lparr>sh_armed := (if sh_armed s = Some (sh_jobId s, name) then sh_armed s else None)\<rparr>"

subsection \<open>Save\<close>

type_synonym save_next = "save_run \<times> extraction_body request list"

definition reread :: "string \<Rightarrow> save_run \<Rightarrow> save_next" where
  "reread base sv = (sv\<lparr>sv_stage := Rereading\<rparr>, [getExtractionDetail base (sv_jobId sv)])"

definition after_fields :: "string \<Rightarrow> save_run \<Rightarrow> save_next" where
  "after_fields base sv =
    (case sv_postedRows sv of
       Some (i, rows) \<Rightarrow>
         if sv_refusal sv = None \<and> sv_lineChanged sv
         then (sv\<lparr>sv_stage := Posting_Lines\<rparr>, [postLineItems base (sv_jobId sv) (linesToPost rows)])
         else reread base sv
     | None \<Rightarrow> reread base sv)"

definition field_request :: "string \<Rightarrow> string \<Rightarrow> correction_post \<Rightarrow> extraction_body request" where
  "field_request base jobId p = postFieldCorrection base jobId (cp_field p) (cp_body p)"

definition next_post :: "string \<Rightarrow> save_run \<Rightarrow> save_next" where
  "next_post base sv =
    (case sv_todo sv of
       [] \<Rightarrow> after_fields base sv
     | p # ps \<Rightarrow> (sv\<lparr>sv_stage := Posting_Fields\<rparr>, [field_request base (sv_jobId sv) p]))"

definition post_answered :: "string \<Rightarrow> save_run \<Rightarrow> string option \<Rightarrow> save_next" where
  "post_answered base sv msg =
    (case sv_stage sv of
       Posting_Fields \<Rightarrow> (case msg of
           None \<Rightarrow> next_post base (sv\<lparr>sv_todo := tl (sv_todo sv),
                     sv_committed := sv_committed sv @ [cp_field (hd (sv_todo sv))]\<rparr>)
         | Some m \<Rightarrow> after_fields base (sv\<lparr>sv_refusal := Some m\<rparr>))
     | Posting_Lines \<Rightarrow> (case msg of
           None \<Rightarrow> reread base (sv\<lparr>sv_lineCommitted := True\<rparr>)
         | Some m \<Rightarrow> reread base (sv\<lparr>sv_refusal := Some m\<rparr>))
     | Rereading \<Rightarrow> (sv, []))"

definition run_to :: "save_next \<Rightarrow> shell \<Rightarrow> shell" where
  "run_to nx s = s\<lparr>sh_save := Some (fst nx), sh_sent := sh_sent s @ snd nx\<rparr>"

definition opened_save :: "extraction_detail \<Rightarrow> shell \<Rightarrow> save_run" where
  "opened_save d s = \<lparr>sv_mine = sh_write s + 1, sv_jobId = sh_jobId s, sv_entries = shell_entries s,
     sv_posts = save_posts s d, sv_todo = save_posts s d, sv_committed = [], sv_refusal = None,
     sv_postedRows = lineRows s, sv_lineChanged = line_changed s d, sv_lineCommitted = False,
     sv_stage = Posting_Fields\<rparr>"

definition save_click :: "string \<Rightarrow> extraction_detail \<Rightarrow> shell \<Rightarrow> shell" where
  "save_click base d s =
    (if sh_writing s \<or> nothingToSave s d then s
     else run_to (next_post base (opened_save d s))
       (s\<lparr>sh_write := sh_write s + 1, sh_writing := True, sh_writeError := None, sh_armed := None\<rparr>))"

definition refused_fields :: "save_run \<Rightarrow> string list" where
  "refused_fields sv = filter (\<lambda>f. f \<notin> set (sv_committed sv)) (map cp_field (sv_posts sv))"

definition kept_entries :: "save_run \<Rightarrow> entries \<Rightarrow> entries" where
  "kept_entries sv held = filter (\<lambda>(name, i, e).
     name \<in> set (refused_fields sv) \<or> map_option fst (map_of (sv_entries sv) name) \<noteq> Some i) held"

definition save_done :: "extraction_detail option \<Rightarrow> save_run \<Rightarrow> shell \<Rightarrow> shell" where
  "save_done fresh sv s =
    (if sv_stage sv \<noteq> Rereading then s
     else if sh_write s \<noteq> sv_mine sv then s\<lparr>sh_save := None\<rparr>
     else
       (let held = (case of_job (sv_jobId sv) (sh_draft s) of Some es \<Rightarrow> es | None \<Rightarrow> [])
        in s\<lparr>sh_draft := Some (sv_jobId sv, kept_entries sv held),
             sh_lineDraft :=
               (if \<not> sv_lineCommitted sv then sh_lineDraft s
                else case of_job (sv_jobId sv) (sh_lineDraft s) of
                  Some (i, rows) \<Rightarrow> if map_option fst (sv_postedRows sv) \<noteq> Some i then sh_lineDraft s else None
                | None \<Rightarrow> None),
             sh_writeError := sv_refusal sv,
             sh_merged := (case fresh of Some d \<Rightarrow> Some (sv_jobId sv, d) | None \<Rightarrow> sh_merged s),
             sh_writing := False,
             sh_save := None\<rparr>))"

subsection \<open>Events\<close>

datatype shell_event =
    Props string bool
  | Detail_Read detail_state
  | Originals "(string \<times> string option) option"
  | Type_In string string
  | Choose string candidate
  | Undo_Click string
  | Arm_Click string
  | Disarm_Click string
  | Select string
  | Point_At region
  | Line_Edit nat string string
  | Line_Add
  | Line_Remove nat
  | Line_Remap string string
  | Save_Click
  | Post_Answered "string option"
  | Reread_Answered "extraction_detail option"

definition render :: "shell \<Rightarrow> shell" where
  "render s = s\<lparr>sh_draft := keep_job (sh_jobId s) (sh_draft s), sh_lineDraft := keep_job (sh_jobId s) (sh_lineDraft s),
     sh_armed := keep_job (sh_jobId s) (sh_armed s), sh_merged := keep_job (sh_jobId s) (sh_merged s)\<rparr>"

definition on_panes :: "(extraction_detail \<Rightarrow> bool) \<Rightarrow> (extraction_detail \<Rightarrow> shell \<Rightarrow> shell) \<Rightarrow> shell \<Rightarrow> shell" where
  "on_panes offered act s = (case panes s of None \<Rightarrow> s | Some d \<Rightarrow> if offered d then act d s else s)"

definition has_grid :: "extraction_detail \<Rightarrow> bool" where
  "has_grid d \<longleftrightarrow> ex_fields d \<noteq> []"

fun shell_act :: "string \<Rightarrow> shell \<Rightarrow> shell_event \<Rightarrow> shell" where
  "shell_act base s (Props jobId hasInvoice) =
     s\<lparr>sh_jobId := jobId, sh_hasInvoice := hasInvoice,
       sh_fetched := (if jobId = sh_jobId s then sh_fetched s else Detail_Loading)\<rparr>"
| "shell_act base s (Detail_Read st) = s\<lparr>sh_fetched := st\<rparr>"
| "shell_act base s (Originals r) = s\<lparr>sh_originals := r\<rparr>"
| "shell_act base s (Type_In name v) =
     on_panes (\<lambda>d. can_type d name) (\<lambda>d. draftField name (\<lambda>prev. typedEntry prev v)) s"
| "shell_act base s (Choose name c) =
     on_panes (\<lambda>d. can_choose d name c)
       (\<lambda>d. draftField name (\<lambda>_. \<lparr>dn_kind = By_Choosing, dn_value = value_or_empty (cd_value c), dn_region = cd_region c\<rparr>)) s"
| "shell_act base s (Undo_Click name) =
     on_panes (\<lambda>d. can_undo d (shell_entries s) name)
       (\<lambda>d. draftField name (\<lambda>_. \<lparr>dn_kind = By_Undoing, dn_value = value_or_empty (wire_value d name), dn_region = None\<rparr>)) s"
| "shell_act base s (Arm_Click name) =
     on_panes (\<lambda>d. can_arm d name) (\<lambda>d s. s\<lparr>sh_armed := Some (sh_jobId s, name)\<rparr>) s"
| "shell_act base s (Disarm_Click name) =
     on_panes (\<lambda>d. sh_armed s = Some (sh_jobId s, name)) (\<lambda>d s. s\<lparr>sh_armed := None\<rparr>) s"
| "shell_act base s (Select name) = on_panes (\<lambda>d. True) (\<lambda>d. selectField name) s"
| "shell_act base s (Point_At r) = on_panes (\<lambda>d. ex_pages d \<noteq> []) (pointAt r) s"
| "shell_act base s (Line_Edit pos role v) = on_panes has_grid (editLines (edit_cell pos role v)) s"
| "shell_act base s Line_Add = on_panes has_grid (editLines addRow) s"
| "shell_act base s (Line_Remove pos) = on_panes has_grid (editLines (\<lambda>rows. removeRow rows (int pos))) s"
| "shell_act base s (Line_Remap frm to) = on_panes has_grid (editLines (remapRoles frm to)) s"
| "shell_act base s Save_Click = on_panes (\<lambda>d. \<not> save_held s) (save_click base) s"
| "shell_act base s (Post_Answered msg) =
     (case sh_save s of None \<Rightarrow> s | Some sv \<Rightarrow> run_to (post_answered base sv msg) s)"
| "shell_act base s (Reread_Answered fresh) =
     (case sh_save s of None \<Rightarrow> s | Some sv \<Rightarrow> save_done fresh sv s)"

definition shell_step :: "string \<Rightarrow> shell \<Rightarrow> shell_event \<Rightarrow> shell" where
  "shell_step base s e = render (shell_act base s e)"

definition shell_start :: "string \<Rightarrow> bool \<Rightarrow> shell" where
  "shell_start jobId hasInvoice = \<lparr>sh_jobId = jobId, sh_hasInvoice = hasInvoice, sh_fetched = Detail_Loading,
     sh_originals = None, sh_draft = None, sh_lineDraft = None, sh_armed = None, sh_merged = None,
     sh_writing = False, sh_writeError = None, sh_write = 0, sh_next = 0, sh_save = None, sh_sent = []\<rparr>"


subsection \<open>The requests of a save\<close>

fun answers :: "shell_event list \<Rightarrow> string option list" where
  "answers [] = []"
| "answers (Post_Answered msg # es) = msg # answers es"
| "answers (_ # es) = answers es"

fun is_reread :: "shell_event \<Rightarrow> bool" where
  "is_reread (Reread_Answered _) = True"
| "is_reread _ = False"

text \<open>The run of a save on the answers alone.\<close>

fun save_run_on :: "string \<Rightarrow> save_run \<Rightarrow> string option list \<Rightarrow> save_next" where
  "save_run_on base sv [] = (sv, [])"
| "save_run_on base sv (a # as) =
    (case post_answered base sv a of (sv', rq) \<Rightarrow>
       case save_run_on base sv' as of (sv'', rqs) \<Rightarrow> (sv'', rq @ rqs))"

lemma draftField_keeps:
  "sh_save (draftField name f s) = sh_save s" "sh_sent (draftField name f s) = sh_sent s"
  "sh_writing (draftField name f s) = sh_writing s" "sh_write (draftField name f s) = sh_write s"
  by (simp_all add: draftField_def Let_def)

lemma pointAt_keeps:
  "sh_save (pointAt r d s) = sh_save s" "sh_sent (pointAt r d s) = sh_sent s"
  "sh_writing (pointAt r d s) = sh_writing s" "sh_write (pointAt r d s) = sh_write s"
  by (simp_all add: pointAt_def draftField_keeps split: option.splits)

lemmas act_defs = on_panes_def editLines_def selectField_def Let_def

lemma act_while_writing:
  assumes "sh_writing s" "sh_save s = Some sv" "\<not> is_reread e"
  shows "sh_writing (shell_act base s e) \<and> sh_write (shell_act base s e) = sh_write s \<and>
    sh_save (shell_act base s e) = Some (fst (save_run_on base sv (answers [e]))) \<and>
    sh_sent (shell_act base s e) = sh_sent s @ snd (save_run_on base sv (answers [e]))"
  using assms
  by (cases e) (auto simp: act_defs draftField_keeps pointAt_keeps save_click_def run_to_def
      split: option.splits prod.splits)

lemma render_keeps:
  "sh_save (render s) = sh_save s" "sh_sent (render s) = sh_sent s" "sh_writing (render s) = sh_writing s"
  "sh_write (render s) = sh_write s" "sh_next (render s) = sh_next s" "sh_jobId (render s) = sh_jobId s"
  "sh_fetched (render s) = sh_fetched s" "sh_writeError (render s) = sh_writeError s"
  by (simp_all add: render_def)

lemma save_run_on_append:
  "save_run_on base sv (as @ bs) =
    (case save_run_on base sv as of (sv', rq) \<Rightarrow>
       case save_run_on base sv' bs of (sv'', rqs) \<Rightarrow> (sv'', rq @ rqs))"
  by (induction as arbitrary: sv) (auto split: prod.splits)

lemma answers_append: "answers (es @ fs) = answers es @ answers fs"
  by (induction es rule: answers.induct) simp_all

lemma steps_while_writing:
  fixes base :: string
  assumes "sh_writing s" "sh_save s = Some sv" "\<not> list_ex is_reread es"
  defines "t \<equiv> foldl (shell_step base) s es"
  shows "sh_writing t \<and> sh_write t = sh_write s \<and> sh_save t = Some (fst (save_run_on base sv (answers es))) \<and>
    sh_sent t = sh_sent s @ snd (save_run_on base sv (answers es))"
  unfolding t_def using assms(1-3)
proof (induction es arbitrary: s sv)
  case (Cons e es)
  define s' where "s' = shell_step base s e"
  define sv' where "sv' = fst (save_run_on base sv (answers [e]))"
  have e: "\<not> is_reread e" and es: "\<not> list_ex is_reread es" using Cons.prems(3) by simp_all
  have s': "sh_writing s'" "sh_write s' = sh_write s" "sh_save s' = Some sv'"
    "sh_sent s' = sh_sent s @ snd (save_run_on base sv (answers [e]))"
    using act_while_writing [OF Cons.prems(1,2) e, of base]
    by (simp_all add: s'_def sv'_def shell_step_def render_keeps)
  have "answers (e # es) = answers [e] @ answers es" using answers_append [of "[e]" es] by simp
  then show ?case using Cons.IH [OF s'(1,3) es] s'
    by (simp add: save_run_on_append s'_def [symmetric] sv'_def split: prod.splits)
qed simp


definition lines_body :: "save_run \<Rightarrow> line_input list option" where
  "lines_body sv = (if sv_lineChanged sv then map_option (\<lambda>(i, rows). linesToPost rows) (sv_postedRows sv) else None)"

definition taken :: "string option list \<Rightarrow> nat" where
  "taken as = length (takeWhile (\<lambda>a. a = None) as)"

lemma taken_simps [simp]: "taken [] = 0" "taken (None # as) = Suc (taken as)" "taken (Some m # as) = 0"
  by (simp_all add: taken_def)

text \<open>What a save asks for, given the answers so far: the corrections one at a time as long as each is
  taken, then the lines if they changed, then the document again.\<close>

definition save_requests ::
  "string \<Rightarrow> string \<Rightarrow> correction_post list \<Rightarrow> line_input list option \<Rightarrow> string option list \<Rightarrow> extraction_body request list"
where
  "save_requests base jobId posts lines as =
    map (field_request base jobId) (take (Suc (taken as)) posts) @
    (if taken as < length posts then (if taken as < length as then [getExtractionDetail base jobId] else [])
     else case lines of
       None \<Rightarrow> [getExtractionDetail base jobId]
     | Some body \<Rightarrow> postLineItems base jobId body
         # (if length posts < length as then [getExtractionDetail base jobId] else []))"

lemma run_rereading: "sv_stage sv = Rereading \<Longrightarrow> save_run_on base sv as = (sv, [])"
  by (induction as) (simp_all add: post_answered_def)

lemma reread_simps [simp]:
  "sv_stage (fst (reread base sv)) = Rereading" "snd (reread base sv) = [getExtractionDetail base (sv_jobId sv)]"
  "fst (reread base sv) = sv\<lparr>sv_stage := Rereading\<rparr>"
  by (simp_all add: reread_def)

lemma after_fields_cases:
  "after_fields base sv = (case lines_body sv of
     Some body \<Rightarrow> if sv_refusal sv = None
       then (sv\<lparr>sv_stage := Posting_Lines\<rparr>, [postLineItems base (sv_jobId sv) body]) else reread base sv
   | None \<Rightarrow> reread base sv)"
  by (auto simp: after_fields_def lines_body_def split: option.splits)

definition run_from :: "string \<Rightarrow> save_run \<Rightarrow> string option list \<Rightarrow> save_next" where
  "run_from base sv as = (case next_post base sv of (sv', rq) \<Rightarrow>
     case save_run_on base sv' as of (sv'', rqs) \<Rightarrow> (sv'', rq @ rqs))"

lemma run_from_post:
  assumes "sv_todo sv = p # ps"
  shows "run_from base sv [] = (sv\<lparr>sv_stage := Posting_Fields\<rparr>, [field_request base (sv_jobId sv) p])"
    "run_from base sv (None # as) =
       apsnd ((#) (field_request base (sv_jobId sv) p))
         (run_from base (sv\<lparr>sv_stage := Posting_Fields, sv_todo := ps, sv_committed := sv_committed sv @ [cp_field p]\<rparr>) as)"
    "sv_refusal sv = None \<Longrightarrow> run_from base sv (Some m # as) =
       (sv\<lparr>sv_stage := Rereading, sv_refusal := Some m\<rparr>,
        [field_request base (sv_jobId sv) p, getExtractionDetail base (sv_jobId sv)])"
  using assms
  by (auto simp: run_from_def next_post_def post_answered_def after_fields_cases reread_def run_rereading
      split: prod.splits option.splits)

lemma run_from_lines:
  assumes "sv_todo sv = []" "sv_refusal sv = None"
  shows "lines_body sv = None \<Longrightarrow> run_from base sv as = (sv\<lparr>sv_stage := Rereading\<rparr>, [getExtractionDetail base (sv_jobId sv)])"
    "lines_body sv = Some body \<Longrightarrow> run_from base sv [] =
       (sv\<lparr>sv_stage := Posting_Lines\<rparr>, [postLineItems base (sv_jobId sv) body])"
    "lines_body sv = Some body \<Longrightarrow> run_from base sv (a # as) =
       ((case a of None \<Rightarrow> sv\<lparr>sv_stage := Rereading, sv_lineCommitted := True\<rparr>
         | Some m \<Rightarrow> sv\<lparr>sv_stage := Rereading, sv_refusal := Some m\<rparr>),
        [postLineItems base (sv_jobId sv) body, getExtractionDetail base (sv_jobId sv)])"
  using assms
  by (auto simp: run_from_def next_post_def post_answered_def after_fields_cases reread_def run_rereading
      split: prod.splits option.splits)

lemma lines_body_update [simp]:
  "lines_body (sv\<lparr>sv_stage := st\<rparr>) = lines_body sv" "lines_body (sv\<lparr>sv_todo := ps\<rparr>) = lines_body sv"
  "lines_body (sv\<lparr>sv_committed := cs\<rparr>) = lines_body sv"
  by (simp_all add: lines_body_def)

lemma run_from_requests:
  assumes "sv_refusal sv = None"
  shows "snd (run_from base sv as) = save_requests base (sv_jobId sv) (sv_todo sv) (lines_body sv) as"
  using assms
proof (induction as arbitrary: sv)
  case Nil
  then show ?case
    by (cases "sv_todo sv"; cases "lines_body sv") (simp_all add: run_from_post run_from_lines save_requests_def)
next
  case (Cons a as)
  show ?case
  proof (cases "sv_todo sv")
    case Nil
    then show ?thesis using Cons.prems
      by (cases "lines_body sv"; cases a) (simp_all add: run_from_lines save_requests_def)
  next
    case (Cons p ps)
    then show ?thesis using Cons.IH [of "sv\<lparr>sv_stage := Posting_Fields, sv_todo := ps, sv_committed := sv_committed sv @ [cp_field p]\<rparr>"] Cons.prems
      by (cases a) (simp_all add: run_from_post save_requests_def)
  qed
qed


text \<open>How a save stands after the answers so far.\<close>

lemma run_from_state:
  fixes base :: string
  assumes "sv_refusal sv = None" "\<not> sv_lineCommitted sv"
  shows "let sv' = fst (run_from base sv as); m = length (sv_todo sv) in
    sv_mine sv' = sv_mine sv \<and> sv_jobId sv' = sv_jobId sv \<and> sv_entries sv' = sv_entries sv \<and>
    sv_posts sv' = sv_posts sv \<and> sv_postedRows sv' = sv_postedRows sv \<and>
    sv_committed sv' = sv_committed sv @ map cp_field (take (taken as) (sv_todo sv)) \<and>
    sv_refusal sv' =
      (if taken as < length as \<and> (taken as < m \<or> taken as = m \<and> lines_body sv \<noteq> None) then as ! taken as else None) \<and>
    (sv_lineCommitted sv' \<longleftrightarrow> lines_body sv \<noteq> None \<and> m < taken as) \<and>
    (sv_stage sv' = Rereading \<longleftrightarrow>
      (if taken as < m then taken as < length as else lines_body sv = None \<or> m < length as))"
  using assms
proof (induction as arbitrary: sv)
  case Nil
  then show ?case
    by (cases "sv_todo sv"; cases "lines_body sv") (simp_all add: run_from_post run_from_lines Let_def)
next
  case (Cons a as)
  show ?case
  proof (cases "sv_todo sv")
    case Nil
    then show ?thesis using Cons.prems
      by (cases "lines_body sv"; cases a) (simp_all add: run_from_lines Let_def)
  next
    case (Cons p ps)
    then show ?thesis using Cons.IH [of "sv\<lparr>sv_stage := Posting_Fields, sv_todo := ps, sv_committed := sv_committed sv @ [cp_field p]\<rparr>"] Cons.prems
      by (cases a) (auto simp: run_from_post Let_def)
  qed
qed


lemma render_idem: "of_job (sh_jobId s) (keep_job (sh_jobId s) x) = of_job (sh_jobId s) x"
  by (simp add: keep_job_def of_job_def split: option.splits prod.splits)

lemma shell_entries_render [simp]: "shell_entries (render s) = shell_entries s"
  by (simp add: shell_entries_def render_def render_idem)

lemma lineRows_render [simp]: "lineRows (render s) = lineRows s"
  by (simp add: lineRows_def render_def render_idem)

lemma panes_cong:
  "sh_jobId s' = sh_jobId s \<Longrightarrow> sh_fetched s' = sh_fetched s \<Longrightarrow>
   of_job (sh_jobId s) (sh_merged s') = of_job (sh_jobId s) (sh_merged s) \<Longrightarrow> panes s' = panes s"
  unfolding panes_def shell_data_def by (simp only:)

lemma panes_render [simp]: "panes (render s) = panes s"
  by (rule panes_cong) (simp_all add: render_def render_idem)

lemma save_click_opens:
  fixes base :: string
  assumes "panes s = Some d" "\<not> save_held s" "\<not> nothingToSave s d" "\<not> sh_writing s"
  defines "t \<equiv> shell_step base s Save_Click"
  shows "sh_writing t" "sh_write t = sh_write s + 1"
    "sh_save t = Some (fst (next_post base (opened_save d s)))"
    "sh_sent t = sh_sent s @ snd (next_post base (opened_save d s))"
    "shell_entries t = shell_entries s" "lineRows t = lineRows s" "panes t = panes s" "sh_next t = sh_next s"
    "sh_jobId t = sh_jobId s"
proof -
  let ?s = "s\<lparr>sh_write := sh_write s + 1, sh_writing := True, sh_writeError := None, sh_armed := None\<rparr>"
  have t: "t = render (run_to (next_post base (opened_save d s)) ?s)"
    using assms by (simp add: shell_step_def on_panes_def save_click_def)
  show "panes t = panes s" by (simp add: t) (rule panes_cong, simp_all add: run_to_def)
  show "sh_writing t" "sh_write t = sh_write s + 1" "sh_next t = sh_next s" "sh_jobId t = sh_jobId s"
    "sh_save t = Some (fst (next_post base (opened_save d s)))"
    "sh_sent t = sh_sent s @ snd (next_post base (opened_save d s))"
    "shell_entries t = shell_entries s" "lineRows t = lineRows s"
    by (simp_all add: t render_keeps) (simp_all add: run_to_def shell_entries_def lineRows_def)
qed

lemma opened_save_simps [simp]:
  "sv_refusal (opened_save d s) = None" "\<not> sv_lineCommitted (opened_save d s)"
  "sv_todo (opened_save d s) = save_posts s d" "sv_posts (opened_save d s) = save_posts s d"
  "sv_jobId (opened_save d s) = sh_jobId s" "sv_entries (opened_save d s) = shell_entries s"
  "sv_committed (opened_save d s) = []" "sv_postedRows (opened_save d s) = lineRows s"
  "sv_mine (opened_save d s) = sh_write s + 1"
  by (simp_all add: opened_save_def)

definition posted_lines :: "shell \<Rightarrow> extraction_detail \<Rightarrow> line_input list option" where
  "posted_lines s d = (if line_changed s d then map_option (\<lambda>(i, rows). linesToPost rows) (lineRows s) else None)"

lemma lines_body_opened [simp]: "lines_body (opened_save d s) = posted_lines s d"
  by (simp add: lines_body_def posted_lines_def opened_save_def)

lemma save_run_state:
  fixes base :: string
  assumes enabled: "panes s = Some d" "\<not> save_held s" "\<not> nothingToSave s d" "\<not> sh_writing s"
    and quiet: "\<not> list_ex is_reread es"
  shows "let t = foldl (shell_step base) s (Save_Click # es); r = run_from base (opened_save d s) (answers es) in
    sh_writing t \<and> sh_write t = sh_write s + 1 \<and> sh_save t = Some (fst r) \<and> sh_sent t = sh_sent s @ snd r"
  using steps_while_writing [OF save_click_opens(1,3) [OF enabled] quiet, of base base]
    save_click_opens(2,4) [OF enabled, of base]
  by (simp add: run_from_def Let_def split: prod.splits)

lemma sorted_save_posts: "sorted (map (\<lambda>p. vocabularyRank (cp_field p)) (save_posts s d))"
  by (simp add: save_posts_def savableCorrections_def post_of_def comp_def)

text \<open>C16: what a save sends. From a press of Save, whatever is typed, clicked or opened meanwhile, the screen
  posts the corrections of the draft one at a time in the order of the form, each only after the last was
  taken; then the lines, if they changed and every correction was taken; then, once, it reads the document
  again.\<close>

theorem save_sends_in_order:
  fixes base :: string
  assumes "panes s = Some d" "\<not> save_held s" "\<not> nothingToSave s d" "\<not> sh_writing s"
    and "\<not> list_ex is_reread es"
  shows "sorted (map (\<lambda>p. vocabularyRank (cp_field p)) (save_posts s d)) \<and>
    sh_sent (foldl (shell_step base) s (Save_Click # es)) =
      sh_sent s @ save_requests base (sh_jobId s) (save_posts s d) (posted_lines s d) (answers es)"
  using save_run_state [OF assms, of base] sorted_save_posts [of s d]
  by (simp add: run_from_requests Let_def)


subsection \<open>What a save leaves in the drafts\<close>

definition entries_ok :: "nat \<Rightarrow> entries \<Rightarrow> bool" where
  "entries_ok n es \<longleftrightarrow> distinct (map fst es) \<and> list_all (\<lambda>(name, i, e). i < n) es"

definition shell_ok :: "shell \<Rightarrow> bool" where
  "shell_ok s \<longleftrightarrow>
     (case sh_draft s of None \<Rightarrow> True | Some (j, es) \<Rightarrow> entries_ok (sh_next s) es) \<and>
     (case sh_lineDraft s of None \<Rightarrow> True | Some (j, i, rows) \<Rightarrow> i < sh_next s)"

lemma entries_ok_mono: "entries_ok n es \<Longrightarrow> n \<le> m \<Longrightarrow> entries_ok m es"
  by (auto simp: entries_ok_def list_all_iff)

lemma set_al_set: "set (al_set k v m) \<subseteq> insert (k, v) (set m)"
  by (induction k v m rule: al_set.induct) auto

lemma entries_ok_put: "entries_ok n es \<Longrightarrow> entries_ok (n + 1) (al_set name (n, e) es)"
  using set_al_set [of name "(n, e)" es]
  by (auto simp: entries_ok_def distinct_al_set list_all_iff dest!: subsetD)

lemma entries_ok_filter: "entries_ok n es \<Longrightarrow> entries_ok n (filter p es)"
  by (auto simp: entries_ok_def list_all_iff distinct_map_filter)

lemma entries_ok_Nil [simp]: "entries_ok n []"
  by (simp add: entries_ok_def)

lemma entries_ok_shell: "shell_ok s \<Longrightarrow> entries_ok (sh_next s) (shell_entries s)"
  by (auto simp: shell_ok_def shell_entries_def of_job_def split: option.splits)

lemma shell_ok_draftField:
  assumes "shell_ok s"
  shows "shell_ok (draftField name f s)"
  using entries_ok_put [OF entries_ok_shell [OF assms]] assms
  by (auto simp: draftField_def shell_ok_def Let_def split: option.splits)

lemma shell_ok_cong:
  "shell_ok s \<Longrightarrow> sh_draft s' = sh_draft s \<Longrightarrow> sh_lineDraft s' = sh_lineDraft s \<Longrightarrow> sh_next s' = sh_next s \<Longrightarrow> shell_ok s'"
  unfolding shell_ok_def by (simp only:)

lemma shell_ok_render: "shell_ok s \<Longrightarrow> shell_ok (render s)"
  by (auto simp: shell_ok_def render_def keep_job_def of_job_def split: option.splits)

lemma shell_ok_editLines: "shell_ok s \<Longrightarrow> shell_ok (editLines f d s)"
  by (auto simp: shell_ok_def editLines_def Let_def split: option.splits
      intro: entries_ok_mono)

lemma shell_ok_save_done: "shell_ok s \<Longrightarrow> shell_ok (save_done fresh sv s)"
  by (auto simp: shell_ok_def save_done_def kept_entries_def of_job_def Let_def intro!: entries_ok_filter
      split: option.splits)

lemma shell_ok_on_panes: "shell_ok s \<Longrightarrow> (\<And>d. shell_ok (act d s)) \<Longrightarrow> shell_ok (on_panes offered act s)"
  by (simp add: on_panes_def split: option.split)

lemma shell_ok_pointAt: "shell_ok s \<Longrightarrow> shell_ok (pointAt r d s)"
  unfolding pointAt_def
  by (auto split: option.split intro: shell_ok_cong shell_ok_draftField)

lemma shell_ok_act: "shell_ok s \<Longrightarrow> shell_ok (shell_act base s e)"
  by (cases e)
    (auto simp: save_click_def run_to_def selectField_def split: option.splits
      intro!: shell_ok_on_panes intro: shell_ok_draftField shell_ok_editLines shell_ok_pointAt shell_ok_save_done
      elim: shell_ok_cong)

interpretation review_shell: machine "shell_start jobId hasInvoice" "shell_step base" shell_ok
  for jobId hasInvoice base
proof
  show "shell_ok (shell_start jobId hasInvoice)" by (simp add: shell_ok_def shell_start_def)
qed (simp add: shell_step_def shell_ok_render shell_ok_act)


fun stays :: "shell_event \<Rightarrow> bool" where
  "stays (Props _ _) = False"
| "stays (Detail_Read _) = False"
| "stays (Reread_Answered _) = False"
| "stays _ = True"

fun edits_field :: "string \<Rightarrow> shell_event \<Rightarrow> bool" where
  "edits_field name (Type_In n v) \<longleftrightarrow> n = name"
| "edits_field name (Choose n c) \<longleftrightarrow> n = name"
| "edits_field name (Undo_Click n) \<longleftrightarrow> n = name"
| "edits_field name (Point_At r) \<longleftrightarrow> True"
| "edits_field name _ \<longleftrightarrow> False"

fun edits_lines :: "shell_event \<Rightarrow> bool" where
  "edits_lines (Line_Edit _ _ _) = True"
| "edits_lines Line_Add = True"
| "edits_lines (Line_Remove _) = True"
| "edits_lines (Line_Remap _ _) = True"
| "edits_lines _ = False"

lemma shell_entries_put [simp]:
  "shell_entries (draftField name f s) =
     al_set name (sh_next s, f (map_option snd (map_of (shell_entries s) name))) (shell_entries s)"
  by (simp add: draftField_def Let_def shell_entries_def of_job_def)

lemma shell_entries_cong:
  "sh_jobId s' = sh_jobId s \<Longrightarrow> sh_draft s' = sh_draft s \<Longrightarrow> shell_entries s' = shell_entries s"
  unfolding shell_entries_def by (simp only:)

lemma lineRows_cong:
  "sh_jobId s' = sh_jobId s \<Longrightarrow> sh_lineDraft s' = sh_lineDraft s \<Longrightarrow> lineRows s' = lineRows s"
  unfolding lineRows_def by (simp only:)

lemma draftField_rest:
  "sh_jobId (draftField name f s) = sh_jobId s" "sh_lineDraft (draftField name f s) = sh_lineDraft s"
  "sh_fetched (draftField name f s) = sh_fetched s" "sh_merged (draftField name f s) = sh_merged s"
  "sh_next (draftField name f s) = sh_next s + 1"
  by (simp_all add: draftField_def Let_def)

lemma editLines_rest:
  "sh_jobId (editLines f d s) = sh_jobId s" "sh_draft (editLines f d s) = sh_draft s"
  "sh_fetched (editLines f d s) = sh_fetched s" "sh_merged (editLines f d s) = sh_merged s"
  "sh_next (editLines f d s) = sh_next s + 1"
  by (simp_all add: editLines_def Let_def)

lemma act_stays:
  assumes "stays e"
  shows "sh_jobId (shell_act base s e) = sh_jobId s \<and> sh_fetched (shell_act base s e) = sh_fetched s \<and>
    sh_merged (shell_act base s e) = sh_merged s \<and> sh_next s \<le> sh_next (shell_act base s e)"
  using assms
  by (cases e) (auto simp: on_panes_def draftField_rest editLines_rest pointAt_def selectField_def save_click_def
      run_to_def split: option.splits)

lemma step_stays:
  assumes "stays e"
  shows "panes (shell_step base s e) = panes s" "sh_jobId (shell_step base s e) = sh_jobId s"
    "sh_next s \<le> sh_next (shell_step base s e)"
  using act_stays [OF assms, of base s]
  by (simp_all add: shell_step_def render_keeps) (rule panes_cong, simp_all)

lemma step_entry:
  assumes "stays e" "\<not> edits_field name e"
  shows "map_of (shell_entries (shell_step base s e)) name = map_of (shell_entries s) name"
proof (cases "\<exists>n v. e = Type_In n v \<or> (\<exists>c. e = Choose n c) \<or> e = Undo_Click n")
  case True
  then show ?thesis using assms by (auto simp: shell_step_def on_panes_def split: option.splits)
next
  case False
  then have "sh_draft (shell_act base s e) = sh_draft s"
    using assms by (cases e) (auto simp: on_panes_def editLines_rest selectField_def save_click_def
      run_to_def split: option.splits)
  with act_stays [OF assms(1), of base s] show ?thesis
    by (simp add: shell_step_def) (simp add: shell_entries_def)
qed

lemma step_lines:
  assumes "stays e" "\<not> edits_lines e"
  shows "lineRows (shell_step base s e) = lineRows s"
proof -
  have "sh_lineDraft (shell_act base s e) = sh_lineDraft s"
    using assms by (cases e) (auto simp: on_panes_def draftField_rest pointAt_def selectField_def save_click_def
      run_to_def split: option.splits)
  with act_stays [OF assms(1), of base s] show ?thesis
    by (simp add: shell_step_def) (simp add: lineRows_def)
qed

lemma steps_stay:
  assumes "list_all stays es"
  shows "panes (foldl (shell_step base) s es) = panes s \<and> sh_jobId (foldl (shell_step base) s es) = sh_jobId s \<and>
    sh_next s \<le> sh_next (foldl (shell_step base) s es)"
  using assms
proof (induction es arbitrary: s)
  case (Cons e es)
  then have e: "stays e" and es: "list_all stays es" by simp_all
  show ?case using Cons.IH [OF es, of "shell_step base s e"] step_stays(1,2) [OF e, of base s] step_stays(3) [OF e, of s base] by simp
qed simp

lemma steps_entry:
  "list_all stays es \<Longrightarrow> \<not> list_ex (edits_field name) es \<Longrightarrow>
   map_of (shell_entries (foldl (shell_step base) s es)) name = map_of (shell_entries s) name"
  by (induction es arbitrary: s) (simp_all add: step_entry)

lemma steps_lines:
  "list_all stays es \<Longrightarrow> \<not> list_ex edits_lines es \<Longrightarrow> lineRows (foldl (shell_step base) s es) = lineRows s"
  by (induction es arbitrary: s) (simp_all add: step_lines)

lemma map_of_plain: "map_of (plain es) name = map_option snd (map_of es name)"
  by (induction es) (auto simp: plain_def)

lemma map_of_filter_key:
  "distinct (map fst es) \<Longrightarrow> map_of (filter (\<lambda>(k, v). P k v) es) k =
     (case map_of es k of Some v \<Rightarrow> if P k v then Some v else None | None \<Rightarrow> None)"
  by (induction es) (auto split: option.splits simp: map_of_eq_None_iff rev_image_eqI)


lemma cp_field_savableCorrections:
  "map cp_field (savableCorrections fs es) =
     sort_key vocabularyRank (filter (\<lambda>name. savable fs name (the (map_of es name))) (map fst es))"
  by (simp add: savableCorrections_def post_of_def comp_def)

lemma distinct_save_posts: "shell_ok s \<Longrightarrow> distinct (map cp_field (save_posts s d))"
  using entries_ok_shell [of s]
  by (simp add: save_posts_def cp_field_savableCorrections entries_ok_def plain_def comp_def case_prod_unfold)

lemma set_drop_fields:
  "distinct (map cp_field ps) \<Longrightarrow>
   (f \<in> cp_field ` set ps \<and> f \<notin> cp_field ` set (take k ps)) \<longleftrightarrow> f \<in> set (map cp_field (drop k ps))"
proof -
  assume "distinct (map cp_field ps)"
  then have "distinct (map cp_field (take k ps) @ map cp_field (drop k ps))"
    by (metis append_take_drop_id map_append)
  moreover have "cp_field ` set ps = set (map cp_field (take k ps)) \<union> set (map cp_field (drop k ps))"
    by (metis append_take_drop_id map_append set_append set_map)
  ultimately show ?thesis by auto
qed

definition lines_taken :: "shell \<Rightarrow> extraction_detail \<Rightarrow> shell_event list \<Rightarrow> bool" where
  "lines_taken s d es \<longleftrightarrow> posted_lines s d \<noteq> None \<and> length (save_posts s d) < taken (answers es)"

lemma save_finishes:
  fixes base :: string
  assumes ok: "shell_ok s"
    and enabled: "panes s = Some d" "\<not> save_held s" "\<not> nothingToSave s d" "\<not> sh_writing s"
    and stay: "list_all stays es"
    and t1: "t1 = foldl (shell_step base) s (Save_Click # es)" and t: "t = shell_step base t1 (Reread_Answered fresh)"
    and rest: "\<not> sh_writing t"
  shows "shell_entries t = filter (\<lambda>(name, i, e).
      name \<in> set (map cp_field (drop (taken (answers es)) (save_posts s d))) \<or>
      map_option fst (map_of (shell_entries s) name) \<noteq> Some i) (shell_entries t1)"
    and "lineRows t = (if \<not> lines_taken s d es then lineRows t1
      else case lineRows t1 of Some (i, rows) \<Rightarrow> if map_option fst (lineRows s) \<noteq> Some i then Some (i, rows) else None
      | None \<Rightarrow> None)"
proof -
  define sv where "sv = fst (run_from base (opened_save d s) (answers es))"
  have quiet: "\<not> list_ex is_reread es"
    using stay unfolding list_ex_iff list_all_iff by (metis is_reread.elims(2) stays.simps(3))
  have run: "sh_writing t1" "sh_write t1 = sh_write s + 1" "sh_save t1 = Some sv"
    using save_run_state [OF enabled quiet, of base] by (simp_all add: t1 sv_def Let_def)
  have sv: "sv_mine sv = sh_write s + 1" "sv_jobId sv = sh_jobId s" "sv_entries sv = shell_entries s"
    "sv_posts sv = save_posts s d" "sv_postedRows sv = lineRows s"
    "sv_committed sv = map cp_field (take (taken (answers es)) (save_posts s d))"
    "sv_lineCommitted sv \<longleftrightarrow> lines_taken s d es"
    using run_from_state [of "opened_save d s" base "answers es"]
    by (simp_all add: sv_def [symmetric] Let_def lines_taken_def del: not_None_eq)
  have job: "sh_jobId t1 = sh_jobId s"
    using steps_stay [of "Save_Click # es" base s] stay by (simp add: t1)
  have rereading: "sv_stage sv = Rereading"
    using rest run by (cases "sv_stage sv = Rereading") (simp_all add: t shell_step_def save_done_def render_keeps)
  have final: "t = render (save_done fresh sv t1)" by (simp add: t shell_step_def run)
  have refused: "f \<in> set (refused_fields sv) \<longleftrightarrow> f \<in> set (map cp_field (drop (taken (answers es)) (save_posts s d)))" for f
    using set_drop_fields [OF distinct_save_posts [OF ok], of f d "taken (answers es)"]
    by (auto simp: refused_fields_def sv)
  have "shell_entries t = kept_entries sv (shell_entries t1)"
    by (simp add: final) (simp add: save_done_def rereading run sv job shell_entries_def of_job_def Let_def)
  then show "shell_entries t = filter (\<lambda>(name, i, e).
      name \<in> set (map cp_field (drop (taken (answers es)) (save_posts s d))) \<or>
      map_option fst (map_of (shell_entries s) name) \<noteq> Some i) (shell_entries t1)"
    by (simp only: kept_entries_def refused sv)
  show "lineRows t = (if \<not> lines_taken s d es then lineRows t1
      else case lineRows t1 of Some (i, rows) \<Rightarrow> if map_option fst (lineRows s) \<noteq> Some i then Some (i, rows) else None
      | None \<Rightarrow> None)"
    by (simp add: final) (auto simp: save_done_def rereading run sv job lineRows_def of_job_def Let_def split: option.splits)
qed


lemma typed_entry_kept:
  assumes "shell_ok s" "panes s = Some d" "list_all stays (es1 @ Type_In name v # es2)"
    "can_type d name" "\<not> list_ex (edits_field name) es2"
  shows "\<exists>i e. map_of (shell_entries (foldl (shell_step base) s (es1 @ Type_In name v # es2))) name = Some (i, e) \<and>
    sh_next s \<le> i \<and> dn_value e = v"
proof -
  define u where "u = foldl (shell_step base) s es1"
  have u: "panes u = Some d" "sh_next s \<le> sh_next u"
    using steps_stay [of es1 base s] assms by (simp_all add: u_def)
  have "map_of (shell_entries (shell_step base u (Type_In name v))) name =
      Some (sh_next u, typedEntry (map_option snd (map_of (shell_entries u) name)) v)"
    using assms(4) by (simp add: shell_step_def on_panes_def u(1))
  moreover have "dn_value (typedEntry prev v) = v" for prev
    by (simp add: typedEntry_def split: option.splits)
  ultimately show ?thesis
    using steps_entry [of es2 name base "shell_step base u (Type_In name v)"] assms(3,5) u(2)
    by (simp add: u_def [symmetric])
qed

lemma steps_lines_closed:
  "list_all stays es \<Longrightarrow> panes s = Some d \<Longrightarrow> \<not> has_grid d \<Longrightarrow> lineRows (foldl (shell_step base) s es) = lineRows s"
proof (induction es arbitrary: s)
  case (Cons e es)
  then have e: "stays e" by simp
  have "lineRows (shell_step base s e) = lineRows s"
    using Cons.prems(2,3) step_lines [OF e, of base s] by (cases e) (simp_all add: shell_step_def on_panes_def)
  then show ?case using Cons step_stays(1) [OF e, of base s] by simp
qed simp

lemma edited_lines_kept:
  assumes "panes s = Some d" "list_all stays es" "has_grid d" "list_ex edits_lines es"
  shows "\<exists>i rows. lineRows (foldl (shell_step base) s es) = Some (i, rows) \<and> sh_next s \<le> i"
proof -
  obtain es1 e es2 where es: "es = es1 @ e # es2" "edits_lines e" "\<not> list_ex edits_lines es2"
    using assms(4) split_list_last_prop [of es edits_lines] by (auto simp: list_ex_iff)
  define u where "u = foldl (shell_step base) s es1"
  have u: "panes u = Some d" "sh_next s \<le> sh_next u"
    using steps_stay [of es1 base s] assms es by (simp_all add: u_def)
  have "\<exists>rows. lineRows (shell_step base u e) = Some (sh_next u, rows)"
    using es(2) assms(3) u(1)
    by (cases e) (simp_all add: shell_step_def on_panes_def editLines_def lineRows_def of_job_def Let_def render_def keep_job_def)
  then show ?thesis
    using steps_lines [of es2 base "shell_step base u e"] assms(2) es u(2) by (auto simp: u_def [symmetric])
qed

text \<open>C15: what a save keeps while the screen stays on its document and no other reading of it lands (leaving it is the subject of
  \<open>save_of_other_document_drops_draft\<close>). Whatever else is typed, chosen or edited while a save runs, once it is
  done, of the corrections not touched meanwhile exactly those that were posted and not taken by the server are still in the draft as they
  were: one the server took is gone, and so is one that was not worth posting. A text typed meanwhile is there as it was typed,
  taken or not, and the edited rows are dropped exactly if the server took them and they were not edited since.\<close>

theorem save_keeps_typing:
  fixes base :: string
  assumes s: "s = foldl (shell_step base) (shell_start jobId hasInvoice) es0"
    and enabled: "panes s = Some d" "\<not> save_held s" "\<not> nothingToSave s d" "\<not> sh_writing s"
    and stay: "list_all stays es"
    and t1: "t1 = foldl (shell_step base) s (Save_Click # es)" and t: "t = shell_step base t1 (Reread_Answered fresh)"
    and rest: "\<not> sh_writing t"
  shows "(\<not> list_ex (edits_field name) es \<longrightarrow> map_of (plain (shell_entries t)) name =
      (if name \<in> set (map cp_field (drop (taken (answers es)) (save_posts s d)))
       then map_of (plain (shell_entries s)) name else None)) \<and>
    (\<forall>es1 v es2. es = es1 @ Type_In name v # es2 \<and> can_type d name \<and> \<not> list_ex (edits_field name) es2 \<longrightarrow>
      map_option dn_value (map_of (plain (shell_entries t)) name) = Some v) \<and>
    lineRows t = (if has_grid d \<and> list_ex edits_lines es \<or> \<not> lines_taken s d es then lineRows t1 else None)"
proof -
  have ok: "shell_ok s" using review_shell.good_run by (simp add: s)
  have ok1: "shell_ok t1" using review_shell.good_run [of base jobId hasInvoice "es0 @ Save_Click # es"] by (simp add: s t1)
  note end_state = save_finishes [OF ok enabled stay t1 t rest]
  have stay': "list_all stays (Save_Click # es)" using stay by simp
  define untaken where "untaken = set (map cp_field (drop (taken (answers es)) (save_posts s d)))"
  have after: "map_of (shell_entries t) name = (case map_of (shell_entries t1) name of
      Some (i, e) \<Rightarrow> if name \<in> untaken \<or> map_option fst (map_of (shell_entries s) name) \<noteq> Some i then Some (i, e) else None
    | None \<Rightarrow> None)"
    using entries_ok_shell [OF ok1] unfolding end_state(1) untaken_def [symmetric]
    by (subst map_of_filter_key) (auto simp: entries_ok_def split: option.splits)
  have young: "i < sh_next s" if "map_of (shell_entries s) name = Some (i, e)" for i e
    using entries_ok_shell [OF ok] map_of_SomeD [OF that] by (fastforce simp: entries_ok_def list_all_iff)
  have first: "map_of (plain (shell_entries t)) name = (if name \<in> untaken then map_of (plain (shell_entries s)) name else None)"
    if unedited: "\<not> list_ex (edits_field name) es"
  proof -
    have "map_of (shell_entries t1) name = map_of (shell_entries s) name"
      unfolding t1 by (rule steps_entry [OF stay']) (simp add: unedited)
    then show ?thesis by (auto simp: map_of_plain after split: option.splits)
  qed
  have second: "map_option dn_value (map_of (plain (shell_entries t)) name) = Some v"
    if es: "es = es1 @ Type_In name v # es2" and typed: "can_type d name" "\<not> list_ex (edits_field name) es2" for es1 v es2
  proof -
    obtain i e where e: "map_of (shell_entries t1) name = Some (i, e)" "sh_next s \<le> i" "dn_value e = v"
      using typed_entry_kept [OF ok enabled(1), of "Save_Click # es1" name v es2 base] stay' typed
      unfolding t1 es by auto
    then show ?thesis using young by (fastforce simp: map_of_plain after)
  qed
  have line_young: "i < sh_next s" if "lineRows s = Some (i, rows)" for i rows
    using ok that by (auto simp: shell_ok_def lineRows_def of_job_def split: option.splits if_splits)
  have "lineRows t = (if has_grid d \<and> list_ex edits_lines es \<or> \<not> lines_taken s d es then lineRows t1 else None)"
  proof (cases "list_ex edits_lines es")
    case False
    then have "lineRows t1 = lineRows s" unfolding t1 by (intro steps_lines [OF stay']) simp
    with False show ?thesis by (auto simp: end_state(2) split: option.splits)
  next
    case True
    have "\<exists>i rows. lineRows t1 = Some (i, rows) \<and> sh_next s \<le> i" if "has_grid d"
      unfolding t1 by (rule edited_lines_kept [OF enabled(1) stay' that]) (simp add: True)
    moreover have "lineRows t1 = lineRows s" if "\<not> has_grid d"
      unfolding t1 using enabled(1) that by (rule steps_lines_closed [OF stay'])
    ultimately show ?thesis using True line_young
      by (cases "has_grid d") (auto simp: end_state(2) split: option.splits)
  qed
  with first second show ?thesis by (simp add: untaken_def)
qed


subsection \<open>Concrete saves\<close>

definition sample_field :: "string \<Rightarrow> string option \<Rightarrow> field_state" where
  "sample_field name v = \<lparr>fs_name = name, fs_value = v, fs_region = None, fs_reason = Clean, fs_alternatives = [],
     fs_corrected = None, fs_rules = []\<rparr>"

definition sample_detail :: "string \<Rightarrow> extraction_detail" where
  "sample_detail ident = \<lparr>ex_id = ident, ex_document_id = ''doc'', ex_state = ''succeeded'', ex_failure_kind = None,
     ex_document_type = None,
     ex_document = \<lparr>ed_filename = None, ed_content_type = None, ed_size_bytes = 0, ed_stored_at = ''''\<rparr>,
     ex_pages = [], ex_fields = [sample_field ''total'' (Some ''10''), sample_field ''currency'' None]\<rparr>"

definition sample_edits :: "shell_event list" where
  "sample_edits = [Detail_Read (Detail_Loaded (sample_detail ''a'')), Type_In ''total'' ''12'', Type_In ''currency'' ''USD'']"

definition sample_shell :: shell where
  "sample_shell = foldl (shell_step ''b'') (shell_start ''a'' False) sample_edits"


lemma HEADER_FIELDS_eq: "HEADER_FIELDS = [''invoice_number'', ''issue_date'', ''supplier_tin'', ''supplier_name'', ''buyer_tin'',
    ''buyer_name'', ''currency'', ''subtotal'', ''vat'', ''total'', ''due_date'', ''buyer_email'', ''buyer_telephone'',
    ''buyer_street'', ''buyer_city'', ''buyer_postal_zone'', ''buyer_country'', ''buyer_state'', ''buyer_lga'',
    ''original_invoice_number'']"
  by code_simp


lemma sample_offered:
  "can_type (sample_detail ident) ''total''" "can_type (sample_detail ident) ''currency''"
  by (simp_all add: can_type_def header_cells_def sample_detail_def sample_field_def isHeaderField_def LINE_FIELD_RE_def
      line_open_def starts_with_def field_candidates_def lockedField_def LOCKED_FIELDS_def)


lemma sample_readable [simp]:
  "ex_state (sample_detail ident) \<notin> set UNSETTLED" "ex_state (sample_detail ident) \<noteq> ''dead_lettered''"
  "\<not> isAIUnavailable (ex_fields (sample_detail ident))" "ex_document_type (sample_detail ident) = None"
  by (simp_all add: sample_detail_def UNSETTLED_def isAIUnavailable_def)

lemma sample_shell_eq:
  "sample_shell = (shell_start ''a'' False)\<lparr>sh_fetched := Detail_Loaded (sample_detail ''a''), sh_next := 2,
     sh_draft := Some (''a'', [(''total'', 0, \<lparr>dn_kind = By_Typing, dn_value = ''12'', dn_region = None\<rparr>),
       (''currency'', 1, \<lparr>dn_kind = By_Typing, dn_value = ''USD'', dn_region = None\<rparr>)])\<rparr>"
  by (simp add: sample_shell_def sample_edits_def shell_step_def on_panes_def panes_def shell_data_def shell_start_def
      render_def keep_job_def of_job_def draftField_def shell_entries_def Let_def sample_offered typedEntry_def)

lemma sample_trim: "trim ''12'' = ''12''" "trim ''USD'' = ''USD''"
  by code_simp+

lemma sample_ranks: "vocabularyRank ''total'' = 9" "vocabularyRank ''currency'' = 6"
  by (simp_all add: vocabularyRank_def HEADER_FIELDS_eq)

lemma sample_entries:
  "shell_entries sample_shell = [(''total'', 0, \<lparr>dn_kind = By_Typing, dn_value = ''12'', dn_region = None\<rparr>),
     (''currency'', 1, \<lparr>dn_kind = By_Typing, dn_value = ''USD'', dn_region = None\<rparr>)]"
  "lineRows sample_shell = None"
  by (simp_all add: sample_shell_eq shell_start_def shell_entries_def of_job_def lineRows_def)

lemma sample_posts:
  "map cp_field (save_posts sample_shell (sample_detail ''a'')) = [''currency'', ''total'']"
  "posted_lines sample_shell (sample_detail ''a'') = None"
  by (simp_all add: save_posts_def cp_field_savableCorrections sample_entries plain_def sample_detail_def sample_field_def
      savable_def sample_trim value_or_empty_def sample_ranks posted_lines_def line_changed_def)

lemma sample_shell_enabled:
  "panes sample_shell = Some (sample_detail ''a'')" "\<not> save_held sample_shell"
  "\<not> nothingToSave sample_shell (sample_detail ''a'')" "\<not> sh_writing sample_shell"
  using sample_posts(1)
  by (auto simp: sample_shell_eq panes_def shell_data_def shell_start_def of_job_def save_held_def is_note_verdict_def
      nothingToSave_def)

lemma save_ends:
  fixes base :: string
  assumes enabled: "panes s = Some d" "\<not> save_held s" "\<not> nothingToSave s d" "\<not> sh_writing s"
    and quiet: "\<not> list_ex is_reread es"
    and asked: "if taken (answers es) < length (save_posts s d) then taken (answers es) < length (answers es)
      else posted_lines s d = None \<or> length (save_posts s d) < length (answers es)"
  shows "\<not> sh_writing (shell_step base (foldl (shell_step base) s (Save_Click # es)) (Reread_Answered fresh))"
  using save_run_state [OF enabled quiet, of base] run_from_state [of "opened_save d s" base "answers es"] asked
  by (simp add: Let_def shell_step_def render_keeps save_done_def del: not_None_eq)

definition sample_answers :: "shell_event list" where
  "sample_answers = [Post_Answered None, Type_In ''total'' ''13'', Post_Answered (Some ''no'')]"

lemma sample_length: "length (save_posts sample_shell (sample_detail ''a'')) = 2"
  using arg_cong [OF sample_posts(1), of length] by simp

lemma sample_save_ends:
  "\<not> sh_writing (shell_step ''b'' (foldl (shell_step ''b'') sample_shell (Save_Click # sample_answers)) (Reread_Answered None))"
  by (rule save_ends [OF sample_shell_enabled]) (simp_all add: sample_length sample_answers_def)

theorem save_sends_witness:
  "length (sh_sent (foldl (shell_step ''b'') sample_shell (Save_Click # sample_answers))) = length (sh_sent sample_shell) + 3"
  using save_sends_in_order [OF sample_shell_enabled, of sample_answers "''b''"] sample_posts(2) sample_length
  by (simp add: sample_answers_def save_requests_def)

theorem save_keeps_witness:
  "map_of (plain (shell_entries (shell_step ''b'' (foldl (shell_step ''b'') sample_shell (Save_Click # sample_answers))
     (Reread_Answered None)))) ''currency'' = None"
proof -
  have "drop 1 (map cp_field (save_posts sample_shell (sample_detail ''a''))) = [''total'']"
    by (simp add: sample_posts)
  then show ?thesis
    using save_keeps_typing [OF sample_shell_def sample_shell_enabled _ refl refl sample_save_ends, of "''currency''"]
    by (simp add: sample_answers_def drop_map)
qed

text \<open>A save that ends after the operator has opened another document drops what was typed there: its updates
  replace the drafts of whatever document is open by ones tagged with its own.\<close>

lemma save_of_other_document_drops_draft:
  fixes base :: string
  assumes enabled: "panes s = Some d" "\<not> save_held s" "\<not> nothingToSave s d" "\<not> sh_writing s"
    and quiet: "\<not> list_ex is_reread es"
    and t1: "t1 = foldl (shell_step base) s (Save_Click # es)" and moved: "sh_jobId t1 \<noteq> sh_jobId s"
    and rest: "\<not> sh_writing (shell_step base t1 (Reread_Answered fresh))"
  shows "shell_entries (shell_step base t1 (Reread_Answered fresh)) = []"
proof -
  define sv where "sv = fst (run_from base (opened_save d s) (answers es))"
  have run: "sh_writing t1" "sh_write t1 = sh_write s + 1" "sh_save t1 = Some sv"
    using save_run_state [OF enabled quiet, of base] by (simp_all add: t1 sv_def Let_def)
  have sv: "sv_mine sv = sh_write s + 1" "sv_jobId sv = sh_jobId s"
    using run_from_state [of "opened_save d s" base "answers es"] by (simp_all add: sv_def [symmetric] Let_def)
  have "sv_stage sv = Rereading"
    using rest run by (cases "sv_stage sv = Rereading") (simp_all add: shell_step_def save_done_def render_keeps)
  then show ?thesis
    using moved by (simp add: shell_step_def run) (simp add: save_done_def run sv shell_entries_def of_job_def Let_def)
qed

end
