(* ===== verification/Tab_Storage.thy ===== *)
theory Tab_Storage
  imports Session "HOL-Library.Countable"
begin

text \<open>
  What one browser tab holds across the bounce to the landing page and back: the sign-in state of
  \<open>lib/signInState.ts\<close>, the invite of \<open>lib/pendingInvite.ts\<close>, the confirm marker of \<open>lib/verifyBounce.ts\<close>, the
  cancel link of \<open>lib/workspaceDeletion.ts\<close> and the destination of \<open>lib/deepLink.ts\<close>. Each is a versioned JSON
  text under its own key of \<open>sessionStorage\<close>, whose accesses may throw: all of them when storage is blocked, a write
  also when it is full. Every function catches what it throws. \<open>JSON.parse\<close> and \<open>JSON.stringify\<close> are arguments;
  the clock and the random bytes are arguments of each call.
\<close>

subsection \<open>Session storage\<close>

record tab =
  tb_items :: "string \<Rightarrow> string option"
  tb_blocked :: bool
  tb_full :: bool

text \<open>\<^const>\<open>None\<close> where the access throws.\<close>

definition getItem :: "string \<Rightarrow> tab \<Rightarrow> string option option" where
  "getItem k t = (if tb_blocked t then None else Some (tb_items t k))"

definition setItem :: "string \<Rightarrow> string \<Rightarrow> tab \<Rightarrow> tab option" where
  "setItem k v t = (if tb_blocked t \<or> tb_full t then None else Some (t\<lparr>tb_items := (tb_items t)(k \<mapsto> v)\<rparr>))"

definition removeItem :: "string \<Rightarrow> tab \<Rightarrow> tab option" where
  "removeItem k t = (if tb_blocked t then None else Some (t\<lparr>tb_items := (tb_items t)(k := None)\<rparr>))"

text \<open>A write or a removal whose exception is caught and logged.\<close>

definition try_set :: "string \<Rightarrow> string \<Rightarrow> tab \<Rightarrow> tab" where
  "try_set k v t = (case setItem k v t of Some t' \<Rightarrow> t' | None \<Rightarrow> t)"

definition try_remove :: "string \<Rightarrow> tab \<Rightarrow> tab" where
  "try_remove k t = (case removeItem k t of Some t' \<Rightarrow> t' | None \<Rightarrow> t)"

text \<open>Reading a key and removing it whatever it held.\<close>

definition take_item :: "string \<Rightarrow> tab \<Rightarrow> (string option \<times> tab) option" where
  "take_item k t = (case getItem k t of
     None \<Rightarrow> None
   | Some raw \<Rightarrow> map_option (Pair raw) (removeItem k t))"

subsection \<open>Random texts\<close>

text \<open>\<open>btoa\<close> on bytes.\<close>

definition b64_char :: "nat \<Rightarrow> char" where
  "b64_char n = (if n < 26 then char_of (65 + n) else if n < 52 then char_of (71 + n)
     else if n < 62 then char_of (n - 4) else if n = 62 then CHR ''+'' else CHR ''/'')"

fun b64_digits :: "string \<Rightarrow> nat list" where
  "b64_digits (a # b # c # r) =
     [byte a div 4, 16 * (byte a mod 4) + byte b div 16, 4 * (byte b mod 16) + byte c div 64, byte c mod 64] @ b64_digits r"
| "b64_digits [a, b] = [byte a div 4, 16 * (byte a mod 4) + byte b div 16, 4 * (byte b mod 16)]"
| "b64_digits [a] = [byte a div 4, 16 * (byte a mod 4)]"
| "b64_digits [] = []"

definition btoa :: "string \<Rightarrow> string" where
  "btoa bs = map b64_char (b64_digits bs) @ replicate ((3 - length bs mod 3) mod 3) CHR ''=''"

definition url_char :: "char \<Rightarrow> char" where
  "url_char c = (if c = CHR ''+'' then CHR ''-'' else if c = CHR ''/'' then CHR ''_'' else c)"

text \<open>\<open>mintState\<close>, on the 32 bytes of \<open>getRandomValues\<close>.\<close>

definition mintState :: "string \<Rightarrow> string" where
  "mintState bs = rev (dropWhile (\<lambda>c. c = CHR ''='') (rev (map url_char (btoa bs))))"

definition BASE64URL_43 :: "string \<Rightarrow> bool" where
  "BASE64URL_43 s \<longleftrightarrow> length s = 43 \<and> list_all (\<lambda>c. is_alnum c \<or> c = CHR ''_'' \<or> c = CHR ''-'') s"

subsection \<open>The sign-in state\<close>

definition SIGN_IN_STATE_KEY :: string where "SIGN_IN_STATE_KEY = ''invoice-os.signInState''"
definition SIGN_IN_STATE_SCHEMA_VERSION :: rat where "SIGN_IN_STATE_SCHEMA_VERSION = 1"
definition SIGN_IN_STATE_TTL_MS :: rat where "SIGN_IN_STATE_TTL_MS = 10 * 60 * 1000"
definition SIGN_IN_STATE_REUSE_MS :: rat where "SIGN_IN_STATE_REUSE_MS = 60000"

definition storedState :: "(string \<Rightarrow> json option) \<Rightarrow> string option \<Rightarrow> (string \<times> rat) option" where
  "storedState parse raw = (case Option.bind raw parse of
     None \<Rightarrow> None
   | Some p \<Rightarrow>
       if member p ''v'' \<noteq> JNum SIGN_IN_STATE_SCHEMA_VERSION then None
       else (case (member p ''s'', member p ''at'') of
           (JStr s, JNum since) \<Rightarrow> if BASE64URL_43 s then Some (s, since) else None
         | _ \<Rightarrow> None))"

definition within_ttl :: "rat \<Rightarrow> rat \<Rightarrow> bool" where
  "within_ttl since now \<longleftrightarrow> since \<le> now \<and> now - since < SIGN_IN_STATE_TTL_MS"

definition liveState :: "(string \<Rightarrow> json option) \<Rightarrow> string option \<Rightarrow> rat \<Rightarrow> string option" where
  "liveState parse raw now = (case storedState parse raw of
     None \<Rightarrow> None
   | Some (s, since) \<Rightarrow> if within_ttl since now then Some s else None)"

definition state_blob :: "string \<Rightarrow> rat \<Rightarrow> json" where
  "state_blob s now = JObj [(''v'', JNum SIGN_IN_STATE_SCHEMA_VERSION), (''s'', JStr s), (''at'', JNum now)]"

definition mintSignInState :: "(json \<Rightarrow> string) \<Rightarrow> rat \<Rightarrow> string \<Rightarrow> tab \<Rightarrow> string \<times> tab" where
  "mintSignInState stringify now random t =
    (let s = mintState random in (s, try_set SIGN_IN_STATE_KEY (stringify (state_blob s now)) t))"

definition ensureSignInState ::
  "(string \<Rightarrow> json option) \<Rightarrow> (json \<Rightarrow> string) \<Rightarrow> rat \<Rightarrow> string \<Rightarrow> tab \<Rightarrow> string \<times> tab"
where
  "ensureSignInState parse stringify now random t = (case getItem SIGN_IN_STATE_KEY t of
     None \<Rightarrow> (mintState random, t)
   | Some raw \<Rightarrow>
       (case storedState parse raw of
          Some (s, since) \<Rightarrow>
            if since \<le> now \<and> now - since < SIGN_IN_STATE_REUSE_MS then (s, t) else mintSignInState stringify now random t
        | None \<Rightarrow> mintSignInState stringify now random t))"

definition peekSignInState :: "(string \<Rightarrow> json option) \<Rightarrow> rat \<Rightarrow> tab \<Rightarrow> string option" where
  "peekSignInState parse now t = (case getItem SIGN_IN_STATE_KEY t of
     None \<Rightarrow> None | Some raw \<Rightarrow> liveState parse raw now)"

definition consumeSignInState :: "(string \<Rightarrow> json option) \<Rightarrow> rat \<Rightarrow> bool \<Rightarrow> tab \<Rightarrow> string option \<times> tab" where
  "consumeSignInState parse now anyAge t = (case take_item SIGN_IN_STATE_KEY t of
     None \<Rightarrow> (None, t)
   | Some (raw, t') \<Rightarrow>
       (if \<not> anyAge then liveState parse raw now
        else (case storedState parse raw of
            Some (s, since) \<Rightarrow> if since \<le> now then Some s else None
          | None \<Rightarrow> None),
        t'))"

subsection \<open>The landing's addresses\<close>

text \<open>\<open>landingBase\<close> and \<open>supportBase\<close> of \<open>auth.ts\<close>, on the value the build gives.\<close>

definition env_base :: "string option \<Rightarrow> string option" where
  "env_base v = (let b = rev (dropWhile (\<lambda>c. c = CHR ''/'') (rev (trim (case v of Some s \<Rightarrow> s | None \<Rightarrow> []))))
     in if b = '''' then None else Some b)"

datatype sign_in_outcome = Outcome_Ready | Outcome_Failed | Outcome_No_Workspace

fun outcome_text :: "sign_in_outcome \<Rightarrow> string" where
  "outcome_text Outcome_Ready = ''ready''"
| "outcome_text Outcome_Failed = ''failed''"
| "outcome_text Outcome_No_Workspace = ''no-workspace''"

datatype invite_outcome = Invite_Invalid | Invite_Already_Member | Invite_Other_Address

fun invite_outcome_text :: "invite_outcome \<Rightarrow> string" where
  "invite_outcome_text Invite_Invalid = ''invalid''"
| "invite_outcome_text Invite_Already_Member = ''already-member''"
| "invite_outcome_text Invite_Other_Address = ''other-address''"

definition landingSignInUrl :: "string option \<Rightarrow> string \<Rightarrow> sign_in_outcome option \<Rightarrow> string option" where
  "landingSignInUrl landing state outcome = map_option (\<lambda>base. base @ ''/?state='' @ state @
     (case outcome of Some x \<Rightarrow> ''&signin='' @ outcome_text x | None \<Rightarrow> '''')) landing"

definition landingRegisterUrl :: "string option \<Rightarrow> string \<Rightarrow> string option" where
  "landingRegisterUrl landing state = map_option (\<lambda>base. base @ ''/?state='' @ state @ ''&register'') landing"

definition landingInviteUrl :: "string option \<Rightarrow> invite_outcome \<Rightarrow> string option" where
  "landingInviteUrl landing outcome = map_option (\<lambda>base. base @ ''/?invite='' @ invite_outcome_text outcome) landing"

subsection \<open>The pending invite\<close>

definition PENDING_INVITE_KEY :: string where "PENDING_INVITE_KEY = ''invoice-os.pendingInvite''"
definition PENDING_INVITE_SCHEMA_VERSION :: rat where "PENDING_INVITE_SCHEMA_VERSION = 1"

definition search_all :: "string \<Rightarrow> string \<Rightarrow> string list" where
  "search_all s k = map snd (filter (\<lambda>(k', v). k' = k) (search_pairs s))"

text \<open>The one value of a parameter of the fragment, which \<open>hash.replace(/^#/, '')\<close> reads as a query.\<close>

definition hash_query :: "string \<Rightarrow> string" where
  "hash_query h = (case h of c # r \<Rightarrow> if c = CHR ''#'' then r else h | [] \<Rightarrow> [])"

definition single :: "'a list \<Rightarrow> 'a option" where
  "single xs = (case xs of [x] \<Rightarrow> Some x | _ \<Rightarrow> None)"

definition fragment_token :: "(string \<Rightarrow> bool) \<Rightarrow> string \<Rightarrow> string \<Rightarrow> string option" where
  "fragment_token ok k h = (case single (search_all (hash_query h) k) of
     Some v \<Rightarrow> if ok v then Some v else None | None \<Rightarrow> None)"

definition readInviteFragment :: "string \<Rightarrow> string option" where
  "readInviteFragment h = fragment_token BASE64URL_43 ''invite'' h"

definition MAX_NAME_CHARS :: nat where "MAX_NAME_CHARS = 200"
definition NAME_REQUIRED :: string where "NAME_REQUIRED = ''Enter your name.''"
definition NAME_TOO_LONG :: string where
  "NAME_TOO_LONG = ''Use '' @ show_nat MAX_NAME_CHARS @ '' characters or fewer.''"

text \<open>\<open>trimName\<close>: U+0085 is trimmed as well. Every round of the loop shortens the text, so its length is
  enough fuel.\<close>

definition next_line :: string where "next_line = bytes [0xC2, 0x85]"

definition drop_prefix :: "string \<Rightarrow> string \<Rightarrow> string" where
  "drop_prefix w s = (if starts_with w s then drop (length w) s else s)"

definition drop_suffix :: "string \<Rightarrow> string \<Rightarrow> string" where
  "drop_suffix w s = rev (drop_prefix (rev w) (rev s))"

fun trim_name_loop :: "nat \<Rightarrow> string \<Rightarrow> string" where
  "trim_name_loop 0 s = s"
| "trim_name_loop (Suc n) s =
    (if starts_with next_line s \<or> starts_with (rev next_line) (rev s)
     then trim_name_loop n (trim (drop_suffix next_line (drop_prefix next_line s)))
     else s)"

definition trimName :: "string \<Rightarrow> string" where
  "trimName v = trim_name_loop (length v) (trim v)"

text \<open>\<open>[...s].length\<close>: the characters of a text, one for each byte that starts one.\<close>

definition char_count :: "string \<Rightarrow> nat" where
  "char_count s = length (filter (\<lambda>c. \<not> is_cont c) s)"

definition nul_char :: char where "nul_char = char_of (0 :: nat)"

definition validName :: "string \<Rightarrow> bool" where
  "validName v = (let t = trimName v in t \<noteq> '''' \<and> char_count t \<le> MAX_NAME_CHARS \<and> nul_char \<notin> set t)"

definition nameError :: "string \<Rightarrow> string option" where
  "nameError v = (if nul_char \<in> set v then None
     else (let n = char_count (trimName v) in
       if n = 0 then Some NAME_REQUIRED else if n > MAX_NAME_CHARS then Some NAME_TOO_LONG else None))"

definition readInviteName :: "string \<Rightarrow> string option" where
  "readInviteName h = (let name = (case single (search_all (hash_query h) ''name'') of Some v \<Rightarrow> trimName v | None \<Rightarrow> '''')
     in if validName name then Some name else None)"

definition invite_blob :: "string \<Rightarrow> rat \<Rightarrow> string option \<Rightarrow> json" where
  "invite_blob token now name = JObj ([(''v'', JNum PENDING_INVITE_SCHEMA_VERSION), (''t'', JStr token), (''at'', JNum now)]
     @ (case name of None \<Rightarrow> [] | Some n \<Rightarrow> [(''n'', JStr n)]))"

definition holdPendingInvite :: "(json \<Rightarrow> string) \<Rightarrow> string option \<Rightarrow> rat \<Rightarrow> string option \<Rightarrow> tab \<Rightarrow> tab" where
  "holdPendingInvite stringify token now name t = (case token of
     None \<Rightarrow> try_remove PENDING_INVITE_KEY t
   | Some tok \<Rightarrow> try_set PENDING_INVITE_KEY (stringify (invite_blob tok now name)) t)"

text \<open>A held 43-character token of the given version, with the record it came in and its time.\<close>

definition token_record :: "rat \<Rightarrow> (string \<Rightarrow> json option) \<Rightarrow> string option \<Rightarrow> (json \<times> string \<times> rat) option" where
  "token_record version parse raw = (case Option.bind raw parse of
     None \<Rightarrow> None
   | Some p \<Rightarrow>
       if member p ''v'' \<noteq> JNum version then None
       else (case (member p ''t'', member p ''at'') of
           (JStr tok, JNum since) \<Rightarrow> if BASE64URL_43 tok then Some (p, tok, since) else None
         | _ \<Rightarrow> None))"

definition text_field :: "json \<Rightarrow> string option" where
  "text_field v = (case v of JStr s \<Rightarrow> Some s | _ \<Rightarrow> None)"

definition liveInvite :: "(string \<Rightarrow> json option) \<Rightarrow> string option \<Rightarrow> rat \<Rightarrow> (string \<times> string option) option" where
  "liveInvite parse raw now = (case token_record PENDING_INVITE_SCHEMA_VERSION parse raw of
     None \<Rightarrow> None
   | Some (p, tok, since) \<Rightarrow> if within_ttl since now then Some (tok, text_field (member p ''n'')) else None)"

definition peekPendingInvite :: "(string \<Rightarrow> json option) \<Rightarrow> rat \<Rightarrow> tab \<Rightarrow> string option" where
  "peekPendingInvite parse now t = (case getItem PENDING_INVITE_KEY t of
     None \<Rightarrow> None | Some raw \<Rightarrow> map_option fst (liveInvite parse raw now))"

definition consumePendingInvite :: "(string \<Rightarrow> json option) \<Rightarrow> rat \<Rightarrow> tab \<Rightarrow> (string \<times> string option) option \<times> tab" where
  "consumePendingInvite parse now t = (case take_item PENDING_INVITE_KEY t of
     None \<Rightarrow> (None, t) | Some (raw, t') \<Rightarrow> (liveInvite parse raw now, t'))"

subsection \<open>The confirm marker\<close>

definition PENDING_VERIFY_KEY :: string where "PENDING_VERIFY_KEY = ''invoice-os.pendingVerify''"
definition PENDING_VERIFY_SCHEMA_VERSION :: rat where "PENDING_VERIFY_SCHEMA_VERSION = 1"

definition VERIFY_TOKEN :: "string \<Rightarrow> bool" where
  "VERIFY_TOKEN s \<longleftrightarrow> 1 \<le> length s \<and> length s \<le> 256 \<and> list_all (\<lambda>c. is_alnum c \<or> c = CHR ''_'' \<or> c = CHR ''-'') s"

definition readVerifyFragment :: "string \<Rightarrow> string option" where
  "readVerifyFragment h = fragment_token VERIFY_TOKEN ''token'' h"

definition gatewayVerifyUrl :: "string \<Rightarrow> string \<Rightarrow> string \<Rightarrow> bool \<Rightarrow> string" where
  "gatewayVerifyUrl base token state invite = base @ ''/auth/verify?token='' @ encodeURIComponent token @ ''&type=signup''
     @ (if invite then ''&invite=1'' else '''') @ ''&state='' @ state"

definition landingVerifyFailedUrl :: "string option \<Rightarrow> string option" where
  "landingVerifyFailedUrl landing = map_option (\<lambda>base. base @ ''/?verify=failed'') landing"

definition marker_blob :: "rat \<Rightarrow> string option \<Rightarrow> json" where
  "marker_blob now s = JObj [(''v'', JNum PENDING_VERIFY_SCHEMA_VERSION), (''at'', JNum now), (''s'', json_text s)]"

definition holdPendingVerify :: "(string \<Rightarrow> json option) \<Rightarrow> (json \<Rightarrow> string) \<Rightarrow> rat \<Rightarrow> tab \<Rightarrow> tab" where
  "holdPendingVerify parse stringify now t =
     try_set PENDING_VERIFY_KEY (stringify (marker_blob now (peekSignInState parse now t))) t"

definition holdsPendingVerify :: "(string \<Rightarrow> json option) \<Rightarrow> tab \<Rightarrow> bool" where
  "holdsPendingVerify parse t = (case getItem PENDING_VERIFY_KEY t of
     None \<Rightarrow> False
   | Some raw \<Rightarrow>
       (case Option.bind raw parse of
          None \<Rightarrow> False
        | Some p \<Rightarrow>
            if member p ''v'' \<noteq> JNum PENDING_VERIFY_SCHEMA_VERSION then False
            else (case (member p ''at'', member p ''s'') of
                (JNum since, JStr s) \<Rightarrow> peekSignInState parse since t = Some s
              | _ \<Rightarrow> False)))"

definition liveMarker :: "(string \<Rightarrow> json option) \<Rightarrow> string option \<Rightarrow> rat \<Rightarrow> bool" where
  "liveMarker parse raw now = (case Option.bind raw parse of
     None \<Rightarrow> False
   | Some p \<Rightarrow> member p ''v'' = JNum PENDING_VERIFY_SCHEMA_VERSION \<and>
       (case member p ''at'' of JNum since \<Rightarrow> within_ttl since now | _ \<Rightarrow> False))"

definition consumePendingVerify :: "(string \<Rightarrow> json option) \<Rightarrow> rat \<Rightarrow> tab \<Rightarrow> bool \<times> tab" where
  "consumePendingVerify parse now t = (case take_item PENDING_VERIFY_KEY t of
     None \<Rightarrow> (False, t) | Some (raw, t') \<Rightarrow> (liveMarker parse raw now, t'))"

subsection \<open>The cancel link\<close>

definition CANCEL_LINK_KEY :: string where "CANCEL_LINK_KEY = ''invoice-os.cancelDeletionLink''"
definition CANCEL_LINK_SCHEMA_VERSION :: rat where "CANCEL_LINK_SCHEMA_VERSION = 1"

definition readCancelLinkFragment :: "string \<Rightarrow> string option" where
  "readCancelLinkFragment h = fragment_token BASE64URL_43 ''cancel-deletion'' h"

definition link_blob :: "string \<Rightarrow> rat \<Rightarrow> json" where
  "link_blob token now = JObj [(''v'', JNum CANCEL_LINK_SCHEMA_VERSION), (''t'', JStr token), (''at'', JNum now)]"

definition holdCancelLink :: "(json \<Rightarrow> string) \<Rightarrow> string option \<Rightarrow> rat \<Rightarrow> tab \<Rightarrow> tab" where
  "holdCancelLink stringify token now t = (case token of
     None \<Rightarrow> try_remove CANCEL_LINK_KEY t
   | Some tok \<Rightarrow> try_set CANCEL_LINK_KEY (stringify (link_blob tok now)) t)"

definition peekCancelLink :: "(string \<Rightarrow> json option) \<Rightarrow> rat \<Rightarrow> tab \<Rightarrow> string option" where
  "peekCancelLink parse now t = (case getItem CANCEL_LINK_KEY t of
     None \<Rightarrow> None
   | Some raw \<Rightarrow> (case token_record CANCEL_LINK_SCHEMA_VERSION parse raw of
         None \<Rightarrow> None | Some (p, tok, since) \<Rightarrow> if within_ttl since now then Some tok else None))"

subsection \<open>The destination\<close>

definition DEEP_LINK_KEY :: string where "DEEP_LINK_KEY = ''invoice-os.deepLink''"
definition DEEP_LINK_SCHEMA_VERSION :: rat where "DEEP_LINK_SCHEMA_VERSION = 2"
definition DEEP_LINK_TTL_MS :: rat where "DEEP_LINK_TTL_MS = 10 * 60000"

definition isCapturablePath :: "string \<Rightarrow> bool" where
  "isCapturablePath path \<longleftrightarrow> path \<noteq> ''/'' \<and> starts_with ''/'' path \<and> \<not> starts_with ''//'' path"

definition destination_blob :: "string \<Rightarrow> string \<Rightarrow> rat \<Rightarrow> json" where
  "destination_blob pathname query now = JObj [(''v'', JNum DEEP_LINK_SCHEMA_VERSION), (''path'', JStr pathname),
     (''query'', JStr query), (''at'', JNum now)]"

definition captureDestination :: "(json \<Rightarrow> string) \<Rightarrow> string \<Rightarrow> string \<Rightarrow> rat \<Rightarrow> tab \<Rightarrow> tab" where
  "captureDestination stringify pathname query now t =
    (if \<not> isCapturablePath pathname then t
     else try_set DEEP_LINK_KEY (stringify (destination_blob pathname query now)) t)"

definition stored_destination :: "(string \<Rightarrow> json option) \<Rightarrow> string option \<Rightarrow> (string \<times> string \<times> rat) option" where
  "stored_destination parse raw = (case Option.bind raw parse of
     None \<Rightarrow> None
   | Some p \<Rightarrow>
       if member p ''v'' \<noteq> JNum DEEP_LINK_SCHEMA_VERSION then None
       else (case (member p ''path'', member p ''query'', member p ''at'') of
           (JStr path, JStr query, JNum since) \<Rightarrow> if isCapturablePath path then Some (path, query, since) else None
         | _ \<Rightarrow> None))"

definition readDestination :: "(string \<Rightarrow> json option) \<Rightarrow> rat \<Rightarrow> tab \<Rightarrow> (string \<times> string) option" where
  "readDestination parse now t = (case getItem DEEP_LINK_KEY t of
     None \<Rightarrow> None
   | Some raw \<Rightarrow> (case stored_destination parse raw of
         None \<Rightarrow> None
       | Some (path, query, since) \<Rightarrow>
           if since > now then None
           else if now - since > DEEP_LINK_TTL_MS then None else Some (path, query)))"

definition clearDestination :: "tab \<Rightarrow> tab" where
  "clearDestination t = try_remove DEEP_LINK_KEY t"


subsection \<open>Minted states\<close>

lemma byte_unit: "byte (char_of n) = n mod 256"
  by (simp add: byte_def)

lemma pack:
  fixes q n m :: nat
  assumes "q < n"
  shows "(n * m + q) div n = m" "(n * m + q) mod n = q"
  using assms by simp_all

lemma byte_parts:
  "n * (byte a div n) + byte a mod n = byte a"
  "byte a div 16 < 16" "byte a div 64 < 4" "byte a div 4 < 64" "byte a mod 4 < 4" "byte a mod 16 < 16" "byte a mod 64 < 64"
  using byte_less [of a] by (simp_all add: less_mult_imp_div_less)

lemma unpack_bytes:
  "4 * (byte a div 4) + (16 * (byte a mod 4) + byte b div 16) div 16 = byte a"
  "16 * ((16 * (byte a mod 4) + byte b div 16) mod 16) + (4 * (byte b mod 16) + byte c div 64) div 4 = byte b"
  "64 * ((4 * (byte b mod 16) + byte c div 64) mod 4) + byte c mod 64 = byte c"
  using pack [OF byte_parts(2) [of b], of "byte a mod 4"] pack [OF byte_parts(3) [of c], of "byte b mod 16"]
    byte_parts(1) [of 4 a] byte_parts(1) [of 16 b] byte_parts(1) [of 64 c]
  by metis+

lemma unpack_ends:
  "4 * (byte a div 4) + (16 * (byte a mod 4)) div 16 = byte a"
  "16 * ((16 * (byte a mod 4) + byte b div 16) mod 16) + (4 * (byte b mod 16)) div 4 = byte b"
  using pack [OF byte_parts(2) [of b], of "byte a mod 4"] byte_parts(1) [of 4 a] byte_parts(1) [of 16 b] by simp_all

lemma b64_bytes_digits: "b64_bytes (b64_digits bs) = bs"
proof -
  have char: "char_of (byte x) = x" for x by (simp add: byte_def)
  show ?thesis
    by (induction bs rule: b64_digits.induct) (simp_all only: b64_digits.simps b64_bytes.simps append.simps unpack_bytes unpack_ends char)
qed

lemma pack_less:
  fixes q n m k :: nat
  assumes "q < n" "m < k"
  shows "n * m + q < n * k"
proof -
  have "n * m + q < n * Suc m" using assms(1) by simp
  also have "n * Suc m \<le> n * k" using assms(2) by (simp only: mult_le_mono2 Suc_leI)
  finally show ?thesis .
qed

lemma b64_digits_less: "list_all (\<lambda>d. d < 64) (b64_digits bs)"
proof -
  have "16 * (byte x mod 4) + byte y div 16 < 64" "4 * (byte x mod 16) + byte y div 64 < 64"
    "4 * (byte x mod 16) < 64" "16 * (byte x mod 4) < 64" for x y
    using pack_less [OF byte_parts(2) [of y] byte_parts(5) [of x]] pack_less [OF byte_parts(3) [of y] byte_parts(6) [of x]]
    by simp_all
  with byte_parts(4,7) show ?thesis by (induction bs rule: b64_digits.induct) simp_all
qed

lemma length_b64_digits: "length bs mod 3 = 2 \<Longrightarrow> length (b64_digits bs) = 4 * (length bs div 3) + 3"
proof (induction bs rule: b64_digits.induct)
  case (1 a b c r)
  have "length (a # b # c # r) = length r + 3" by simp
  then have "length (a # b # c # r) mod 3 = length r mod 3" "length (a # b # c # r) div 3 = length r div 3 + 1"
    by simp_all
  with 1 show ?case by (simp only: b64_digits.simps length_append length_Cons list.size) simp
qed simp_all

lemma byte_eq_iff: "c = d \<longleftrightarrow> byte c = byte d"
  by (metis byte_def char_of_char)

lemma byte_b64_char: "d < 64 \<Longrightarrow> byte (b64_char d) =
    (if d < 26 then 65 + d else if d < 52 then 71 + d else if d < 62 then d - 4 else if d = 62 then 43 else 47)"
  by (simp add: b64_char_def byte_def)

lemma byte_marks: "byte CHR ''+'' = 43" "byte CHR ''/'' = 47" "byte CHR ''='' = 61" "byte CHR ''-'' = 45" "byte CHR ''_'' = 95"
  by (simp_all add: byte_def)

lemma byte_url_char: "byte (url_char c) = (if byte c = 43 then 45 else if byte c = 47 then 95 else byte c)"
  by (simp add: url_char_def byte_eq_iff [of c] byte_marks)

lemma b64_val_byte: "b64_val c = (if 65 \<le> byte c \<and> byte c \<le> 90 then Some (byte c - 65)
     else if 97 \<le> byte c \<and> byte c \<le> 122 then Some (byte c - 71)
     else if 48 \<le> byte c \<and> byte c \<le> 57 then Some (byte c + 4)
     else if byte c = 43 then Some 62
     else if byte c = 47 then Some 63 else None)"
  unfolding b64_val_def byte_eq_iff [of c] byte_marks ..

lemma alnum_byte: "is_alnum c \<longleftrightarrow> 48 \<le> byte c \<and> byte c \<le> 57 \<or> 65 \<le> byte c \<and> byte c \<le> 90 \<or> 97 \<le> byte c \<and> byte c \<le> 122"
  by (simp add: is_alnum_def is_digit_def byte_def)

lemma digit_url:
  assumes "d < 64"
  shows "is_alnum (url_char (b64_char d)) \<or> url_char (b64_char d) = CHR ''_'' \<or> url_char (b64_char d) = CHR ''-''"
    "url_char (b64_char d) \<noteq> CHR ''=''" "b64_val (b64_char d) = Some d"
    "b64_char d \<noteq> CHR ''-'' \<and> b64_char d \<noteq> CHR ''_''"
  using assms unfolding alnum_byte byte_eq_iff [of "url_char (b64_char d)"] byte_eq_iff [of "b64_char d"] b64_val_byte byte_url_char byte_b64_char [OF assms] byte_marks
  by (auto simp: not_less)

lemma mintState_digits: "mintState bs = map (url_char \<circ> b64_char) (b64_digits bs)"
proof -
  have ds: "\<forall>c \<in> set (map (url_char \<circ> b64_char) (b64_digits bs)). c \<noteq> CHR ''=''"
    using b64_digits_less [of bs] digit_url(2) by (auto simp: list_all_iff)
  have "dropWhile (\<lambda>c. c = CHR ''='') (replicate n CHR ''='' @ xs) = dropWhile (\<lambda>c. c = CHR ''='') xs" for n and xs :: string
    by (induction n) simp_all
  moreover have "dropWhile (\<lambda>c. c = CHR ''='') (rev xs) = rev xs" if "\<forall>c \<in> set xs. c \<noteq> CHR ''=''" for xs :: string
    using that by (cases xs rule: rev_cases) simp_all
  moreover have "url_char CHR ''='' = CHR ''=''" by (simp add: url_char_def)
  ultimately show ?thesis using ds by (simp add: mintState_def btoa_def)
qed

lemma mintState_shape: "length bs = 32 \<Longrightarrow> BASE64URL_43 (mintState bs)"
  using length_b64_digits [of bs] b64_digits_less [of bs] digit_url(1)
  by (auto simp: BASE64URL_43_def mintState_digits list_all_iff)

lemma mintState_inj: "mintState bs = mintState cs \<Longrightarrow> bs = cs"
proof -
  have inj: "inj_on (url_char \<circ> b64_char) {d. d < 64}"
  proof (rule inj_onI)
    fix d e assume de: "d \<in> {d. d < 64}" "e \<in> {d. d < 64}" "(url_char \<circ> b64_char) d = (url_char \<circ> b64_char) e"
    then have "b64_char d = b64_char e" using digit_url(4) by (auto simp: url_char_def split: if_splits)
    then show "d = e" using de digit_url(3) by (metis mem_Collect_eq option.inject)
  qed
  assume "mintState bs = mintState cs"
  then have "map (url_char \<circ> b64_char) (b64_digits bs) = map (url_char \<circ> b64_char) (b64_digits cs)"
    by (simp add: mintState_digits)
  moreover have "inj_on (url_char \<circ> b64_char) (set (b64_digits bs) \<union> set (b64_digits cs))"
    using b64_digits_less [of bs] b64_digits_less [of cs] by (intro inj_on_subset [OF inj]) (auto simp: list_all_iff)
  ultimately have "b64_digits bs = b64_digits cs" by (simp add: inj_on_map_eq_map)
  then show "bs = cs" by (metis b64_bytes_digits)
qed


subsection \<open>Five slots\<close>

text \<open>What the keys are for: one slot each, which a write fills, a consumption empties, and a read leaves alone.
  Storage that is blocked gives and takes nothing; storage that is full takes nothing.\<close>

record slots =
  sl_state :: "(string \<times> rat) option"
  sl_invite :: "(string \<times> string option \<times> rat) option"
  sl_marker :: "(rat \<times> string option) option"
  sl_link :: "(string \<times> rat) option"
  sl_destination :: "(string \<times> string \<times> rat) option"
  sl_blocked :: bool
  sl_full :: bool

datatype tab_call =
    Mint rat string | Ensure rat string | Peek rat | Consume rat bool
  | Hold_Invite "string option" rat "string option" | Peek_Invite rat | Consume_Invite rat
  | Hold_Verify rat | Holds_Verify | Consume_Verify rat
  | Hold_Link "string option" rat | Peek_Link rat
  | Capture string string rat | Read_Destination rat | Clear_Destination
  | Storage_Turns bool bool

datatype tab_answer = Unit | Text "string option" | Invite "(string \<times> string option) option" | Flag bool
  | Place "(string \<times> string) option"

definition live_text :: "(string \<times> rat) option \<Rightarrow> rat \<Rightarrow> string option" where
  "live_text h now = (case h of Some (s, since) \<Rightarrow> if within_ttl since now then Some s else None | None \<Rightarrow> None)"

definition slot_mint :: "rat \<Rightarrow> string \<Rightarrow> slots \<Rightarrow> tab_answer \<times> slots" where
  "slot_mint now random h = (Text (Some (mintState random)),
     if sl_blocked h \<or> sl_full h then h else h\<lparr>sl_state := Some (mintState random, now)\<rparr>)"

fun slot_step :: "slots \<Rightarrow> tab_call \<Rightarrow> tab_answer \<times> slots" where
  "slot_step h (Mint now random) = slot_mint now random h"
| "slot_step h (Ensure now random) = (case sl_state h of
     Some (s, since) \<Rightarrow> if \<not> sl_blocked h \<and> since \<le> now \<and> now - since < SIGN_IN_STATE_REUSE_MS
       then (Text (Some s), h) else slot_mint now random h
   | None \<Rightarrow> slot_mint now random h)"
| "slot_step h (Peek now) = (Text (if sl_blocked h then None else live_text (sl_state h) now), h)"
| "slot_step h (Consume now anyAge) =
     (if sl_blocked h then (Text None, h)
      else (Text (case sl_state h of
          Some (s, since) \<Rightarrow> if since \<le> now \<and> (anyAge \<or> now - since < SIGN_IN_STATE_TTL_MS) then Some s else None
        | None \<Rightarrow> None), h\<lparr>sl_state := None\<rparr>))"
| "slot_step h (Hold_Invite token now name) = (Unit,
     if sl_blocked h then h
     else case token of
       None \<Rightarrow> h\<lparr>sl_invite := None\<rparr>
     | Some tok \<Rightarrow> if sl_full h then h else h\<lparr>sl_invite := Some (tok, name, now)\<rparr>)"
| "slot_step h (Peek_Invite now) = (Text (if sl_blocked h then None
     else case sl_invite h of Some (tok, name, since) \<Rightarrow> if within_ttl since now then Some tok else None | None \<Rightarrow> None), h)"
| "slot_step h (Consume_Invite now) =
     (if sl_blocked h then (Invite None, h)
      else (Invite (case sl_invite h of
          Some (tok, name, since) \<Rightarrow> if within_ttl since now then Some (tok, name) else None
        | None \<Rightarrow> None), h\<lparr>sl_invite := None\<rparr>))"
| "slot_step h (Hold_Verify now) = (Unit,
     if sl_blocked h \<or> sl_full h then h else h\<lparr>sl_marker := Some (now, live_text (sl_state h) now)\<rparr>)"
| "slot_step h Holds_Verify = (Flag (\<not> sl_blocked h \<and> (case sl_marker h of
     Some (since, Some s) \<Rightarrow> live_text (sl_state h) since = Some s | _ \<Rightarrow> False)), h)"
| "slot_step h (Consume_Verify now) =
     (if sl_blocked h then (Flag False, h)
      else (Flag (case sl_marker h of Some (since, s) \<Rightarrow> within_ttl since now | None \<Rightarrow> False), h\<lparr>sl_marker := None\<rparr>))"
| "slot_step h (Hold_Link token now) = (Unit,
     if sl_blocked h then h
     else case token of
       None \<Rightarrow> h\<lparr>sl_link := None\<rparr>
     | Some tok \<Rightarrow> if sl_full h then h else h\<lparr>sl_link := Some (tok, now)\<rparr>)"
| "slot_step h (Peek_Link now) = (Text (if sl_blocked h then None else live_text (sl_link h) now), h)"
| "slot_step h (Capture path query now) = (Unit,
     if \<not> isCapturablePath path \<or> sl_blocked h \<or> sl_full h then h else h\<lparr>sl_destination := Some (path, query, now)\<rparr>)"
| "slot_step h (Read_Destination now) = (Place (if sl_blocked h then None
     else case sl_destination h of
       Some (path, query, since) \<Rightarrow> if since \<le> now \<and> now - since \<le> DEEP_LINK_TTL_MS then Some (path, query) else None
     | None \<Rightarrow> None), h)"
| "slot_step h Clear_Destination = (Unit, if sl_blocked h then h else h\<lparr>sl_destination := None\<rparr>)"
| "slot_step h (Storage_Turns blocked full) = (Unit, h\<lparr>sl_blocked := blocked, sl_full := full\<rparr>)"

fun tab_step :: "(string \<Rightarrow> json option) \<Rightarrow> (json \<Rightarrow> string) \<Rightarrow> tab \<Rightarrow> tab_call \<Rightarrow> tab_answer \<times> tab" where
  "tab_step parse stringify t (Mint now random) = map_prod (Text \<circ> Some) id (mintSignInState stringify now random t)"
| "tab_step parse stringify t (Ensure now random) =
     map_prod (Text \<circ> Some) id (ensureSignInState parse stringify now random t)"
| "tab_step parse stringify t (Peek now) = (Text (peekSignInState parse now t), t)"
| "tab_step parse stringify t (Consume now anyAge) = map_prod Text id (consumeSignInState parse now anyAge t)"
| "tab_step parse stringify t (Hold_Invite token now name) = (Unit, holdPendingInvite stringify token now name t)"
| "tab_step parse stringify t (Peek_Invite now) = (Text (peekPendingInvite parse now t), t)"
| "tab_step parse stringify t (Consume_Invite now) = map_prod Invite id (consumePendingInvite parse now t)"
| "tab_step parse stringify t (Hold_Verify now) = (Unit, holdPendingVerify parse stringify now t)"
| "tab_step parse stringify t Holds_Verify = (Flag (holdsPendingVerify parse t), t)"
| "tab_step parse stringify t (Consume_Verify now) = map_prod Flag id (consumePendingVerify parse now t)"
| "tab_step parse stringify t (Hold_Link token now) = (Unit, holdCancelLink stringify token now t)"
| "tab_step parse stringify t (Peek_Link now) = (Text (peekCancelLink parse now t), t)"
| "tab_step parse stringify t (Capture path query now) = (Unit, captureDestination stringify path query now t)"
| "tab_step parse stringify t (Read_Destination now) = (Place (readDestination parse now t), t)"
| "tab_step parse stringify t Clear_Destination = (Unit, clearDestination t)"
| "tab_step parse stringify t (Storage_Turns blocked full) = (Unit, t\<lparr>tb_blocked := blocked, tb_full := full\<rparr>)"

fun trace :: "('s \<Rightarrow> 'e \<Rightarrow> 'a \<times> 's) \<Rightarrow> 's \<Rightarrow> 'e list \<Rightarrow> 'a list \<times> 's" where
  "trace step s [] = ([], s)"
| "trace step s (e # es) = (case step s e of (a, s') \<Rightarrow> case trace step s' es of (as, s'') \<Rightarrow> (a # as, s''))"

text \<open>The slots a storage stands for.\<close>

definition stored_marker :: "(string \<Rightarrow> json option) \<Rightarrow> string option \<Rightarrow> (rat \<times> string option) option" where
  "stored_marker parse raw = (case Option.bind raw parse of
     None \<Rightarrow> None
   | Some p \<Rightarrow> if member p ''v'' \<noteq> JNum PENDING_VERIFY_SCHEMA_VERSION then None
       else (case member p ''at'' of JNum since \<Rightarrow> Some (since, text_field (member p ''s'')) | _ \<Rightarrow> None))"

definition slots :: "(string \<Rightarrow> json option) \<Rightarrow> tab \<Rightarrow> slots" where
  "slots parse t = \<lparr>
     sl_state = storedState parse (tb_items t SIGN_IN_STATE_KEY),
     sl_invite = map_option (\<lambda>(p, tok, since). (tok, text_field (member p ''n''), since))
       (token_record PENDING_INVITE_SCHEMA_VERSION parse (tb_items t PENDING_INVITE_KEY)),
     sl_marker = stored_marker parse (tb_items t PENDING_VERIFY_KEY),
     sl_link = map_option snd (token_record CANCEL_LINK_SCHEMA_VERSION parse (tb_items t CANCEL_LINK_KEY)),
     sl_destination = stored_destination parse (tb_items t DEEP_LINK_KEY),
     sl_blocked = tb_blocked t, sl_full = tb_full t\<rparr>"

text \<open>What the tab stores: a flat object of distinct keys whose values are texts, \<open>null\<close> and whole numbers in the range the platform
  writes exactly. \<open>JSON.parse\<close> reads back what \<open>JSON.stringify\<close> writes of these; nothing is assumed of other values
  (\<open>undefined\<close> members are dropped, a repeated key is kept once).\<close>

definition clock_ok :: "rat \<Rightarrow> bool" where
  "clock_ok now \<longleftrightarrow> now = of_int \<lfloor>now\<rfloor> \<and> 0 \<le> now \<and> now \<le> 2 ^ 53"

fun plain_value :: "json \<Rightarrow> bool" where
  "plain_value JNull \<longleftrightarrow> True"
| "plain_value (JStr t) \<longleftrightarrow> True"
| "plain_value (JNum r) \<longleftrightarrow> clock_ok r"
| "plain_value _ \<longleftrightarrow> False"

definition tab_record :: "json \<Rightarrow> bool" where
  "tab_record j = (case j of
      JObj ms \<Rightarrow> distinct (map fst ms) \<and> list_all (\<lambda>(k, v).
        k \<in> {''v'', ''s'', ''t'', ''n'', ''at'', ''path'', ''query''} \<and> plain_value v) ms
    | _ \<Rightarrow> False)"

text \<open>Tokens are read from fragments, which checks their shape, the platform gives 32 random bytes, and \<open>Date.now\<close> is
  a whole number of milliseconds.\<close>

fun event_ok :: "tab_call \<Rightarrow> bool" where
  "event_ok (Mint now random) \<longleftrightarrow> length random = 32 \<and> clock_ok now"
| "event_ok (Ensure now random) \<longleftrightarrow> length random = 32 \<and> clock_ok now"
| "event_ok (Hold_Invite token now name) \<longleftrightarrow> clock_ok now \<and> (case token of Some tok \<Rightarrow> BASE64URL_43 tok | None \<Rightarrow> True)"
| "event_ok (Hold_Verify now) \<longleftrightarrow> clock_ok now"
| "event_ok (Hold_Link token now) \<longleftrightarrow> clock_ok now \<and> (case token of Some tok \<Rightarrow> BASE64URL_43 tok | None \<Rightarrow> True)"
| "event_ok (Capture path query now) \<longleftrightarrow> clock_ok now"
| "event_ok e \<longleftrightarrow> True"

lemmas storage_defs = getItem_def setItem_def removeItem_def try_set_def try_remove_def take_item_def

lemma tab_keys_differ:
  "PENDING_INVITE_KEY \<noteq> SIGN_IN_STATE_KEY" "PENDING_VERIFY_KEY \<noteq> SIGN_IN_STATE_KEY" "CANCEL_LINK_KEY \<noteq> SIGN_IN_STATE_KEY"
  "DEEP_LINK_KEY \<noteq> SIGN_IN_STATE_KEY" "PENDING_VERIFY_KEY \<noteq> PENDING_INVITE_KEY" "CANCEL_LINK_KEY \<noteq> PENDING_INVITE_KEY"
  "DEEP_LINK_KEY \<noteq> PENDING_INVITE_KEY" "CANCEL_LINK_KEY \<noteq> PENDING_VERIFY_KEY" "DEEP_LINK_KEY \<noteq> PENDING_VERIFY_KEY"
  "DEEP_LINK_KEY \<noteq> CANCEL_LINK_KEY"
  by (simp_all add: SIGN_IN_STATE_KEY_def PENDING_INVITE_KEY_def PENDING_VERIFY_KEY_def CANCEL_LINK_KEY_def DEEP_LINK_KEY_def)

lemma read_none [simp]: "storedState parse None = None" "token_record v parse None = None" "stored_marker parse None = None"
    "stored_destination parse None = None"
  by (simp_all add: storedState_def token_record_def stored_marker_def stored_destination_def)

lemma blobs_recorded:
  assumes "clock_ok now"
  shows "tab_record (state_blob s now)" "tab_record (invite_blob s now name)" "tab_record (marker_blob now m)"
    "tab_record (link_blob s now)" "tab_record (destination_blob p q now)"
proof -
  have "clock_ok 1" "clock_ok 2" by (simp_all add: clock_ok_def)
  then show "tab_record (state_blob s now)" "tab_record (invite_blob s now name)" "tab_record (marker_blob now m)"
    "tab_record (link_blob s now)" "tab_record (destination_blob p q now)"
    using assms by (simp_all add: tab_record_def state_blob_def invite_blob_def marker_blob_def link_blob_def destination_blob_def
        json_text_def SIGN_IN_STATE_SCHEMA_VERSION_def PENDING_INVITE_SCHEMA_VERSION_def PENDING_VERIFY_SCHEMA_VERSION_def
        CANCEL_LINK_SCHEMA_VERSION_def DEEP_LINK_SCHEMA_VERSION_def split: option.split)
qed

lemma read_blobs:
  assumes codec: "\<And>j. tab_record j \<Longrightarrow> parse (stringify j) = Some j" and clock: "clock_ok now"
  shows "BASE64URL_43 s \<Longrightarrow> storedState parse (Some (stringify (state_blob s now))) = Some (s, now)"
    "BASE64URL_43 s \<Longrightarrow> token_record PENDING_INVITE_SCHEMA_VERSION parse (Some (stringify (invite_blob s now name))) =
       Some (invite_blob s now name, s, now)"
    "text_field (member (invite_blob s now name) ''n'') = name"
    "stored_marker parse (Some (stringify (marker_blob now m))) = Some (now, m)"
    "BASE64URL_43 s \<Longrightarrow> token_record CANCEL_LINK_SCHEMA_VERSION parse (Some (stringify (link_blob s now))) = Some (link_blob s now, s, now)"
    "isCapturablePath p \<Longrightarrow> stored_destination parse (Some (stringify (destination_blob p q now))) = Some (p, q, now)"
proof -
  note read = blobs_recorded [OF clock, THEN codec]
  show "BASE64URL_43 s \<Longrightarrow> storedState parse (Some (stringify (state_blob s now))) = Some (s, now)"
    by (simp add: storedState_def read) (simp add: state_blob_def)
  show "BASE64URL_43 s \<Longrightarrow> token_record PENDING_INVITE_SCHEMA_VERSION parse (Some (stringify (invite_blob s now name))) =
      Some (invite_blob s now name, s, now)"
    by (simp add: token_record_def read) (simp add: invite_blob_def)
  show "text_field (member (invite_blob s now name) ''n'') = name"
    by (simp add: invite_blob_def text_field_def split: option.split)
  show "stored_marker parse (Some (stringify (marker_blob now m))) = Some (now, m)"
    by (simp add: stored_marker_def read) (simp add: marker_blob_def text_field_def json_text_def split: option.split)
  show "BASE64URL_43 s \<Longrightarrow> token_record CANCEL_LINK_SCHEMA_VERSION parse (Some (stringify (link_blob s now))) = Some (link_blob s now, s, now)"
    by (simp add: token_record_def read) (simp add: link_blob_def)
  show "isCapturablePath p \<Longrightarrow> stored_destination parse (Some (stringify (destination_blob p q now))) = Some (p, q, now)"
    by (simp add: stored_destination_def read) (simp add: destination_blob_def)
qed

lemma liveState_text: "liveState parse raw now = live_text (storedState parse raw) now"
  by (simp add: liveState_def live_text_def split: option.split)

lemma liveInvite_record: "liveInvite parse raw now =
    (case map_option (\<lambda>(p, tok, since). (tok, text_field (member p ''n''), since)) (token_record PENDING_INVITE_SCHEMA_VERSION parse raw) of
       Some (tok, name, since) \<Rightarrow> if within_ttl since now then Some (tok, name) else None | None \<Rightarrow> None)"
  by (auto simp: liveInvite_def split: option.split)

lemma liveMarker_stored: "liveMarker parse raw now = (case stored_marker parse raw of Some (since, s) \<Rightarrow> within_ttl since now | None \<Rightarrow> False)"
  by (auto simp: liveMarker_def stored_marker_def split: option.split json.split)

lemma slots_sel [simp]:
  "sl_state (slots parse t) = storedState parse (tb_items t SIGN_IN_STATE_KEY)"
  "sl_invite (slots parse t) = map_option (\<lambda>(p, tok, since). (tok, text_field (member p ''n''), since))
     (token_record PENDING_INVITE_SCHEMA_VERSION parse (tb_items t PENDING_INVITE_KEY))"
  "sl_marker (slots parse t) = stored_marker parse (tb_items t PENDING_VERIFY_KEY)"
  "sl_link (slots parse t) = map_option snd (token_record CANCEL_LINK_SCHEMA_VERSION parse (tb_items t CANCEL_LINK_KEY))"
  "sl_destination (slots parse t) = stored_destination parse (tb_items t DEEP_LINK_KEY)"
  "sl_blocked (slots parse t) = tb_blocked t" "sl_full (slots parse t) = tb_full t"
  by (simp_all add: slots_def)

lemma slots_eqI:
  "sl_state h = sl_state h' \<Longrightarrow> sl_invite h = sl_invite h' \<Longrightarrow> sl_marker h = sl_marker h' \<Longrightarrow> sl_link h = sl_link h' \<Longrightarrow>
   sl_destination h = sl_destination h' \<Longrightarrow> sl_blocked h = sl_blocked h' \<Longrightarrow> sl_full h = sl_full h' \<Longrightarrow> h = (h' :: slots)"
  by simp

lemma slots_set_blob:
  fixes parse :: "string \<Rightarrow> json option"
  assumes codec: "\<And>j. tab_record j \<Longrightarrow> parse (stringify j) = Some j" and clock: "clock_ok now"
  defines "kept \<equiv> \<lambda>t h. if tb_blocked t \<or> tb_full t then slots parse t else h"
  shows "BASE64URL_43 s \<Longrightarrow> slots parse (try_set SIGN_IN_STATE_KEY (stringify (state_blob s now)) t) =
       kept t ((slots parse t)\<lparr>sl_state := Some (s, now)\<rparr>)"
    "BASE64URL_43 s \<Longrightarrow> slots parse (try_set PENDING_INVITE_KEY (stringify (invite_blob s now n)) t) =
       kept t ((slots parse t)\<lparr>sl_invite := Some (s, n, now)\<rparr>)"
    "slots parse (try_set PENDING_VERIFY_KEY (stringify (marker_blob now m)) t) =
       kept t ((slots parse t)\<lparr>sl_marker := Some (now, m)\<rparr>)"
    "BASE64URL_43 s \<Longrightarrow> slots parse (try_set CANCEL_LINK_KEY (stringify (link_blob s now)) t) =
       kept t ((slots parse t)\<lparr>sl_link := Some (s, now)\<rparr>)"
    "isCapturablePath p \<Longrightarrow> slots parse (try_set DEEP_LINK_KEY (stringify (destination_blob p q now)) t) =
       kept t ((slots parse t)\<lparr>sl_destination := Some (p, q, now)\<rparr>)"
  using tab_keys_differ tab_keys_differ [symmetric] read_blobs [OF codec clock]
  by (simp_all add: kept_def slots_def try_set_def setItem_def)

lemma slots_remove:
  fixes parse :: "string \<Rightarrow> json option"
  defines "kept \<equiv> \<lambda>t h. if tb_blocked t then slots parse t else h"
  shows "slots parse (try_remove PENDING_INVITE_KEY t) = kept t ((slots parse t)\<lparr>sl_invite := None\<rparr>)"
    "slots parse (try_remove CANCEL_LINK_KEY t) = kept t ((slots parse t)\<lparr>sl_link := None\<rparr>)"
    "slots parse (try_remove DEEP_LINK_KEY t) = kept t ((slots parse t)\<lparr>sl_destination := None\<rparr>)"
  using tab_keys_differ tab_keys_differ [symmetric]
  by (simp_all add: kept_def slots_def try_remove_def removeItem_def)

lemma take_item_cases:
  "take_item k t = (if tb_blocked t then None else Some (tb_items t k, t\<lparr>tb_items := (tb_items t)(k := None)\<rparr>))"
  by (simp add: take_item_def getItem_def removeItem_def)

lemma slots_taken:
  "slots parse (t\<lparr>tb_items := (tb_items t)(SIGN_IN_STATE_KEY := None)\<rparr>) = (slots parse t)\<lparr>sl_state := None\<rparr>"
  "slots parse (t\<lparr>tb_items := (tb_items t)(PENDING_INVITE_KEY := None)\<rparr>) = (slots parse t)\<lparr>sl_invite := None\<rparr>"
  "slots parse (t\<lparr>tb_items := (tb_items t)(PENDING_VERIFY_KEY := None)\<rparr>) = (slots parse t)\<lparr>sl_marker := None\<rparr>"
  using tab_keys_differ tab_keys_differ [symmetric] by (simp_all add: slots_def)

lemmas slot_rules = slots_set_blob slots_remove slots_taken take_item_cases getItem_def

lemma tab_step_state:
  assumes codec: "\<And>j. tab_record j \<Longrightarrow> parse (stringify j) = Some j" and ok: "event_ok e"
    and e: "e = Mint now r \<or> e = Ensure now r \<or> e = Peek now \<or> e = Consume now b"
  shows "slot_step (slots parse t) e = map_prod id (slots parse) (tab_step parse stringify t e)"
  using ok e
  by (elim disjE) (simp_all add: mintSignInState_def ensureSignInState_def peekSignInState_def consumeSignInState_def
      slot_mint_def slots_set_blob [OF codec] slots_taken take_item_cases getItem_def mintState_shape liveState_text
      live_text_def within_ttl_def Let_def split: option.split prod.split)

lemma tab_step_invite:
  assumes codec: "\<And>j. tab_record j \<Longrightarrow> parse (stringify j) = Some j" and ok: "event_ok e"
    and e: "e = Hold_Invite tok now n \<or> e = Peek_Invite now \<or> e = Consume_Invite now"
  shows "slot_step (slots parse t) e = map_prod id (slots parse) (tab_step parse stringify t e)"
  using ok e
  by (elim disjE) (auto simp: holdPendingInvite_def peekPendingInvite_def consumePendingInvite_def
      slots_set_blob [OF codec] slots_remove slots_taken take_item_cases getItem_def liveInvite_record split: option.split prod.split)

lemma holds_marker:
  "holdsPendingVerify parse t = (\<not> tb_blocked t \<and> (case stored_marker parse (tb_items t PENDING_VERIFY_KEY) of
     Some (since, Some s) \<Rightarrow> live_text (storedState parse (tb_items t SIGN_IN_STATE_KEY)) since = Some s | _ \<Rightarrow> False))"
proof (cases "Option.bind (tb_items t PENDING_VERIFY_KEY) parse")
  case None
  then show ?thesis by (simp add: holdsPendingVerify_def stored_marker_def getItem_def)
next
  case (Some p)
  then show ?thesis
    by (cases "member p ''at''"; cases "member p ''s''")
      (simp_all add: holdsPendingVerify_def stored_marker_def getItem_def peekSignInState_def liveState_text text_field_def)
qed

lemma tab_step_marker:
  assumes codec: "\<And>j. tab_record j \<Longrightarrow> parse (stringify j) = Some j" and ok: "event_ok e"
    and e: "e = Hold_Verify now \<or> e = Holds_Verify \<or> e = Consume_Verify now"
  shows "slot_step (slots parse t) e = map_prod id (slots parse) (tab_step parse stringify t e)"
  using ok e
proof (elim disjE)
  assume "e = Holds_Verify"
  then show ?thesis by (simp only: slot_step.simps tab_step.simps holds_marker slots_sel map_prod_simp id_apply)
qed (simp_all add: holdPendingVerify_def consumePendingVerify_def peekSignInState_def
      slots_set_blob [OF codec] slots_taken take_item_cases getItem_def liveState_text liveMarker_stored)

lemma tab_step_rest:
  assumes codec: "\<And>j. tab_record j \<Longrightarrow> parse (stringify j) = Some j" and ok: "event_ok e"
    and e: "e = Hold_Link tok now \<or> e = Peek_Link now \<or> e = Capture p q now \<or> e = Read_Destination now \<or>
      e = Clear_Destination \<or> e = Storage_Turns bl fu"
  shows "slot_step (slots parse t) e = map_prod id (slots parse) (tab_step parse stringify t e)"
  using ok e
proof (elim disjE)
  assume "e = Hold_Link tok now"
  then show ?thesis using ok
    by (cases tok) (simp_all add: holdCancelLink_def slots_set_blob [OF codec] slots_remove)
next
  assume "e = Peek_Link now"
  then show ?thesis by (auto simp: peekCancelLink_def getItem_def live_text_def split: option.split)
next
  assume "e = Storage_Turns bl fu"
  then show ?thesis by (simp add: slots_def)
next
  assume "e = Read_Destination now"
  then show ?thesis by (auto simp: readDestination_def getItem_def split: option.split)
qed (simp_all add: captureDestination_def clearDestination_def slots_set_blob [OF codec] slots_remove)

lemma tab_step_slots:
  assumes "\<And>j. tab_record j \<Longrightarrow> parse (stringify j) = Some j" "event_ok e"
  shows "slot_step (slots parse t) e = map_prod id (slots parse) (tab_step parse stringify t e)"
  using assms tab_step_state [OF assms] tab_step_invite [OF assms] tab_step_marker [OF assms] tab_step_rest [OF assms]
  by (cases e) blast+


lemma trace_refines:
  assumes step: "\<And>s e. ok e \<Longrightarrow> step' (f s) e = map_prod id f (step s e)" and "list_all ok es"
  shows "trace step' (f s) es = map_prod id f (trace step s es)"
  using assms(2)
proof (induction es arbitrary: s)
  case (Cons e es)
  then have "ok e" "list_all ok es" by simp_all
  then show ?case using step [of e s] Cons.IH [of "snd (step s e)"] by (auto split: prod.split)
qed simp

lemma tab_trace_slots:
  assumes "\<And>j. tab_record j \<Longrightarrow> parse (stringify j) = Some j" "list_all event_ok es"
  shows "trace slot_step (slots parse t) es = map_prod id (slots parse) (trace (tab_step parse stringify) t es)"
  by (rule trace_refines [where ok = event_ok]) (use assms tab_step_slots in blast)+

text \<open>Any codec that reads back the records the tab stores will do for \<open>JSON\<close> here; the witnesses number the values.\<close>

instance json :: countable
  by countable_datatype

definition numbered :: "json \<Rightarrow> string" where "numbered j = show_nat (to_nat j)"
definition denoted :: "string \<Rightarrow> json option" where "denoted s = Some (from_nat (digits_val s))"

lemma denoted_numbered: "denoted (numbered j) = Some j"
  by (simp add: numbered_def denoted_def)

text \<open>C12: what the tab holds across the bounce to the landing page. Whatever is minted, held, peeked at, consumed
  and captured, in whatever order and however storage fails on the way, the five kinds of value behave as five
  separate slots: each call answers what the abstract slots answer, and what is stored is what the slots hold.
  JSON is assumed to read back the flat records the tab stores, and nothing else.\<close>

theorem tab_storage_is_slots:
  assumes "\<And>j. tab_record j \<Longrightarrow> parse (stringify j) = Some j" "list_all event_ok es"
  shows "trace slot_step (slots parse t) es = map_prod id (slots parse) (trace (tab_step parse stringify) t es)"
  using assms by (rule tab_trace_slots)

definition blank_tab :: tab where "blank_tab = \<lparr>tb_items = \<lambda>_. None, tb_blocked = False, tb_full = False\<rparr>"

definition sample_bytes :: string where "sample_bytes = replicate 32 CHR ''x''"

definition sample_bounce :: "tab_call list" where
  "sample_bounce = [Mint 1000 sample_bytes, Hold_Verify 2000, Storage_Turns False True, Mint 3000 (replicate 32 CHR ''y''),
     Holds_Verify, Consume 5000 False, Consume 6000 True]"

lemma slots_blank: "slots parse blank_tab = \<lparr>sl_state = None, sl_invite = None, sl_marker = None, sl_link = None,
    sl_destination = None, sl_blocked = False, sl_full = False\<rparr>"
  by (simp add: slots_def blank_tab_def)

theorem tab_storage_witness:
  "fst (trace (tab_step denoted numbered) blank_tab sample_bounce) =
    [Text (Some (mintState sample_bytes)), Unit, Unit, Text (Some (mintState (replicate 32 CHR ''y''))), Flag True,
     Text (Some (mintState sample_bytes)), Text None]"
proof -
  have "list_all event_ok sample_bounce" by (simp add: clock_ok_def sample_bounce_def sample_bytes_def)
  from tab_storage_is_slots [OF denoted_numbered this, of blank_tab]
  have "fst (trace (tab_step denoted numbered) blank_tab sample_bounce) = fst (trace slot_step (slots denoted blank_tab) sample_bounce)"
    by (metis fst_map_prod id_apply)
  then show ?thesis
    by (simp add: slots_blank sample_bounce_def slot_mint_def live_text_def within_ttl_def SIGN_IN_STATE_TTL_MS_def)
qed


subsection \<open>A sign-in state is used once\<close>

fun mint_of :: "tab_call \<Rightarrow> (string \<times> rat) option" where
  "mint_of (Mint now random) = Some (mintState random, now)"
| "mint_of (Ensure now random) = Some (mintState random, now)"
| "mint_of _ = None"

text \<open>No consumption of the state reaches storage, which is blocked at first or not.\<close>

fun left_alone :: "bool \<Rightarrow> tab_call list \<Rightarrow> bool" where
  "left_alone blocked [] = True"
| "left_alone blocked (e # es) = ((case e of Consume _ _ \<Rightarrow> blocked | _ \<Rightarrow> True) \<and>
     left_alone (case e of Storage_Turns b _ \<Rightarrow> b | _ \<Rightarrow> blocked) es)"

lemma slot_step_blocked: "sl_blocked (snd (slot_step h e)) = (case e of Storage_Turns b _ \<Rightarrow> b | _ \<Rightarrow> sl_blocked h)"
  by (cases e) (auto simp: slot_mint_def split: option.split)

lemma slot_step_state:
  "sl_state (snd (slot_step h e)) = Some x \<Longrightarrow>
     mint_of e = Some x \<or> sl_state h = Some x \<and> (case e of Consume _ _ \<Rightarrow> sl_blocked h | _ \<Rightarrow> True)"
  by (cases e) (auto simp: slot_mint_def split: option.splits if_splits)

lemma mint_keeps_blocked: "mint_of e = Some x \<Longrightarrow> (case e of Storage_Turns b _ \<Rightarrow> b | _ \<Rightarrow> c) = c"
  by (cases e) simp_all

lemma trace_Cons_snd: "snd (trace step s (e # es)) = snd (trace step (snd (step s e)) es)"
  by (simp split: prod.split)

lemma slot_state_origin:
  "sl_state (snd (trace slot_step h es)) = Some x \<Longrightarrow>
     sl_state h = Some x \<and> left_alone (sl_blocked h) es \<or>
     (\<exists>pre e post. es = pre @ e # post \<and> mint_of e = Some x \<and>
        left_alone (sl_blocked (snd (trace slot_step h pre))) post)"
proof (induction es arbitrary: h)
  case (Cons e es)
  define h' where "h' = snd (slot_step h e)"
  have "sl_state (snd (trace slot_step h' es)) = Some x" using Cons.prems by (simp only: h'_def trace_Cons_snd)
  from Cons.IH [OF this] consider "sl_state h' = Some x" "left_alone (sl_blocked h') es"
    | pre d post where "es = pre @ d # post" "mint_of d = Some x" "left_alone (sl_blocked (snd (trace slot_step h' pre))) post"
    by blast
  then show ?case
  proof cases
    case 1
    then show ?thesis
      using slot_step_state [of h e x] slot_step_blocked [of h e] mint_keeps_blocked [of e x "sl_blocked h"]
      by (cases "mint_of e = Some x") (auto simp: h'_def intro: exI [of _ "[]"])
  next
    case 2
    have "snd (trace slot_step h (e # pre)) = snd (trace slot_step h' pre)" by (simp only: h'_def trace_Cons_snd)
    with 2 show ?thesis by (intro disjI2 exI [of _ "e # pre"] exI [of _ d] exI [of _ post]) simp
  qed
qed simp

lemma consumed_answer:
  "fst (consumeSignInState parse now anyAge t) =
     (if tb_blocked t then None else case sl_state (slots parse t) of
        Some (s, since) \<Rightarrow> if since \<le> now \<and> (anyAge \<or> now - since < SIGN_IN_STATE_TTL_MS) then Some s else None
      | None \<Rightarrow> None)"
  "tb_blocked (snd (consumeSignInState parse now anyAge t)) = tb_blocked t"
  "\<not> tb_blocked t \<Longrightarrow> sl_state (slots parse (snd (consumeSignInState parse now anyAge t))) = None"
  by (simp_all add: consumeSignInState_def take_item_cases liveState_def within_ttl_def split: option.split)

text \<open>C13: a sign-in state is good for one redemption in the tab that minted it. If a tab that held no state hands one
  out after any sequence of calls, it was minted in that sequence, not after the given time, less than ten minutes
  before it unless its age was waived, and no consumption reached storage since; and it is not handed out again.\<close>

theorem consumed_state_is_own:
  assumes codec: "\<And>j. tab_record j \<Longrightarrow> parse (stringify j) = Some j" and ok: "list_all event_ok es"
    and fresh: "tb_items t0 SIGN_IN_STATE_KEY = None" and t: "t = snd (trace (tab_step parse stringify) t0 es)"
    and got: "consumeSignInState parse now anyAge t = (Some s, t')"
  shows "(\<exists>pre e post since. es = pre @ e # post \<and> mint_of e = Some (s, since) \<and> since \<le> now \<and>
       (anyAge \<or> now - since < SIGN_IN_STATE_TTL_MS) \<and>
       left_alone (tb_blocked (snd (trace (tab_step parse stringify) t0 pre))) post) \<and>
     fst (consumeSignInState parse now' anyAge' t') = None"
proof -
  have run: "snd (trace slot_step (slots parse t0) ds) = slots parse (snd (trace (tab_step parse stringify) t0 ds))"
    if "list_all event_ok ds" for ds
    using tab_trace_slots [OF codec that] by simp
  obtain since where since: "sl_state (slots parse t) = Some (s, since)" "since \<le> now" "anyAge \<or> now - since < SIGN_IN_STATE_TTL_MS"
    "\<not> tb_blocked t"
    using consumed_answer(1) [of parse now anyAge t] got by (auto split: if_splits option.splits)
  have "sl_state (snd (trace slot_step (slots parse t0) es)) = Some (s, since)" using since(1) run [OF ok] t by simp
  from slot_state_origin [OF this] fresh obtain pre e post where split: "es = pre @ e # post" "mint_of e = Some (s, since)"
      "left_alone (sl_blocked (snd (trace slot_step (slots parse t0) pre))) post" by auto
  have "list_all event_ok pre" using ok split(1) by simp
  with split(3) have "left_alone (tb_blocked (snd (trace (tab_step parse stringify) t0 pre))) post" by (simp add: run)
  moreover have "fst (consumeSignInState parse now' anyAge' t') = None"
    using consumed_answer(1) [of parse now' anyAge' t'] consumed_answer(3) [OF since(4), of parse now anyAge] got by simp
  ultimately show ?thesis using split(1,2) since(2,3) by blast
qed

theorem consumed_state_witness:
  "\<exists>pre e post since. [Mint 1000 sample_bytes, Peek 2000] = pre @ e # post \<and> mint_of e = Some (mintState sample_bytes, since) \<and>
     since \<le> 5000 \<and> (False \<or> 5000 - since < SIGN_IN_STATE_TTL_MS) \<and>
     left_alone (tb_blocked (snd (trace (tab_step denoted numbered) blank_tab pre))) post"
proof -
  define es where "es = [Mint 1000 sample_bytes, Peek 2000]"
  define t where "t = snd (trace (tab_step denoted numbered) blank_tab es)"
  have ok: "list_all event_ok es" by (simp add: clock_ok_def es_def sample_bytes_def)
  have run: "slots denoted t = snd (trace slot_step (slots denoted blank_tab) es)"
    using tab_trace_slots [OF denoted_numbered ok] by (simp add: t_def)
  then have held: "sl_state (slots denoted t) = Some (mintState sample_bytes, 1000)" "sl_blocked (slots denoted t) = False"
    by (simp_all add: es_def slots_blank slot_mint_def del: slots_sel)
  have "fst (consumeSignInState denoted 5000 False t) = Some (mintState sample_bytes)"
    using held by (simp add: consumed_answer(1) SIGN_IN_STATE_TTL_MS_def)
  then obtain t' where "consumeSignInState denoted 5000 False t = (Some (mintState sample_bytes), t')" by (metis prod.collapse)
  from consumed_state_is_own [OF denoted_numbered ok _ t_def this] show ?thesis
    by (simp add: blank_tab_def es_def)
qed

end
