(* ===== verification/Sign_In.thy ===== *)
theory Sign_In
  imports Renewal Tab_Storage
begin

text \<open>
  Signing in through the landing page (\<open>lib/sessionHandoff.ts\<close>): what the code handed off by the landing is
  redeemed for, accepting and joining invites, provisioning a workspace, and the renewals on the way. The gateway
  is a function of the calls made so far and the call made, so that it may answer anything at any time; a call
  that times out is an answer like any other. The pair of tokens an offer carries is updated in place, so it is
  part of the state. The gateway's access token is a text, as its contract says.
\<close>

subsection \<open>Calls\<close>

record http_call =
  hc_method :: http_method
  hc_url :: string
  hc_token :: "string option"
  hc_body :: json

type_synonym gateway = "http_call list \<Rightarrow> http_call \<Rightarrow> failure + json"

record sign_state =
  si_token :: string
  si_refresh :: json
  si_log :: "http_call list"

definition http_call :: "http_method \<Rightarrow> string \<Rightarrow> string option \<Rightarrow> json \<Rightarrow> http_call" where
  "http_call m u t b = \<lparr>hc_method = m, hc_url = u, hc_token = t, hc_body = b\<rparr>"

definition ask :: "gateway \<Rightarrow> http_call \<Rightarrow> sign_state \<Rightarrow> (failure + json) \<times> sign_state" where
  "ask srv c st = (srv (si_log st) c, st\<lparr>si_log := si_log st @ [c]\<rparr>)"

definition exchange_call :: "string \<Rightarrow> string \<Rightarrow> string \<Rightarrow> http_call" where
  "exchange_call base code state =
     http_call POST (base @ ''/auth/exchange'') None (JObj [(''code'', JStr code), (''state'', JStr state)])"

definition refresh_call :: "string \<Rightarrow> string \<Rightarrow> http_call" where
  "refresh_call base refreshToken =
     http_call POST (base @ ''/auth/refresh'') None (JObj [(''refresh_token'', JStr refreshToken)])"

definition me_call :: "string \<Rightarrow> string \<Rightarrow> http_call" where
  "me_call base token = http_call GET (base @ ''/api/tenancy/v1/me'') (Some token) JUndefined"

definition mine_call :: "string \<Rightarrow> string \<Rightarrow> http_call" where
  "mine_call base token = http_call GET (base @ ''/api/tenancy/v1/invitations/mine'') (Some token) JUndefined"

subsection \<open>Registration answers and invites\<close>

datatype workspace_kind = Firm_Workspace | In_House_Workspace

record provision_body =
  pv_workspace_name :: string
  pv_display_name :: string
  pv_kind :: "workspace_kind option"

fun kind_of_text :: "json \<Rightarrow> workspace_kind option" where
  "kind_of_text (JStr s) = (if s = ''firm'' then Some Firm_Workspace
     else if s = ''in_house'' then Some In_House_Workspace else None)"
| "kind_of_text _ = None"

definition filled_text :: "json \<Rightarrow> bool" where
  "filled_text v \<longleftrightarrow> is_string v \<and> trim (string_of v) \<noteq> ''''"

definition registrationAnswers :: "(string \<Rightarrow> json option) \<Rightarrow> string \<Rightarrow> provision_body option" where
  "registrationAnswers parse_bytes token =
    (let reg = member (claim parse_bytes (Some token) ''user_metadata'') ''registration'';
         w = member reg ''workspace_name''; d = member reg ''display_name''; k = member reg ''kind''
     in if \<not> is_object reg then None
        else if \<not> filled_text w \<or> \<not> filled_text d then None
        else if k = JUndefined
          then Some \<lparr>pv_workspace_name = string_of w, pv_display_name = string_of d, pv_kind = None\<rparr>
        else (case kind_of_text k of None \<Rightarrow> None
          | Some kind \<Rightarrow> Some \<lparr>pv_workspace_name = string_of w, pv_display_name = string_of d, pv_kind = Some kind\<rparr>))"

definition provision_json :: "provision_body \<Rightarrow> json" where
  "provision_json b = JObj ([(''workspace_name'', JStr (pv_workspace_name b)), (''display_name'', JStr (pv_display_name b))]
     @ (case pv_kind b of None \<Rightarrow> []
        | Some Firm_Workspace \<Rightarrow> [(''kind'', JStr ''firm'')] | Some In_House_Workspace \<Rightarrow> [(''kind'', JStr ''in_house'')]))"

definition workspaces_call :: "string \<Rightarrow> provision_body \<Rightarrow> string \<Rightarrow> http_call" where
  "workspaces_call base b token = http_call POST (base @ ''/api/tenancy/v1/workspaces'') (Some token) (provision_json b)"

definition invite_ok :: "json \<Rightarrow> bool" where
  "invite_ok o' \<longleftrightarrow> is_object o' \<and> is_string (member o' ''id'') \<and> member o' ''id'' \<noteq> JStr '''' \<and>
     is_string (member o' ''workspace'') \<and> is_string (member o' ''role'') \<and>
     (member o' ''inviter'' = JNull \<or> is_string (member o' ''inviter'')) \<and> is_string (member o' ''expires_at'')"

definition invitations :: "json \<Rightarrow> json list option" where
  "invitations body = (case member body ''invitations'' of JArr l \<Rightarrow> Some l | _ \<Rightarrow> None)"

definition isPendingInvites :: "json \<Rightarrow> bool" where
  "isPendingInvites body = (case invitations body of None \<Rightarrow> False | Some l \<Rightarrow> l \<noteq> [] \<and> list_all invite_ok l)"

definition isEmptyInvites :: "json \<Rightarrow> bool" where
  "isEmptyInvites body \<longleftrightarrow> invitations body = Some []"

definition isRemoved :: "json \<Rightarrow> bool" where
  "isRemoved body \<longleftrightarrow> member body ''removed'' = JBool True"

definition hasNoLiveMembership :: "json \<Rightarrow> bool" where
  "hasNoLiveMembership body \<longleftrightarrow> member body ''live_membership'' = JBool False"

subsection \<open>Failures\<close>

datatype sign_failure = Failed_With failure | Invite_Refused invite_outcome

definition status_of :: "failure \<Rightarrow> int option" where
  "status_of e = (case e of Api_Error a \<Rightarrow> ae_status a | _ \<Rightarrow> None)"

definition error_message :: "failure \<Rightarrow> json" where
  "error_message e = (case e of Api_Error a \<Rightarrow> member (ae_body a) ''error'' | _ \<Rightarrow> JUndefined)"

definition INVITE_REFUSALS :: "(string \<times> int \<times> invite_outcome) list" where
  "INVITE_REFUSALS =
    [(''this invite is no longer valid'', 404, Invite_Invalid),
     (''you already belong to a workspace'', 409, Invite_Already_Member),
     (''this invite was sent to a different email address'', 403, Invite_Other_Address)]"

definition invite_refusal :: "failure \<Rightarrow> sign_failure" where
  "invite_refusal e =
    (case error_message e of
       JStr m \<Rightarrow> (case map_of INVITE_REFUSALS m of
           Some (s, outcome) \<Rightarrow> if status_of e = Some s then Invite_Refused outcome else Failed_With e
         | None \<Rightarrow> Failed_With e)
     | _ \<Rightarrow> Failed_With e)"

subsection \<open>Renewing on the way\<close>

definition usable_refresh :: "json \<Rightarrow> bool" where
  "usable_refresh r \<longleftrightarrow> is_string r \<and> r \<noteq> JStr ''''"

text \<open>\<open>refreshTokens\<close> and the two assignments after it; a rejection leaves the pair as it was.\<close>

definition renew_pair :: "gateway \<Rightarrow> string \<Rightarrow> sign_state \<Rightarrow> failure option \<times> sign_state" where
  "renew_pair srv base st =
    (case ask srv (refresh_call base (string_of (si_refresh st))) st of
       (answer, st') \<Rightarrow> (case refreshTokens answer of
          Inl e \<Rightarrow> (Some e, st')
        | Inr (access, refresh) \<Rightarrow> (None, st'\<lparr>si_token := access, si_refresh := JStr refresh\<rparr>)))"

definition callRenewing ::
  "gateway \<Rightarrow> string \<Rightarrow> (string \<Rightarrow> http_call) \<Rightarrow> sign_state \<Rightarrow> (failure + json) \<times> sign_state"
where
  "callRenewing srv base call st =
    (case ask srv (call (si_token st)) st of
       (Inr v, st') \<Rightarrow> (Inr v, st')
     | (Inl e, st') \<Rightarrow>
         if status_of e \<noteq> Some 401 \<or> \<not> usable_refresh (si_refresh st') then (Inl e, st')
         else (case renew_pair srv base st' of
             (Some e', st'') \<Rightarrow> (Inl e', st'')
           | (None, st'') \<Rightarrow> ask srv (call (si_token st'')) st''))"

definition handoff_session :: "json \<Rightarrow> string \<Rightarrow> (string \<times> rat) option \<Rightarrow> session" where
  "handoff_session me token renewal = \<lparr>ss_persona = handoffPersona me, ss_token = Some token, ss_me = Some me,
     ss_verified = True, ss_handoff = True, ss_renewal = renewal\<rparr>"

definition read_me ::
  "gateway \<Rightarrow> string \<Rightarrow> (string \<times> rat) option \<Rightarrow> sign_state \<Rightarrow> (failure + session) \<times> sign_state"
where
  "read_me srv base renewal st =
    (case ask srv (me_call base (si_token st)) st of
       (Inl e, st') \<Rightarrow> (Inl e, st')
     | (Inr me, st') \<Rightarrow>
         (if isHandoffMe me then Inr (handoff_session me (si_token st) renewal)
          else Inl (Other_Failure ''malformed /me''), st'))"

definition renewAndRead ::
  "gateway \<Rightarrow> string \<Rightarrow> rat \<Rightarrow> string \<Rightarrow> sign_state \<Rightarrow> (failure + session) \<times> sign_state"
where
  "renewAndRead srv base now missing st =
    (if \<not> usable_refresh (si_refresh st) then (Inl (Other_Failure missing), st)
     else (case renew_pair srv base st of
         (Some e, st') \<Rightarrow> (Inl e, st')
       | (None, st') \<Rightarrow> read_me srv base (Some (string_of (si_refresh st'), now)) st'))"

definition provisionAndRead ::
  "gateway \<Rightarrow> string \<Rightarrow> provision_body \<Rightarrow> rat \<Rightarrow> sign_state \<Rightarrow> (failure + session) \<times> sign_state"
where
  "provisionAndRead srv base answers now st =
    (case callRenewing srv base (workspaces_call base answers) st of
       (Inl e, st') \<Rightarrow>
         if status_of e \<noteq> Some 409 then (Inl e, st')
         else renewAndRead srv base now ''no refresh token after provisioning'' st'
     | (Inr _, st') \<Rightarrow> renewAndRead srv base now ''no refresh token after provisioning'' st')"

subsection \<open>Redeeming\<close>

record join_offer =
  jo_invites :: "json list"
  jo_answers :: "provision_body option"
  jo_firstWorkspace :: bool

datatype redeemed = Redeemed session | Offered join_offer

definition failed :: "(failure + 'a) \<Rightarrow> ('a \<Rightarrow> redeemed) \<Rightarrow> sign_failure + redeemed" where
  "failed r f = (case r of Inl e \<Rightarrow> Inl (Failed_With e) | Inr x \<Rightarrow> Inr (f x))"

definition HANDOFF_TTL_MS :: rat where "HANDOFF_TTL_MS = 60000"

definition accept_call :: "string \<Rightarrow> string \<times> string option \<Rightarrow> string \<Rightarrow> http_call" where
  "accept_call base invite token = http_call POST (base @ ''/api/tenancy/v1/invitations/accept'') (Some token)
     (JObj ((''token'', JStr (fst invite))
       # (case snd invite of None \<Rightarrow> [] | Some name \<Rightarrow> [(''display_name'', JStr name)])))"

definition acceptInviteAndRead ::
  "gateway \<Rightarrow> string \<Rightarrow> string \<times> string option \<Rightarrow> rat \<Rightarrow> sign_state \<Rightarrow> (sign_failure + redeemed) \<times> sign_state"
where
  "acceptInviteAndRead srv base invite now st =
    (case ask srv (accept_call base invite (si_token st)) st of
       (Inl e, st') \<Rightarrow> (Inl (invite_refusal e), st')
     | (Inr _, st') \<Rightarrow>
         (case renewAndRead srv base now ''no refresh token after accepting the invite'' st' of
            (r, st'') \<Rightarrow> (failed r Redeemed, st'')))"

text \<open>What follows a 403 of \<open>/me\<close>: the account belongs to no workspace.\<close>

definition without_workspace ::
  "(string \<Rightarrow> json option) \<Rightarrow> gateway \<Rightarrow> string \<Rightarrow> failure \<Rightarrow> rat \<Rightarrow> sign_state \<Rightarrow> (sign_failure + redeemed) \<times> sign_state"
where
  "without_workspace parse_bytes srv base err now st =
    (let answers = registrationAnswers parse_bytes (si_token st) in
     case ask srv (mine_call base (si_token st)) st of
       (Inl e, st') \<Rightarrow> (Inl (Failed_With (Other_Failure ''invitation lookup failed'')), st')
     | (Inr invites, st') \<Rightarrow>
         if isPendingInvites invites then
           (Inr (Offered \<lparr>jo_invites = the (invitations invites), jo_answers = answers, jo_firstWorkspace = False\<rparr>), st')
         else if \<not> isEmptyInvites invites then (Inl (Failed_With (Other_Failure ''malformed invitation list'')), st')
         else if isRemoved invites then
           (Inr (Offered \<lparr>jo_invites = [], jo_answers = answers, jo_firstWorkspace = False\<rparr>), st')
         else (case answers of
             None \<Rightarrow>
               if hasNoLiveMembership invites
               then (Inr (Offered \<lparr>jo_invites = [], jo_answers = None, jo_firstWorkspace = True\<rparr>), st')
               else (Inl (Failed_With err), st')
           | Some a \<Rightarrow> (case provisionAndRead srv base a now st' of (r, st'') \<Rightarrow> (failed r Redeemed, st''))))"

definition redeemHandoff ::
  "(string \<Rightarrow> json option) \<Rightarrow> gateway \<Rightarrow> string \<Rightarrow> string \<Rightarrow> string \<Rightarrow> rat \<Rightarrow> (string \<times> string option) option
     \<Rightarrow> (sign_failure + redeemed) \<times> sign_state"
where
  "redeemHandoff parse_bytes srv base code state now invite =
    (case ask srv (exchange_call base code state) \<lparr>si_token = '''', si_refresh = JUndefined, si_log = []\<rparr> of
       (Inl e, st) \<Rightarrow> (Inl (Failed_With e), st)
     | (Inr body, st) \<Rightarrow>
         if body = JNull \<or> body = JUndefined then (Inl (Failed_With (Other_Failure ''TypeError'')), st)
         else
           (let st = st\<lparr>si_token := string_of (member body ''access_token''), si_refresh := member body ''refresh_token''\<rparr> in
            case invite of
              Some i \<Rightarrow> acceptInviteAndRead srv base i now st
            | None \<Rightarrow>
                (case read_me srv base
                    (if usable_refresh (si_refresh st) then Some (string_of (si_refresh st), now - HANDOFF_TTL_MS) else None) st of
                   (Inr s, st') \<Rightarrow> (Inr (Redeemed s), st')
                 | (Inl e, st') \<Rightarrow>
                     if status_of e = Some 403 then without_workspace parse_bytes srv base e now st'
                     else (Inl (Failed_With e), st'))))"

subsection \<open>The Join screen\<close>

definition createOwnWorkspace ::
  "gateway \<Rightarrow> string \<Rightarrow> provision_body \<Rightarrow> rat \<Rightarrow> sign_state \<Rightarrow> (failure + session) \<times> sign_state"
where
  "createOwnWorkspace srv base body now offer = provisionAndRead srv base body now offer"

definition join_call :: "string \<Rightarrow> string \<Rightarrow> string \<Rightarrow> string \<Rightarrow> http_call" where
  "join_call base ident name token =
     http_call POST (base @ ''/api/tenancy/v1/invitations/'' @ encodeURIComponent ident @ ''/accept'') (Some token)
       (JObj [(''display_name'', JStr name)])"

definition join_outcome :: "failure \<Rightarrow> invite_outcome option" where
  "join_outcome e =
    (if error_message e = JStr ''this invite is no longer valid'' \<and> status_of e = Some 404 then Some Invite_Invalid
     else if error_message e = JStr ''you already belong to a workspace'' \<and> status_of e = Some 409
       then Some Invite_Already_Member
     else None)"

definition joinInvite ::
  "gateway \<Rightarrow> string \<Rightarrow> string \<Rightarrow> string \<Rightarrow> rat \<Rightarrow> sign_state \<Rightarrow> (sign_failure + redeemed) \<times> sign_state"
where
  "joinInvite srv base ident displayName now offer =
    (case callRenewing srv base (join_call base ident (trimName displayName)) offer of
       (Inl e, st) \<Rightarrow>
         (case join_outcome e of
            None \<Rightarrow> (Inl (Failed_With e), st)
          | Some outcome \<Rightarrow>
              (case renewAndRead srv base now ''no refresh token after the refusal'' st of
                 (Inr s, st') \<Rightarrow> (Inr (Redeemed s), st')
               | (Inl _, st') \<Rightarrow> (Inl (Invite_Refused outcome), st')))
     | (Inr _, st) \<Rightarrow>
         (case renewAndRead srv base now ''no refresh token after joining the invite'' st of
            (r, st') \<Rightarrow> (failed r Redeemed, st')))"

definition HANDOFF_PARAM :: string where "HANDOFF_PARAM = ''handoff''"

definition readHandoffCode :: "string \<Rightarrow> string option" where
  "readHandoffCode search = (case search_get search HANDOFF_PARAM of
     Some code \<Rightarrow> if BASE64URL_43 code then Some code else None | None \<Rightarrow> None)"

definition isLiveHandoffSession :: "(string \<Rightarrow> json option) \<Rightarrow> session option \<Rightarrow> rat \<Rightarrow> bool" where
  "isLiveHandoffSession parse_bytes session now =
    (case session of None \<Rightarrow> False | Some s \<Rightarrow> ss_handoff s \<and> \<not> isTokenExpired parse_bytes (ss_token s) now)"


subsection \<open>Every session is genuine\<close>

text \<open>A session the app may store and restore, whose token is the one the last call read \<open>/me\<close> with and whose person
  is the one it answered.\<close>

definition genuine :: "gateway \<Rightarrow> string \<Rightarrow> session \<Rightarrow> sign_state \<Rightarrow> bool" where
  "genuine srv base s st \<longleftrightarrow> session_ok s \<and> ss_verified s \<and> ss_handoff s \<and>
     (\<exists>h token me. si_log st = h @ [me_call base token] \<and> srv h (me_call base token) = Inr me \<and>
        ss_token s = Some token \<and> ss_me s = Some me \<and> ss_persona s = handoffPersona me)"

lemma ask_simps:
  "fst (ask srv c st) = srv (si_log st) c" "si_log (snd (ask srv c st)) = si_log st @ [c]"
  "si_token (snd (ask srv c st)) = si_token st" "si_refresh (snd (ask srv c st)) = si_refresh st"
  by (simp_all add: ask_def)

lemma read_me_genuine:
  assumes "read_me srv base renewal st = (Inr s, st')" "case renewal of None \<Rightarrow> True | Some (r, n) \<Rightarrow> r \<noteq> ''''"
  shows "genuine srv base s st'"
  using assms isHandoffMe_object
  by (auto simp: read_me_def ask_def genuine_def handoff_session_def session_ok_def split: sum.splits if_splits option.splits)

lemma renew_pair_refresh:
  "renew_pair srv base st = (None, st') \<Longrightarrow> \<exists>r. si_refresh st' = JStr r \<and> r \<noteq> ''''"
  by (auto simp: renew_pair_def ask_def refreshTokens_def split: sum.splits json.splits if_splits)

lemma renewAndRead_genuine:
  assumes "renewAndRead srv base now missing st = (Inr s, st')"
  shows "genuine srv base s st'"
proof -
  obtain st1 where st1: "renew_pair srv base st = (None, st1)"
      "read_me srv base (Some (string_of (si_refresh st1), now)) st1 = (Inr s, st')"
    using assms by (auto simp: renewAndRead_def split: if_splits prod.splits option.splits)
  from renew_pair_refresh [OF st1(1)] show ?thesis
    by (intro read_me_genuine [OF st1(2)]) (auto simp: string_of_def)
qed

lemma provisionAndRead_genuine:
  "provisionAndRead srv base answers now st = (Inr s, st') \<Longrightarrow> genuine srv base s st'"
  by (auto simp: provisionAndRead_def split: prod.splits sum.splits if_splits intro: renewAndRead_genuine)

lemma failed_Redeemed: "failed r Redeemed = Inr (Redeemed s) \<longleftrightarrow> r = Inr s" "failed r Redeemed \<noteq> Inr (Offered offer)"
  by (auto simp: failed_def split: sum.splits)

definition ends_genuine :: "gateway \<Rightarrow> string \<Rightarrow> (sign_failure + redeemed) \<times> sign_state \<Rightarrow> bool" where
  "ends_genuine srv base out = (case fst out of Inr (Redeemed s) \<Rightarrow> genuine srv base s (snd out) | _ \<Rightarrow> True)"

lemma ends_genuine_simps [simp]:
  "ends_genuine srv base (Inl e, st)" "ends_genuine srv base (Inr (Offered offer), st)"
  "ends_genuine srv base (Inr (Redeemed s), st) \<longleftrightarrow> genuine srv base s st"
  "ends_genuine srv base (failed r Redeemed, st) \<longleftrightarrow> (case r of Inl e \<Rightarrow> True | Inr s \<Rightarrow> genuine srv base s st)"
  by (simp_all add: ends_genuine_def failed_def split: sum.split)

lemma acceptInvite_genuine: "ends_genuine srv base (acceptInviteAndRead srv base invite now st)"
  by (auto simp: acceptInviteAndRead_def split: prod.splits sum.splits intro: renewAndRead_genuine)

lemma without_workspace_genuine: "ends_genuine srv base (without_workspace parse_bytes srv base err now st)"
  by (auto simp: without_workspace_def Let_def split: prod.splits sum.splits option.splits intro: provisionAndRead_genuine)

lemma usable_refresh_text: "usable_refresh r \<Longrightarrow> string_of r \<noteq> ''''"
  by (cases r) (auto simp: usable_refresh_def is_string_def string_of_def)

lemma redeemHandoff_genuine: "ends_genuine srv base (redeemHandoff parse_bytes srv base code state now invite)"
  by (auto simp: redeemHandoff_def Let_def without_workspace_genuine acceptInvite_genuine usable_refresh_text
      split: prod.split sum.split option.split intro: read_me_genuine)

lemma joinInvite_genuine: "ends_genuine srv base (joinInvite srv base ident name now offer)"
  by (auto simp: joinInvite_def split: prod.split sum.split option.split intro: renewAndRead_genuine)


subsection \<open>When a workspace is made\<close>

definition is_provision :: "string \<Rightarrow> http_call \<Rightarrow> bool" where
  "is_provision base c \<longleftrightarrow> hc_url c = base @ ''/api/tenancy/v1/workspaces''"

lemma is_provision_simps [simp]:
  "\<not> is_provision base (exchange_call base code state)" "\<not> is_provision base (refresh_call base r)"
  "\<not> is_provision base (me_call base token)" "\<not> is_provision base (mine_call base token)"
  "\<not> is_provision base (accept_call base invite token)" "is_provision base (workspaces_call base b token)"
  by (simp_all add: is_provision_def exchange_call_def refresh_call_def me_call_def mine_call_def accept_call_def
      workspaces_call_def http_call_def)

definition adds :: "sign_state \<Rightarrow> (http_call \<Rightarrow> bool) \<Rightarrow> sign_state \<Rightarrow> bool" where
  "adds st p st' \<longleftrightarrow> (\<exists>l. si_log st' = si_log st @ l \<and> list_all p l)"

lemma adds_refl: "adds st p st"
  by (simp add: adds_def)

lemma adds_trans: "adds st p st' \<Longrightarrow> adds st' p st'' \<Longrightarrow> adds st p st''"
  by (auto simp: adds_def)

lemma adds_ask: "ask srv c st = (a, st') \<Longrightarrow> p c \<Longrightarrow> adds st p st'"
  by (auto simp: ask_def adds_def)

lemma adds_renew_pair: "renew_pair srv base st = (a, st') \<Longrightarrow> (\<And>r. p (refresh_call base r)) \<Longrightarrow> adds st p st'"
  by (auto simp: renew_pair_def ask_def adds_def split: sum.splits)

lemma adds_read_me: "read_me srv base renewal st = (a, st') \<Longrightarrow> (\<And>t. p (me_call base t)) \<Longrightarrow> adds st p st'"
  by (auto simp: read_me_def ask_def adds_def split: sum.splits)

lemma adds_renewAndRead:
  assumes "renewAndRead srv base now missing st = (a, st')" "\<And>r. p (refresh_call base r)" "\<And>t. p (me_call base t)"
  shows "adds st p st'"
proof (cases "usable_refresh (si_refresh st)")
  case True
  obtain x st1 where one: "renew_pair srv base st = (x, st1)" by fastforce
  have first: "adds st p st1" using adds_renew_pair [OF one, of p] assms(2) by simp
  show ?thesis
  proof (cases x)
    case None
    then have "read_me srv base (Some (string_of (si_refresh st1), now)) st1 = (a, st')"
      using assms(1) True one by (simp add: renewAndRead_def)
    from adds_trans [OF first adds_read_me [OF this]] assms(3) show ?thesis by simp
  next
    case (Some e)
    with assms(1) True one first show ?thesis by (simp add: renewAndRead_def)
  qed
next
  case False
  with assms(1) show ?thesis by (simp add: renewAndRead_def adds_refl)
qed

lemma adds_callRenewing:
  assumes "callRenewing srv base call st = (a, st')" "\<And>t. p (call t)" "\<And>r. p (refresh_call base r)"
  shows "adds st p st'"
proof -
  obtain a1 st1 where one: "ask srv (call (si_token st)) st = (a1, st1)" by fastforce
  have first: "adds st p st1" using adds_ask [OF one] assms(2) by simp
  show ?thesis
  proof (cases "st' = st1")
    case False
    with assms(1) obtain e where e: "a1 = Inl e" by (cases a1) (simp_all add: callRenewing_def one)
    obtain x st2 where two: "renew_pair srv base st1 = (x, st2)" by fastforce
    have second: "adds st1 p st2" using adds_renew_pair [OF two] assms(3) by simp
    have "st' = st2 \<or> (\<exists>t. ask srv (call t) st2 = (a, st'))"
      using assms(1) False by (auto simp: callRenewing_def one e two split: if_splits option.splits)
    moreover have "adds st2 p st'" if "ask srv (call t) st2 = (a, st')" for t
      using adds_ask [OF that] assms(2) by simp
    ultimately show ?thesis using adds_trans [OF first] adds_trans [OF second] second by blast
  qed (simp add: first)
qed

lemma adds_provisionAndRead:
  assumes "provisionAndRead srv base answers now st = (a, st')"
    "\<And>t. p (workspaces_call base answers t)" "\<And>r. p (refresh_call base r)" "\<And>t. p (me_call base t)"
  shows "adds st p st'"
proof -
  obtain a1 st1 where one: "callRenewing srv base (workspaces_call base answers) st = (a1, st1)" by fastforce
  have "adds st p st1" using adds_callRenewing [OF one] assms(2,3) by simp
  moreover have "st' = st1 \<or> (\<exists>r. renewAndRead srv base now ''no refresh token after provisioning'' st1 = (r, st'))"
    using assms(1) by (auto simp: provisionAndRead_def one split: sum.splits if_splits)
  moreover have "adds st1 p st'" if "renewAndRead srv base now ''no refresh token after provisioning'' st1 = (r, st')" for r
    using adds_renewAndRead [OF that] assms(3,4) by simp
  ultimately show ?thesis using adds_trans by blast
qed

definition provisions_only :: "string \<Rightarrow> provision_body \<Rightarrow> http_call \<Rightarrow> bool" where
  "provisions_only base b c = (if is_provision base c then hc_body c = provision_json b else True)"

lemma provisions_only_simps [simp]:
  "provisions_only base b (workspaces_call base b t)"
  "\<not> is_provision base c \<Longrightarrow> provisions_only base b c"
  by (simp_all add: provisions_only_def workspaces_call_def http_call_def)

lemma adds_unprovisioned:
  "adds st (\<lambda>c. \<not> is_provision base c) st' \<Longrightarrow> list_ex (is_provision base) (si_log st') = list_ex (is_provision base) (si_log st)"
  by (auto simp: adds_def list_ex_iff list_all_iff)

lemma without_workspace_provisions:
  assumes run: "without_workspace parse_bytes srv base err now st = (r, st')"
    and made: "list_ex (is_provision base) (si_log st')" "\<not> list_ex (is_provision base) (si_log st)"
  shows "\<exists>v a l. srv (si_log st) (mine_call base (si_token st)) = Inr v \<and> isEmptyInvites v \<and> \<not> isRemoved v \<and>
    registrationAnswers parse_bytes (si_token st) = Some a \<and>
    si_log st' = si_log st @ mine_call base (si_token st) # l \<and> list_all (provisions_only base a) l"
proof -
  define st1 where "st1 = snd (ask srv (mine_call base (si_token st)) st)"
  have st1: "si_log st1 = si_log st @ [mine_call base (si_token st)]" by (simp add: st1_def ask_simps)
  have moved: "st' \<noteq> st1" using made st1 by auto
  obtain v where v: "srv (si_log st) (mine_call base (si_token st)) = Inr v"
    using run moved by (cases "srv (si_log st) (mine_call base (si_token st))")
      (auto simp: without_workspace_def ask_def st1_def Let_def)
  have branch: "isEmptyInvites v \<and> \<not> isRemoved v \<and> (\<exists>a. registrationAnswers parse_bytes (si_token st) = Some a \<and>
      (\<exists>x. provisionAndRead srv base a now st1 = (x, st')))"
    using run moved v by (auto simp: without_workspace_def ask_def st1_def Let_def split: if_splits option.splits prod.splits)
  then obtain a x where a: "registrationAnswers parse_bytes (si_token st) = Some a"
      "provisionAndRead srv base a now st1 = (x, st')" by blast
  have "adds st1 (provisions_only base a) st'" using adds_provisionAndRead [OF a(2)] by simp
  with branch a(1) v st1 show ?thesis by (auto simp: adds_def)
qed


lemma acceptInvite_unprovisioned:
  "acceptInviteAndRead srv base invite now st = (r, st') \<Longrightarrow> list_ex (is_provision base) (si_log st') = list_ex (is_provision base) (si_log st)"
proof -
  assume run: "acceptInviteAndRead srv base invite now st = (r, st')"
  obtain a st1 where one: "ask srv (accept_call base invite (si_token st)) st = (a, st1)" by fastforce
  have first: "adds st (\<lambda>c. \<not> is_provision base c) st1" using adds_ask [OF one] by simp
  have "st' = st1 \<or> (\<exists>x. renewAndRead srv base now ''no refresh token after accepting the invite'' st1 = (x, st'))"
    using run by (auto simp: acceptInviteAndRead_def one split: sum.splits prod.splits)
  moreover have "adds st1 (\<lambda>c. \<not> is_provision base c) st'"
    if "renewAndRead srv base now ''no refresh token after accepting the invite'' st1 = (x, st')" for x
    using adds_renewAndRead [OF that, of "\<lambda>c. \<not> is_provision base c"] by simp
  ultimately have "adds st (\<lambda>c. \<not> is_provision base c) st'" using first adds_trans by blast
  then show ?thesis by (rule adds_unprovisioned)
qed

text \<open>C10: redeeming a hand-off. Whatever the gateway answers and whenever: a session comes out only if the last call
  read the account of exactly its token, it belongs to the person that call named, and it can be stored and
  restored; and a workspace is made only without an invite in hand, after the account was refused for having none,
  the list of its invites came back empty and not as that of a removed person, and its sign-up answers were
  complete, from exactly those answers.\<close>

theorem redeem_safe:
  "let (r, st) = redeemHandoff parse_bytes srv base code state now invite; ex = exchange_call base code state in
     (case r of
        Inr (Redeemed s) \<Rightarrow> session_ok s \<and> ss_verified s \<and> ss_handoff s \<and>
          (\<exists>h token me. si_log st = h @ [me_call base token] \<and> srv h (me_call base token) = Inr me \<and>
             ss_token s = Some token \<and> ss_me s = Some me \<and> ss_persona s = handoffPersona me)
      | _ \<Rightarrow> True) \<and>
     (if list_ex (is_provision base) (si_log st) then
        invite = None \<and>
        (\<exists>token e v a l. si_log st = [ex, me_call base token, mine_call base token] @ l \<and>
           srv [ex] (me_call base token) = Inl e \<and> status_of e = Some 403 \<and>
           srv [ex, me_call base token] (mine_call base token) = Inr v \<and> isEmptyInvites v \<and> \<not> isRemoved v \<and>
           registrationAnswers parse_bytes token = Some a \<and> list_all (provisions_only base a) l)
      else True)"
proof -
  obtain r st where run: "redeemHandoff parse_bytes srv base code state now invite = (r, st)" by fastforce
  define ex where "ex = exchange_call base code state"
  have session: "case r of Inr (Redeemed s) \<Rightarrow> genuine srv base s st | _ \<Rightarrow> True"
    using redeemHandoff_genuine [of srv base parse_bytes code state now invite] by (simp only: run ends_genuine_def fst_conv snd_conv)
  have made: "invite = None \<and>
      (\<exists>token e v a l. si_log st = [ex, me_call base token, mine_call base token] @ l \<and>
         srv [ex] (me_call base token) = Inl e \<and> status_of e = Some 403 \<and>
         srv [ex, me_call base token] (mine_call base token) = Inr v \<and> isEmptyInvites v \<and> \<not> isRemoved v \<and>
         registrationAnswers parse_bytes token = Some a \<and> list_all (provisions_only base a) l)"
    if made: "list_ex (is_provision base) (si_log st)"
  proof -
    obtain body where body: "srv [] ex = Inr body" "body \<noteq> JNull" "body \<noteq> JUndefined"
      using run made by (cases "srv [] ex") (auto simp: redeemHandoff_def ask_def ex_def split: if_splits)
    define st0 where "st0 = \<lparr>si_token = string_of (member body ''access_token''), si_refresh = member body ''refresh_token'', si_log = [ex]\<rparr>"
    have log0: "si_log st0 = [ex]" by (simp add: st0_def)
    have fresh: "\<not> list_ex (is_provision base) (si_log st0)" by (simp add: st0_def ex_def)
    show ?thesis
    proof (cases invite)
      case (Some i)
      then have "acceptInviteAndRead srv base i now st0 = (r, st)"
        using run body by (simp add: redeemHandoff_def ask_def ex_def st0_def)
      from acceptInvite_unprovisioned [OF this] made fresh show ?thesis by simp
    next
      case None
      define renewal where "renewal = (if usable_refresh (si_refresh st0) then Some (string_of (si_refresh st0), now - HANDOFF_TTL_MS) else None)"
      define st1 where "st1 = st0\<lparr>si_log := [ex, me_call base (si_token st0)]\<rparr>"
      have st1: "snd (read_me srv base renewal st0) = st1"
        by (auto simp: read_me_def ask_def st1_def log0 split: sum.split)
      have untouched: "\<not> list_ex (is_provision base) (si_log st1)" by (simp add: st1_def ex_def)
      have go: "redeemHandoff parse_bytes srv base code state now None =
          (case read_me srv base renewal st0 of
             (Inr s, st') \<Rightarrow> (Inr (Redeemed s), st')
           | (Inl e, st') \<Rightarrow> if status_of e = Some 403 then without_workspace parse_bytes srv base e now st'
               else (Inl (Failed_With e), st'))"
        using body by (simp add: redeemHandoff_def ask_def ex_def st0_def renewal_def)
      obtain e where e: "read_me srv base renewal st0 = (Inl e, st1)" "status_of e = Some 403"
          "without_workspace parse_bytes srv base e now st1 = (r, st)"
        using go run made untouched st1 None
        by (cases "read_me srv base renewal st0"; cases "fst (read_me srv base renewal st0)") (auto split: if_splits)
      have "srv [ex] (me_call base (si_token st0)) = Inl e"
        using e(1,2) by (auto simp: read_me_def ask_def log0 status_of_def split: sum.splits if_splits)
      moreover obtain v a l where "srv [ex, me_call base (si_token st0)] (mine_call base (si_token st0)) = Inr v" "isEmptyInvites v"
          "\<not> isRemoved v" "registrationAnswers parse_bytes (si_token st0) = Some a"
          "si_log st = [ex, me_call base (si_token st0), mine_call base (si_token st0)] @ l" "list_all (provisions_only base a) l"
        using without_workspace_provisions [OF e(3) made untouched] by (auto simp: st1_def)
      ultimately show ?thesis using e(2) None by blast
    qed
  qed
  with session show ?thesis
    unfolding run Let_def ex_def genuine_def by (auto split: sum.splits redeemed.splits)
qed

end
