(* ===== verification/App_Boot.thy ===== *)
theory App_Boot
  imports Sign_In Route
begin

text \<open>
  The outer component of the app (\<open>App\<close> in \<open>App.tsx\<close>), with \<open>lib/consoleHandoff.ts\<close> and \<open>lib/revoke.ts\<close>: what a
  page boots into from its address, the tab's storage and the stored session, the effects that redeem a hand-off
  code or bounce to the landing page, and what the answers and clicks after that do. An effect is modelled with
  the references that latch it; after every event the effects whose inputs may have changed run again, each on the state
  of that render. Assigning \<open>location\<close> is an entry of the log of places the page went to.
\<close>

subsection \<open>The console and the sign-out request\<close>

definition consoleStartUrl :: "string \<Rightarrow> string" where
  "consoleStartUrl supportUrl = supportUrl @ ''/?auth=app''"

definition readConsoleStart :: "string \<Rightarrow> string option" where
  "readConsoleStart search =
    (let states = search_all search ''state''; targets = search_all search ''console'' in
     if search_get search ''auth'' \<noteq> Some ''console'' \<or> length (search_all search ''auth'') \<noteq> 1 then None
     else if single targets \<noteq> Some ''support'' then None
     else (case single states of Some s \<Rightarrow> if BASE64URL_43 s then Some s else None | None \<Rightarrow> None))"

definition console_call :: "string \<Rightarrow> string \<Rightarrow> string \<Rightarrow> http_call" where
  "console_call base token state =
     http_call POST (base @ ''/auth/console-handoff'') (Some token) (JObj [(''state'', JStr state)])"

definition requestConsoleCode :: "failure + json \<Rightarrow> failure + string" where
  "requestConsoleCode answer = (case answer of
     Inl e \<Rightarrow> Inl e
   | Inr body \<Rightarrow> (case member body ''code'' of
         JStr code \<Rightarrow> if BASE64URL_43 code then Inr code
           else Inl (Api_Error (api_error Malformed ''console hand-off answered without a code'' (Some 200) JUndefined))
       | _ \<Rightarrow> Inl (Api_Error (api_error Malformed ''console hand-off answered without a code'' (Some 200) JUndefined))))"

definition consoleHandoffUrl :: "string \<Rightarrow> string \<Rightarrow> string" where
  "consoleHandoffUrl supportUrl code = supportUrl @ ''/?handoff='' @ encodeURIComponent code"

definition revoke_call :: "string \<Rightarrow> string \<Rightarrow> http_call" where
  "revoke_call base refreshToken =
     http_call POST (base @ ''/auth/sign-out'') None (JObj [(''refresh_token'', JStr refreshToken)])"

subsection \<open>State\<close>

text \<open>What the page is built with and runs on.\<close>

record platform =
  pf_parse :: "string \<Rightarrow> json option"
  pf_stringify :: "json \<Rightarrow> string"
  pf_bytes :: "string \<Rightarrow> json option"
  pf_gateway :: "string option"
  pf_landing :: "string option"
  pf_support :: "string option"

text \<open>The clock and the random bytes of one turn of the event loop.\<close>

record turn =
  tn_now :: rat
  tn_random :: string

text \<open>A redemption under way, or refused at once for want of a sign-in state, with the invite it carries.\<close>

record redemption =
  rd_code :: string
  rd_state :: "string option"
  rd_invite :: "(string \<times> string option) option"

text \<open>A request of the Join screen under way: an invite joined under a name, or a workspace created, for which a failure
  may leave the screen open.\<close>

datatype attempt = Joins string string | Creates provision_body bool

record app =
  ap_record :: "string option"
  ap_tab :: tab
  ap_path :: string
  ap_search :: string
  ap_went :: "string list"
  ap_overridesLive :: bool
  ap_handoffCode :: "string option"
  ap_handoffPending :: bool
  ap_consoleStart :: "string option"
  ap_consoleStarted :: bool
  ap_consoleAsked :: bool
  ap_redeemStarted :: bool
  ap_redemption :: "redemption option"
  ap_exchanges :: "(string \<times> string) list"
  ap_offer :: "(join_offer \<times> sign_state) option"
  ap_joining :: "string option"
  ap_joinNotice :: "string option"
  ap_createFailed :: bool
  ap_joinStarted :: bool
  ap_attempt :: "attempt option"
  ap_authStart :: bool
  ap_startInvite :: "string option"
  ap_startName :: "string option"
  ap_startBounced :: bool
  ap_authVerify :: bool
  ap_verifyInvite :: bool
  ap_verifyToken :: "string option"
  ap_verifyBounced :: bool
  ap_frontDoorBounced :: bool
  ap_seat :: "session option"
  ap_keepStored :: bool
  ap_bootRenewing :: bool
  ap_notice :: "string option"
  ap_signingOut :: bool
  ap_revoking :: bool

definition go_to :: "string option \<Rightarrow> app \<Rightarrow> app" where
  "go_to dest s = (case dest of Some url \<Rightarrow> s\<lparr>ap_went := ap_went s @ [url]\<rparr> | None \<Rightarrow> s)"

definition on_tab :: "(tab \<Rightarrow> tab) \<Rightarrow> app \<Rightarrow> app" where
  "on_tab f s = s\<lparr>ap_tab := f (ap_tab s)\<rparr>"

subsection \<open>Boot\<close>

definition confirmedNotice :: "string option \<Rightarrow> string" where
  "confirmedNotice who = ''Your email is confirmed. You are signed in '' @
     (case who of Some w \<Rightarrow> ''as '' @ w | None \<Rightarrow> ''to another account'') @
     ''. To use the confirmed account, sign out and sign in with it.''"

definition filled :: "json \<Rightarrow> string option" where
  "filled v = (case v of JStr s \<Rightarrow> if s = '''' then None else Some s | _ \<Rightarrow> None)"

definition session_name :: "session option \<Rightarrow> string option" where
  "session_name s = (case Option.bind s ss_me of
     None \<Rightarrow> None
   | Some me \<Rightarrow> (case filled (member (member me ''user'') ''email'') of
         Some e \<Rightarrow> Some e | None \<Rightarrow> filled (member (member me ''user'') ''display_name'')))"

definition boot :: "platform \<Rightarrow> rat \<Rightarrow> string option \<Rightarrow> tab \<Rightarrow> string \<Rightarrow> string \<Rightarrow> string \<Rightarrow> app" where
  "boot pf now stored t path search fragment =
    (let bootSession = resolveBootSession (pf_parse pf) (pf_bytes pf) stored now;
         isLive = isLiveHandoffSession (pf_bytes pf) bootSession now;
         handoff = (case bootSession of Some s \<Rightarrow> ss_handoff s | None \<Rightarrow> False);
         given = readHandoffCode search;
         liveHandoff = (isLive \<or> handoff \<and> given \<noteq> None \<and> holdsPendingVerify (pf_parse pf) t)
           \<and> peekPendingInvite (pf_parse pf) now t = None;
         handoffCode = (if liveHandoff \<or> pf_gateway pf = None then None else given);
         auth = search_get search ''auth'';
         authStart = (handoffCode = None \<and> auth = Some ''start'');
         t1 = (case readCancelLinkFragment fragment of
             Some tok \<Rightarrow> holdCancelLink (pf_stringify pf) (Some tok) now t | None \<Rightarrow> t);
         authVerify = (given = None \<and> (auth = Some ''verify'' \<or> auth = Some ''verify-invite''));
         seat = (if handoffCode \<noteq> None then None else bootSession)
     in \<lparr>ap_record = stored, ap_tab = t1, ap_path = path, ap_search = search, ap_went = [],
         ap_overridesLive = (\<not> liveHandoff \<and> isLive), ap_handoffCode = handoffCode,
         ap_handoffPending = (handoffCode \<noteq> None),
         ap_consoleStart = (if handoffCode \<noteq> None then None else readConsoleStart search), ap_consoleStarted = False,
         ap_consoleAsked = False, ap_redeemStarted = False, ap_redemption = None, ap_exchanges = [], ap_offer = None,
         ap_joining = None, ap_joinNotice = None, ap_createFailed = False, ap_joinStarted = False, ap_attempt = None,
         ap_authStart = authStart, ap_startInvite = (if authStart then readInviteFragment fragment else None),
         ap_startName = (if authStart then readInviteName fragment else None), ap_startBounced = False,
         ap_authVerify = authVerify, ap_verifyInvite = (authVerify \<and> auth = Some ''verify-invite''),
         ap_verifyToken = (if authVerify then readVerifyFragment fragment else None), ap_verifyBounced = False,
         ap_frontDoorBounced = False, ap_seat = seat, ap_keepStored = False,
         ap_bootRenewing = (case seat of Some s \<Rightarrow> isRenewalDue (pf_bytes pf) s now | None \<Rightarrow> False),
         ap_notice = (if liveHandoff \<and> given \<noteq> None \<and> holdsPendingVerify (pf_parse pf) t1
           then Some (confirmedNotice (session_name bootSession)) else None),
         ap_signingOut = False, ap_revoking = False\<rparr>)"

subsection \<open>Effects\<close>

definition saveSession :: "platform \<Rightarrow> session \<Rightarrow> app \<Rightarrow> app" where
  "saveSession pf seat s = s\<lparr>ap_record := Some (serializeSession (pf_stringify pf) seat)\<rparr>"

definition clearSession :: "app \<Rightarrow> app" where
  "clearSession s = s\<lparr>ap_record := None\<rparr>"

definition mirror_seat :: "platform \<Rightarrow> app \<Rightarrow> app \<Rightarrow> app" where
  "mirror_seat pf r s = (case ap_seat r of
     Some seat \<Rightarrow> saveSession pf seat s
   | None \<Rightarrow> if ap_keepStored s then s\<lparr>ap_keepStored := False\<rparr>
       else if ap_overridesLive r \<and> ap_handoffPending r then s else clearSession s)"

definition strip_params :: "app \<Rightarrow> app" where
  "strip_params s = (if search_all (ap_search s) ''auth'' \<noteq> [] \<or> search_all (ap_search s) HANDOFF_PARAM \<noteq> []
     then s\<lparr>ap_search := []\<rparr> else s)"

definition console_hop :: "platform \<Rightarrow> app \<Rightarrow> app \<Rightarrow> app" where
  "console_hop pf r s = (case ap_seat r of
     None \<Rightarrow> s
   | Some seat \<Rightarrow>
       if ap_consoleStart r = None \<or> ap_bootRenewing r \<or> ap_consoleStarted s then s
       else if pf_support pf = None \<or> pf_gateway pf = None \<or> \<not> isStaffToken (pf_bytes pf) (ss_token seat)
       then s\<lparr>ap_consoleStarted := True, ap_consoleStart := None\<rparr>
       else s\<lparr>ap_consoleStarted := True, ap_consoleAsked := True\<rparr>)"

definition redeem_code :: "platform \<Rightarrow> turn \<Rightarrow> app \<Rightarrow> app \<Rightarrow> app" where
  "redeem_code pf tn r s = (case ap_handoffCode r of
     None \<Rightarrow> s
   | Some code \<Rightarrow>
       if pf_gateway pf = None \<or> ap_redeemStarted s then s
       else
         (let markerBound = holdsPendingVerify (pf_parse pf) (ap_tab s);
              t1 = snd (consumePendingVerify (pf_parse pf) (tn_now tn) (ap_tab s));
              (state, t2) = consumeSignInState (pf_parse pf) (tn_now tn) markerBound t1;
              (invite, t3) = consumePendingInvite (pf_parse pf) (tn_now tn) t2
          in s\<lparr>ap_redeemStarted := True, ap_tab := t3,
               ap_redemption := Some \<lparr>rd_code = code, rd_state = state, rd_invite = invite\<rparr>,
               ap_exchanges := ap_exchanges s @ (case state of Some st \<Rightarrow> [(code, st)] | None \<Rightarrow> [])\<rparr>))"

definition start_bounce :: "platform \<Rightarrow> turn \<Rightarrow> app \<Rightarrow> app \<Rightarrow> app" where
  "start_bounce pf tn r s =
    (if \<not> ap_authStart r \<or> ap_startBounced s \<or> pf_landing pf = None then s
     else
       (let (state, t1) = mintSignInState (pf_stringify pf) (tn_now tn) (tn_random tn) (ap_tab s);
            t2 = holdPendingInvite (pf_stringify pf) (ap_startInvite r) (tn_now tn)
              (if ap_startInvite r = None then None else ap_startName r) t1
        in go_to (landingSignInUrl (pf_landing pf) state (Some Outcome_Ready))
             (s\<lparr>ap_startBounced := True, ap_tab := t2\<rparr>)))"

definition verify_bounce :: "platform \<Rightarrow> turn \<Rightarrow> app \<Rightarrow> app \<Rightarrow> app" where
  "verify_bounce pf tn r s =
    (if \<not> ap_authVerify r \<or> ap_verifyBounced s then s
     else case (ap_verifyToken r, pf_gateway pf) of
       (Some token, Some base) \<Rightarrow>
         (let (state, t1) = mintSignInState (pf_stringify pf) (tn_now tn) (tn_random tn) (ap_tab s);
              t2 = holdPendingVerify (pf_parse pf) (pf_stringify pf) (tn_now tn) t1
          in go_to (Some (gatewayVerifyUrl base token state (ap_verifyInvite r))) (s\<lparr>ap_verifyBounced := True, ap_tab := t2\<rparr>))
     | _ \<Rightarrow>
         (case landingVerifyFailedUrl (pf_landing pf) of
            Some dest \<Rightarrow> go_to (Some dest) (s\<lparr>ap_verifyBounced := True\<rparr>)
          | None \<Rightarrow> s\<lparr>ap_authVerify := False\<rparr>))"

definition notice_effect :: "platform \<Rightarrow> turn \<Rightarrow> app \<Rightarrow> app" where
  "notice_effect pf tn s = (if ap_notice s = None then s
     else on_tab (\<lambda>t. snd (consumeSignInState (pf_parse pf) (tn_now tn) False
       (snd (consumePendingVerify (pf_parse pf) (tn_now tn) t)))) s)"

text \<open>The parameters of a parsed address, as \<open>routeQuery(at.view, at)\<close> passes it.\<close>

definition located_params :: "parsed_location \<Rightarrow> route_params" where
  "located_params at' = \<lparr>rp_id = None, rp_settingsTab = Some (pl_settingsTab at'), rp_q = pl_q at',
     rp_auditInvoice = pl_auditInvoice at', rp_reviewBatchIds = pl_reviewBatchIds at'\<rparr>"

definition captured_query :: "string \<Rightarrow> string \<Rightarrow> string" where
  "captured_query path search = (let at' = parseLocation path search in routeQuery (pl_view at') (located_params at'))"

definition front_door :: "platform \<Rightarrow> turn \<Rightarrow> app \<Rightarrow> app \<Rightarrow> app" where
  "front_door pf tn r s =
    (if ap_seat r \<noteq> None \<or> ap_authStart r \<or> ap_authVerify r \<or> ap_handoffPending r \<or> ap_offer r \<noteq> None
        \<or> ap_frontDoorBounced s \<or> pf_landing pf = None then s
     else
       (let fromLibrary = (search_get (ap_search s) ''via'' = Some ''library'');
            (state, t1) = ensureSignInState (pf_parse pf) (pf_stringify pf) (tn_now tn) (tn_random tn) (ap_tab s);
            dest = (if fromLibrary then landingRegisterUrl (pf_landing pf) state
                    else landingSignInUrl (pf_landing pf) state None);
            t2 = snd (consumePendingVerify (pf_parse pf) (tn_now tn) t1);
            t3 = captureDestination (pf_stringify pf) (ap_path s) (captured_query (ap_path s) (ap_search s)) (tn_now tn) t2
        in go_to dest (s\<lparr>ap_frontDoorBounced := True, ap_tab := t3\<rparr>)))"

text \<open>One pass of the effects of a render \<open>r\<close>; the second pass follows a state an effect set.\<close>

definition pass :: "platform \<Rightarrow> turn \<Rightarrow> app \<Rightarrow> app \<Rightarrow> app" where
  "pass pf tn r s = front_door pf tn r (verify_bounce pf tn r (start_bounce pf tn r (redeem_code pf tn r (console_hop pf r s))))"



definition mount :: "platform \<Rightarrow> turn \<Rightarrow> app \<Rightarrow> app" where
  "mount pf tn s =
    (let r = s;
         s1 = strip_params (mirror_seat pf r s);
         s2 = verify_bounce pf tn r (start_bounce pf tn r (redeem_code pf tn r (console_hop pf r s1)));
         s3 = front_door pf tn r (notice_effect pf tn s2)
     in pass pf tn s3 s3)"


subsection \<open>Answers and clicks\<close>

datatype app_event =
    Redemption_Settles "sign_failure + redeemed" sign_state
  | Join_Click string string
  | Create_Own_Click
  | Create_Click string string "workspace_kind option"
  | Attempt_Settles "sign_failure + session" sign_state
  | Join_Sign_Out_Click
  | Sign_Out_Click
  | Revoke_Answered
  | Account_Deleted
  | Session_Revoked
  | Session_Expires bool
  | Renewed session
  | Boot_Renewed
  | Persona_In session
  | Page_Restored
  | Console_Answered "failure + string"
  | Notice_Dismissed
  | Other_Tab "string option"

definition CREATING_OWN :: string where "CREATING_OWN = ''create-own''"

text \<open>Where a failed sign-in leaves to: an invite's refusal has its own notice.\<close>

definition failure_exit :: "platform \<Rightarrow> turn \<Rightarrow> sign_in_outcome \<Rightarrow> sign_failure \<Rightarrow> app \<Rightarrow> string option \<times> app" where
  "failure_exit pf tn outcome err s = (case err of
     Invite_Refused refused \<Rightarrow> (landingInviteUrl (pf_landing pf) refused, s)
   | _ \<Rightarrow>
       (let (state, t) = ensureSignInState (pf_parse pf) (pf_stringify pf) (tn_now tn) (tn_random tn) (ap_tab s)
        in (landingSignInUrl (pf_landing pf) state (Some outcome), s\<lparr>ap_tab := t\<rparr>)))"

definition is_forbidden :: "sign_failure \<Rightarrow> bool" where
  "is_forbidden err = (case err of Failed_With (Api_Error a) \<Rightarrow> ae_status a = Some 403 | _ \<Rightarrow> False)"

definition is_unauthorized :: "sign_failure \<Rightarrow> bool" where
  "is_unauthorized err = (case err of Failed_With (Api_Error a) \<Rightarrow> ae_status a = Some 401 | _ \<Rightarrow> False)"

definition redemption_settles :: "platform \<Rightarrow> turn \<Rightarrow> sign_failure + redeemed \<Rightarrow> sign_state \<Rightarrow> app \<Rightarrow> app" where
  "redemption_settles pf tn answer tokens s = (case ap_redemption s of
     None \<Rightarrow> s
   | Some rd \<Rightarrow>
       (let s = s\<lparr>ap_redemption := None\<rparr>;
            outcome = (if rd_state rd = None
              then Inl (Failed_With (Other_Failure ''no sign-in state in this tab'')) else answer) in
        case outcome of
          Inr (Offered offer) \<Rightarrow> s\<lparr>ap_offer := Some (offer, tokens), ap_handoffPending := False\<rparr>
        | Inr (Redeemed seat) \<Rightarrow> s\<lparr>ap_seat := Some seat, ap_handoffPending := False\<rparr>
        | Inl err \<Rightarrow>
            (case failure_exit pf tn (if rd_invite rd = None \<and> is_forbidden err then Outcome_No_Workspace else Outcome_Failed) err s of
               (Some dest, s') \<Rightarrow> go_to (Some dest) s'
             | (None, s') \<Rightarrow> s'\<lparr>ap_handoffPending := False\<rparr>)))"

definition resolveJoin :: "attempt \<Rightarrow> app \<Rightarrow> app" where
  "resolveJoin a s = (if ap_joinStarted s then s else s\<lparr>ap_joinStarted := True, ap_attempt := Some a\<rparr>)"

definition usable_again :: "app \<Rightarrow> app" where
  "usable_again s = s\<lparr>ap_joinStarted := False, ap_joining := None\<rparr>"

definition attempt_settles :: "platform \<Rightarrow> turn \<Rightarrow> sign_failure + session \<Rightarrow> sign_state \<Rightarrow> app \<Rightarrow> app" where
  "attempt_settles pf tn answer tokens s = (case ap_attempt s of
     None \<Rightarrow> s
   | Some a \<Rightarrow>
       (let s = s\<lparr>ap_attempt := None, ap_offer := map_option (\<lambda>(offer, _). (offer, tokens)) (ap_offer s)\<rparr> in
        case answer of
          Inr seat \<Rightarrow> s\<lparr>ap_seat := Some seat, ap_offer := None, ap_joining := None\<rparr>
        | Inl err \<Rightarrow>
            (let cannotRenew = (is_unauthorized err \<or> (case ap_offer s of
                   Some (_, st) \<Rightarrow> \<not> usable_refresh (si_refresh st) | None \<Rightarrow> True));
                 stay = (case a of Creates _ stay \<Rightarrow> stay | Joins _ _ \<Rightarrow> False);
                 left = (case (a, ap_offer s) of
                   (Joins i _, Some (offer, st)) \<Rightarrow>
                     if err = Invite_Refused Invite_Invalid
                     then filter (\<lambda>v. member v ''id'' \<noteq> JStr i) (jo_invites offer) else []
                 | _ \<Rightarrow> [])
             in if stay \<and> \<not> cannotRenew then usable_again (s\<lparr>ap_createFailed := True\<rparr>)
                else if left \<noteq> [] then
                  usable_again (s\<lparr>ap_offer := map_option (\<lambda>(offer, st). (offer\<lparr>jo_invites := left\<rparr>, st)) (ap_offer s),
                    ap_joinNotice := Some ''That invite is no longer valid.''\<rparr>)
                else (case failure_exit pf tn Outcome_Failed err s of
                    (Some dest, s') \<Rightarrow> go_to (Some dest) s'
                  | (None, s') \<Rightarrow> usable_again s'))))"

definition onJoin :: "platform \<Rightarrow> string \<Rightarrow> string \<Rightarrow> app \<Rightarrow> app" where
  "onJoin pf i name s =
    (if ap_offer s = None \<or> pf_gateway pf = None \<or> ap_joinStarted s then s
     else resolveJoin (Joins i name) (s\<lparr>ap_joining := Some i, ap_joinNotice := None\<rparr>))"

definition onCreateOwn :: "platform \<Rightarrow> app \<Rightarrow> app" where
  "onCreateOwn pf s = (case Option.bind (ap_offer s) (jo_answers \<circ> fst) of
     None \<Rightarrow> s
   | Some answers \<Rightarrow>
       if pf_gateway pf = None \<or> ap_joinStarted s then s
       else resolveJoin (Creates answers False) (s\<lparr>ap_joining := Some CREATING_OWN\<rparr>))"

definition onCreate :: "platform \<Rightarrow> string \<Rightarrow> string \<Rightarrow> workspace_kind option \<Rightarrow> app \<Rightarrow> app" where
  "onCreate pf workspace_name display_name chosen s = (case ap_offer s of
     None \<Rightarrow> s
   | Some (offer, _) \<Rightarrow>
       if pf_gateway pf = None \<or> ap_joinStarted s then s
       else
         (let kind = (if jo_firstWorkspace offer then chosen else Option.bind (jo_answers offer) pv_kind)
          in resolveJoin (Creates \<lparr>pv_workspace_name = workspace_name, pv_display_name = display_name, pv_kind = kind\<rparr>
                 (jo_firstWorkspace offer))
               (s\<lparr>ap_createFailed := False, ap_joining := Some CREATING_OWN\<rparr>)))"

definition leaveToLanding :: "platform \<Rightarrow> app \<Rightarrow> app" where
  "leaveToLanding pf s =
    (let s = on_tab clearDestination (clearSession (s\<lparr>ap_seat := None, ap_path := ''/'', ap_search := []\<rparr>))
     in if pf_landing pf = None then s\<lparr>ap_signingOut := False\<rparr> else go_to (pf_landing pf) s)"

definition signOut :: "platform \<Rightarrow> app \<Rightarrow> app" where
  "signOut pf s =
    (if ap_signingOut s then s
     else
       (let s = s\<lparr>ap_signingOut := True\<rparr> in
        case ap_seat s of
          Some seat \<Rightarrow> if ss_handoff seat \<and> ss_renewal seat \<noteq> None \<and> pf_gateway pf \<noteq> None
            then s\<lparr>ap_revoking := True\<rparr> else leaveToLanding pf s
        | None \<Rightarrow> leaveToLanding pf s))"

definition onJoinSignOut :: "platform \<Rightarrow> app \<Rightarrow> app" where
  "onJoinSignOut pf s = (case ap_offer s of
     None \<Rightarrow> s
   | Some (_, st) \<Rightarrow>
       if ap_signingOut s \<or> pf_gateway pf = None then s
       else if is_string (si_refresh st) then s\<lparr>ap_signingOut := True, ap_revoking := True\<rparr>
       else leaveToLanding pf (s\<lparr>ap_signingOut := True\<rparr>))"

text \<open>\<open>endRevokedSession\<close> keeps a stored record that is another sign-in's.\<close>

definition keeps_record :: "platform \<Rightarrow> app \<Rightarrow> bool" where
  "keeps_record pf s =
    (let ended = claim (pf_bytes pf) (Option.bind (ap_seat s) ss_token) ''session_id'';
         stored = claim (pf_bytes pf) (Option.bind (parseStoredSession (pf_parse pf) (ap_record s)) ss_token) ''session_id''
     in is_string ended \<and> is_string stored \<and> ended \<noteq> stored)"

definition endRevokedSession :: "platform \<Rightarrow> app \<Rightarrow> app" where
  "endRevokedSession pf s =
    (if ap_signingOut s then s
     else
       (let keep = keeps_record pf s;
            s1 = s\<lparr>ap_keepStored := keep, ap_seat := None, ap_path := ''/'', ap_search := []\<rparr>;
            s2 = on_tab clearDestination (if keep then s1 else clearSession s1)
        in if pf_landing pf = None then s2 else go_to (pf_landing pf) (s2\<lparr>ap_signingOut := True\<rparr>)))"

definition expireSession :: "bool \<Rightarrow> app \<Rightarrow> app" where
  "expireSession keepStorage s =
    (let s = s\<lparr>ap_keepStored := keepStorage, ap_seat := None\<rparr> in if keepStorage then s else clearSession s)"

fun app_act :: "platform \<Rightarrow> turn \<Rightarrow> app \<Rightarrow> app_event \<Rightarrow> app" where
  "app_act pf tn s (Redemption_Settles answer tokens) = redemption_settles pf tn answer tokens s"
| "app_act pf tn s (Join_Click i name) = onJoin pf i name s"
| "app_act pf tn s Create_Own_Click = onCreateOwn pf s"
| "app_act pf tn s (Create_Click w d k) = onCreate pf w d k s"
| "app_act pf tn s (Attempt_Settles answer tokens) = attempt_settles pf tn answer tokens s"
| "app_act pf tn s Join_Sign_Out_Click = onJoinSignOut pf s"
| "app_act pf tn s Sign_Out_Click = signOut pf s"
| "app_act pf tn s Revoke_Answered = (if ap_revoking s then leaveToLanding pf (s\<lparr>ap_revoking := False\<rparr>) else s)"
| "app_act pf tn s Account_Deleted = (if ap_signingOut s then s else leaveToLanding pf (s\<lparr>ap_signingOut := True\<rparr>))"
| "app_act pf tn s Session_Revoked = endRevokedSession pf s"
| "app_act pf tn s (Session_Expires keepStorage) = expireSession keepStorage s"
| "app_act pf tn s (Renewed seat) = saveSession pf seat (s\<lparr>ap_seat := Some seat\<rparr>)"
| "app_act pf tn s Boot_Renewed = s\<lparr>ap_bootRenewing := False\<rparr>"
| "app_act pf tn s (Persona_In seat) = s\<lparr>ap_seat := Some seat\<rparr>"
| "app_act pf tn s Page_Restored = (if ap_authVerify s
     then on_tab (\<lambda>t. snd (consumePendingVerify (pf_parse pf) (tn_now tn) t)) (s\<lparr>ap_authVerify := False\<rparr>) else s)"
| "app_act pf tn s (Console_Answered answer) = (if \<not> ap_consoleAsked s then s
     else case answer of
       Inr code \<Rightarrow> go_to (map_option (\<lambda>support. consoleHandoffUrl support code) (pf_support pf)) (s\<lparr>ap_consoleAsked := False\<rparr>)
     | Inl e \<Rightarrow> s\<lparr>ap_consoleAsked := False, ap_consoleStart := None\<rparr>)"
| "app_act pf tn s Notice_Dismissed = s\<lparr>ap_notice := None\<rparr>"
| "app_act pf tn s (Other_Tab raw) = s\<lparr>ap_record := raw\<rparr>"

definition app_step :: "platform \<Rightarrow> app \<Rightarrow> turn \<times> app_event \<Rightarrow> app" where
  "app_step pf s te =
    (let tn = fst te; s1 = app_act pf tn s (snd te);
         s2 = (if ap_seat s1 \<noteq> ap_seat s then mirror_seat pf s1 s1 else s1);
         s3 = pass pf tn s1 s2
     in pass pf tn s3 s3)"


subsection \<open>One exchange per page\<close>

text \<open>What decides the exchange, which only the redeeming effect changes.\<close>

definition exchange_state :: "app \<Rightarrow> string option \<times> bool \<times> (string \<times> string) list" where
  "exchange_state s = (ap_handoffCode s, ap_redeemStarted s, ap_exchanges s)"

lemma go_to_keeps: "exchange_state (go_to dest s) = exchange_state s" "ap_tab (go_to dest s) = ap_tab s"
    "ap_record (go_to dest s) = ap_record s" "ap_seat (go_to dest s) = ap_seat s" "ap_handoffPending (go_to dest s) = ap_handoffPending s"
  by (simp_all add: go_to_def exchange_state_def split: option.split)

lemma mirror_keeps: "exchange_state (mirror_seat pf r s) = exchange_state s"
  by (simp add: mirror_seat_def saveSession_def clearSession_def exchange_state_def split: option.split)

lemma small_effects_keep:
  "exchange_state (console_hop pf r s) = exchange_state s" "exchange_state (strip_params s) = exchange_state s"
  "exchange_state (notice_effect pf tn s) = exchange_state s"
  by (simp_all add: console_hop_def strip_params_def notice_effect_def on_tab_def exchange_state_def split: option.split)

lemma front_door_keeps: "exchange_state (front_door pf tn r s) = exchange_state s"
  unfolding front_door_def Let_def case_prod_beta by (simp add: go_to_keeps) (simp add: exchange_state_def)

lemma start_bounce_keeps: "exchange_state (start_bounce pf tn r s) = exchange_state s"
  unfolding start_bounce_def Let_def case_prod_beta by (simp add: go_to_keeps) (simp add: exchange_state_def)

lemma verify_bounce_keeps: "exchange_state (verify_bounce pf tn r s) = exchange_state s"
  unfolding verify_bounce_def Let_def case_prod_beta by (simp add: go_to_keeps split: option.split) (simp add: exchange_state_def)

lemmas effects_keep_exchange = mirror_keeps small_effects_keep front_door_keeps start_bounce_keeps verify_bounce_keeps

lemma leave_keeps: "exchange_state (leaveToLanding pf s) = exchange_state s"
  by (simp add: leaveToLanding_def on_tab_def clearSession_def go_to_keeps Let_def) (simp add: exchange_state_def)

lemma failure_exit_app: "snd (failure_exit pf tn x err s) = s\<lparr>ap_tab := ap_tab (snd (failure_exit pf tn x err s))\<rparr>"
  unfolding failure_exit_def Let_def case_prod_beta by (simp split: sign_failure.split)

lemma failure_exit_keeps: "exchange_state (snd (failure_exit pf tn x err s)) = exchange_state s"
  by (subst failure_exit_app) (simp add: exchange_state_def)

lemma exit_cases: "(case failure_exit pf tn x err s of (Some d, s') \<Rightarrow> f d s' | (None, s') \<Rightarrow> g s') =
    (case fst (failure_exit pf tn x err s) of Some d \<Rightarrow> f d (snd (failure_exit pf tn x err s))
     | None \<Rightarrow> g (snd (failure_exit pf tn x err s)))"
  by (simp add: case_prod_beta split: option.split)

lemma redemption_keeps: "exchange_state (redemption_settles pf tn answer tokens s) = exchange_state s"
proof -
  have pending: "exchange_state (s\<lparr>ap_handoffPending := b\<rparr>) = exchange_state s" for s b by (simp add: exchange_state_def)
  show ?thesis
    unfolding redemption_settles_def Let_def exit_cases
    by (simp add: go_to_keeps failure_exit_keeps pending split: option.split sum.split redeemed.split) (simp add: exchange_state_def)
qed

lemma attempt_keeps: "exchange_state (attempt_settles pf tn answer tokens s) = exchange_state s"
proof -
  have again: "exchange_state (usable_again s) = exchange_state s" for s by (simp add: usable_again_def exchange_state_def)
  show ?thesis
    unfolding attempt_settles_def Let_def exit_cases
    by (simp add: go_to_keeps failure_exit_keeps again split: option.split sum.split) (simp add: exchange_state_def)
qed

lemma act_keeps_exchange: "exchange_state (app_act pf tn s e) = exchange_state s"
proof (cases e)
  case (Redemption_Settles a t)
  then show ?thesis by (simp add: redemption_keeps)
next
  case (Attempt_Settles a t)
  then show ?thesis by (simp add: attempt_keeps)
next
  case Sign_Out_Click
  then show ?thesis by (simp add: signOut_def Let_def leave_keeps split: option.split) (simp add: exchange_state_def)
next
  case Join_Sign_Out_Click
  then show ?thesis by (simp add: onJoinSignOut_def leave_keeps split: option.split) (simp add: exchange_state_def)
next
  case Session_Revoked
  then show ?thesis
    by (simp add: endRevokedSession_def go_to_keeps on_tab_def clearSession_def Let_def) (simp add: exchange_state_def)
next
  case (Console_Answered a)
  then show ?thesis by (simp add: go_to_keeps split: sum.split) (simp add: exchange_state_def)
next
  case (Create_Click w d k)
  then show ?thesis by (simp add: onCreate_def resolveJoin_def Let_def split: option.split) (simp add: exchange_state_def)
next
  case Create_Own_Click
  then show ?thesis by (simp add: onCreateOwn_def resolveJoin_def split: option.split) (simp add: exchange_state_def)
next
  case Revoke_Answered
  then show ?thesis by (simp add: leave_keeps) (simp add: exchange_state_def)
next
  case Account_Deleted
  then show ?thesis by (simp add: leave_keeps) (simp add: exchange_state_def)
qed (simp_all add: exchange_state_def onJoin_def resolveJoin_def expireSession_def on_tab_def clearSession_def saveSession_def Let_def)


definition redeemed_already :: "app \<Rightarrow> bool" where
  "redeemed_already s \<longleftrightarrow> ap_handoffCode s = None \<or> ap_redeemStarted s"

lemma redeem_code_again:
  "ap_handoffCode r = ap_handoffCode s \<Longrightarrow> redeemed_already s \<Longrightarrow> redeem_code pf tn r s = s"
  by (auto simp: redeem_code_def redeemed_already_def split: option.split)

lemma exchange_code: "exchange_state s = exchange_state s' \<Longrightarrow> ap_handoffCode s = ap_handoffCode s' \<and> redeemed_already s = redeemed_already s' \<and>
    ap_exchanges s = ap_exchanges s'"
  by (simp add: exchange_state_def redeemed_already_def)

lemma pass_keeps:
  assumes "exchange_state r = exchange_state s" "redeemed_already s"
  shows "exchange_state (pass pf tn r s) = exchange_state s"
proof -
  have hop: "exchange_state (console_hop pf r s) = exchange_state s" by (simp add: effects_keep_exchange)
  have "redeem_code pf tn r (console_hop pf r s) = console_hop pf r s"
    using exchange_code [OF hop] exchange_code [OF assms(1)] assms(2) by (intro redeem_code_again) simp_all
  then show ?thesis by (simp add: pass_def effects_keep_exchange)
qed

lemma step_keeps_exchange:
  assumes "redeemed_already s"
  shows "exchange_state (app_step pf s te) = exchange_state s"
proof -
  define s1 where "s1 = app_act pf (fst te) s (snd te)"
  define s2 where "s2 = (if ap_seat s1 \<noteq> ap_seat s then mirror_seat pf s1 s1 else s1)"
  have s1: "exchange_state s1 = exchange_state s" by (simp add: s1_def act_keeps_exchange)
  have s2: "exchange_state s2 = exchange_state s" using s1 by (simp add: s2_def effects_keep_exchange)
  have "redeemed_already s2" using exchange_code [OF s2] assms by simp
  then have s3: "exchange_state (pass pf (fst te) s1 s2) = exchange_state s"
    using pass_keeps [of s1 s2] s1 s2 by simp
  then have "redeemed_already (pass pf (fst te) s1 s2)" using exchange_code [OF s3] assms by simp
  then show ?thesis
    using pass_keeps [of "pass pf (fst te) s1 s2" "pass pf (fst te) s1 s2"] s3
    unfolding app_step_def Let_def s1_def [symmetric] s2_def [symmetric] by simp
qed

lemma steps_keep_exchange:
  "redeemed_already s \<Longrightarrow> exchange_state (foldl (app_step pf) s tes) = exchange_state s"
proof (induction tes arbitrary: s)
  case (Cons te tes)
  have one: "exchange_state (app_step pf s te) = exchange_state s" using Cons.prems by (rule step_keeps_exchange)
  then have "redeemed_already (app_step pf s te)" using Cons.prems exchange_code by blast
  with Cons.IH one show ?case by simp
qed simp

text \<open>The tab after the effects that run before the redeeming one.\<close>

lemma early_effects:
  "ap_tab (console_hop pf r s) = ap_tab s" "ap_tab (strip_params s) = ap_tab s" "ap_tab (mirror_seat pf r s) = ap_tab s"
  by (simp_all add: console_hop_def strip_params_def mirror_seat_def saveSession_def clearSession_def split: option.split)

definition boot_live :: "platform \<Rightarrow> rat \<Rightarrow> string option \<Rightarrow> tab \<Rightarrow> string \<Rightarrow> bool" where
  "boot_live pf now stored t search =
    (let bootSession = resolveBootSession (pf_parse pf) (pf_bytes pf) stored now in
     (isLiveHandoffSession (pf_bytes pf) bootSession now \<or> (case bootSession of Some s \<Rightarrow> ss_handoff s | None \<Rightarrow> False) \<and>
        readHandoffCode search \<noteq> None \<and> holdsPendingVerify (pf_parse pf) t) \<and> peekPendingInvite (pf_parse pf) now t = None)"

lemma boot_fields:
  fixes pf now stored t path search fragment
  defines "b \<equiv> boot pf now stored t path search fragment"
  shows "ap_handoffCode b = (if boot_live pf now stored t search \<or> pf_gateway pf = None then None else readHandoffCode search)"
    "ap_handoffPending b = (ap_handoffCode b \<noteq> None)" "ap_redeemStarted b = False" "ap_exchanges b = []"
    "ap_authStart b = (ap_handoffCode b = None \<and> search_get search ''auth'' = Some ''start'')"
    "ap_authVerify b = (readHandoffCode search = None \<and>
       (search_get search ''auth'' = Some ''verify'' \<or> search_get search ''auth'' = Some ''verify-invite''))"
    "\<not> boot_live pf now stored t search \<Longrightarrow> ap_notice b = None" "ap_handoffCode b \<noteq> None \<Longrightarrow> ap_seat b = None"
    "ap_tab b = (case readCancelLinkFragment fragment of
       Some tok \<Rightarrow> holdCancelLink (pf_stringify pf) (Some tok) now t | None \<Rightarrow> t)"
    "ap_record b = stored" "ap_went b = []" "ap_offer b = None"
    "ap_overridesLive b = (\<not> boot_live pf now stored t search \<and>
       isLiveHandoffSession (pf_bytes pf) (resolveBootSession (pf_parse pf) (pf_bytes pf) stored now) now)"
    "ap_keepStored b = False" "ap_frontDoorBounced b = False" "ap_path b = path" "ap_search b = search"
  unfolding b_def boot_def boot_live_def [symmetric] Let_def by (simp_all add: boot_live_def Let_def) argo

lemma taken_code:
  assumes "ap_handoffCode (boot pf now stored t path search fragment) = Some code"
  defines "b \<equiv> boot pf now stored t path search fragment"
  shows "readHandoffCode search = Some code" "pf_gateway pf \<noteq> None" "\<not> boot_live pf now stored t search"
    "\<not> ap_authStart b" "\<not> ap_authVerify b" "ap_notice b = None" "ap_seat b = None" "ap_handoffPending b"
    "if isLiveHandoffSession (pf_bytes pf) (resolveBootSession (pf_parse pf) (pf_bytes pf) stored now) now
     then peekPendingInvite (pf_parse pf) now t \<noteq> None else True"
proof -
  have live: "\<not> boot_live pf now stored t search" "pf_gateway pf \<noteq> None" "readHandoffCode search = Some code"
    using assms(1) by (simp_all add: boot_fields(1) split: if_split_asm)
  then show "readHandoffCode search = Some code" "pf_gateway pf \<noteq> None" "\<not> boot_live pf now stored t search"
    "\<not> ap_authStart b" "\<not> ap_authVerify b" "ap_notice b = None" "ap_seat b = None" "ap_handoffPending b"
    by (auto simp: b_def boot_fields)
  show "if isLiveHandoffSession (pf_bytes pf) (resolveBootSession (pf_parse pf) (pf_bytes pf) stored now) now
     then peekPendingInvite (pf_parse pf) now t \<noteq> None else True"
    using live(1) unfolding boot_live_def Let_def by (cases "peekPendingInvite (pf_parse pf) now t") simp_all
qed


text \<open>What the redeeming effect does on the page of a code.\<close>

lemma consumed_tab:
  "tb_items (snd (consumeSignInState parse now any t)) k = (if tb_blocked t \<or> k \<noteq> SIGN_IN_STATE_KEY then tb_items t k else None)"
  "tb_items (snd (consumePendingInvite parse now t)) k = (if tb_blocked t \<or> k \<noteq> PENDING_INVITE_KEY then tb_items t k else None)"
  "tb_items (snd (consumePendingVerify parse now t)) k = (if tb_blocked t \<or> k \<noteq> PENDING_VERIFY_KEY then tb_items t k else None)"
  "tb_blocked (snd (consumeSignInState parse now any t)) = tb_blocked t"
  "tb_blocked (snd (consumePendingInvite parse now t)) = tb_blocked t"
  "tb_blocked (snd (consumePendingVerify parse now t)) = tb_blocked t"
  by (simp_all add: consumeSignInState_def consumePendingInvite_def consumePendingVerify_def take_item_cases)

lemma held_link_tab:
  "tb_items (holdCancelLink stringify tok now t) k = (if k = CANCEL_LINK_KEY then tb_items (holdCancelLink stringify tok now t) k else tb_items t k)"
  "tb_blocked (holdCancelLink stringify tok now t) = tb_blocked t"
  by (simp_all add: holdCancelLink_def try_set_def try_remove_def setItem_def removeItem_def split: option.split)

lemma mount_redeems:
  fixes pf now stored t path search fragment tn
  defines "b \<equiv> boot pf now stored t path search fragment"
  assumes code: "ap_handoffCode b = Some code"
  defines "t1 \<equiv> snd (consumePendingVerify (pf_parse pf) (tn_now tn) (ap_tab b))"
  defines "sc \<equiv> consumeSignInState (pf_parse pf) (tn_now tn) (holdsPendingVerify (pf_parse pf) (ap_tab b)) t1"
  defines "ic \<equiv> consumePendingInvite (pf_parse pf) (tn_now tn) (snd sc)"
  shows "\<exists>a. mount pf tn b = a\<lparr>ap_redeemStarted := True, ap_tab := snd ic,
       ap_redemption := Some \<lparr>rd_code = code, rd_state = fst sc, rd_invite = fst ic\<rparr>,
       ap_exchanges := (case fst sc of Some st \<Rightarrow> [(code, st)] | None \<Rightarrow> [])\<rparr> \<and>
     a = strip_params (mirror_seat pf b b)"
proof -
  note taken = taken_code [OF code [unfolded b_def], folded b_def]
  define a where "a = strip_params (mirror_seat pf b b)"
  have hop: "console_hop pf b a = a" using taken(7) by (simp add: console_hop_def)
  have a: "ap_tab a = ap_tab b" "exchange_state a = exchange_state b" by (simp_all add: a_def early_effects effects_keep_exchange)
  then have ex: "ap_redeemStarted a = False" "ap_exchanges a = []"
    using boot_fields(3,4) [of pf now stored t path search fragment, folded b_def] by (simp_all add: exchange_state_def)
  define s where "s = a\<lparr>ap_redeemStarted := True, ap_tab := snd ic,
       ap_redemption := Some \<lparr>rd_code = code, rd_state = fst sc, rd_invite = fst ic\<rparr>,
       ap_exchanges := (case fst sc of Some st \<Rightarrow> [(code, st)] | None \<Rightarrow> [])\<rparr>"
  obtain gateway where "pf_gateway pf = Some gateway" using taken(2) by blast
  then have redeem: "redeem_code pf tn b a = s"
    using code ex a(1) by (simp add: redeem_code_def s_def t1_def sc_def ic_def Let_def case_prod_beta)
  have flags: "ap_authStart s = ap_authStart b" "ap_authVerify s = ap_authVerify b" "ap_handoffPending s = ap_handoffPending b"
    "ap_notice s = ap_notice b" "ap_seat s = ap_seat b" "ap_handoffCode s = ap_handoffCode b" "ap_redeemStarted s"
    by (simp_all add: s_def a_def strip_params_def mirror_seat_def saveSession_def clearSession_def split: option.split)
  have quiet: "start_bounce pf tn r s = s" "verify_bounce pf tn r s = s" "front_door pf tn r s = s" "console_hop pf r s = s"
    if "ap_authStart r = ap_authStart b" "ap_authVerify r = ap_authVerify b" "ap_handoffPending r = ap_handoffPending b"
      "ap_seat r = ap_seat b" for r
    using that taken by (simp_all add: start_bounce_def verify_bounce_def front_door_def console_hop_def)
  have again: "redeem_code pf tn s s = s" using flags(7) by (simp add: redeem_code_def split: option.split)
  have "mount pf tn b = s"
    using quiet [of b] quiet [of s] flags taken(6) again
    by (simp add: mount_def pass_def Let_def a_def [symmetric] hop redeem notice_effect_def)
  then show ?thesis by (auto simp: s_def a_def)
qed

lemma mount_without_code:
  assumes "ap_handoffCode b = None" "ap_exchanges b = []"
  shows "ap_exchanges (mount pf tn b) = []" "redeemed_already (mount pf tn b)"
proof -
  have none: "redeem_code pf tn r s = s" if "ap_handoffCode r = None" for r s using that by (simp add: redeem_code_def)
  define s where "s = front_door pf tn b (notice_effect pf tn (verify_bounce pf tn b (start_bounce pf tn b
    (redeem_code pf tn b (console_hop pf b (strip_params (mirror_seat pf b b)))))))"
  have s: "exchange_state s = exchange_state b" by (simp add: s_def none [OF assms(1)] effects_keep_exchange)
  have "redeemed_already s" using exchange_code [OF s] assms(1) by (simp add: redeemed_already_def)
  then have "exchange_state (mount pf tn b) = exchange_state b"
    using pass_keeps [of s s pf tn] s by (simp add: mount_def Let_def s_def)
  then show "ap_exchanges (mount pf tn b) = []" "redeemed_already (mount pf tn b)"
    using assms exchange_code [of "mount pf tn b" b] by (simp_all add: redeemed_already_def)
qed


text \<open>C7: a page exchanges at most one hand-off code, in its first effects, whatever is clicked and answered later: the
  code of its address, with a sign-in state this tab held, minted less than ten minutes before unless a pending
  confirm is bound to it, and only with a gateway; a live session makes way for it only if an invite is held. The state,
  the marker and the invite are then gone from the tab's storage.\<close>

theorem one_exchange_per_page:
  fixes pf now stored t path search fragment tn tes
  defines "b \<equiv> boot pf now stored t path search fragment"
  shows "case ap_exchanges (foldl (app_step pf) (mount pf tn b) tes) of
      [] \<Rightarrow> True
    | [(code, st)] \<Rightarrow> readHandoffCode search = Some code \<and> pf_gateway pf \<noteq> None \<and>
        (\<exists>since. storedState (pf_parse pf) (tb_items t SIGN_IN_STATE_KEY) = Some (st, since) \<and> since \<le> tn_now tn \<and>
           (tn_now tn - since < SIGN_IN_STATE_TTL_MS \<or> holdsPendingVerify (pf_parse pf) t)) \<and>
        (if isLiveHandoffSession (pf_bytes pf) (resolveBootSession (pf_parse pf) (pf_bytes pf) stored now) now
         then peekPendingInvite (pf_parse pf) now t \<noteq> None else True) \<and>
        map (tb_items (ap_tab (mount pf tn b))) [SIGN_IN_STATE_KEY, PENDING_VERIFY_KEY, PENDING_INVITE_KEY] = [None, None, None]
    | _ \<Rightarrow> False"
proof (cases "ap_handoffCode b")
  case None
  note quiet = mount_without_code [OF None boot_fields(4) [of pf now stored t path search fragment, folded b_def]]
  have "exchange_state (foldl (app_step pf) (mount pf tn b) tes) = exchange_state (mount pf tn b)"
    by (rule steps_keep_exchange [OF quiet(2)])
  then have "ap_exchanges (foldl (app_step pf) (mount pf tn b) tes) = []" using exchange_code quiet(1) by metis
  then show ?thesis by simp
next
  case (Some code)
  note taken = taken_code [OF Some [unfolded b_def]]
  define t1 where "t1 = snd (consumePendingVerify (pf_parse pf) (tn_now tn) (ap_tab b))"
  define sc where "sc = consumeSignInState (pf_parse pf) (tn_now tn) (holdsPendingVerify (pf_parse pf) (ap_tab b)) t1"
  define ic where "ic = consumePendingInvite (pf_parse pf) (tn_now tn) (snd sc)"
  have "redeemed_already (mount pf tn b)" and ex: "ap_exchanges (mount pf tn b) = (case fst sc of Some st \<Rightarrow> [(code, st)] | None \<Rightarrow> [])"
    and tab: "ap_tab (mount pf tn b) = snd ic"
    using mount_redeems [OF Some [unfolded b_def], folded b_def, of tn]
    by (auto simp: redeemed_already_def t1_def [symmetric] sc_def [symmetric] ic_def [symmetric])
  then have run: "ap_exchanges (foldl (app_step pf) (mount pf tn b) tes) = (case fst sc of Some st \<Rightarrow> [(code, st)] | None \<Rightarrow> [])"
    using exchange_code [OF steps_keep_exchange [of "mount pf tn b" pf tes]] by simp
  show ?thesis
  proof (cases "fst sc")
    case (Some st)
    have keys: "tb_items (ap_tab b) k = tb_items t k" if "k \<noteq> CANCEL_LINK_KEY" for k
      using that held_link_tab(1) by (simp add: b_def boot_fields(9) split: option.split) metis
    have blocked: "tb_blocked (ap_tab b) = tb_blocked t" by (simp add: b_def boot_fields(9) held_link_tab(2) split: option.split)
    have holds: "holdsPendingVerify (pf_parse pf) (ap_tab b) = holdsPendingVerify (pf_parse pf) t"
      unfolding holds_marker keys [OF tab_keys_differ(3) [symmetric]] keys [OF tab_keys_differ(8) [symmetric]] blocked ..
    have t1: "tb_items t1 SIGN_IN_STATE_KEY = tb_items t SIGN_IN_STATE_KEY"
      using keys [of SIGN_IN_STATE_KEY] tab_keys_differ by (simp add: t1_def consumed_tab)
    obtain since where since: "storedState (pf_parse pf) (tb_items t SIGN_IN_STATE_KEY) = Some (st, since)" "since \<le> tn_now tn"
        "holdsPendingVerify (pf_parse pf) t \<or> tn_now tn - since < SIGN_IN_STATE_TTL_MS" "\<not> tb_blocked t"
    proof -
      have "tb_blocked t1 = tb_blocked t" by (simp add: t1_def consumed_tab blocked)
      moreover have "Some st = (if tb_blocked t1 then None else case storedState (pf_parse pf) (tb_items t SIGN_IN_STATE_KEY) of
          Some (s, since) \<Rightarrow> if since \<le> tn_now tn \<and> (holdsPendingVerify (pf_parse pf) t \<or> tn_now tn - since < SIGN_IN_STATE_TTL_MS)
            then Some s else None | None \<Rightarrow> None)"
        unfolding Some [symmetric] sc_def consumed_answer(1) slots_sel t1 holds ..
      ultimately show ?thesis using that by (auto split: if_split_asm option.splits)
    qed
    have gone: "map (tb_items (snd ic)) [SIGN_IN_STATE_KEY, PENDING_VERIFY_KEY, PENDING_INVITE_KEY] = [None, None, None]"
      using since(4) tab_keys_differ by (simp add: ic_def sc_def t1_def consumed_tab blocked)
    show ?thesis using run Some taken(1,2,9) since gone by (simp add: tab) blast
  qed (simp add: run)
qed


subsection \<open>A destination survives the bounce\<close>

lemma parsed_params_ok: "params_ok (located_params (parseLocation p s))"
proof -
  have q: "valid_utf8 (case search_get s ''q'' of None \<Rightarrow> [] | Some q \<Rightarrow> q)"
    using valid_search_get by (auto split: option.split)
  have "valid_utf8 (pl_q (parseLocation p s))"
    using valid_clamp [OF q] by (subst parseLocation_search) simp
  moreover have "case pl_auditInvoice (parseLocation p s) of None \<Rightarrow> True | Some a \<Rightarrow> valid_utf8 a"
    using valid_search_get by (subst parseLocation_search) (auto split: option.split)
  ultimately show ?thesis using parsed_batches [of p s] by (simp add: params_ok_def located_params_def)
qed

text \<open>The query captured from an address says all that its query said.\<close>

lemma captured_query_reads_back: "parseLocation p (captured_query p s) = parseLocation p s"
proof -
  define loc where "loc = parseLocation p s"
  define v where "v = pl_view (parseLocation p [])"
  have view: "pl_view loc = v" unfolding loc_def v_def by (subst parseLocation_search) simp
  have cap: "captured_query p s = search_of (routeUrl v (located_params loc))"
    by (simp add: captured_query_def loc_def [symmetric] routeQuery_def view Let_def)
  have q: "valid_utf8 (case search_get s ''q'' of None \<Rightarrow> [] | Some q \<Rightarrow> q)"
    using valid_search_get by (auto split: option.split)
  note url = routeUrl_query [OF parsed_params_ok [of p s, folded loc_def]]
  have plq: "pl_q loc = clampFilterText (case search_get s ''q'' of None \<Rightarrow> [] | Some q \<Rightarrow> q)" if "v = V_Invoices"
    unfolding loc_def using that by (subst parseLocation_search) (simp add: v_def)
  have pla: "pl_auditInvoice loc = (case search_get s ''invoice'' of Some a \<Rightarrow> if canonical_uuid a then Some a else None | None \<Rightarrow> None)"
    if "v = V_Audit" unfolding loc_def using that by (subst parseLocation_search) (simp add: v_def)
  have no: "\<not> canonical_uuid []" by (simp add: canonical_uuid_def)
  have sel: "rp_q (located_params loc) = pl_q loc" "rp_auditInvoice (located_params loc) = pl_auditInvoice loc"
    by (simp_all add: located_params_def)
  have "(if v = V_Invoices then clampFilterText (case search_get (captured_query p s) ''q'' of None \<Rightarrow> [] | Some q \<Rightarrow> q) else []) =
      (if v = V_Invoices then clampFilterText (case search_get s ''q'' of None \<Rightarrow> [] | Some q \<Rightarrow> q) else [])"
  proof (cases "v = V_Invoices")
    case True
    have "(case search_get (captured_query p s) ''q'' of None \<Rightarrow> [] | Some q \<Rightarrow> q) = pl_q loc"
      using url(2) [of V_Invoices] True by (simp only: cap sel) simp
    then show ?thesis using clampFilterText_again [OF q] plq [OF True] by (simp only:)
  qed simp
  moreover have "(if v = V_Audit then (case search_get (captured_query p s) ''invoice'' of
        Some a \<Rightarrow> if canonical_uuid a then Some a else None | None \<Rightarrow> None) else None) =
      (if v = V_Audit then (case search_get s ''invoice'' of
        Some a \<Rightarrow> if canonical_uuid a then Some a else None | None \<Rightarrow> None) else None)"
  proof (cases "v = V_Audit")
    case True
    have "search_get (captured_query p s) ''invoice'' =
        (case pl_auditInvoice loc of Some a \<Rightarrow> if a = [] then None else Some a | None \<Rightarrow> None)"
      using url(3) [of V_Audit] True by (simp only: cap sel) simp
    then show ?thesis using pla [OF True] no by (auto split: option.splits)
  qed simp
  ultimately show ?thesis
    by (subst (1 2) parseLocation_search) (simp only: v_def)
qed

text \<open>The address a workspace boots into (its first state in \<open>Workspace\<close>): the one on show, or at the bare root
  the stored destination.\<close>

definition boot_location :: "(string \<Rightarrow> json option) \<Rightarrow> rat \<Rightarrow> tab \<Rightarrow> string \<Rightarrow> string \<Rightarrow> string \<times> string" where
  "boot_location parse now t pathname search =
    (if pathname \<noteq> ''/'' then (pathname, search)
     else case readDestination parse now t of Some restored \<Rightarrow> restored | None \<Rightarrow> (''/'', search))"

fun spares_destination :: "tab_call \<Rightarrow> bool" where
  "spares_destination (Capture _ _ _) = False"
| "spares_destination Clear_Destination = False"
| "spares_destination (Storage_Turns _ _) = False"
| "spares_destination _ = True"

lemma slot_step_destination: "spares_destination e \<Longrightarrow>
    sl_destination (snd (slot_step h e)) = sl_destination h \<and> sl_blocked (snd (slot_step h e)) = sl_blocked h"
  by (cases e) (auto simp: slot_mint_def split: option.split)

lemma slot_trace_destination: "list_all spares_destination es \<Longrightarrow>
    sl_destination (snd (trace slot_step h es)) = sl_destination h \<and> sl_blocked (snd (trace slot_step h es)) = sl_blocked h"
proof (induction es arbitrary: h)
  case (Cons e es)
  then show ?case using slot_step_destination [of e h] trace_Cons_snd [of slot_step h e es] by simp
qed simp

text \<open>C11: the place asked for survives the way through the landing page. A page without a session that leaves by the
  front door, and a workspace that boots at the bare root of the same tab within ten minutes, whatever else the tab
  stored or consumed in between: the workspace opens what the first address asked for. JSON is assumed to read back the
  flat records the tab stores, and nothing else.\<close>

theorem deep_link_survives:
  assumes codec: "\<And>j. tab_record j \<Longrightarrow> pf_parse pf (pf_stringify pf j) = Some j"
    and leaves: "ap_seat s = None" "\<not> ap_authStart s" "\<not> ap_authVerify s" "\<not> ap_handoffPending s" "ap_offer s = None"
      "\<not> ap_frontDoorBounced s" "pf_landing pf = Some landing" "length (tn_random tn) = 32" "clock_ok (tn_now tn)"
    and stored: "isCapturablePath (ap_path s)" "\<not> tb_blocked (ap_tab s)" "\<not> tb_full (ap_tab s)"
    and between: "list_all event_ok es" "list_all spares_destination es"
    and soon: "tn_now tn \<le> now" "now \<le> tn_now tn + DEEP_LINK_TTL_MS"
  defines "s' \<equiv> front_door pf tn s s"
  defines "t' \<equiv> snd (trace (tab_step (pf_parse pf) (pf_stringify pf)) (ap_tab s') es)"
  shows "length (ap_went s') = length (ap_went s) + 1 \<and>
    (case boot_location (pf_parse pf) now t' ''/'' search of (path, query) \<Rightarrow>
       parseLocation path query = parseLocation (ap_path s) (ap_search s))"
proof -
  have slots_of: "trace slot_step (slots (pf_parse pf) t) ds =
      map_prod id (slots (pf_parse pf)) (trace (tab_step (pf_parse pf) (pf_stringify pf)) t ds)" if "list_all event_ok ds" for t ds
    using codec that by (rule tab_trace_slots)
  note captured = slots_set_blob(5) [of "pf_parse pf" "pf_stringify pf", OF codec leaves(9) stored(1)]
  define t1 where "t1 = snd (ensureSignInState (pf_parse pf) (pf_stringify pf) (tn_now tn) (tn_random tn) (ap_tab s))"
  define t2 where "t2 = snd (consumePendingVerify (pf_parse pf) (tn_now tn) t1)"
  define t3 where "t3 = captureDestination (pf_stringify pf) (ap_path s) (captured_query (ap_path s) (ap_search s)) (tn_now tn) t2"
  have front: "ap_tab s' = t3 \<and> length (ap_went s') = length (ap_went s) + 1"
    using leaves by (simp add: s'_def front_door_def t1_def t2_def t3_def go_to_def landingSignInUrl_def landingRegisterUrl_def
        Let_def case_prod_beta)
  have "\<not> tb_blocked t1 \<and> \<not> tb_full t1"
    using stored by (simp add: t1_def ensureSignInState_def mintSignInState_def getItem_def try_set_def setItem_def Let_def
        split: option.split)
  then have t2: "\<not> tb_blocked t2 \<and> \<not> tb_full t2" by (simp add: t2_def consumePendingVerify_def take_item_cases)
  have t3: "sl_destination (slots (pf_parse pf) t3) = Some (ap_path s, captured_query (ap_path s) (ap_search s), tn_now tn)"
    "\<not> tb_blocked t3"
  proof -
    have "slots (pf_parse pf) t3 = (slots (pf_parse pf) t2)\<lparr>sl_destination :=
        Some (ap_path s, captured_query (ap_path s) (ap_search s), tn_now tn)\<rparr>"
      unfolding t3_def captureDestination_def captured
      using t2 stored(1) captured by (simp del: slots_sel)
    then show "sl_destination (slots (pf_parse pf) t3) = Some (ap_path s, captured_query (ap_path s) (ap_search s), tn_now tn)"
      by (simp del: slots_sel)
    show "\<not> tb_blocked t3" using t2 by (simp add: t3_def captureDestination_def try_set_def setItem_def)
  qed
  have "sl_destination (slots (pf_parse pf) t') = sl_destination (slots (pf_parse pf) t3)" "sl_blocked (slots (pf_parse pf) t') = False"
    using slots_of [OF between(1), of t3] slot_trace_destination [OF between(2), of "slots (pf_parse pf) t3"] t3(2) front
    by (simp_all add: t'_def del: slots_sel(5))
  then have "readDestination (pf_parse pf) now t' = Some (ap_path s, captured_query (ap_path s) (ap_search s))"
    using t3 soon by (simp add: readDestination_def getItem_def)
  then show ?thesis using front captured_query_reads_back by (simp add: boot_location_def)
qed


definition demo_platform :: platform where
  "demo_platform = \<lparr>pf_parse = denoted, pf_stringify = numbered, pf_bytes = (\<lambda>_. None), pf_gateway = None,
     pf_landing = Some ''https://landing.test'', pf_support = None\<rparr>"

definition demo_turn :: turn where "demo_turn = \<lparr>tn_now = 1000, tn_random = sample_bytes\<rparr>"

definition demo_page :: app where
  "demo_page = boot demo_platform 1000 None blank_tab ''/customers'' [] []"

lemma demo_page_facts:
  "ap_seat demo_page = None" "\<not> ap_authStart demo_page" "\<not> ap_authVerify demo_page" "\<not> ap_handoffPending demo_page"
  "ap_offer demo_page = None" "\<not> ap_frontDoorBounced demo_page" "ap_path demo_page = ''/customers''" "ap_search demo_page = []"
  "ap_went demo_page = []" "ap_tab demo_page = blank_tab"
proof -
  have "fragment_token BASE64URL_43 ''cancel-deletion'' [] = None" by code_simp
  moreover have "search_pairs [] = []" by code_simp
  ultimately show "ap_seat demo_page = None" "\<not> ap_authStart demo_page" "\<not> ap_authVerify demo_page" "\<not> ap_handoffPending demo_page"
    "ap_offer demo_page = None" "\<not> ap_frontDoorBounced demo_page" "ap_path demo_page = ''/customers''" "ap_search demo_page = []"
    "ap_went demo_page = []" "ap_tab demo_page = blank_tab"
    unfolding demo_page_def boot_def Let_def
    by (simp_all add: demo_platform_def resolveBootSession_def parseStoredSession_def search_get_def readCancelLinkFragment_def)
qed

lemma demo_parts: "pf_parse demo_platform = denoted" "pf_stringify demo_platform = numbered"
    "pf_landing demo_platform = Some ''https://landing.test''" "tn_now demo_turn = 1000" "length (tn_random demo_turn) = 32"
    "\<not> tb_blocked blank_tab" "\<not> tb_full blank_tab"
  by (simp_all add: demo_platform_def demo_turn_def sample_bytes_def blank_tab_def)

theorem deep_link_witness:
  "length (ap_went (front_door demo_platform demo_turn demo_page demo_page)) = 1 \<and>
   (case boot_location denoted 5000 (snd (trace (tab_step denoted numbered)
       (ap_tab (front_door demo_platform demo_turn demo_page demo_page)) [Consume 4000 False, Read_Destination 4500])) ''/'' [] of
      (path, query) \<Rightarrow> parseLocation path query = parseLocation ''/customers'' [])"
proof -
  define es where "es = [Consume 4000 False, Read_Destination 4500]"
  have "list_all event_ok es" "list_all spares_destination es" "clock_ok (tn_now demo_turn)"
    "tn_now demo_turn \<le> 5000" "5000 \<le> tn_now demo_turn + DEEP_LINK_TTL_MS"
    by (simp_all add: es_def demo_parts DEEP_LINK_TTL_MS_def clock_ok_def)
  moreover have "\<And>j. tab_record j \<Longrightarrow> pf_parse demo_platform (pf_stringify demo_platform j) = Some j" by (simp add: demo_parts denoted_numbered)
  moreover have "isCapturablePath (ap_path demo_page)" unfolding demo_page_facts by code_simp
  ultimately have "length (ap_went (front_door demo_platform demo_turn demo_page demo_page)) = length (ap_went demo_page) + 1 \<and>
     (case boot_location (pf_parse demo_platform) 5000 (snd (trace (tab_step (pf_parse demo_platform) (pf_stringify demo_platform))
         (ap_tab (front_door demo_platform demo_turn demo_page demo_page)) es)) ''/'' [] of
        (path, query) \<Rightarrow> parseLocation path query = parseLocation (ap_path demo_page) (ap_search demo_page))"
    by (intro deep_link_survives) (simp_all add: demo_page_facts demo_parts)
  then show ?thesis unfolding es_def demo_page_facts demo_parts by simp
qed



subsection \<open>A redemption that fails\<close>

lemma quiet_pass:
  assumes "ap_seat s = None" "\<not> ap_authStart s" "\<not> ap_authVerify s" "ap_handoffPending s" "ap_redeemStarted s"
  shows "pass pf tn s s = s"
  using assms by (simp add: pass_def console_hop_def redeem_code_def start_bounce_def verify_bounce_def front_door_def
      split: option.split)

lemma ensure_mints:
  "\<not> tb_blocked t \<Longrightarrow> tb_items t SIGN_IN_STATE_KEY = None \<Longrightarrow> fst (ensureSignInState parse stringify now random t) = mintState random"
  "tb_blocked t \<Longrightarrow> fst (ensureSignInState parse stringify now random t) = mintState random"
  by (simp_all add: ensureSignInState_def mintSignInState_def getItem_def storedState_def liveState_def Let_def)

lemma redemption_fails:
  assumes "ap_redemption s = Some rd"
    and "e = (if rd_state rd = None then Failed_With (Other_Failure ''no sign-in state in this tab'') else err)"
    and "fst (failure_exit pf tn (if rd_invite rd = None \<and> is_forbidden e then Outcome_No_Workspace else Outcome_Failed) e
      (s\<lparr>ap_redemption := None\<rparr>)) = Some url"
  shows "redemption_settles pf tn (Inl err) tokens s = go_to (Some url)
    (snd (failure_exit pf tn (if rd_invite rd = None \<and> is_forbidden e then Outcome_No_Workspace else Outcome_Failed) e
      (s\<lparr>ap_redemption := None\<rparr>)))"
proof -
  have "(if rd_state rd = None then Inl (Failed_With (Other_Failure ''no sign-in state in this tab'')) else Inl err) = (Inl e :: sign_failure + redeemed)"
    using assms(2) by simp
  then show ?thesis unfolding redemption_settles_def Let_def exit_cases assms(1) by (simp only: option.case sum.case assms(3))
qed

text \<open>C14: a redemption the gateway refuses never signs the page in and never strands it: the page leaves once. An invite's
  refusal goes to the notice of its reason; any other failure goes to the landing page with a freshly minted state,
  which says there is no workspace only for a refusal (403) of a sign-in without an invite; a code that came to a tab without a
  sign-in state fails whatever was answered. The stored session goes, unless the code came over a live session, which stays.\<close>

theorem failed_redemption:
  fixes pf now stored t path search fragment tn tn' err tokens
  defines "b \<equiv> boot pf now stored t path search fragment"
  defines "s \<equiv> app_step pf (mount pf tn b) (tn', Redemption_Settles (Inl err) tokens)"
  shows "case (ap_handoffCode b, pf_landing pf) of
      (Some code, Some landing) \<Rightarrow>
        (case ap_redemption (mount pf tn b) of
           None \<Rightarrow> False
         | Some rd \<Rightarrow>
             map Some (ap_went s) = [case (if rd_state rd = None then None else Some err) of
                 Some (Invite_Refused refused) \<Rightarrow> landingInviteUrl (Some landing) refused
               | Some e \<Rightarrow> landingSignInUrl (Some landing) (mintState (tn_random tn'))
                   (Some (if rd_invite rd = None \<and> is_forbidden e then Outcome_No_Workspace else Outcome_Failed))
               | None \<Rightarrow> landingSignInUrl (Some landing) (mintState (tn_random tn')) (Some Outcome_Failed)] \<and>
             ap_seat s = None \<and> ap_redemption s = None \<and> ap_record s = (if ap_overridesLive b then stored else None))
    | _ \<Rightarrow> True"
proof (cases "ap_handoffCode b"; cases "pf_landing pf")
  fix code landing
  assume code: "ap_handoffCode b = Some code" and landing: "pf_landing pf = Some landing"
  note taken = taken_code [OF code [unfolded b_def], folded b_def]
  define t1 where "t1 = snd (consumePendingVerify (pf_parse pf) (tn_now tn) (ap_tab b))"
  define sc where "sc = consumeSignInState (pf_parse pf) (tn_now tn) (holdsPendingVerify (pf_parse pf) (ap_tab b)) t1"
  define ic where "ic = consumePendingInvite (pf_parse pf) (tn_now tn) (snd sc)"
  define a where "a = strip_params (mirror_seat pf b b)"
  define m where "m = mount pf tn b"
  have m: "m = a\<lparr>ap_redeemStarted := True, ap_tab := snd ic,
       ap_redemption := Some \<lparr>rd_code = code, rd_state = fst sc, rd_invite = fst ic\<rparr>,
       ap_exchanges := (case fst sc of Some st \<Rightarrow> [(code, st)] | None \<Rightarrow> [])\<rparr>"
    using mount_redeems [OF code [unfolded b_def], folded b_def, of tn]
    by (simp add: m_def a_def t1_def [symmetric] sc_def [symmetric] ic_def [symmetric])
  have a: "ap_went a = []" "ap_seat a = None" "ap_record a = (if ap_overridesLive b then stored else None)"
    "\<not> ap_authStart a" "\<not> ap_authVerify a" "ap_handoffPending a"
    using taken boot_fields(10,11,14) [of pf now stored t path search fragment, folded b_def]
    by (simp_all add: a_def strip_params_def mirror_seat_def clearSession_def)
  have tab: "tb_blocked (snd ic) \<or> tb_items (snd ic) SIGN_IN_STATE_KEY = None"
    by (simp add: ic_def sc_def consumed_tab)
  then have minted: "fst (ensureSignInState (pf_parse pf) (pf_stringify pf) (tn_now tn') (tn_random tn') (snd ic)) = mintState (tn_random tn')"
    using ensure_mints by metis
  define s1 where "s1 = redemption_settles pf tn' (Inl err) tokens m"
  define e where "e = (if fst sc = None then Failed_With (Other_Failure ''no sign-in state in this tab'') else err)"
  have exit: "fst (failure_exit pf tn' x e' (m\<lparr>ap_redemption := None\<rparr>)) = (case e' of
      Invite_Refused refused \<Rightarrow> landingInviteUrl (Some landing) refused
    | _ \<Rightarrow> landingSignInUrl (Some landing) (mintState (tn_random tn')) (Some x))" for x e'
    unfolding failure_exit_def Let_def case_prod_beta by (simp add: landing m minted split: sign_failure.split)
  obtain url where url: "fst (failure_exit pf tn' (if fst ic = None \<and> is_forbidden e then Outcome_No_Workspace else Outcome_Failed) e
      (m\<lparr>ap_redemption := None\<rparr>)) = Some url"
    unfolding exit by (cases e) (simp_all add: landingInviteUrl_def landingSignInUrl_def)
  define x where "x = snd (failure_exit pf tn' (if fst ic = None \<and> is_forbidden e then Outcome_No_Workspace else Outcome_Failed) e
      (m\<lparr>ap_redemption := None\<rparr>))"
  have s1: "s1 = go_to (Some url) x"
  proof -
    define rd where "rd = \<lparr>rd_code = code, rd_state = fst sc, rd_invite = fst ic\<rparr>"
    have parts: "ap_redemption m = Some rd" "rd_state rd = fst sc" "rd_invite rd = fst ic" by (simp_all add: m rd_def)
    show ?thesis unfolding s1_def x_def
      by (rule redemption_fails [OF parts(1), of e err, unfolded parts(2,3), OF e_def url])
  qed
  obtain t' where x: "x = m\<lparr>ap_redemption := None, ap_tab := t'\<rparr>"
    using failure_exit_app unfolding x_def by blast
  have "pass pf tn' s1 s1 = s1" using a by (intro quiet_pass) (simp_all add: s1 x m go_to_def)
  moreover have "ap_seat s1 = ap_seat m" by (simp add: s1 x go_to_def)
  ultimately have s: "s = s1" by (simp add: s_def app_step_def m_def [symmetric] s1_def [symmetric])
  have went: "map Some (ap_went s) = [fst (failure_exit pf tn' (if fst ic = None \<and> is_forbidden e then Outcome_No_Workspace else Outcome_Failed) e
      (m\<lparr>ap_redemption := None\<rparr>))]"
    unfolding url s s1 by (simp add: go_to_def x m a)
  show ?thesis
    unfolding m_def [symmetric] code landing went exit
    by (simp add: m s s1 x go_to_def a e_def is_forbidden_def split: sign_failure.split)
qed (simp_all split: option.split)



subsection \<open>What the page shows\<close>

datatype screen = Blank_Screen | Loading_Screen | Join_Screen | Picker_Screen | Locked_Screen | Workspace_Screen

definition shown_screen :: "platform \<Rightarrow> bool \<Rightarrow> app \<Rightarrow> screen" where
  "shown_screen pf locked s =
    (if ap_authStart s \<and> pf_landing pf \<noteq> None then Blank_Screen
     else if ap_authVerify s \<and> (pf_gateway pf \<noteq> None \<or> pf_landing pf \<noteq> None) then Blank_Screen
     else if ap_bootRenewing s \<and> ap_seat s \<noteq> None then Loading_Screen
     else if ap_consoleStart s \<noteq> None \<and> ap_seat s \<noteq> None then Loading_Screen
     else if ap_seat s = None then
       (if ap_offer s \<noteq> None then Join_Screen
        else if ap_handoffPending s then Loading_Screen
        else if pf_landing pf \<noteq> None then Blank_Screen
        else Picker_Screen)
     else if locked then Locked_Screen
     else Workspace_Screen)"

text \<open>The picker is a second front door that no build with a landing page ever offers.\<close>

lemma picker_without_landing: "shown_screen pf locked s = Picker_Screen \<Longrightarrow> pf_landing pf = None \<and> ap_seat s = None"
  by (auto simp: shown_screen_def split: if_split_asm)

lemma workspace_has_seat: "shown_screen pf locked s = Workspace_Screen \<Longrightarrow> ap_seat s \<noteq> None \<and> \<not> locked"
  by (auto simp: shown_screen_def split: if_split_asm)

end
