(* ===== verification/Workspace_Nav.thy ===== *)
theory Workspace_Nav
  imports Route Import_Flow
begin

text \<open>
  Navigation of the signed-in workspace (\<open>Workspace\<close> in \<open>App.tsx\<close>): the company in the header, the view and what it
  shows, and the browser's history, which every click writes and which Back and Forward read back. A handler runs
  on the state of the last render; after it the layout effect and the effect that mirrors a review into the address run.
  An answer that lands later calls the navigation functions of the render that asked, so those take the values that render had.
  The history holds the entries of this document; leaving the document is not modelled.
\<close>

subsection \<open>Companies and views\<close>

text \<open>\<open>resolveActiveClient\<close> on the ids of the companies; \<open>emptyClient\<close> has none.\<close>

definition resolveActiveClient :: "string list \<Rightarrow> string option \<Rightarrow> string option" where
  "resolveActiveClient clients pick =
    (case pick of
       Some p \<Rightarrow> if p \<in> set clients then Some p else (case clients of [] \<Rightarrow> None | c # _ \<Rightarrow> Some c)
     | None \<Rightarrow> (case clients of [] \<Rightarrow> None | c # _ \<Rightarrow> Some c))"

definition carryView :: "view \<Rightarrow> view" where
  "carryView v = (if v = V_Create \<or> v = V_Detail \<or> v = V_Extraction then V_Invoices else v)"

definition availableSettingsTab :: "settings_tab \<Rightarrow> mode \<Rightarrow> settings_tab" where
  "availableSettingsTab tab m = (if tab = T_Company \<and> m \<noteq> Inhouse_Mode then T_Members else tab)"

definition availableView :: "view \<Rightarrow> mode \<Rightarrow> view" where
  "availableView v m = (if v = V_Clients \<and> m = Inhouse_Mode then V_Dashboard else v)"

subsection \<open>State\<close>

text \<open>The state object of a history entry: the company that minted it, the mount, and the mark of the backfill. An entry that
  this app did not write may have none.\<close>

record stamp =
  st_e :: "string option"
  st_m :: "string option"
  st_p :: bool

record history_entry =
  en_url :: string
  en_stamp :: "stamp option"

record nav =
  nv_mode :: mode
  nv_mount :: string
  nv_clients :: "string list"
  nv_pick :: "string option"
  nv_hereRef :: "string option"
  nv_bootRef :: "string option"
  nv_view :: view
  nv_settingsTab :: settings_tab
  nv_q :: string
  nv_audit :: "(string \<times> string option) option"
  nv_policy :: "string option"
  nv_detail :: "string option"
  nv_line :: "(nat \<times> string option) option"
  nv_job :: "string option"
  nv_jobInvoices :: "(string \<times> string) list"
  nv_batches :: "string list"
  nv_step :: create_step
  nv_switcher :: bool
  nv_entries :: "history_entry list"
  nv_at :: nat
  nv_mirrored :: "view \<times> create_step \<times> string"

definition active_id :: "'a nav_scheme \<Rightarrow> string option" where
  "active_id s = resolveActiveClient (nv_clients s) (nv_pick s)"

definition current_entry :: "'a nav_scheme \<Rightarrow> history_entry" where
  "current_entry s = nv_entries s ! nv_at s"

definition current_url :: "'a nav_scheme \<Rightarrow> string" where
  "current_url s = en_url (current_entry s)"

definition pushState :: "stamp \<Rightarrow> string \<Rightarrow> 'a nav_scheme \<Rightarrow> 'a nav_scheme" where
  "pushState st url s = s\<lparr>nv_entries := take (Suc (nv_at s)) (nv_entries s) @ [\<lparr>en_url = url, en_stamp = Some st\<rparr>],
     nv_at := Suc (nv_at s)\<rparr>"

definition replaceState :: "stamp \<Rightarrow> string \<Rightarrow> 'a nav_scheme \<Rightarrow> 'a nav_scheme" where
  "replaceState st url s = s\<lparr>nv_entries := (nv_entries s)[nv_at s := \<lparr>en_url = url, en_stamp = Some st\<rparr>]\<rparr>"

definition isWindowEntry :: "string \<Rightarrow> stamp option \<Rightarrow> bool" where
  "isWindowEntry mount st = (case st of None \<Rightarrow> False | Some st \<Rightarrow> st_m st = Some mount \<and> (st_e st = None \<or> st_p st))"

definition replaceStamp :: "'a nav_scheme \<Rightarrow> stamp" where
  "replaceStamp s = \<lparr>st_e = active_id s, st_m = Some (nv_mount s),
     st_p = (active_id s \<noteq> None \<and> isWindowEntry (nv_mount s) (en_stamp (current_entry s)) \<and> nv_bootRef s = active_id s)\<rparr>"

subsection \<open>Boot and effects\<close>

definition batch_key :: "string list \<Rightarrow> string" where "batch_key ids = join '','' ids"

definition url_params :: "string option \<Rightarrow> settings_tab \<Rightarrow> string \<Rightarrow> string option \<Rightarrow> string list \<Rightarrow> route_params" where
  "url_params i tab q a ids =
     \<lparr>rp_id = i, rp_settingsTab = Some tab, rp_q = q, rp_auditInvoice = a, rp_reviewBatchIds = ids\<rparr>"

definition mirror_review :: "'a nav_scheme \<Rightarrow> 'a nav_scheme" where
  "mirror_review s =
    (let deps = (nv_view s, nv_step s, batch_key (nv_batches s)) in
     if deps = nv_mirrored s then s
     else
       (let s = s\<lparr>nv_mirrored := deps\<rparr> in
        if nv_view s \<noteq> V_Create then s
        else replaceState (replaceStamp s)
          (routeUrl V_Create \<lparr>rp_id = None, rp_settingsTab = None, rp_q = [], rp_auditInvoice = None,
             rp_reviewBatchIds = reviewNavIds (nv_view s) (nv_step s) (nv_batches s)\<rparr>) s))"

definition stamp_window :: "'a nav_scheme \<Rightarrow> 'a nav_scheme" where
  "stamp_window s =
    (let active = active_id s in
     if active = nv_hereRef s then s
     else
       (let s = s\<lparr>nv_hereRef := active\<rparr> in
        if active = None then s
        else
          (let s = s\<lparr>nv_bootRef := (if nv_bootRef s = None then active else nv_bootRef s)\<rparr> in
           if Option.bind (en_stamp (current_entry s)) st_e = None
           then replaceState \<lparr>st_e = active, st_m = Some (nv_mount s), st_p = True\<rparr> (current_url s) s
           else s)))"

definition commit :: "'a nav_scheme \<Rightarrow> 'a nav_scheme" where
  "commit s = mirror_review (stamp_window s)"

definition boot_align :: "string \<Rightarrow> parsed_location \<Rightarrow> view \<Rightarrow> settings_tab \<Rightarrow> string list \<Rightarrow> 'a nav_scheme \<Rightarrow> 'a nav_scheme" where
  "boot_align mount seed bootView tab batches s =
    (let ident = (if bootView = V_Detail then pl_invoiceId seed else if bootView = V_Extraction then pl_jobId seed
           else if bootView = V_Workflows then pl_policyId seed else None)
     in replaceState \<lparr>st_e = None, st_m = Some mount, st_p = False\<rparr>
          (routeUrl bootView (url_params ident tab (pl_q seed) (pl_auditInvoice seed) batches)) s)"

definition workspace_boot :: "mode \<Rightarrow> string \<Rightarrow> history_entry list \<Rightarrow> nat \<Rightarrow> string \<times> string \<Rightarrow> nav" where
  "workspace_boot m mount entries i loc =
    (let seed = parseLocation (fst loc) (snd loc);
         bootView = availableView (pl_view seed) m;
         batches = (if bootView = V_Create then pl_reviewBatchIds seed else []);
         tab = availableSettingsTab (pl_settingsTab seed) m;
         step = (if length batches > 0 then Step_Review else Step_Form);
         s = \<lparr>nv_mode = m, nv_mount = mount, nv_clients = [], nv_pick = None, nv_hereRef = None, nv_bootRef = None,
           nv_view = bootView, nv_settingsTab = tab, nv_q = pl_q seed,
           nv_audit = map_option (\<lambda>a. (a, None)) (pl_auditInvoice seed),
           nv_policy = (if bootView = V_Workflows then pl_policyId seed else None),
           nv_detail = (if bootView = V_Detail then pl_invoiceId seed else None), nv_line = None,
           nv_job = (if bootView = V_Extraction then pl_jobId seed else None), nv_jobInvoices = [],
           nv_batches = batches, nv_step = step, nv_switcher = False, nv_entries = entries, nv_at = i,
           nv_mirrored = (bootView, step, batch_key batches)\<rparr>;
         aligned = boot_align mount seed bootView tab batches s
     in if bootView \<noteq> V_Create then aligned
        else replaceState (replaceStamp aligned)
          (routeUrl V_Create \<lparr>rp_id = None, rp_settingsTab = None, rp_q = [], rp_auditInvoice = None,
             rp_reviewBatchIds = reviewNavIds bootView step batches\<rparr>) aligned)"

subsection \<open>Handlers\<close>

record nav_params =
  np_id :: "string option"
  np_settingsTab :: "settings_tab option"
  np_q :: "string option"
  np_auditInvoice :: "string option"

definition no_params :: nav_params where
  "no_params = \<lparr>np_id = None, np_settingsTab = None, np_q = None, np_auditInvoice = None\<rparr>"

text \<open>What a handler of a render closes over.\<close>

record closure =
  cl_active :: "string option"
  cl_settingsTab :: settings_tab
  cl_q :: string

definition closure_of :: "'a nav_scheme \<Rightarrow> closure" where
  "closure_of s = \<lparr>cl_active = active_id s, cl_settingsTab = nv_settingsTab s, cl_q = nv_q s\<rparr>"

definition keep_number :: "string option \<Rightarrow> (string \<times> string option) option \<Rightarrow> (string \<times> string option) option" where
  "keep_number next prev = (case next of
     None \<Rightarrow> None
   | Some i \<Rightarrow> Some (i, case prev of Some (i', n) \<Rightarrow> if i' = i then n else None | None \<Rightarrow> None))"

definition navigate :: "closure \<Rightarrow> view \<Rightarrow> nav_params \<Rightarrow> 'a nav_scheme \<Rightarrow> 'a nav_scheme" where
  "navigate cl v0 params s =
    (let v = availableView v0 (nv_mode s);
         tabNext = (case np_settingsTab params of Some t \<Rightarrow> t | None \<Rightarrow> cl_settingsTab cl);
         qNext = (case np_q params of Some q \<Rightarrow> q | None \<Rightarrow> cl_q cl);
         auditNext = (if v = V_Audit then np_auditInvoice params else None);
         policyNext = (if v = V_Workflows then np_id params else None)
     in pushState \<lparr>st_e = cl_active cl, st_m = Some (nv_mount s), st_p = False\<rparr>
          (routeUrl v (url_params (np_id params) tabNext qNext auditNext []))
          (s\<lparr>nv_view := v,
             nv_settingsTab := (case np_settingsTab params of Some t \<Rightarrow> t | None \<Rightarrow> nv_settingsTab s),
             nv_q := (case np_q params of Some q \<Rightarrow> q | None \<Rightarrow> nv_q s),
             nv_audit := keep_number auditNext (nv_audit s), nv_policy := policyNext\<rparr>))"

definition nav_to :: "view \<Rightarrow> nav_params \<Rightarrow> 'a nav_scheme \<Rightarrow> 'a nav_scheme" where
  "nav_to v params s = (navigate (closure_of s) v params s)\<lparr>nv_switcher := False\<rparr>"

definition searchInvoices :: "string \<Rightarrow> 'a nav_scheme \<Rightarrow> 'a nav_scheme" where
  "searchInvoices q s = navigate (closure_of s) V_Invoices (no_params\<lparr>np_q := Some q\<rparr>) s"

definition audit_id :: "'a nav_scheme \<Rightarrow> string option" where
  "audit_id s = map_option fst (nv_audit s)"

definition setInvoiceQuery :: "string \<Rightarrow> 'a nav_scheme \<Rightarrow> 'a nav_scheme" where
  "setInvoiceQuery q s = replaceState (replaceStamp s)
     (routeUrl (nv_view s) (url_params None (nv_settingsTab s) q (audit_id s) [])) (s\<lparr>nv_q := q\<rparr>)"

definition adoptBatchClient :: "string \<Rightarrow> 'a nav_scheme \<Rightarrow> 'a nav_scheme" where
  "adoptBatchClient entity s =
    (if nv_pick s \<noteq> None \<or> entity \<notin> set (nv_clients s) then s
     else replaceState \<lparr>st_e = Some entity, st_m = None, st_p = False\<rparr> (current_url s)
       (s\<lparr>nv_pick := Some entity,
          nv_bootRef := (if isWindowEntry (nv_mount s) (en_stamp (current_entry s)) then Some entity else nv_bootRef s)\<rparr>))"

definition switchClient :: "string \<Rightarrow> 'a nav_scheme \<Rightarrow> 'a nav_scheme" where
  "switchClient i s =
    (navigate (closure_of s) V_Dashboard no_params
       (replaceState \<lparr>st_e = Some i, st_m = None, st_p = False\<rparr> (routePath (carryView (nv_view s)) None)
         (s\<lparr>nv_pick := Some i\<rparr>)))
    \<lparr>nv_detail := None, nv_line := None, nv_switcher := False, nv_step := Step_Form, nv_batches := [],
     nv_policy := None, nv_job := None, nv_jobInvoices := []\<rparr>"

definition openImportedInvoice :: "closure \<Rightarrow> string \<Rightarrow> (nat \<times> string option) option \<Rightarrow> 'a nav_scheme \<Rightarrow> 'a nav_scheme" where
  "openImportedInvoice cl i line s =
     (navigate cl V_Detail (no_params\<lparr>np_id := Some i\<rparr>) s)\<lparr>nv_detail := Some i, nv_line := line\<rparr>"

definition openAuditForInvoice :: "closure \<Rightarrow> string \<Rightarrow> string option \<Rightarrow> 'a nav_scheme \<Rightarrow> 'a nav_scheme" where
  "openAuditForInvoice cl i number s =
     navigate cl V_Audit (no_params\<lparr>np_auditInvoice := Some i\<rparr>) (s\<lparr>nv_audit := Some (i, number)\<rparr>)"

definition setAuditInvoiceFilter :: "string option \<Rightarrow> string option \<Rightarrow> 'a nav_scheme \<Rightarrow> 'a nav_scheme" where
  "setAuditInvoiceFilter i number s = replaceState (replaceStamp s)
     (routeUrl (nv_view s) (url_params None (nv_settingsTab s) (nv_q s) i []))
     (s\<lparr>nv_audit := (case i of Some a \<Rightarrow> if a = [] then None else Some (a, number) | None \<Rightarrow> None)\<rparr>)"

definition openExtraction :: "closure \<Rightarrow> string \<Rightarrow> 'a nav_scheme \<Rightarrow> 'a nav_scheme" where
  "openExtraction cl i s = navigate cl V_Extraction (no_params\<lparr>np_id := Some i\<rparr>) (s\<lparr>nv_job := Some i\<rparr>)"

definition setSettingsTab :: "settings_tab \<Rightarrow> 'a nav_scheme \<Rightarrow> 'a nav_scheme" where
  "setSettingsTab t s = replaceState (replaceStamp s)
     (routeUrl (nv_view s) (url_params None t (nv_q s) (audit_id s) [])) (s\<lparr>nv_settingsTab := t\<rparr>)"

definition openPolicy :: "closure \<Rightarrow> string \<Rightarrow> 'a nav_scheme \<Rightarrow> 'a nav_scheme" where
  "openPolicy cl i s = navigate cl V_Workflows (no_params\<lparr>np_id := Some i\<rparr>) s"

definition deletePolicy :: "string \<Rightarrow> 'a nav_scheme \<Rightarrow> 'a nav_scheme" where
  "deletePolicy i s = s\<lparr>nv_policy := (if nv_policy s = Some i then None else nv_policy s)\<rparr>"

text \<open>Back and Forward. The browser moves first; the handler then reads the entry it moved to.\<close>

definition onPopState :: "'a nav_scheme \<Rightarrow> 'a nav_scheme" where
  "onPopState s =
    (let st = en_stamp (current_entry s);
         minted = (if isWindowEntry (nv_mount s) st then nv_bootRef s else Option.bind st st_e);
         here = nv_hereRef s;
         stale = (minted \<noteq> None \<and> here \<noteq> None \<and> minted \<noteq> here);
         live = (pathname_of (current_url s), search_of (current_url s));
         path = (if stale then routePath (carryView (pl_view (parseLocation (fst live) []))) None else fst live);
         search = (if stale then [] else snd live);
         s = (if stale then replaceState \<lparr>st_e = here, st_m = None, st_p = False\<rparr> path s else s);
         at' = parseLocation path search;
         s = s\<lparr>nv_view := availableView (pl_view at') (nv_mode s), nv_detail := pl_invoiceId at', nv_line := None,
               nv_job := pl_jobId at', nv_policy := pl_policyId at',
               nv_settingsTab := availableSettingsTab (pl_settingsTab at') (nv_mode s), nv_q := pl_q at',
               nv_audit := keep_number (pl_auditInvoice at') (nv_audit s)\<rparr>
     in if length (pl_reviewBatchIds at') > 0 then s\<lparr>nv_batches := pl_reviewBatchIds at', nv_step := Step_Review\<rparr>
        else if pl_view at' = V_Create
        then s\<lparr>nv_batches := [], nv_step := (if nv_step s = Step_Review then Step_Upload else nv_step s)\<rparr>
        else s)"

text \<open>The moves of the import wizard that navigation sees: a fresh start, a step, a finished run that lands on its review.\<close>

definition fresh_create :: "'a nav_scheme \<Rightarrow> 'a nav_scheme" where
  "fresh_create s = (navigate (closure_of s) V_Create no_params s)\<lparr>nv_step := Step_Upload, nv_switcher := False, nv_batches := []\<rparr>"

datatype nav_event =
    Entities_Landed "string list"
  | Nav_Click view nav_params
  | Search string
  | Query_Cleared string
  | Toggle_Switcher
  | Adopt_Batch string
  | Switch_Client string
  | Open_Invoice "closure option" string "(nat \<times> string option) option"
  | Open_Audit string "string option"
  | Set_Audit_Filter "string option" "string option"
  | Open_Extraction "closure option" string "string option"
  | Set_Settings_Tab settings_tab
  | Open_Policy "closure option" string
  | Close_Policy
  | Policy_Deleted string
  | Open_Create
  | Open_Create_Locked "create_step option"
  | Entered_By_Hand "closure option" bool
  | Close_Create
  | Step_To create_step
  | Import_Reset
  | Review_Lands "string list"
  | Line_Consumed
  | Travel nat

fun nav_act :: "'a nav_scheme \<Rightarrow> nav_event \<Rightarrow> 'a nav_scheme" where
  "nav_act s (Entities_Landed ids) = s\<lparr>nv_clients := ids\<rparr>"
| "nav_act s (Nav_Click v params) = nav_to v params s"
| "nav_act s (Search q) = searchInvoices q s"
| "nav_act s (Query_Cleared q) = setInvoiceQuery q s"
| "nav_act s Toggle_Switcher = s\<lparr>nv_switcher := \<not> nv_switcher s\<rparr>"
| "nav_act s (Adopt_Batch entity) = adoptBatchClient entity s"
| "nav_act s (Switch_Client i) = switchClient i s"
| "nav_act s (Open_Invoice cl i line) = openImportedInvoice (case cl of None \<Rightarrow> closure_of s | Some c \<Rightarrow> c) i line s"
| "nav_act s (Open_Audit i number) = openAuditForInvoice (closure_of s) i number s"
| "nav_act s (Set_Audit_Filter i number) = setAuditInvoiceFilter i number s"
| "nav_act s (Open_Extraction cl i invoice) =
     openExtraction (case cl of None \<Rightarrow> closure_of s | Some c \<Rightarrow> c) i
       (s\<lparr>nv_jobInvoices := (case invoice of Some v \<Rightarrow> (i, v) # nv_jobInvoices s | None \<Rightarrow> nv_jobInvoices s)\<rparr>)"
| "nav_act s (Set_Settings_Tab t) = setSettingsTab t s"
| "nav_act s (Open_Policy cl i) = openPolicy (case cl of None \<Rightarrow> closure_of s | Some c \<Rightarrow> c) i s"
| "nav_act s Close_Policy = navigate (closure_of s) V_Workflows no_params s"
| "nav_act s (Policy_Deleted i) = deletePolicy i s"
| "nav_act s Open_Create = fresh_create s"
| "nav_act s (Open_Create_Locked step) = (navigate (closure_of s) V_Create no_params s)
     \<lparr>nv_switcher := False, nv_step := (case step of Some st \<Rightarrow> st | None \<Rightarrow> nv_step s)\<rparr>"
| "nav_act s (Entered_By_Hand cl fromReview) =
     (if fromReview then navigate (case cl of None \<Rightarrow> closure_of s | Some c \<Rightarrow> c) V_Create no_params s else s)
     \<lparr>nv_step := Step_Form\<rparr>"
| "nav_act s Close_Create = navigate (closure_of s) V_Invoices no_params s"
| "nav_act s (Step_To step) = s\<lparr>nv_step := step\<rparr>"
| "nav_act s Import_Reset = s\<lparr>nv_batches := []\<rparr>"
| "nav_act s (Review_Lands ids) = s\<lparr>nv_batches := ids, nv_step := Step_Review\<rparr>"
| "nav_act s Line_Consumed = s\<lparr>nv_line := None\<rparr>"
| "nav_act s (Travel i) = (if i < length (nv_entries s) \<and> i \<noteq> nv_at s then onPopState (s\<lparr>nv_at := i\<rparr>) else s)"

definition nav_step :: "'a nav_scheme \<Rightarrow> nav_event \<Rightarrow> 'a nav_scheme" where
  "nav_step s e = commit (nav_act s e)"



subsection \<open>History\<close>

lemma history_simps [simp]:
  "nv_at (pushState st url s) = Suc (nv_at s)"
  "nv_entries (pushState st url s) = take (Suc (nv_at s)) (nv_entries s) @ [\<lparr>en_url = url, en_stamp = Some st\<rparr>]"
  "nv_at (replaceState st url s) = nv_at s"
  "nv_entries (replaceState st url s) = (nv_entries s)[nv_at s := \<lparr>en_url = url, en_stamp = Some st\<rparr>]"
  "nv_mode (pushState st url s) = nv_mode s" "nv_mode (replaceState st url s) = nv_mode s"
  "nv_mount (pushState st url s) = nv_mount s" "nv_mount (replaceState st url s) = nv_mount s"
  "nv_clients (pushState st url s) = nv_clients s" "nv_clients (replaceState st url s) = nv_clients s"
  "nv_pick (pushState st url s) = nv_pick s" "nv_pick (replaceState st url s) = nv_pick s"
  "nv_hereRef (pushState st url s) = nv_hereRef s" "nv_hereRef (replaceState st url s) = nv_hereRef s"
  "nv_bootRef (pushState st url s) = nv_bootRef s" "nv_bootRef (replaceState st url s) = nv_bootRef s"
  "nv_view (pushState st url s) = nv_view s" "nv_view (replaceState st url s) = nv_view s"
  "nv_settingsTab (pushState st url s) = nv_settingsTab s" "nv_settingsTab (replaceState st url s) = nv_settingsTab s"
  "nv_q (pushState st url s) = nv_q s" "nv_q (replaceState st url s) = nv_q s"
  "nv_audit (pushState st url s) = nv_audit s" "nv_audit (replaceState st url s) = nv_audit s"
  "nv_policy (pushState st url s) = nv_policy s" "nv_policy (replaceState st url s) = nv_policy s"
  "nv_detail (pushState st url s) = nv_detail s" "nv_detail (replaceState st url s) = nv_detail s"
  "nv_job (pushState st url s) = nv_job s" "nv_job (replaceState st url s) = nv_job s"
  "nv_batches (pushState st url s) = nv_batches s" "nv_batches (replaceState st url s) = nv_batches s"
  "nv_step (pushState st url s) = nv_step s" "nv_step (replaceState st url s) = nv_step s"
  "nv_mirrored (pushState st url s) = nv_mirrored s" "nv_mirrored (replaceState st url s) = nv_mirrored s"
  by (simp_all add: pushState_def replaceState_def)

lemma navigate_simps [simp]:
  "nv_mode (navigate cl v p s) = nv_mode s" "nv_mount (navigate cl v p s) = nv_mount s"
  "nv_clients (navigate cl v p s) = nv_clients s" "nv_pick (navigate cl v p s) = nv_pick s"
  "nv_hereRef (navigate cl v p s) = nv_hereRef s" "nv_bootRef (navigate cl v p s) = nv_bootRef s"
  "nv_view (navigate cl v p s) = availableView v (nv_mode s)"
  "nv_settingsTab (navigate cl v p s) = (case np_settingsTab p of Some t \<Rightarrow> t | None \<Rightarrow> nv_settingsTab s)"
  "nv_q (navigate cl v p s) = (case np_q p of Some q \<Rightarrow> q | None \<Rightarrow> nv_q s)"
  "nv_audit (navigate cl v p s) = keep_number (if availableView v (nv_mode s) = V_Audit then np_auditInvoice p else None) (nv_audit s)"
  "nv_policy (navigate cl v p s) = (if availableView v (nv_mode s) = V_Workflows then np_id p else None)"
  "nv_detail (navigate cl v p s) = nv_detail s" "nv_job (navigate cl v p s) = nv_job s"
  "nv_batches (navigate cl v p s) = nv_batches s" "nv_step (navigate cl v p s) = nv_step s"
  "nv_mirrored (navigate cl v p s) = nv_mirrored s"
  "nv_at (navigate cl v p s) = Suc (nv_at s)"
  by (simp_all add: navigate_def Let_def)

lemma active_simps [simp]:
  "active_id (pushState st url s) = active_id s" "active_id (replaceState st url s) = active_id s"
  "active_id (navigate cl v p s) = active_id s"
  by (simp_all add: active_id_def)

definition navigated_url :: "closure \<Rightarrow> view \<Rightarrow> nav_params \<Rightarrow> 'a nav_scheme \<Rightarrow> string" where
  "navigated_url cl v p s = routeUrl (availableView v (nv_mode s))
     (url_params (np_id p) (case np_settingsTab p of Some t \<Rightarrow> t | None \<Rightarrow> cl_settingsTab cl)
       (case np_q p of Some q \<Rightarrow> q | None \<Rightarrow> cl_q cl)
       (if availableView v (nv_mode s) = V_Audit then np_auditInvoice p else None) [])"

lemma navigate_entries:
  "nv_entries (navigate cl v p s) = take (Suc (nv_at s)) (nv_entries s) @
     [\<lparr>en_url = navigated_url cl v p s, en_stamp = Some \<lparr>st_e = cl_active cl, st_m = Some (nv_mount s), st_p = False\<rparr>\<rparr>]"
  by (simp add: navigate_def navigated_url_def Let_def)

lemma current_pushed:
  "nv_at s < length (nv_entries s) \<Longrightarrow> current_entry (pushState st url s) = \<lparr>en_url = url, en_stamp = Some st\<rparr>"
  "nv_at s < length (nv_entries s) \<Longrightarrow> current_entry (replaceState st url s) = \<lparr>en_url = url, en_stamp = Some st\<rparr>"
  by (simp_all add: current_entry_def nth_append)

lemma current_navigated:
  "nv_at s < length (nv_entries s) \<Longrightarrow> current_url (navigate cl v p s) = navigated_url cl v p s"
  by (simp add: current_url_def current_entry_def navigate_entries nth_append)

lemma audit_kept: "map_option fst (keep_number a prev) = a"
  by (simp add: keep_number_def split: option.split)

subsection \<open>The texts in the state\<close>

text \<open>The texts an address is built from: the search and the invoice of the audit filter are text, the batches are ids of the
  server, no more than a review takes.\<close>

definition good_filter :: "string option \<Rightarrow> bool" where
  "good_filter i = (case i of None \<Rightarrow> True | Some a \<Rightarrow> canonical_uuid a \<and> valid_utf8 a)"

definition texts :: "'a nav_scheme \<Rightarrow> bool" where
  "texts s \<longleftrightarrow> valid_utf8 (nv_q s) \<and> good_filter (audit_id s) \<and>
     list_all canonical_uuid (nv_batches s) \<and> length (nv_batches s) \<le> REVIEW_PATH_MAX_IDS"

definition good_id :: "string \<Rightarrow> bool" where "good_id i \<longleftrightarrow> i \<noteq> [] \<and> valid_utf8 i"

definition good_closure :: "closure option \<Rightarrow> bool" where
  "good_closure cl = (case cl of None \<Rightarrow> True | Some c \<Rightarrow> valid_utf8 (cl_q c))"

fun good_texts :: "nav_event \<Rightarrow> bool" where
  "good_texts (Nav_Click v p) \<longleftrightarrow> (case np_id p of None \<Rightarrow> True | Some i \<Rightarrow> good_id i) \<and>
     (case np_q p of None \<Rightarrow> True | Some q \<Rightarrow> valid_utf8 q) \<and> good_filter (np_auditInvoice p)"
| "good_texts (Search q) \<longleftrightarrow> valid_utf8 q"
| "good_texts (Query_Cleared q) \<longleftrightarrow> valid_utf8 q"
| "good_texts (Open_Invoice cl i line) \<longleftrightarrow> good_id i \<and> good_closure cl"
| "good_texts (Open_Extraction cl i invoice) \<longleftrightarrow> good_id i \<and> good_closure cl"
| "good_texts (Open_Policy cl i) \<longleftrightarrow> good_id i \<and> good_closure cl"
| "good_texts (Entered_By_Hand cl fromReview) \<longleftrightarrow> good_closure cl"
| "good_texts (Open_Audit i number) \<longleftrightarrow> good_filter (Some i)"
| "good_texts (Set_Audit_Filter i number) \<longleftrightarrow> good_filter i"
| "good_texts (Review_Lands ids) \<longleftrightarrow> list_all canonical_uuid ids \<and> length ids \<le> REVIEW_PATH_MAX_IDS"
| "good_texts _ \<longleftrightarrow> True"

lemma params_ok_url [simp]:
  "params_ok (url_params i tab q a ids) \<longleftrightarrow> (case i of None \<Rightarrow> True | Some i \<Rightarrow> good_id i) \<and> valid_utf8 q \<and>
     (case a of None \<Rightarrow> True | Some a \<Rightarrow> valid_utf8 a) \<and> list_all canonical_uuid ids \<and> length ids \<le> REVIEW_PATH_MAX_IDS"
  by (simp add: params_ok_def url_params_def good_id_def split: option.split)

lemma good_filter_simps [simp]: "good_filter None" "good_filter (Some a) \<longleftrightarrow> canonical_uuid a \<and> valid_utf8 a"
  by (simp_all add: good_filter_def)

lemma params_ok_texts: "texts s \<Longrightarrow> params_ok (url_params None tab (nv_q s) (audit_id s) ids) \<longleftrightarrow>
    list_all canonical_uuid ids \<and> length ids \<le> REVIEW_PATH_MAX_IDS"
  by (auto simp: texts_def good_filter_def split: option.split)

lemma parsed_texts:
  "valid_utf8 (pl_q (parseLocation p s))" "pl_auditInvoice (parseLocation p s) = Some a \<Longrightarrow> valid_utf8 a"
  "pl_auditInvoice (parseLocation p s) = Some a \<Longrightarrow> canonical_uuid a"
proof -
  have "valid_utf8 (case search_get s ''q'' of None \<Rightarrow> [] | Some q \<Rightarrow> q)"
    using valid_search_get by (auto split: option.split)
  from valid_clamp [OF this] show "valid_utf8 (pl_q (parseLocation p s))" by (subst parseLocation_search) simp
  show "pl_auditInvoice (parseLocation p s) = Some a \<Longrightarrow> valid_utf8 a" "pl_auditInvoice (parseLocation p s) = Some a \<Longrightarrow> canonical_uuid a"
    using valid_search_get by (subst (asm) parseLocation_search, auto split: option.splits if_splits)+
qed


lemma audit_id_navigate [simp]:
  "audit_id (navigate cl v p s) = (if availableView v (nv_mode s) = V_Audit then np_auditInvoice p else None)"
  "audit_id (pushState st url s) = audit_id s" "audit_id (replaceState st url s) = audit_id s"
  by (simp_all add: audit_id_def audit_kept)

lemma texts_navigate:
  "texts s \<Longrightarrow> good_filter (np_auditInvoice p) \<Longrightarrow> (case np_q p of None \<Rightarrow> True | Some q \<Rightarrow> valid_utf8 q) \<Longrightarrow> texts (navigate cl v p s)"
  by (auto simp: texts_def split: option.splits)

lemma texts_replace [simp]: "texts (replaceState st url s) = texts s"
  by (simp add: texts_def)


lemma texts_popstate: "texts s \<Longrightarrow> texts (onPopState s)"
proof -
  have filt: "good_filter (pl_auditInvoice (parseLocation p q))" for p q
    using parsed_texts(2,3) by (auto simp: good_filter_def split: option.split)
  have batches: "list_all canonical_uuid (pl_reviewBatchIds (parseLocation p q))"
    "length (pl_reviewBatchIds (parseLocation p q)) \<le> REVIEW_PATH_MAX_IDS" for p q
    using parsed_batches by blast+
  show "texts s \<Longrightarrow> texts (onPopState s)"
    unfolding onPopState_def Let_def
    by (simp add: texts_def audit_id_def audit_kept filt batches parsed_texts(1))
qed

lemma texts_act: "texts s \<Longrightarrow> good_texts e \<Longrightarrow> texts (nav_act s e)"
proof (cases e)
  case (Open_Audit i number)
  assume "texts s" "good_texts e"
  then show ?thesis using Open_Audit
    by (auto simp: openAuditForInvoice_def no_params_def texts_def split: option.split)
next
  case (Travel i)
  assume "texts s"
  then have "texts (s\<lparr>nv_at := i\<rparr>)" by (simp add: texts_def audit_id_def)
  with \<open>texts s\<close> show ?thesis using Travel texts_popstate [of "s\<lparr>nv_at := i\<rparr>"] by simp
qed (auto simp: texts_def audit_id_def nav_to_def searchInvoices_def setInvoiceQuery_def adoptBatchClient_def switchClient_def
    openImportedInvoice_def setAuditInvoiceFilter_def openExtraction_def setSettingsTab_def openPolicy_def deletePolicy_def
    fresh_create_def no_params_def audit_kept keep_number_def REVIEW_PATH_MAX_IDS_def good_filter_def split: option.splits)



subsection \<open>No drill-down of another company\<close>

text \<open>The records an address opens. A policy belongs to the tenant and a review follows its own batch, so those two are not
  records of a company.\<close>

definition drills :: "string \<Rightarrow> string list" where
  "drills url = (let at' = parseLocation (pathname_of url) (search_of url) in
     (case pl_invoiceId at' of None \<Rightarrow> [] | Some i \<Rightarrow> [i]) @ (case pl_jobId at' of None \<Rightarrow> [] | Some i \<Rightarrow> [i]))"

lemma drills_routeUrl:
  "params_ok p \<Longrightarrow> drills (routeUrl v p) = (if v = V_Detail \<or> v = V_Extraction then (case rp_id p of None \<Rightarrow> [] | Some i \<Rightarrow> [i]) else [])"
  unfolding drills_def by (subst route_roundtrip) (simp_all add: addressed_def split: option.split)


lemma plain_path:
  "routePath v None = ROUTE_PATHS v" "pathname_of (ROUTE_PATHS v) = ROUTE_PATHS v" "search_of (ROUTE_PATHS v) = []"
proof -
  have "CHR ''?'' \<notin> set (ROUTE_PATHS v)" by (cases v) simp_all
  then show "routePath v None = ROUTE_PATHS v" "pathname_of (ROUTE_PATHS v) = ROUTE_PATHS v" "search_of (ROUTE_PATHS v) = []"
    by (simp_all add: routePath_def url_parts)
qed



text \<open>An entry of the history may open a record only of the company its stamp names; an entry of the window before the
  companies loaded, or without a stamp, opens none.\<close>

definition entry_ok :: "(string \<Rightarrow> string option) \<Rightarrow> string \<Rightarrow> history_entry \<Rightarrow> bool" where
  "entry_ok owner mount en =
    (if isWindowEntry mount (en_stamp en) \<or> Option.bind (en_stamp en) st_e = None then drills (en_url en) = []
     else list_all (\<lambda>i. owner i = Option.bind (en_stamp en) st_e) (drills (en_url en)))"


definition tidy :: "(string \<Rightarrow> string option) \<Rightarrow> 'a nav_scheme \<Rightarrow> bool" where
  "tidy owner s \<longleftrightarrow> nv_at s < length (nv_entries s) \<and> list_all (entry_ok owner (nv_mount s)) (nv_entries s)"

definition of_company :: "(string \<Rightarrow> string option) \<Rightarrow> string option \<Rightarrow> string option \<Rightarrow> bool" where
  "of_company owner company i = (case i of None \<Rightarrow> True | Some i \<Rightarrow> company \<noteq> None \<and> owner i = company)"

text \<open>What the screen shows belongs to the company in the header.\<close>

definition shows_own :: "(string \<Rightarrow> string option) \<Rightarrow> 'a nav_scheme \<Rightarrow> bool" where
  "shows_own owner s \<longleftrightarrow>
     (nv_view s = V_Detail \<longrightarrow> of_company owner (active_id s) (nv_detail s)) \<and>
     (nv_view s = V_Extraction \<longrightarrow> of_company owner (active_id s) (nv_job s))"

definition own_screen :: "bool \<Rightarrow> (string \<Rightarrow> string option) \<Rightarrow> 'a nav_scheme \<Rightarrow> bool" where
  "own_screen b owner s \<longleftrightarrow> tidy owner s \<and> (b \<or> shows_own owner s) \<and> texts s \<and>
     (nv_view s \<noteq> V_Detail \<and> nv_view s \<noteq> V_Extraction \<longrightarrow> drills (current_url s) = [])"

text \<open>What the screens and the answers that land offer: a record is opened by a render, of now or of an earlier moment, whose company it
  belongs to; a batch is adopted on its review; a switch is to a listed company.\<close>

fun own_event :: "(string \<Rightarrow> string option) \<Rightarrow> 'a nav_scheme \<Rightarrow> nav_event \<Rightarrow> bool" where
  "own_event owner s (Nav_Click v p) \<longleftrightarrow> v \<noteq> V_Detail \<and> v \<noteq> V_Extraction"
| "own_event owner s (Adopt_Batch entity) \<longleftrightarrow> nv_view s = V_Create"
| "own_event owner s (Switch_Client i) \<longleftrightarrow> i \<in> set (nv_clients s)"
| "own_event owner s (Open_Invoice cl i line) \<longleftrightarrow>
     of_company owner (cl_active (case cl of None \<Rightarrow> closure_of s | Some c \<Rightarrow> c)) (Some i)"
| "own_event owner s (Open_Extraction cl i invoice) \<longleftrightarrow>
     of_company owner (cl_active (case cl of None \<Rightarrow> closure_of s | Some c \<Rightarrow> c)) (Some i)"
| "own_event owner s _ \<longleftrightarrow> True"


lemma tidy_push:
  "tidy owner s \<Longrightarrow> nv_mount s' = nv_mount s \<Longrightarrow> nv_at s' = Suc (nv_at s) \<Longrightarrow>
   nv_entries s' = take (Suc (nv_at s)) (nv_entries s) @ [en] \<Longrightarrow> entry_ok owner (nv_mount s) en \<Longrightarrow> tidy owner s'"
  by (auto simp: tidy_def list_all_iff dest: in_set_takeD)





lemma available_drill [simp]: "availableView v m = V_Detail \<longleftrightarrow> v = V_Detail" "availableView v m = V_Extraction \<longleftrightarrow> v = V_Extraction"
    "availableView v m = V_Create \<longleftrightarrow> v = V_Create" "availableView v m = V_Workflows \<longleftrightarrow> v = V_Workflows"
    "availableView v m = V_Audit \<longleftrightarrow> v = V_Audit" "availableView v m = V_Settings \<longleftrightarrow> v = V_Settings"
    "availableView v m = V_Invoices \<longleftrightarrow> v = V_Invoices"
  by (simp_all add: availableView_def)

lemma carry_drill [simp]: "carryView v \<noteq> V_Detail" "carryView v \<noteq> V_Extraction" "carryView v \<noteq> V_Create"
  by (simp_all add: carryView_def)

definition good_params :: "closure \<Rightarrow> nav_params \<Rightarrow> bool" where
  "good_params cl p \<longleftrightarrow> (case np_id p of None \<Rightarrow> True | Some i \<Rightarrow> good_id i) \<and> good_filter (np_auditInvoice p) \<and>
     valid_utf8 (case np_q p of None \<Rightarrow> cl_q cl | Some q \<Rightarrow> q)"

lemma navigated_params: "good_params cl p \<Longrightarrow> params_ok (url_params (np_id p) tab
    (case np_q p of Some q \<Rightarrow> q | None \<Rightarrow> cl_q cl) (if audit then np_auditInvoice p else None) [])"
  by (auto simp: good_params_def good_filter_def REVIEW_PATH_MAX_IDS_def split: option.splits)

lemma rp_url_params [simp]: "rp_id (url_params i tab q a ids) = i" "rp_settingsTab (url_params i tab q a ids) = Some tab"
    "rp_q (url_params i tab q a ids) = q" "rp_auditInvoice (url_params i tab q a ids) = a" "rp_reviewBatchIds (url_params i tab q a ids) = ids"
  by (simp_all add: url_params_def)

lemma navigated_drills: "good_params cl p \<Longrightarrow> drills (navigated_url cl v p s) =
    (if v = V_Detail \<or> v = V_Extraction then (case np_id p of None \<Rightarrow> [] | Some i \<Rightarrow> [i]) else [])"
  unfolding navigated_url_def drills_routeUrl [OF navigated_params] by simp

lemma tidy_navigate:
  assumes "tidy owner s" "good_params cl p"
    and "v = V_Detail \<or> v = V_Extraction \<Longrightarrow> of_company owner (cl_active cl) (np_id p)"
  shows "tidy owner (navigate cl v p s)"
proof (rule tidy_push [OF assms(1) _ _ navigate_entries])
  show "entry_ok owner (nv_mount s) \<lparr>en_url = navigated_url cl v p s,
      en_stamp = Some \<lparr>st_e = cl_active cl, st_m = Some (nv_mount s), st_p = False\<rparr>\<rparr>"
    using assms(3) unfolding entry_ok_def
    by (auto simp: navigated_drills [OF assms(2)] isWindowEntry_def of_company_def split: option.splits)
qed simp_all

lemma current_url_navigate:
  "tidy owner s \<Longrightarrow> current_url (navigate cl v p s) = navigated_url cl v p s"
  by (simp add: tidy_def current_navigated)

lemma plain_navigate:
  assumes "tidy owner s" "good_params cl p" "v \<noteq> V_Detail" "v \<noteq> V_Extraction"
  shows "tidy owner (navigate cl v p s)" "drills (current_url (navigate cl v p s)) = []"
  using assms tidy_navigate [OF assms(1,2), of v] by (simp_all add: current_url_navigate navigated_drills)

lemma good_closure_of: "texts s \<Longrightarrow> good_closure cl \<Longrightarrow> valid_utf8 (cl_q (case cl of None \<Rightarrow> closure_of s | Some c \<Rightarrow> c))"
  by (auto simp: texts_def good_closure_def closure_of_def split: option.split)

lemma current_replaced: "nv_at s < length (nv_entries s) \<Longrightarrow> current_url (replaceState st url s) = url"
  by (simp add: current_url_def current_pushed)



lemma current_frame [simp]:
  "current_url (s\<lparr>nv_detail := d\<rparr>) = current_url s" "current_url (s\<lparr>nv_line := l\<rparr>) = current_url s"
  "current_url (s\<lparr>nv_switcher := b\<rparr>) = current_url s" "current_url (s\<lparr>nv_step := st\<rparr>) = current_url s"
  "current_url (s\<lparr>nv_batches := ids\<rparr>) = current_url s" "current_url (s\<lparr>nv_policy := pol\<rparr>) = current_url s"
  "current_url (s\<lparr>nv_job := j\<rparr>) = current_url s" "current_url (s\<lparr>nv_jobInvoices := ji\<rparr>) = current_url s"
  "current_url (s\<lparr>nv_q := q\<rparr>) = current_url s" "current_url (s\<lparr>nv_audit := a\<rparr>) = current_url s"
  "current_url (s\<lparr>nv_settingsTab := tab\<rparr>) = current_url s" "current_url (s\<lparr>nv_clients := cs\<rparr>) = current_url s"
  "current_url (s\<lparr>nv_pick := pk\<rparr>) = current_url s" "current_url (s\<lparr>nv_bootRef := br\<rparr>) = current_url s"
  "current_url (s\<lparr>nv_hereRef := hr\<rparr>) = current_url s" "current_url (s\<lparr>nv_mirrored := mi\<rparr>) = current_url s"
  "current_url (s\<lparr>nv_view := v\<rparr>) = current_url s"
  by (simp_all add: current_url_def current_entry_def)

lemma active_frame [simp]:
  "active_id (s\<lparr>nv_detail := d\<rparr>) = active_id s" "active_id (s\<lparr>nv_line := l\<rparr>) = active_id s"
  "active_id (s\<lparr>nv_switcher := b\<rparr>) = active_id s" "active_id (s\<lparr>nv_step := st\<rparr>) = active_id s"
  "active_id (s\<lparr>nv_batches := ids\<rparr>) = active_id s" "active_id (s\<lparr>nv_policy := pol\<rparr>) = active_id s"
  "active_id (s\<lparr>nv_job := j\<rparr>) = active_id s" "active_id (s\<lparr>nv_jobInvoices := ji\<rparr>) = active_id s"
  "active_id (s\<lparr>nv_q := q\<rparr>) = active_id s" "active_id (s\<lparr>nv_audit := a\<rparr>) = active_id s"
  "active_id (s\<lparr>nv_settingsTab := tab\<rparr>) = active_id s" "active_id (s\<lparr>nv_bootRef := br\<rparr>) = active_id s"
  "active_id (s\<lparr>nv_hereRef := hr\<rparr>) = active_id s" "active_id (s\<lparr>nv_mirrored := mi\<rparr>) = active_id s"
  "active_id (s\<lparr>nv_view := v\<rparr>) = active_id s" "active_id (s\<lparr>nv_at := i\<rparr>) = active_id s"
  "active_id (s\<lparr>nv_entries := es\<rparr>) = active_id s"
  by (simp_all add: active_id_def)




lemma own_plain_navigate:
  assumes "own_screen b owner s" "good_params cl p" "v \<noteq> V_Detail" "v \<noteq> V_Extraction"
  shows "tidy owner (navigate cl v p s) \<and> shows_own owner (navigate cl v p s) \<and> drills (current_url (navigate cl v p s)) = []"
  using assms plain_navigate [of owner s cl p v] by (simp add: own_screen_def shows_own_def)












text \<open>The events of a run are those a guard admits.\<close>

fun admitted :: "(nav \<Rightarrow> nav_event \<Rightarrow> bool) \<Rightarrow> nav \<Rightarrow> nav_event list \<Rightarrow> bool" where
  "admitted ok s [] \<longleftrightarrow> True"
| "admitted ok s (e # es) \<longleftrightarrow> ok s e \<and> admitted ok (nav_step s e) es"

lemma boot_state:
  fixes m mount entries i loc
  defines "b \<equiv> workspace_boot m mount entries i loc"
  shows "nv_mount b = mount" "nv_at b = i" "active_id b = None" "nv_hereRef b = None" "nv_bootRef b = None" "length (nv_entries b) = length entries"
    "nv_view b = availableView (pl_view (parseLocation (fst loc) (snd loc))) m"
    "nv_detail b = (if nv_view b = V_Detail then pl_invoiceId (parseLocation (fst loc) (snd loc)) else None)"
    "nv_job b = (if nv_view b = V_Extraction then pl_jobId (parseLocation (fst loc) (snd loc)) else None)"
    "nv_q b = pl_q (parseLocation (fst loc) (snd loc))" "audit_id b = pl_auditInvoice (parseLocation (fst loc) (snd loc))"
    "nv_batches b = (if nv_view b = V_Create then pl_reviewBatchIds (parseLocation (fst loc) (snd loc)) else [])"
    "nv_mode b = m" "nv_settingsTab b = availableSettingsTab (pl_settingsTab (parseLocation (fst loc) (snd loc))) m"
    "nv_policy b = (if nv_view b = V_Workflows then pl_policyId (parseLocation (fst loc) (snd loc)) else None)"
    "nv_step b = (if length (nv_batches b) > 0 then Step_Review else Step_Form)"
    "nv_mirrored b = (nv_view b, nv_step b, batch_key (nv_batches b))"
  unfolding b_def workspace_boot_def boot_align_def Let_def
  by (simp_all add: resolveActiveClient_def active_id_def audit_id_def option.map_comp comp_def option.map_ident)


lemma reviewed_ids: "reviewNavIds V_Create (if length ids > 0 then Step_Review else Step_Form) ids = ids"
  by (simp add: reviewNavIds_def)

definition boot_params :: "mode \<Rightarrow> parsed_location \<Rightarrow> route_params" where
  "boot_params m seed = (let v = availableView (pl_view seed) m in
     if v = V_Create then \<lparr>rp_id = None, rp_settingsTab = None, rp_q = [], rp_auditInvoice = None, rp_reviewBatchIds = pl_reviewBatchIds seed\<rparr>
     else url_params (if v = V_Detail then pl_invoiceId seed else if v = V_Extraction then pl_jobId seed
         else if v = V_Workflows then pl_policyId seed else None)
       (availableSettingsTab (pl_settingsTab seed) m) (pl_q seed) (pl_auditInvoice seed) [])"

lemma boot_entries:
  fixes m mount entries i loc
  assumes at': "i < length entries"
  defines "seed \<equiv> parseLocation (fst loc) (snd loc)"
  shows "\<exists>st. nv_entries (workspace_boot m mount entries i loc) = entries[i := \<lparr>en_url =
     routeUrl (availableView (pl_view seed) m) (boot_params m seed), en_stamp = Some st\<rparr>]"
proof (cases "availableView (pl_view seed) m = V_Create")
  case True
  then show ?thesis
    unfolding workspace_boot_def boot_align_def Let_def seed_def [symmetric] boot_params_def
    by (simp only: if_True if_False simp_thms history_simps nav.simps list_update_overwrite reviewed_ids refl)
      (rule exI, rule refl)
next
  case False
  then show ?thesis
    unfolding workspace_boot_def boot_align_def Let_def seed_def [symmetric] boot_params_def
    by (intro exI [of _ "\<lparr>st_e = None, st_m = Some mount, st_p = False\<rparr>"]) simp
qed

lemma percent_decode_Nil: "percent_decode s = Some [] \<Longrightarrow> s = []"
  by (cases s) (auto split: option.splits if_splits list.splits)

lemma decoded_good: "decodeURIComponent s = Some i \<Longrightarrow> s \<noteq> [] \<Longrightarrow> good_id i"
  using percent_decode_Nil by (auto simp: decodeURIComponent_def good_id_def split: option.splits if_splits)

lemma parsed_ids:
  "pl_invoiceId (parseLocation p q) = Some i \<Longrightarrow> good_id i" "pl_jobId (parseLocation p q) = Some i \<Longrightarrow> good_id i"
  "pl_policyId (parseLocation p q) = Some i \<Longrightarrow> good_id i"
proof -
  have seg: "good_id i" if r: "parseRoute p = Some r" "rt_id r = Some i" for r
  proof -
    obtain a b where b: "filter (\<lambda>s. s \<noteq> []) (split_on CHR ''/'' (normalized_path p)) = [a, b]" "decodeURIComponent b = Some i"
    proof (cases "PATH_TO_VIEW (normalized_path p)")
      case None
      obtain a b where "filter (\<lambda>s. s \<noteq> []) (split_on CHR ''/'' (normalized_path p)) = [a, b]"
        using r(1) None by (auto simp: parseRoute_def Let_def split: list.splits)
      then show ?thesis using r None by (intro that) (auto simp: parseRoute_def Let_def split: option.splits)
    next
      case (Some v)
      then show ?thesis using r by (auto simp: parseRoute_def Let_def)
    qed
    then have "b \<in> set (filter (\<lambda>s. s \<noteq> []) (split_on CHR ''/'' (normalized_path p)))" by simp
    then show ?thesis using b(2) decoded_good by simp
  qed
  show "pl_invoiceId (parseLocation p q) = Some i \<Longrightarrow> good_id i" "pl_jobId (parseLocation p q) = Some i \<Longrightarrow> good_id i"
    "pl_policyId (parseLocation p q) = Some i \<Longrightarrow> good_id i"
    using seg unfolding parseLocation_def Let_def by (auto split: option.splits if_split_asm prod.splits)
qed

lemma boot_params_ok: "params_ok (boot_params m (parseLocation p q))"
proof -
  define seed where "seed = parseLocation p q"
  have seed: "list_all canonical_uuid (pl_reviewBatchIds seed)" "length (pl_reviewBatchIds seed) \<le> REVIEW_PATH_MAX_IDS"
    "valid_utf8 (pl_q seed)" "good_filter (pl_auditInvoice seed)"
    using parsed_batches parsed_texts by (auto simp: seed_def good_filter_def split: option.split)
  have ids: "case i of None \<Rightarrow> True | Some i \<Rightarrow> good_id i"
    if "i = pl_invoiceId seed \<or> i = pl_jobId seed \<or> i = pl_policyId seed \<or> i = None" for i
    using that parsed_ids [of p q, folded seed_def] by (auto split: option.split)
  show ?thesis
  proof (cases "availableView (pl_view seed) m = V_Create")
    case True
    then show ?thesis using seed(1,2) by (simp add: boot_params_def seed_def [symmetric] params_ok_def)
  next
    case False
    then have "boot_params m seed = url_params (if availableView (pl_view seed) m = V_Detail then pl_invoiceId seed
        else if availableView (pl_view seed) m = V_Extraction then pl_jobId seed
        else if availableView (pl_view seed) m = V_Workflows then pl_policyId seed else None)
       (availableSettingsTab (pl_settingsTab seed) m) (pl_q seed) (pl_auditInvoice seed) []"
      by (simp add: boot_params_def Let_def)
    then show ?thesis
      using seed(3,4) unfolding seed_def [symmetric]
      by (simp only: params_ok_url) (intro conjI ids, auto simp: good_filter_def REVIEW_PATH_MAX_IDS_def split: option.split)
  qed
qed

lemma boot_texts: "texts (workspace_boot m mount entries i loc)"
  using parsed_batches parsed_texts by (auto simp: texts_def boot_state REVIEW_PATH_MAX_IDS_def good_filter_def split: option.split)

lemma boot_url:
  assumes "i < length entries"
  shows "current_url (workspace_boot m mount entries i loc) =
    routeUrl (availableView (pl_view (parseLocation (fst loc) (snd loc))) m) (boot_params m (parseLocation (fst loc) (snd loc)))"
proof -
  obtain stm where "nv_entries (workspace_boot m mount entries i loc) = entries[i := \<lparr>en_url =
      routeUrl (availableView (pl_view (parseLocation (fst loc) (snd loc))) m) (boot_params m (parseLocation (fst loc) (snd loc))),
      en_stamp = Some stm\<rparr>]" using boot_entries [OF assms] by blast
  then show ?thesis using assms by (simp add: current_url_def current_entry_def boot_state)
qed





definition own_ok :: "(string \<Rightarrow> string option) \<Rightarrow> nav \<Rightarrow> nav_event \<Rightarrow> bool" where
  "own_ok owner s e \<longleftrightarrow> good_texts e \<and> own_event owner s e"






subsection \<open>A reload shows the same screen\<close>

text \<open>What the view shows that its address can name; the search as the address keeps it.\<close>

type_synonym screen_id = "view \<times> string option \<times> settings_tab option \<times> string \<times> string option \<times> string list"

definition screen_id :: "'a nav_scheme \<Rightarrow> screen_id" where
  "screen_id s = (let v = nv_view s in
     (v, if v = V_Detail then nv_detail s else if v = V_Extraction then nv_job s else if v = V_Workflows then nv_policy s else None,
      if v = V_Settings then Some (nv_settingsTab s) else None, if v = V_Invoices then clampFilterText (nv_q s) else [],
      if v = V_Audit then audit_id s else None, reviewNavIds v (nv_step s) (nv_batches s)))"

definition screen_at :: "mode \<Rightarrow> string \<Rightarrow> screen_id" where
  "screen_at m url = (let at' = parseLocation (pathname_of url) (search_of url); v = availableView (pl_view at') m in
     (v, if v = V_Detail then pl_invoiceId at' else if v = V_Extraction then pl_jobId at' else if v = V_Workflows then pl_policyId at' else None,
      if v = V_Settings then Some (availableSettingsTab (pl_settingsTab at') m) else None,
      if v = V_Invoices then pl_q at' else [], if v = V_Audit then pl_auditInvoice at' else None,
      if v = V_Create then pl_reviewBatchIds at' else []))"

lemma parsed_query_clamped: "clampFilterText (pl_q (parseLocation p s)) = pl_q (parseLocation p s)"
proof -
  have "valid_utf8 (case search_get s ''q'' of None \<Rightarrow> [] | Some q \<Rightarrow> q)"
    using valid_search_get by (auto split: option.split)
  note again = clampFilterText_again [OF this]
  have "clampFilterText [] = []" by (simp add: clampFilterText_def)
  with again show ?thesis by (subst (1 2) parseLocation_search) simp
qed

lemma boot_screen: "screen_id (workspace_boot m mount entries i (pathname_of url, search_of url)) = screen_at m url"
  unfolding screen_id_def screen_at_def Let_def boot_state fst_conv snd_conv parsed_query_clamped
  by (simp add: reviewNavIds_def)

lemma screen_at_route:
  assumes "params_ok p" "availableView v m = v"
  shows "screen_at m (routeUrl v p) = (v, if v = V_Detail \<or> v = V_Extraction \<or> v = V_Workflows then rp_id p else None,
     if v = V_Settings then Some (availableSettingsTab (case rp_settingsTab p of None \<Rightarrow> T_Members | Some t \<Rightarrow> t) m) else None,
     if v = V_Invoices then clampFilterText (rp_q p) else [],
     if v = V_Audit then (case rp_auditInvoice p of Some a \<Rightarrow> if canonical_uuid a then Some a else None | None \<Rightarrow> None) else None,
     if v = V_Create then rp_reviewBatchIds p else [])"
  unfolding screen_at_def route_roundtrip [OF assms(1)] Let_def by (simp add: addressed_def assms(2))

lemma screen_at_plain:
  "availableView v m = v \<Longrightarrow> screen_at m (routePath v None) = (v, None, if v = V_Settings then Some T_Members else None, [], None, [])"
  unfolding screen_at_def plain_path Let_def parseLocation_routed [OF parseRoute_path]
  by (simp add: search_get_empty clampFilterText_def availableSettingsTab_def)

definition matches :: "'a nav_scheme \<Rightarrow> bool" where
  "matches s \<longleftrightarrow> screen_at (nv_mode s) (current_url s) = screen_id s"

definition mirror_deps :: "'a nav_scheme \<Rightarrow> view \<times> create_step \<times> string" where
  "mirror_deps s = (nv_view s, nv_step s, batch_key (nv_batches s))"

lemma batch_key_inj:
  assumes "list_all canonical_uuid ids" "list_all canonical_uuid ids'" "batch_key ids = batch_key ids'"
  shows "ids = ids'"
proof -
  have split: "split_on CHR '','' (batch_key ids) = ids" if "list_all canonical_uuid ids" "ids \<noteq> []" for ids
    unfolding batch_key_def using that canonical_uuid_plain(1) by (intro split_on_join) (auto simp: list_all_iff)
  have empty: "batch_key ids = [] \<longleftrightarrow> ids = []" if "list_all canonical_uuid ids" for ids
  proof (cases ids)
    case (Cons i rest)
    then show ?thesis using that split [of ids] by (auto simp: canonical_uuid_def split: if_splits)
  qed (simp add: batch_key_def)
  show ?thesis
  proof (cases "ids = []")
    case True
    then show ?thesis using empty [OF assms(1)] empty [OF assms(2)] assms(3) by simp
  next
    case False
    then have "ids' \<noteq> []" using empty assms by metis
    then show ?thesis using split assms False by metis
  qed
qed


text \<open>The clicks a view offers: no view leads to an invoice or a document by a bare navigation, the audit filter and the settings tabs
  are set on their own screens, and a tab the mode does not have is not offered.\<close>

fun named_event :: "'a nav_scheme \<Rightarrow> nav_event \<Rightarrow> bool" where
  "named_event s (Nav_Click v p) \<longleftrightarrow> v \<noteq> V_Detail \<and> v \<noteq> V_Extraction \<and>
     (case np_settingsTab p of Some t \<Rightarrow> availableSettingsTab t (nv_mode s) = t | None \<Rightarrow> True)"
| "named_event s (Set_Audit_Filter i number) \<longleftrightarrow> nv_view s = V_Audit"
| "named_event s (Set_Settings_Tab t) \<longleftrightarrow> nv_view s = V_Settings \<and> availableSettingsTab t (nv_mode s) = t"
| "named_event s _ \<longleftrightarrow> True"

text \<open>Where the address drifts off the screen. Clearing the header search on an open record, policy or review and
  the locked \<open>New invoice\<close> over a review write an address that does not name what stays on the screen, and deleting the
  policy the builder shows keeps the address of the deleted one. The flag says that the last of these has not been followed by an
  event that writes an address of its own; the wizard's mirror writes one too.\<close>

definition stays :: "'a nav_scheme \<Rightarrow> bool" where
  "stays s \<longleftrightarrow> reviewNavIds (nv_view s) (nv_step s) (nv_batches s) = []"

fun drift :: "'a nav_scheme \<Rightarrow> bool \<Rightarrow> nav_event \<Rightarrow> bool" where
  "drift s b (Nav_Click v p) = (v = V_Create \<and> \<not> stays s)"
| "drift s b (Query_Cleared q) = (\<not> stays s \<or> nv_view s = V_Detail \<or> nv_view s = V_Extraction \<or>
     nv_view s = V_Workflows \<and> nv_policy s \<noteq> None)"
| "drift s b (Policy_Deleted i) = (b \<or> nv_view s = V_Workflows \<and> nv_policy s = Some i)"
| "drift s b (Open_Create_Locked step) = (case step of None \<Rightarrow> \<not> stays s | Some st \<Rightarrow> st = Step_Review)"
| "drift s b (Travel i) = (b \<and> \<not> (i < length (nv_entries s) \<and> i \<noteq> nv_at s))"
| "drift s b (Entered_By_Hand cl fromReview) = (b \<and> \<not> fromReview)"
| "drift s b (Entities_Landed ids) = b"
| "drift s b Toggle_Switcher = b"
| "drift s b (Adopt_Batch entity) = b"
| "drift s b (Step_To step) = b"
| "drift s b Import_Reset = b"
| "drift s b (Review_Lands ids) = b"
| "drift s b Line_Consumed = b"
| "drift s b _ = False"

definition mirrors :: "'a nav_scheme \<Rightarrow> bool" where
  "mirrors s \<longleftrightarrow> nv_view s = V_Create \<and> nv_mirrored s \<noteq> mirror_deps s"

fun drifted :: "nav \<Rightarrow> bool \<Rightarrow> nav_event list \<Rightarrow> bool" where
  "drifted s b [] = b"
| "drifted s b (e # es) = drifted (nav_step s e) (drift s b e \<and> \<not> mirrors (nav_act s e)) es"

definition fits :: "bool \<Rightarrow> 'a nav_scheme \<Rightarrow> bool" where
  "fits b s \<longleftrightarrow> nv_at s < length (nv_entries s) \<and> texts s \<and> availableSettingsTab (nv_settingsTab s) (nv_mode s) = nv_settingsTab s \<and>
     availableView (nv_view s) (nv_mode s) = nv_view s \<and> (b \<or> matches s) \<and> nv_mirrored s = mirror_deps s"

text \<open>What an event leaves to the effects: the address names the screen, or the mirror will run.\<close>

definition nearly :: "bool \<Rightarrow> 'a nav_scheme \<Rightarrow> bool" where
  "nearly b s \<longleftrightarrow> nv_at s < length (nv_entries s) \<and> texts s \<and> availableSettingsTab (nv_settingsTab s) (nv_mode s) = nv_settingsTab s \<and>
     availableView (nv_view s) (nv_mode s) = nv_view s \<and> (nv_view s \<noteq> V_Create \<or> nv_mirrored s = mirror_deps s \<longrightarrow> b \<or> matches s)"

lemma available_again [simp]: "availableView (availableView v m) m = availableView v m"
    "availableSettingsTab (availableSettingsTab t m) m = availableSettingsTab t m" "availableView V_Create m = V_Create"
  by (simp_all add: availableView_def availableSettingsTab_def)

lemma review_address:
  assumes "list_all canonical_uuid ids" "length ids \<le> REVIEW_PATH_MAX_IDS"
  shows "screen_at m (routeUrl V_Create \<lparr>rp_id = None, rp_settingsTab = None, rp_q = [], rp_auditInvoice = None,
      rp_reviewBatchIds = reviewNavIds v st ids\<rparr>) = (V_Create, None, None, [], None, reviewNavIds v st ids)"
  by (subst screen_at_route) (use assms in \<open>simp_all add: params_ok_def reviewNavIds_def\<close>)

lemma stamp_keeps:
  "nv_at (stamp_window s) = nv_at s" "length (nv_entries (stamp_window s)) = length (nv_entries s)" "texts (stamp_window s) = texts s"
  "nv_settingsTab (stamp_window s) = nv_settingsTab s" "nv_mode (stamp_window s) = nv_mode s" "nv_view (stamp_window s) = nv_view s"
  "mirror_deps (stamp_window s) = mirror_deps s" "nv_mirrored (stamp_window s) = nv_mirrored s" "screen_id (stamp_window s) = screen_id s"
  "nv_at s < length (nv_entries s) \<Longrightarrow> current_url (stamp_window s) = current_url s"
  by (auto simp: stamp_window_def texts_def audit_id_def mirror_deps_def screen_id_def current_replaced Let_def)

lemma mirror_keeps_rest:
  "nv_at (mirror_review s) = nv_at s" "length (nv_entries (mirror_review s)) = length (nv_entries s)" "texts (mirror_review s) = texts s"
  "nv_settingsTab (mirror_review s) = nv_settingsTab s" "nv_mode (mirror_review s) = nv_mode s" "nv_view (mirror_review s) = nv_view s"
  "mirror_deps (mirror_review s) = mirror_deps s" "nv_mirrored (mirror_review s) = mirror_deps s" "screen_id (mirror_review s) = screen_id s"
  by (auto simp: mirror_review_def texts_def audit_id_def mirror_deps_def screen_id_def Let_def)

lemma commit_fits:
  assumes "nearly b s"
  shows "fits (b \<and> \<not> mirrors s) (commit s)"
proof -
  define w where "w = stamp_window s"
  have w: "nearly b w" using assms by (simp add: nearly_def w_def stamp_keeps matches_def)
  have "b \<and> \<not> mirrors s \<or> matches (mirror_review w)"
  proof (cases "nv_view w \<noteq> V_Create \<or> nv_mirrored w = mirror_deps w")
    case True
    from True have "current_url (mirror_review w) = current_url w" by (auto simp: mirror_review_def mirror_deps_def Let_def)
    moreover have "\<not> mirrors s" using True by (simp add: mirrors_def w_def stamp_keeps)
    ultimately show ?thesis using True w by (auto simp: matches_def mirror_keeps_rest nearly_def)
  next
    case False
    then have "current_url (mirror_review w) = routeUrl V_Create \<lparr>rp_id = None, rp_settingsTab = None, rp_q = [], rp_auditInvoice = None,
        rp_reviewBatchIds = reviewNavIds (nv_view w) (nv_step w) (nv_batches w)\<rparr>"
      using w by (auto simp: mirror_review_def mirror_deps_def Let_def nearly_def current_replaced)
    then show ?thesis
      using False w by (simp add: matches_def mirror_keeps_rest review_address nearly_def texts_def) (simp add: screen_id_def Let_def)
  qed
  then show ?thesis using w by (simp add: commit_def w_def [symmetric] fits_def nearly_def mirror_keeps_rest)
qed


lemma navigated_screen:
  assumes "good_params cl p" "nv_at s < length (nv_entries s)" "nv_mode s = m"
  shows "screen_at m (current_url (navigate cl v p s)) = (availableView v m,
     if v = V_Detail \<or> v = V_Extraction \<or> v = V_Workflows then np_id p else None,
     if v = V_Settings then Some (availableSettingsTab (case np_settingsTab p of Some t \<Rightarrow> t | None \<Rightarrow> cl_settingsTab cl) m) else None,
     if v = V_Invoices then clampFilterText (case np_q p of Some q \<Rightarrow> q | None \<Rightarrow> cl_q cl) else [],
     if v = V_Audit then np_auditInvoice p else None, [])"
proof -
  have "good_filter (np_auditInvoice p)" using assms(1) by (simp add: good_params_def)
  then have audit: "(case np_auditInvoice p of Some a \<Rightarrow> if canonical_uuid a then Some a else None | None \<Rightarrow> None) = np_auditInvoice p"
    by (auto simp: good_filter_def split: option.splits)
  show ?thesis
    unfolding assms(3) [symmetric] current_navigated [OF assms(2)] navigated_url_def
    by (subst screen_at_route [OF navigated_params [OF assms(1)]]) (simp_all add: audit)
qed

lemma state_address:
  assumes "good_filter a" "valid_utf8 q" "availableView v m = v"
  shows "screen_at m (routeUrl (v) (url_params None tab q a [])) = (v, None,
     if v = V_Settings then Some (availableSettingsTab tab m) else None,
     if v = V_Invoices then clampFilterText q else [], if v = V_Audit then a else None, [])"
proof -
  have audit: "(case a of Some a \<Rightarrow> if canonical_uuid a then Some a else None | None \<Rightarrow> None) = a"
    using assms(1) by (auto simp: good_filter_def split: option.splits)
  have ok: "params_ok (url_params None tab q a [])"
    using assms(1,2) by (auto simp: good_filter_def REVIEW_PATH_MAX_IDS_def split: option.split)
  show ?thesis by (subst screen_at_route [OF ok assms(3)]) (simp add: audit)
qed

lemma nearly_same:
  assumes "fits b s" "texts s'" "nv_at s' = nv_at s" "nv_entries s' = nv_entries s" "nv_mode s' = nv_mode s" "nv_view s' = nv_view s"
    "nv_settingsTab s' = nv_settingsTab s" "nv_mirrored s' = nv_mirrored s"
    "nv_view s = V_Create \<and> mirror_deps s' = mirror_deps s \<or> nv_view s \<noteq> V_Create \<Longrightarrow> \<not> c \<Longrightarrow> screen_id s' = screen_id s"
    "b \<Longrightarrow> c"
  shows "nearly c s'"
  using assms by (cases c) (auto simp: nearly_def fits_def matches_def current_url_def current_entry_def)

lemma parsed_review_view: "pl_reviewBatchIds (parseLocation p q) \<noteq> [] \<Longrightarrow> pl_view (parseLocation p q) = V_Create"
proof -
  have "\<not> starts_with REVIEW_PATH_PREFIX ''/settings/buyers''" by (simp add: REVIEW_PATH_PREFIX_def starts_with_def)
  moreover have "settings_segment n = None" if "starts_with REVIEW_PATH_PREFIX n" for n
  proof -
    have "n ! 1 = CHR ''i''"
    proof -
      have "take 9 n = ''/imports/''" using that by (simp add: REVIEW_PATH_PREFIX_def starts_with_def eval_nat_numeral)
      then have "take 9 n ! 1 = CHR ''i''" by simp
      then show ?thesis by simp
    qed
    moreover have "n ! 1 = CHR ''s''" if "take 10 n = ''/settings/''"
    proof -
      have "take 10 n ! 1 = CHR ''s''" using that by simp
      then show ?thesis by simp
    qed
    ultimately have "take 10 n \<noteq> ''/settings/''" by auto
    then show ?thesis by (simp add: settings_segment_def starts_with_def eval_nat_numeral)
  qed
  ultimately show "pl_reviewBatchIds (parseLocation p q) \<noteq> [] \<Longrightarrow> pl_view (parseLocation p q) = V_Create"
    unfolding parseLocation_def Let_def by (auto split: option.splits if_split_asm prod.splits)
qed


lemma nearly_popstate:
  assumes at': "nv_at s < length (nv_entries s)" and texts: "texts s"
  shows "nearly c (onPopState s)"
proof -
  define st where "st = en_stamp (current_entry s)"
  define minted where "minted = (if isWindowEntry (nv_mount s) st then nv_bootRef s else Option.bind st st_e)"
  define stale where "stale = (minted \<noteq> None \<and> nv_hereRef s \<noteq> None \<and> minted \<noteq> nv_hereRef s)"
  define path where "path = (if stale then routePath (carryView (pl_view (parseLocation (pathname_of (current_url s)) []))) None
    else pathname_of (current_url s))"
  define search where "search = (if stale then [] else search_of (current_url s))"
  define s1 where "s1 = (if stale then replaceState \<lparr>st_e = nv_hereRef s, st_m = None, st_p = False\<rparr> path s else s)"
  define seen where "seen = parseLocation path search"
  define r where "r = onPopState s"
  have r: "nv_view r = availableView (pl_view seen) (nv_mode s)" "nv_detail r = pl_invoiceId seen" "nv_job r = pl_jobId seen"
    "nv_policy r = pl_policyId seen" "nv_settingsTab r = availableSettingsTab (pl_settingsTab seen) (nv_mode s)" "nv_q r = pl_q seen"
    "audit_id r = pl_auditInvoice seen" "nv_mode r = nv_mode s" "nv_at r = nv_at s1" "nv_entries r = nv_entries s1"
    "nv_batches r = (if pl_reviewBatchIds seen \<noteq> [] then pl_reviewBatchIds seen else if pl_view seen = V_Create then [] else nv_batches s)"
    "nv_step r = (if pl_reviewBatchIds seen \<noteq> [] then Step_Review
       else if pl_view seen = V_Create then (if nv_step s = Step_Review then Step_Upload else nv_step s) else nv_step s)"
    unfolding r_def onPopState_def Let_def st_def [symmetric] minted_def [symmetric] stale_def [symmetric]
    by (simp_all add: seen_def s1_def path_def search_def audit_id_def audit_kept)
  have url: "pathname_of (current_url r) = path \<and> search_of (current_url r) = search"
    using at' by (simp add: current_url_def current_entry_def r s1_def path_def search_def plain_path)
  have review: "pl_reviewBatchIds seen \<noteq> [] \<Longrightarrow> pl_view seen = V_Create" unfolding seen_def by (rule parsed_review_view)
  have query: "clampFilterText (pl_q seen) = pl_q seen" by (simp add: seen_def parsed_query_clamped)
  have "reviewNavIds (nv_view r) (nv_step r) (nv_batches r) = (if nv_view r = V_Create then pl_reviewBatchIds seen else [])"
    by (auto simp: reviewNavIds_def r(1,11,12))
  then have "matches r"
    unfolding matches_def screen_at_def screen_id_def Let_def url [THEN conjunct1] url [THEN conjunct2] seen_def [symmetric]
    by (simp add: r(1-8) query)
  then show ?thesis
    using at' texts_popstate [OF texts] unfolding r_def [symmetric] by (simp add: nearly_def r s1_def)
qed

lemma good_closure_params:
  "texts s \<Longrightarrow> good_closure cl \<Longrightarrow> (case i of None \<Rightarrow> True | Some i \<Rightarrow> good_id i) \<Longrightarrow>
   good_params (case cl of None \<Rightarrow> closure_of s | Some c \<Rightarrow> c) (no_params\<lparr>np_id := i\<rparr>)"
  using good_closure_of [of s cl] by (simp add: good_params_def no_params_def)

lemma nearlyI:
  assumes "nv_at s < length (nv_entries s)" "texts s" "availableSettingsTab (nv_settingsTab s) (nv_mode s) = nv_settingsTab s"
    "availableView (nv_view s) (nv_mode s) = nv_view s" "screen_at (nv_mode s) (current_url s) = scr"
    "\<not> c \<Longrightarrow> nv_view s \<noteq> V_Create \<or> nv_mirrored s = mirror_deps s \<Longrightarrow> screen_id s = scr"
  shows "nearly c s"
  using assms by (cases c) (auto simp: nearly_def matches_def)

lemma fits_parts:
  assumes "fits b s"
  shows "nv_at s < length (nv_entries s)" "texts s" "availableSettingsTab (nv_settingsTab s) (nv_mode s) = nv_settingsTab s"
    "availableView (nv_view s) (nv_mode s) = nv_view s" "b \<or> screen_at (nv_mode s) (current_url s) = screen_id s" "nv_mirrored s = mirror_deps s"
  using assms by (simp_all add: fits_def matches_def)

lemma navigate_length: "nv_at s < length (nv_entries s) \<Longrightarrow> length (nv_entries (navigate cl v p s)) = Suc (Suc (nv_at s))"
  by (simp add: navigate_entries)

lemma nearly_navigate:
  fixes s s' :: "'a nav_scheme"
  assumes fits: "fits b s" and ok: "good_params cl p" and texts': "texts s'"
    and tab: "case np_settingsTab p of Some t \<Rightarrow> availableSettingsTab t (nv_mode s) = t | None \<Rightarrow> True" "v = V_Settings \<Longrightarrow> cl = closure_of s"
    and here: "nv_at s' < length (nv_entries s')" "current_url s' = navigated_url cl v p s"
    and same: "nv_mode s' = nv_mode s"
      "nv_view s' = availableView v (nv_mode s)" "nv_mirrored s' = nv_mirrored s"
      "nv_settingsTab s' = (case np_settingsTab p of Some t \<Rightarrow> t | None \<Rightarrow> nv_settingsTab s)"
    and ident: "v = V_Detail \<Longrightarrow> nv_detail s' = np_id p" "v = V_Extraction \<Longrightarrow> nv_job s' = np_id p" "v = V_Workflows \<Longrightarrow> nv_policy s' = np_id p"
    and q: "v = V_Invoices \<Longrightarrow> nv_q s' = (case np_q p of Some q \<Rightarrow> q | None \<Rightarrow> cl_q cl)"
    and audit: "v = V_Audit \<Longrightarrow> audit_id s' = np_auditInvoice p"
    and create: "\<not> c \<Longrightarrow> v = V_Create \<Longrightarrow> nv_mirrored s = mirror_deps s' \<Longrightarrow> reviewNavIds V_Create (nv_step s') (nv_batches s') = []"
  shows "nearly c s'"
proof (rule nearlyI [OF _ texts'])
  note st = fits_parts [OF fits]
  show "nv_at s' < length (nv_entries s')" by (rule here(1))
  show "availableView (nv_view s') (nv_mode s') = nv_view s'" by (simp add: same)
  show "availableSettingsTab (nv_settingsTab s') (nv_mode s') = nv_settingsTab s'"
    using tab(1) st(3) by (simp add: same split: option.splits)
  show "screen_at (nv_mode s') (current_url s') = (availableView v (nv_mode s),
     if v = V_Detail \<or> v = V_Extraction \<or> v = V_Workflows then np_id p else None,
     if v = V_Settings then Some (availableSettingsTab (case np_settingsTab p of Some t \<Rightarrow> t | None \<Rightarrow> cl_settingsTab cl) (nv_mode s)) else None,
     if v = V_Invoices then clampFilterText (case np_q p of Some q \<Rightarrow> q | None \<Rightarrow> cl_q cl) else [],
     if v = V_Audit then np_auditInvoice p else None, [])"
    by (simp add: navigated_screen [OF ok st(1) refl, unfolded current_navigated [OF st(1)]] same here(2))
  have settings: "v = V_Settings \<Longrightarrow> nv_settingsTab s' = availableSettingsTab (case np_settingsTab p of Some t \<Rightarrow> t | None \<Rightarrow> cl_settingsTab cl) (nv_mode s)"
    using tab st(3) by (simp add: same closure_of_def split: option.splits)
  assume "\<not> c" "nv_view s' \<noteq> V_Create \<or> nv_mirrored s' = mirror_deps s'"
  then have review: "reviewNavIds (availableView v (nv_mode s)) (nv_step s') (nv_batches s') = []"
    using create by (cases "v = V_Create") (auto simp: same reviewNavIds_def)
  show "screen_id s' = (availableView v (nv_mode s),
     if v = V_Detail \<or> v = V_Extraction \<or> v = V_Workflows then np_id p else None,
     if v = V_Settings then Some (availableSettingsTab (case np_settingsTab p of Some t \<Rightarrow> t | None \<Rightarrow> cl_settingsTab cl) (nv_mode s)) else None,
     if v = V_Invoices then clampFilterText (case np_q p of Some q \<Rightarrow> q | None \<Rightarrow> cl_q cl) else [],
     if v = V_Audit then np_auditInvoice p else None, [])"
    using ident q audit settings by (simp add: screen_id_def same(2) review)
qed


lemma navigated_frame [simp]:
  "navigated_url cl v p (s\<lparr>nv_audit := a\<rparr>) = navigated_url cl v p s" "navigated_url cl v p (s\<lparr>nv_job := j\<rparr>) = navigated_url cl v p s"
  "navigated_url cl v p (s\<lparr>nv_jobInvoices := ji\<rparr>) = navigated_url cl v p s"
  "navigated_url cl v p (replaceState st url (s\<lparr>nv_pick := pk\<rparr>)) = navigated_url cl v p s"
  by (simp_all add: navigated_url_def)

lemma audit_frame [simp]:
  "audit_id (s\<lparr>nv_switcher := b\<rparr>) = audit_id s" "audit_id (s\<lparr>nv_step := st\<rparr>) = audit_id s" "audit_id (s\<lparr>nv_batches := ids\<rparr>) = audit_id s"
  "audit_id (s\<lparr>nv_detail := d\<rparr>) = audit_id s" "audit_id (s\<lparr>nv_line := l\<rparr>) = audit_id s" "audit_id (s\<lparr>nv_policy := pol\<rparr>) = audit_id s"
  "audit_id (s\<lparr>nv_job := j\<rparr>) = audit_id s" "audit_id (s\<lparr>nv_jobInvoices := ji\<rparr>) = audit_id s" "audit_id (s\<lparr>nv_q := q\<rparr>) = audit_id s"
  "audit_id (s\<lparr>nv_settingsTab := tab\<rparr>) = audit_id s"
  by (simp_all add: audit_id_def)

lemma params_sel [simp]: "np_id no_params = None" "np_settingsTab no_params = None" "np_q no_params = None" "np_auditInvoice no_params = None"
  by (simp_all add: no_params_def)

lemma reviewNavIds_none: "reviewNavIds v st ids = [] \<longleftrightarrow> v \<noteq> V_Create \<or> st \<noteq> Step_Review \<or> ids = []"
  by (simp add: reviewNavIds_def)

lemmas navigate_facts = good_params_def closure_of_def texts_def current_navigated navigate_length stays_def reviewNavIds_none mirror_deps_def

lemma nearly_nav:
  assumes fits: "fits b s" and good: "good_texts (Nav_Click v p)" and named: "named_event s (Nav_Click v p)"
  shows "nearly (drift s b (Nav_Click v p)) (nav_act s (Nav_Click v p))"
proof (rule nearly_navigate [OF fits])
  note st = fits_parts [OF fits]
  show "good_params (closure_of s) p" using good st(2) by (auto simp: good_params_def closure_of_def texts_def split: option.splits)
  show "texts (nav_act s (Nav_Click v p))" using st(2) good by (rule texts_act)
qed (use fits_parts [OF fits] named in \<open>auto simp: nav_to_def navigate_facts split: option.splits\<close>)

lemma nearly_simple:
  assumes fits: "fits b s" and good: "good_texts e" and named: "named_event s e"
  shows "e = Search q \<Longrightarrow> nearly (drift s b e) (nav_act s e)" "e = Close_Create \<Longrightarrow> nearly (drift s b e) (nav_act s e)" "e = Close_Policy \<Longrightarrow> nearly (drift s b e) (nav_act s e)"
    "e = Open_Create \<Longrightarrow> nearly (drift s b e) (nav_act s e)" "e = Open_Create_Locked step \<Longrightarrow> nearly (drift s b e) (nav_act s e)" "e = Open_Audit i n \<Longrightarrow> nearly (drift s b e) (nav_act s e)"
proof -
  note st = fits_parts [OF fits]
  have texts': "texts (nav_act s e)" using st(2) good by (rule texts_act)
  note by_navigate = nearly_navigate [OF fits, of "closure_of s"]
  show "e = Search q \<Longrightarrow> nearly (drift s b e) (nav_act s e)"
    by (rule by_navigate [where v = V_Invoices and p = "no_params\<lparr>np_q := Some q\<rparr>"])
      (use st texts' good in \<open>auto simp: searchInvoices_def navigate_facts\<close>)
  show "e = Close_Create \<Longrightarrow> nearly (drift s b e) (nav_act s e)"
    by (rule by_navigate [where v = V_Invoices and p = no_params]) (use st texts' in \<open>auto simp: navigate_facts\<close>)
  show "e = Close_Policy \<Longrightarrow> nearly (drift s b e) (nav_act s e)"
    by (rule by_navigate [where v = V_Workflows and p = no_params]) (use st texts' in \<open>auto simp: navigate_facts\<close>)
  show "e = Open_Create \<Longrightarrow> nearly (drift s b e) (nav_act s e)"
    by (rule by_navigate [where v = V_Create and p = no_params]) (use st texts' in \<open>auto simp: fresh_create_def navigate_facts\<close>)
  show "e = Open_Create_Locked step \<Longrightarrow> nearly (drift s b e) (nav_act s e)"
    by (rule by_navigate [where v = V_Create and p = no_params])
      (use st texts' named in \<open>auto simp: navigate_facts split: option.splits\<close>)
  show "e = Open_Audit i n \<Longrightarrow> nearly (drift s b e) (nav_act s e)"
    by (rule by_navigate [where v = V_Audit and p = "no_params\<lparr>np_auditInvoice := Some i\<rparr>"])
      (use st texts' good in \<open>auto simp: openAuditForInvoice_def navigate_facts\<close>)
qed

lemma nearly_open:
  fixes s :: "'a nav_scheme"
  assumes fits: "fits b s" and good: "good_texts e"
  shows "e = Open_Invoice cl i line \<Longrightarrow> nearly (drift s b e) (nav_act s e)" "e = Open_Extraction cl i inv' \<Longrightarrow> nearly (drift s b e) (nav_act s e)"
    "e = Open_Policy cl i \<Longrightarrow> nearly (drift s b e) (nav_act s e)" "e = Entered_By_Hand cl h \<Longrightarrow> h \<Longrightarrow> nearly (drift s b e) (nav_act s e)"
proof -
  note st = fits_parts [OF fits]
  have texts': "texts (nav_act s e)" using st(2) good by (rule texts_act)
  define c where "c = (case cl of None \<Rightarrow> closure_of s | Some c \<Rightarrow> c)"
  have ok: "good_params c (no_params\<lparr>np_id := Some i\<rparr>)" if "good_id i" "good_closure cl" for i
    using good_closure_params [OF st(2) that(2), of "Some i"] that by (simp add: c_def)
  have ok': "good_params c no_params" if "good_closure cl" using good_closure_of [OF st(2) that] by (simp add: c_def good_params_def)
  note by_navigate = nearly_navigate [OF fits, of c]
  show "e = Open_Invoice cl i line \<Longrightarrow> nearly (drift s b e) (nav_act s e)"
    by (rule by_navigate [where v = V_Detail and p = "no_params\<lparr>np_id := Some i\<rparr>"])
      (use st texts' good ok in \<open>auto simp: openImportedInvoice_def current_navigated navigate_length c_def [symmetric]\<close>)
  show "e = Open_Extraction cl i inv' \<Longrightarrow> nearly (drift s b e) (nav_act s e)"
    by (rule by_navigate [where v = V_Extraction and p = "no_params\<lparr>np_id := Some i\<rparr>"])
      (use st texts' good ok in \<open>auto simp: openExtraction_def current_navigated navigate_length c_def [symmetric]\<close>)
  show "e = Open_Policy cl i \<Longrightarrow> nearly (drift s b e) (nav_act s e)"
    by (rule by_navigate [where v = V_Workflows and p = "no_params\<lparr>np_id := Some i\<rparr>"])
      (use st texts' good ok in \<open>auto simp: openPolicy_def current_navigated navigate_length c_def [symmetric]\<close>)
  show "e = Entered_By_Hand cl h \<Longrightarrow> h \<Longrightarrow> nearly (drift s b e) (nav_act s e)"
    by (rule by_navigate [where v = V_Create and p = no_params])
      (use st texts' good ok' in \<open>auto simp: current_navigated navigate_length reviewNavIds_none c_def [symmetric]\<close>)
qed


lemma nearly_switch:
  assumes fits: "fits b s"
  shows "nearly c (nav_act s (Switch_Client i))"
proof (rule nearly_navigate [OF fits, where v = V_Dashboard and p = no_params and cl = "closure_of s"])
  note st = fits_parts [OF fits]
  show "texts (nav_act s (Switch_Client i))" using st(2) by (rule texts_act) simp
qed (use fits_parts [OF fits] in \<open>auto simp: switchClient_def navigate_facts\<close>)

lemma nearly_corrected:
  assumes fits: "fits b s" and good: "good_texts e" and named: "named_event s e"
  shows "e = Query_Cleared q \<Longrightarrow> nearly (drift s b e) (nav_act s e)" "e = Set_Audit_Filter a n \<Longrightarrow> nearly (drift s b e) (nav_act s e)"
    "e = Set_Settings_Tab t \<Longrightarrow> nearly (drift s b e) (nav_act s e)"
proof -
  note st = fits_parts [OF fits]
  have texts': "texts (nav_act s e)" using st(2) good by (rule texts_act)
  have tx: "valid_utf8 (nv_q s)" "good_filter (audit_id s)" using st(2) by (simp_all add: texts_def)
  show "nearly (drift s b e) (nav_act s e)" if e: "e = Query_Cleared q"
  proof (rule nearlyI [OF _ texts'])
    show "screen_at (nv_mode (nav_act s e)) (current_url (nav_act s e)) = (nv_view s, None,
        if nv_view s = V_Settings then Some (nv_settingsTab s) else None,
        if nv_view s = V_Invoices then clampFilterText q else [], if nv_view s = V_Audit then audit_id s else None, [])"
      using st(1,3,4) tx good by (simp add: e setInvoiceQuery_def current_replaced state_address)
    assume "\<not> drift s b e"
    then show "screen_id (nav_act s e) = (nv_view s, None,
        if nv_view s = V_Settings then Some (nv_settingsTab s) else None,
        if nv_view s = V_Invoices then clampFilterText q else [], if nv_view s = V_Audit then audit_id s else None, [])"
      by (auto simp: e setInvoiceQuery_def screen_id_def stays_def Let_def audit_id_def)
  qed (use st in \<open>simp_all add: e setInvoiceQuery_def\<close>)
  show "nearly (drift s b e) (nav_act s e)" if e: "e = Set_Audit_Filter a n"
  proof -
    have view: "nv_view s = V_Audit" and a: "good_filter a" using named good e by simp_all
    have "a \<noteq> Some []" using a by (auto simp: canonical_uuid_def)
    then have "audit_id (nav_act s e) = a" by (simp add: e setAuditInvoiceFilter_def audit_id_def split: option.split)
    moreover have "screen_at (nv_mode s) (current_url (nav_act s e)) = (V_Audit, None, None, [], a, [])"
      using state_address [OF a tx(1) st(4)] st(1) by (simp add: e setAuditInvoiceFilter_def current_replaced view)
    ultimately show ?thesis
      using st texts' by (intro nearlyI [where scr = "(V_Audit, None, None, [], a, [])"])
        (simp_all add: e setAuditInvoiceFilter_def screen_id_def view reviewNavIds_def)
  qed
  show "e = Set_Settings_Tab t \<Longrightarrow> nearly (drift s b e) (nav_act s e)"
    by (rule nearlyI [OF _ texts'])
      (use st tx named in \<open>auto simp: setSettingsTab_def current_replaced state_address screen_id_def reviewNavIds_def availableView_def Let_def\<close>)
qed

lemma nearly_act:
  assumes fits: "fits b s" and good: "good_texts e" and named: "named_event s e"
  shows "nearly (drift s b e) (nav_act s e)"
proof -
  note st = fits_parts [OF fits]
  have self: "nearly b s" using fits by (simp add: fits_def nearly_def)
  have texts': "texts (nav_act s e)" using st(2) good by (rule texts_act)
  note same = nearly_same [OF fits]
  show ?thesis
  proof (cases e)
    case (Travel i)
    have "nearly c (onPopState (s\<lparr>nv_at := i\<rparr>))" if "i < length (nv_entries s)" for c
      using that st(2) by (intro nearly_popstate) (simp_all add: texts_def audit_id_def)
    then show ?thesis using Travel self by simp
  next
    case (Adopt_Batch entity)
    have "current_url (nav_act s e) = current_url s" "screen_id (nav_act s e) = screen_id s"
      using st(1) Adopt_Batch by (simp_all add: adoptBatchClient_def current_replaced screen_id_def Let_def audit_id_def)
    then show ?thesis using st texts' Adopt_Batch by (intro nearlyI [where scr = "screen_at (nv_mode s) (current_url s)"]) (auto simp: adoptBatchClient_def)
  next
    case (Nav_Click v p)
    then show ?thesis using nearly_nav fits good named by blast
  next
    case (Review_Lands ids)
    have "ids = nv_batches s" if "batch_key ids = batch_key (nv_batches s)"
      using that good st(2) Review_Lands by (intro batch_key_inj) (simp_all add: texts_def)
    then show ?thesis using Review_Lands texts' by (intro same) (auto simp: mirror_deps_def screen_id_def reviewNavIds_def audit_id_def Let_def)
  next
    case (Entered_By_Hand cl h)
    show ?thesis
    proof (cases h)
      case False
      then show ?thesis using Entered_By_Hand texts'
        by (intro same) (auto simp: mirror_deps_def screen_id_def reviewNavIds_def audit_id_def Let_def)
    qed (use nearly_open(4) [OF fits good Entered_By_Hand] in simp)
  next
    case Import_Reset
    have "nv_batches s = []" if "batch_key [] = batch_key (nv_batches s)"
      using that st(2) batch_key_inj [of "[]" "nv_batches s"] by (simp add: texts_def)
    then show ?thesis using Import_Reset texts' by (intro same) (auto simp: mirror_deps_def screen_id_def reviewNavIds_def audit_id_def Let_def)
  next
    case (Policy_Deleted i)
    then show ?thesis using texts' named
      by (intro same) (auto simp: deletePolicy_def mirror_deps_def screen_id_def reviewNavIds_def audit_id_def Let_def)
  next
    case (Step_To step)
    then show ?thesis using texts' by (intro same) (auto simp: mirror_deps_def screen_id_def reviewNavIds_def audit_id_def Let_def)
  next
    case (Entities_Landed ids)
    then show ?thesis using texts' by (intro same) (auto simp: mirror_deps_def screen_id_def audit_id_def Let_def)
  next
    case Toggle_Switcher
    then show ?thesis using texts' by (intro same) (auto simp: mirror_deps_def screen_id_def audit_id_def Let_def)
  next
    case Line_Consumed
    then show ?thesis using texts' by (intro same) (auto simp: mirror_deps_def screen_id_def audit_id_def Let_def)
  qed (use nearly_simple [OF fits good named] nearly_open(1-3) [OF fits good] nearly_switch [OF fits] nearly_corrected [OF fits good named]
      in blast)+
qed


lemma boot_fits:
  assumes at': "i < length entries"
  shows "fits b (workspace_boot m mount entries i loc)"
proof -
  define b where "b = workspace_boot m mount entries i loc"
  define seed where "seed = parseLocation (fst loc) (snd loc)"
  note st = boot_state [of m mount entries i loc, folded b_def seed_def]
  have ok: "params_ok (boot_params m seed)" unfolding seed_def by (rule boot_params_ok)
  have view: "availableView (nv_view b) m = nv_view b" by (simp add: st)
  have filt: "(case pl_auditInvoice seed of Some a \<Rightarrow> if canonical_uuid a then Some a else None | None \<Rightarrow> None) = pl_auditInvoice seed"
    using parsed_texts(3) by (auto simp: seed_def split: option.split)
  have "reviewNavIds V_Create (nv_step b) (nv_batches b) = nv_batches b" unfolding st(16) by (rule reviewed_ids)
  then have rev: "reviewNavIds (nv_view b) (nv_step b) (nv_batches b) = (if nv_view b = V_Create then pl_reviewBatchIds seed else [])"
    using st(12) by (cases "nv_view b = V_Create") (simp_all add: reviewNavIds_none)
  have bp: "boot_params m seed = (if nv_view b = V_Create then \<lparr>rp_id = None, rp_settingsTab = None, rp_q = [], rp_auditInvoice = None,
       rp_reviewBatchIds = pl_reviewBatchIds seed\<rparr>
     else url_params (if nv_view b = V_Detail then pl_invoiceId seed else if nv_view b = V_Extraction then pl_jobId seed
         else if nv_view b = V_Workflows then pl_policyId seed else None)
       (availableSettingsTab (pl_settingsTab seed) m) (pl_q seed) (pl_auditInvoice seed) [])"
    by (simp only: boot_params_def Let_def st(7))
  have "current_url b = routeUrl (nv_view b) (boot_params m seed)"
    using boot_url [OF at', of m mount loc] by (simp add: b_def seed_def boot_state)
  moreover have "screen_at m (routeUrl (nv_view b) (boot_params m seed)) = screen_id b"
    unfolding screen_at_route [OF ok view] unfolding bp screen_id_def Let_def
    unfolding rev by (cases "nv_view b") (simp_all add: st(8-11,14,15) filt)
  ultimately have "matches b" by (simp add: matches_def st)
  then show ?thesis
    unfolding b_def [symmetric] using at' boot_texts [of m mount entries i loc, folded b_def]
    by (simp add: fits_def st mirror_deps_def)
qed

lemma nav_step_mode: "nv_mode (nav_step s e) = nv_mode s"
proof -
  have "nv_mode (onPopState s) = nv_mode s" for s :: "'a nav_scheme" by (simp add: onPopState_def Let_def)
  then have "nv_mode (nav_act s e) = nv_mode s"
    by (cases e) (simp_all add: nav_to_def searchInvoices_def setInvoiceQuery_def adoptBatchClient_def switchClient_def
      openImportedInvoice_def openAuditForInvoice_def setAuditInvoiceFilter_def openExtraction_def setSettingsTab_def openPolicy_def
      deletePolicy_def fresh_create_def)
  then show ?thesis by (simp add: nav_step_def commit_def mirror_keeps_rest stamp_keeps)
qed

definition named_ok :: "nav \<Rightarrow> nav_event \<Rightarrow> bool" where
  "named_ok s e \<longleftrightarrow> good_texts e \<and> named_event s e"

text \<open>C5: a reload. After any clicks, answers and moves through the history that the views offer, booting the workspace at the address
  in the address bar gives the same view with the same record, settings tab, search, audit filter and review. It does not
  only where the address has drifted: the search was cleared over an open record, policy or review, the policy on the screen was deleted, or the locked
  \<open>New invoice\<close> was clicked over a review, and no event has written an address since.\<close>

theorem reload_same_screen:
  assumes "i < length entries" "admitted named_ok (workspace_boot m mount entries i loc) es"
    and "s = foldl nav_step (workspace_boot m mount entries i loc) es"
  shows "drifted (workspace_boot m mount entries i loc) False es \<or>
    screen_id (workspace_boot m mount' entries' i' (pathname_of (current_url s), search_of (current_url s))) = screen_id s"
proof -
  have "fits (drifted s0 b es) (foldl nav_step s0 es) \<and> nv_mode (foldl nav_step s0 es) = nv_mode s0"
    if "fits b s0" "admitted named_ok s0 es" for s0 b
    using that
  proof (induction es arbitrary: s0 b)
    case (Cons e es)
    then have "nearly (drift s0 b e) (nav_act s0 e)" by (intro nearly_act) (simp_all add: named_ok_def)
    from commit_fits [OF this] Cons show ?case by (simp add: nav_step_def [symmetric] nav_step_mode)
  qed simp
  from this [OF boot_fits [OF assms(1)] assms(2), of False] show ?thesis
    by (auto simp: assms(3) boot_screen boot_state fits_def matches_def)
qed


definition demo_history :: "history_entry list" where "demo_history = [\<lparr>en_url = ''/'', en_stamp = None\<rparr>]"

definition demo_clicks :: "nav_event list" where
  "demo_clicks = [Entities_Landed [''a'', ''b''], Open_Invoice None ''x'' None, Switch_Client ''b'', Travel 1]"

definition demo_owner :: "string \<Rightarrow> string option" where "demo_owner i = (if i = ''x'' then Some ''a'' else None)"

lemma demo_admitted:
  "admitted (own_ok demo_owner) (workspace_boot Firm_Mode ''m'' demo_history 0 (''/'', [])) demo_clicks"
  "admitted named_ok (workspace_boot Firm_Mode ''m'' demo_history 0 (''/'', [])) demo_clicks"
  by code_simp+


definition demo_end :: nav where
  "demo_end = foldl nav_step (workspace_boot Firm_Mode ''m'' demo_history 0 (''/'', [])) demo_clicks"


theorem reload_witness:
  "screen_id (workspace_boot Firm_Mode ''n'' demo_history 0 (pathname_of (current_url demo_end), search_of (current_url demo_end)))
     = screen_id demo_end"
proof -
  have "0 < length demo_history" by (simp add: demo_history_def)
  from reload_same_screen [OF this demo_admitted(2) demo_end_def]
  have "drifted (workspace_boot Firm_Mode ''m'' demo_history 0 (''/'', [])) False demo_clicks \<or> ?thesis" .
  moreover have "\<not> drifted (workspace_boot Firm_Mode ''m'' demo_history 0 (''/'', [])) False demo_clicks" by code_simp
  ultimately show ?thesis by blast
qed

text \<open>Where the address stops naming the screen: clearing the search from the header over an open invoice rewrites its
  address to one that names no invoice, and the invoice stays on the screen.\<close>

lemma cleared_search_drops_record:
  assumes "nv_view s = V_Detail" "nv_detail s = Some i" "nv_at s < length (nv_entries s)" "texts s" "valid_utf8 q"
  shows "nv_detail (setInvoiceQuery q s) = Some i" "nv_view (setInvoiceQuery q s) = V_Detail"
    "pl_invoiceId (parseLocation (pathname_of (current_url (setInvoiceQuery q s))) (search_of (current_url (setInvoiceQuery q s)))) = None"
proof -
  show "nv_detail (setInvoiceQuery q s) = Some i" "nv_view (setInvoiceQuery q s) = V_Detail"
    using assms by (simp_all add: setInvoiceQuery_def)
  have ok: "params_ok (url_params None (nv_settingsTab s) q (audit_id s) [])"
    using assms(4,5) by (auto simp: texts_def good_filter_def REVIEW_PATH_MAX_IDS_def split: option.split)
  have "current_url (setInvoiceQuery q s) = routeUrl V_Detail (url_params None (nv_settingsTab s) q (audit_id s) [])"
    using assms(1,3) by (simp add: setInvoiceQuery_def current_replaced)
  then show "pl_invoiceId (parseLocation (pathname_of (current_url (setInvoiceQuery q s))) (search_of (current_url (setInvoiceQuery q s)))) = None"
    by (simp add: route_roundtrip [OF ok] addressed_def)
qed

end
