(* ===== verification/Import_Transport.thy ===== *)
theory Import_Transport
  imports Api_Client
begin

text \<open>
  The requests of the import wizard (\<open>lib/importApi.ts\<close>): \<open>xhrJson\<close>, the one transport of its multipart
  uploads, as a machine of the events its \<open>XMLHttpRequest\<close> and its token getter raise, the three uploads built
  on it and the JSON requests beside it. A response's parsed body, as in \<open>Api_Client\<close>, is part of the event.
  What happens is logged in order: what is sent, each phase handed to \<open>onPhase\<close>, each error reported, each
  callback of the session, and the settling of the promise.
\<close>

subsection \<open>The transport\<close>

text \<open>What the token getter does when it is called: it gives a token, possibly none, or a promise, or throws.\<close>

datatype token_answer = Token_Now "string option" | Token_Later | Token_Throws failure

datatype xhr_event =
    Token_Comes "string option"
  | Token_Rejected
  | Upload_Progress int int bool
  | Upload_Sent
  | Xhr_Load response
  | Xhr_Error
  | Xhr_Timeout

datatype xhr_log =
    Sends "(string \<times> string) list"
  | Phases upload_phase
  | Reports api_error
  | Calls seam
  | Settles "failure + json"

definition auth_header :: "string option \<Rightarrow> (string \<times> string) list" where
  "auth_header token = (case token of
     None \<Rightarrow> [] | Some t \<Rightarrow> if t = '''' then [] else [(''Authorization'', ''Bearer '' @ t)])"

definition on_phase :: "bool \<Rightarrow> upload_phase \<Rightarrow> xhr_log list" where
  "on_phase watched p = (if watched then [Phases p] else [])"

definition xhr_fail :: "bool \<Rightarrow> api_error \<Rightarrow> bool \<Rightarrow> bool \<times> xhr_log list \<Rightarrow> bool \<times> xhr_log list" where
  "xhr_fail watched err report st =
    (if fst st then st
     else (True, snd st @ (if report then [Reports err] else []) @ on_phase watched (Phase_Error (ae_message err))
       @ [Settles (Inl (Api_Error err))]))"

definition refusal_seams :: "api_error \<Rightarrow> seam list" where
  "refusal_seams err =
    (if isUnauthorized (Api_Error err) then [On_Unauthorized]
     else if isSuspended (Api_Error err) then [On_Suspended]
     else if isWorkspaceLocked (Api_Error err) then [On_Locked] else [])"

definition xhr_http_error :: "(json \<Rightarrow> string) \<Rightarrow> response \<Rightarrow> api_error" where
  "xhr_http_error other res =
    api_error Http
      (case Option.bind (rs_json res) error_field of Some e \<Rightarrow> js_String other e | None \<Rightarrow> rs_statusText res)
      (Some (rs_status res)) (case rs_json res of Some body \<Rightarrow> body | None \<Rightarrow> JUndefined)"

definition xhr_onload :: "(json \<Rightarrow> string) \<Rightarrow> bool \<Rightarrow> response \<Rightarrow> bool \<times> xhr_log list \<Rightarrow> bool \<times> xhr_log list" where
  "xhr_onload other watched res st =
    (if fst st then st
     else if 200 \<le> rs_status res \<and> rs_status res < 300 then
       (case rs_json res of
          None \<Rightarrow> xhr_fail watched (api_error Malformed ''malformed response body'' (Some (rs_status res)) JUndefined) True st
        | Some body \<Rightarrow> (True, snd st @ on_phase watched Phase_Done @ [Settles (Inr body)]))
     else
       xhr_fail watched (xhr_http_error other res) True
         (fst st, snd st @ map Calls (refusal_seams (xhr_http_error other res))))"

definition network_error :: "string \<Rightarrow> api_error" where
  "network_error m = api_error Network m None JUndefined"

fun xhr_step :: "(json \<Rightarrow> string) \<Rightarrow> bool \<Rightarrow> bool \<times> xhr_log list \<Rightarrow> xhr_event \<Rightarrow> bool \<times> xhr_log list" where
  "xhr_step other watched st (Token_Comes t) = (fst st, snd st @ [Sends (auth_header t)])"
| "xhr_step other watched st Token_Rejected = xhr_fail watched (network_error ''session ended'') False st"
| "xhr_step other watched st (Upload_Progress loaded tot computable) =
     (fst st, snd st @ on_phase watched (Sending loaded (if computable then tot else 0)))"
| "xhr_step other watched st Upload_Sent = (fst st, snd st @ on_phase watched Phase_Processing)"
| "xhr_step other watched st (Xhr_Load res) = xhr_onload other watched res st"
| "xhr_step other watched st Xhr_Error = xhr_fail watched (network_error ''network error'') True st"
| "xhr_step other watched st Xhr_Timeout = xhr_fail watched (network_error ''request timed out'') True st"

text \<open>The log of one call: a getter that throws rejects the promise and nothing is sent.\<close>

definition xhrJson :: "(json \<Rightarrow> string) \<Rightarrow> bool \<Rightarrow> token_answer \<Rightarrow> xhr_event list \<Rightarrow> xhr_log list" where
  "xhrJson other watched tok es =
    (case tok of
       Token_Throws e \<Rightarrow> [Settles (Inl e)]
     | Token_Now t \<Rightarrow> snd (foldl (xhr_step other watched) (False, [Sends (auth_header t)]) es)
     | Token_Later \<Rightarrow> snd (foldl (xhr_step other watched) (False, []) es))"

subsection \<open>Uploads\<close>

datatype form_part = Text_Part string string | File_Part string

record form_request =
  fq_url :: string
  fq_parts :: "form_part list"

definition truthy :: "json \<Rightarrow> bool" where
  "truthy v \<longleftrightarrow> v \<noteq> JUndefined \<and> v \<noteq> JNull \<and> v \<noteq> JBool False \<and> v \<noteq> JNum 0 \<and> v \<noteq> JStr ''''"

text \<open>\<open>raw.document_id\<close> of a value that is not falsy.\<close>

definition field_of :: "json \<Rightarrow> string \<Rightarrow> json" where
  "field_of raw k = (case raw of JObj fs \<Rightarrow> get fs k | _ \<Rightarrow> JUndefined)"

definition with_document_id :: "string \<Rightarrow> failure + json \<Rightarrow> failure + json" where
  "with_document_id what answer = (case answer of
     Inl e \<Rightarrow> Inl e
   | Inr raw \<Rightarrow>
       if \<not> truthy raw \<or> \<not> truthy (field_of raw ''document_id'')
       then Inl (Api_Error (api_error Malformed (what @ '' response is missing document_id'') None raw))
       else Inr raw)"

definition previewImport :: "(form_request \<Rightarrow> failure + json) \<Rightarrow> string \<Rightarrow> string \<Rightarrow> failure + json" where
  "previewImport send base f =
     with_document_id ''preview'' (send \<lparr>fq_url = base @ ''/api/invoice/v1/imports/preview'', fq_parts = [File_Part f]\<rparr>)"

definition uploadSourceDocument :: "(form_request \<Rightarrow> failure + json) \<Rightarrow> string \<Rightarrow> string \<Rightarrow> failure + json" where
  "uploadSourceDocument send base f =
     with_document_id ''upload'' (send \<lparr>fq_url = base @ ''/api/submission/v1/documents'', fq_parts = [File_Part f]\<rparr>)"

record create_import_request =
  ci_documentId :: string
  ci_entityId :: string
  ci_mapping :: "(string \<times> string) list"
  ci_rememberMapping :: bool
  ci_headerRow :: "int option"
  ci_defaultInvoiceKind :: "string option"

definition import_form :: "((string \<times> string) list \<Rightarrow> string) \<Rightarrow> create_import_request \<Rightarrow> form_part list" where
  "import_form stringify req =
    (let headerRow = (case ci_headerRow req of Some r \<Rightarrow> r | None \<Rightarrow> 1)
     in [Text_Part ''entity_id'' (ci_entityId req), Text_Part ''mapping'' (stringify (ci_mapping req)),
         Text_Part ''document_id'' (ci_documentId req),
         Text_Part ''remember_mapping'' (if ci_rememberMapping req then ''true'' else ''false'')]
        @ (if headerRow > 1 then [Text_Part ''header_row'' (show_int headerRow)] else [])
        @ (case ci_defaultInvoiceKind req of
             Some k \<Rightarrow> if k = '''' then [] else [Text_Part ''default_invoice_kind'' k] | None \<Rightarrow> []))"

text \<open>\<open>...raw\<close>: the own enumerable properties of a value; a text (of ASCII characters here) has its indices.\<close>

definition spread_source :: "json \<Rightarrow> json_object" where
  "spread_source raw = (case raw of
     JObj fs \<Rightarrow> fs
   | JArr vs \<Rightarrow> map (\<lambda>(i, v). (show_nat i, v)) (zip [0..<length vs] vs)
   | JStr s \<Rightarrow> map (\<lambda>(i, c). (show_nat i, JStr [c])) (zip [0..<length s] s)
   | _ \<Rightarrow> [])"

definition array_or_empty :: "json \<Rightarrow> json" where
  "array_or_empty v = (case v of JArr vs \<Rightarrow> JArr vs | _ \<Rightarrow> JArr [])"

definition normalizeReport :: "json \<Rightarrow> json_object" where
  "normalizeReport raw =
     spread (spread_source raw)
       [(''errors'', array_or_empty (field_of raw ''errors'')),
        (''invoice_violations'', array_or_empty (field_of raw ''invoice_violations'')),
        (''rule_set_version'', or_null (field_of raw ''rule_set_version''))]"

definition createImport ::
  "((string \<times> string) list \<Rightarrow> string) \<Rightarrow> (form_request \<Rightarrow> failure + json) \<Rightarrow> string \<Rightarrow> create_import_request \<Rightarrow> failure + json_object"
where
  "createImport stringify send base req =
    (case send \<lparr>fq_url = base @ ''/api/invoice/v1/imports'', fq_parts = import_form stringify req\<rparr> of
       Inl e \<Rightarrow> Inl e | Inr raw \<Rightarrow> Inr (normalizeReport raw))"

subsection \<open>JSON requests\<close>

definition imports_url :: "string \<Rightarrow> string \<Rightarrow> string" where
  "imports_url base rest = base @ ''/api/invoice/v1/imports'' @ rest"

definition getExtractions :: "string \<Rightarrow> string \<Rightarrow> json_object request" where
  "getExtractions base documentId =
     request GET (base @ ''/api/submission/v1/extractions?document_id='' @ encodeURIComponent documentId) None"

record document_import =
  di_entityId :: string
  di_documentId :: string
  di_documentType :: "string option"
  di_originalInvoiceId :: "string option"
  di_invoiceNumber :: "string option"

definition optional_key :: "string \<Rightarrow> string option \<Rightarrow> json_object" where
  "optional_key k v = (case v of None \<Rightarrow> [] | Some t \<Rightarrow> [(k, JStr t)])"

definition importDocument_request :: "string \<Rightarrow> document_import \<Rightarrow> json_object request" where
  "importDocument_request base req = request POST (imports_url base ''/document'') (Some
     ([(''entity_id'', JStr (di_entityId req)), (''document_id'', JStr (di_documentId req))]
      @ optional_key ''document_type'' (di_documentType req)
      @ optional_key ''original_invoice_id'' (di_originalInvoiceId req)
      @ optional_key ''invoice_number'' (di_invoiceNumber req)))"

definition importDocument ::
  "(json_object request \<Rightarrow> failure + json) \<Rightarrow> string \<Rightarrow> document_import \<Rightarrow> failure + json_object"
where
  "importDocument f base req =
    (case f (importDocument_request base req) of Inl e \<Rightarrow> Inl e | Inr raw \<Rightarrow> Inr (normalizeReport raw))"

definition getNoteOriginals :: "string \<Rightarrow> string \<Rightarrow> json_object request" where
  "getNoteOriginals base documentId =
     request GET (imports_url base (''/document/note-originals?document_id='' @ encodeURIComponent documentId)) None"

text \<open>\<open>res?.key ?? null\<close>.\<close>

definition carried :: "string \<Rightarrow> failure + json \<Rightarrow> failure + json" where
  "carried k answer = (case answer of Inl e \<Rightarrow> Inl e | Inr res \<Rightarrow> Inr (or_null (field_of res k)))"

definition getSavedMapping :: "(json_object request \<Rightarrow> failure + json) \<Rightarrow> string \<Rightarrow> string \<Rightarrow> string \<Rightarrow> failure + json" where
  "getSavedMapping f base entityId documentId =
     carried ''saved_mapping'' (f (request GET (imports_url base (''/saved-mapping?entity_id='' @ encodeURIComponent entityId
       @ ''&document_id='' @ encodeURIComponent documentId)) None))"

definition readingForDocument :: "(json_object request \<Rightarrow> failure + json) \<Rightarrow> string \<Rightarrow> string \<Rightarrow> failure + json" where
  "readingForDocument f base documentId =
     carried ''reading'' (f (request GET (imports_url base (''/document/reading?document_id='' @ encodeURIComponent documentId)) None))"

definition supplyInvoiceNumber :: "string \<Rightarrow> string \<Rightarrow> string \<Rightarrow> string \<Rightarrow> json_object request" where
  "supplyInvoiceNumber base entityId documentId invoiceNumber =
     request POST (imports_url base ''/document/invoice'') (Some
       [(''entity_id'', JStr entityId), (''document_id'', JStr documentId), (''invoice_number'', JStr invoiceNumber)])"

definition suggestMapping :: "string \<Rightarrow> string \<Rightarrow> string \<Rightarrow> json_object request" where
  "suggestMapping base entityId documentId =
     request POST (imports_url base ''/suggest-mapping'') (Some
       [(''entity_id'', JStr entityId), (''document_id'', JStr documentId)])"

definition checkMapping :: "string \<Rightarrow> string \<Rightarrow> (string \<times> string) list \<Rightarrow> json_object request" where
  "checkMapping base documentId mapping =
     request POST (imports_url base ''/check-mapping'') (Some
       [(''document_id'', JStr documentId), (''mapping'', JObj (map (\<lambda>(k, v). (k, JStr v)) mapping))])"

definition getImportBatch :: "string \<Rightarrow> string \<Rightarrow> json_object request" where
  "getImportBatch base ident = request GET (imports_url base (''/'' @ encodeURIComponent ident)) None"

subsection \<open>Settling\<close>

fun ends :: "xhr_event \<Rightarrow> bool" where
  "ends (Xhr_Load _) = True"
| "ends Xhr_Error = True"
| "ends Xhr_Timeout = True"
| "ends Token_Rejected = True"
| "ends _ = False"

fun xhr_outcome :: "(json \<Rightarrow> string) \<Rightarrow> xhr_event \<Rightarrow> api_error + json" where
  "xhr_outcome other (Xhr_Load res) =
    (if 200 \<le> rs_status res \<and> rs_status res < 300 then
       (case rs_json res of Some body \<Rightarrow> Inr body
        | None \<Rightarrow> Inl (api_error Malformed ''malformed response body'' (Some (rs_status res)) JUndefined))
     else Inl (xhr_http_error other res))"
| "xhr_outcome other Xhr_Error = Inl (network_error ''network error'')"
| "xhr_outcome other Xhr_Timeout = Inl (network_error ''request timed out'')"
| "xhr_outcome other _ = Inl (network_error ''session ended'')"

text \<open>A step that neither settles nor reports nor signals.\<close>

fun loud :: "xhr_log \<Rightarrow> bool" where
  "loud (Settles _) = True"
| "loud (Calls _) = True"
| "loud (Reports _) = True"
| "loud _ = False"

definition final_log :: "(json \<Rightarrow> string) \<Rightarrow> bool \<Rightarrow> xhr_event \<Rightarrow> xhr_log list" where
  "final_log other watched e = (case xhr_outcome other e of
     Inr body \<Rightarrow> on_phase watched Phase_Done @ [Settles (Inr body)]
   | Inl err \<Rightarrow> map Calls (if ae_kind err = Http then refusal_seams err else [])
       @ (if e = Token_Rejected then [] else [Reports err])
       @ on_phase watched (Phase_Error (ae_message err)) @ [Settles (Inl (Api_Error err))])"

lemma xhr_step_ends:
  "ends e \<Longrightarrow> xhr_step other watched (False, l) e = (True, l @ final_log other watched e)"
  by (cases e) (auto simp: xhr_onload_def xhr_fail_def final_log_def network_error_def api_error_def xhr_http_error_def
      split: option.splits)

lemma xhr_step_settled: "fst (xhr_step other watched (True, l) e) \<and>
   (\<exists>l'. snd (xhr_step other watched (True, l) e) = l @ l' \<and> filter loud l' = [])"
  by (cases e) (auto simp: xhr_onload_def xhr_fail_def on_phase_def)

lemma xhr_steps_settled:
  "\<exists>l'. snd (foldl (xhr_step other watched) (True, l) es) = l @ l' \<and> filter loud l' = []"
proof (induction es arbitrary: l)
  case (Cons e es)
  obtain l1 where l1: "xhr_step other watched (True, l) e = (True, l @ l1)" "filter loud l1 = []"
    using xhr_step_settled [of other watched l e] by (metis prod.collapse)
  from Cons.IH [of "l @ l1"] l1 show ?case by force
qed simp

lemma xhr_step_open: "\<not> ends e \<Longrightarrow> \<exists>l'. xhr_step other watched (False, l) e = (False, l @ l') \<and>
   filter loud l' = []"
  by (cases e) (auto simp: on_phase_def)

lemma xhr_run:
  "case find ends es of
     None \<Rightarrow> \<exists>l'. foldl (xhr_step other watched) (False, l) es = (False, l @ l') \<and> filter loud l' = []
   | Some e \<Rightarrow> \<exists>l1 l2. snd (foldl (xhr_step other watched) (False, l) es) = l @ l1 @ final_log other watched e @ l2 \<and>
       filter loud (l1 @ l2) = []"
proof (induction es arbitrary: l)
  case (Cons e es)
  show ?case
  proof (cases "ends e")
    case True
    then show ?thesis using xhr_steps_settled [of other watched "l @ final_log other watched e" es]
      by (force simp: xhr_step_ends)
  next
    case False
    obtain l0 where l0: "xhr_step other watched (False, l) e = (False, l @ l0)" "filter loud l0 = []"
      using xhr_step_open [OF False, of other watched l] by blast
    show ?thesis
    proof (cases "find ends es")
      case None
      then obtain l' where "foldl (xhr_step other watched) (False, l @ l0) es = (False, (l @ l0) @ l')"
          "filter loud l' = []"
        using Cons.IH [of "l @ l0"] by (simp only: option.case) blast
      with None l0 False show ?thesis by (auto intro!: exI [of _ "l0 @ l'"])
    next
      case (Some x)
      then obtain l1 l2 where
          "snd (foldl (xhr_step other watched) (False, l @ l0) es) = (l @ l0) @ l1 @ final_log other watched x @ l2"
          "filter loud (l1 @ l2) = []"
        using Cons.IH [of "l @ l0"] by (simp only: option.case) blast
      then have "snd (foldl (xhr_step other watched) (False, l) (e # es)) = l @ (l0 @ l1) @ final_log other watched x @ l2 \<and>
          filter loud ((l0 @ l1) @ l2) = []"
        using l0 by simp
      with Some False show ?thesis by (simp only: find.simps if_False option.case) blast
    qed
  qed
qed simp


fun settlements :: "xhr_log list \<Rightarrow> (failure + json) list" where
  "settlements [] = []"
| "settlements (Settles a # l) = a # settlements l"
| "settlements (_ # l) = settlements l"

fun calls :: "xhr_log list \<Rightarrow> seam list" where
  "calls [] = []"
| "calls (Calls s # l) = s # calls l"
| "calls (_ # l) = calls l"

fun reports :: "xhr_log list \<Rightarrow> api_error list" where
  "reports [] = []"
| "reports (Reports e # l) = e # reports l"
| "reports (_ # l) = reports l"

lemma reports_append: "reports (l @ l') = reports l @ reports l'"
  by (induction l rule: reports.induct) simp_all

lemma reports_map_calls [simp]: "reports (map Calls ss) = []"
  by (induction ss) simp_all

lemma settlements_append: "settlements (l @ l') = settlements l @ settlements l'"
  by (induction l rule: settlements.induct) simp_all

lemma calls_append: "calls (l @ l') = calls l @ calls l'"
  by (induction l rule: calls.induct) simp_all

lemma quiet_logs: "filter loud l = [] \<Longrightarrow> settlements l = [] \<and> calls l = [] \<and> reports l = []"
proof (induction l)
  case (Cons x l)
  then show ?case by (cases x) simp_all
qed simp

lemma calls_map [simp]: "calls (map Calls ss) = ss"
  by (induction ss) simp_all

lemma settlements_map_calls [simp]: "settlements (map Calls ss) = []"
  by (induction ss) simp_all

definition as_failure :: "api_error + json \<Rightarrow> failure + json" where
  "as_failure a = (case a of Inl e \<Rightarrow> Inl (Api_Error e) | Inr b \<Rightarrow> Inr b)"

lemma final_log_facts:
  "settlements (final_log other watched e) = [as_failure (xhr_outcome other e)]"
  "calls (final_log other watched e) =
     (case xhr_outcome other e of Inr b \<Rightarrow> [] | Inl err \<Rightarrow> if ae_kind err = Http then refusal_seams err else [])"
  by (auto simp: final_log_def as_failure_def on_phase_def settlements_append calls_append split: sum.splits)


definition final_phase :: "api_error + json \<Rightarrow> upload_phase" where
  "final_phase a = (case a of Inr body \<Rightarrow> Phase_Done | Inl err \<Rightarrow> Phase_Error (ae_message err))"

definition signals :: "api_error + json \<Rightarrow> seam list" where
  "signals a = (case a of Inr b \<Rightarrow> [] | Inl err \<Rightarrow> if ae_kind err = Http then refusal_seams err else [])"

lemma final_log_end:
  "\<exists>l1. final_log other watched e = l1 @ on_phase watched (final_phase (xhr_outcome other e)) @ [Settles (as_failure (xhr_outcome other e))] \<and>
     settlements l1 = [] \<and> calls l1 = signals (xhr_outcome other e) \<and>
     reports l1 = (case xhr_outcome other e of Inr b \<Rightarrow> [] | Inl err \<Rightarrow> if e = Token_Rejected then [] else [err])"
  by (cases "xhr_outcome other e")
    (auto simp: final_log_def final_phase_def as_failure_def signals_def settlements_append calls_append reports_append)

lemma xhrJson_sent:
  assumes "\<And>e. tok \<noteq> Token_Throws e"
  shows "\<exists>l. xhrJson other watched tok es = snd (foldl (xhr_step other watched) (False, l) es) \<and> filter loud l = []"
  using assms by (cases tok) (auto simp: xhrJson_def intro: exI [of _ "[Sends h]" for h] exI [of _ "[]"])

text \<open>C17: the upload transport settles once. Whatever the request and the token getter do and in whatever order, the
  log of an upload that nothing has ended holds no settling, no report and no signal. Once something ended it there is one
  settling, with what the first ending event means; a failure other than the getter's rejection was reported once, and a refused
  status signalled once to the one seam it belongs to, both before the settling; the phase shown right before it says
  the same; and whatever comes after adds none of these. A getter that throws settles the promise at once.\<close>

theorem upload_settles_once:
  "let log = xhrJson other watched tok es in
     case tok of
       Token_Throws e \<Rightarrow> log = [Settles (Inl e)]
     | _ \<Rightarrow>
       (case find ends es of
          None \<Rightarrow> settlements log = [] \<and> calls log = [] \<and> reports log = []
        | Some e \<Rightarrow>
            (\<exists>l1 l2. log = l1 @ on_phase watched (final_phase (xhr_outcome other e))
               @ [Settles (as_failure (xhr_outcome other e))] @ l2 \<and>
               settlements l1 = [] \<and>
               reports l1 = (case xhr_outcome other e of
                  Inr body \<Rightarrow> [] | Inl err \<Rightarrow> if e = Token_Rejected then [] else [err]) \<and>
               calls l1 = (case xhr_outcome other e of
                  Inr body \<Rightarrow> []
                | Inl err \<Rightarrow>
                    if isUnauthorized (Api_Error err) then [On_Unauthorized]
                    else if isSuspended (Api_Error err) then [On_Suspended]
                    else if isWorkspaceLocked (Api_Error err) then [On_Locked] else []) \<and>
               settlements l2 = [] \<and> calls l2 = [] \<and> reports l2 = []))"
proof (cases "\<exists>e. tok = Token_Throws e")
  case True
  then show ?thesis by (auto simp: xhrJson_def)
next
  case False
  then obtain l where l: "xhrJson other watched tok es = snd (foldl (xhr_step other watched) (False, l) es)" "filter loud l = []"
    using xhrJson_sent by blast
  note run = xhr_run [where es = es and other = other and watched = watched and l = l]
  have http: "signals a = (case a of Inr body \<Rightarrow> [] | Inl err \<Rightarrow>
      if isUnauthorized (Api_Error err) then [On_Unauthorized] else if isSuspended (Api_Error err) then [On_Suspended]
      else if isWorkspaceLocked (Api_Error err) then [On_Locked] else [])" for a
    by (auto simp: signals_def refusal_seams_def isUnauthorized_def isSuspended_def isWorkspaceLocked_def split: sum.split)
  show ?thesis
  proof (cases "find ends es")
    case None
    then have "settlements (xhrJson other watched tok es) = [] \<and> calls (xhrJson other watched tok es) = [] \<and>
        reports (xhrJson other watched tok es) = []"
      using run l(2) by (auto simp: l(1) settlements_append calls_append reports_append quiet_logs)
    with None False show ?thesis by (auto simp: Let_def split: token_answer.split)
  next
    case (Some e)
    obtain l1 l2 where split: "xhrJson other watched tok es = l @ l1 @ final_log other watched e @ l2" "filter loud (l @ l1 @ l2) = []"
      using run Some l by auto
    obtain l3 where l3: "final_log other watched e =
          l3 @ on_phase watched (final_phase (xhr_outcome other e)) @ [Settles (as_failure (xhr_outcome other e))]"
        "settlements l3 = []" "calls l3 = signals (xhr_outcome other e)"
        "reports l3 = (case xhr_outcome other e of Inr b \<Rightarrow> [] | Inl err \<Rightarrow> if e = Token_Rejected then [] else [err])"
      using final_log_end by blast
    have quiet: "settlements l = [] \<and> calls l = [] \<and> reports l = []" "settlements l1 = [] \<and> calls l1 = [] \<and> reports l1 = []"
        "settlements l2 = [] \<and> calls l2 = [] \<and> reports l2 = []"
      using split(2) by (simp_all add: quiet_logs)
    have "xhrJson other watched tok es = (l @ l1 @ l3) @ on_phase watched (final_phase (xhr_outcome other e))
        @ [Settles (as_failure (xhr_outcome other e))] @ l2"
      by (simp add: split(1) l3(1))
    moreover have "settlements (l @ l1 @ l3) = []" "calls (l @ l1 @ l3) = signals (xhr_outcome other e)"
        "reports (l @ l1 @ l3) = (case xhr_outcome other e of Inr b \<Rightarrow> [] | Inl err \<Rightarrow> if e = Token_Rejected then [] else [err])"
      using quiet l3(2-4) by (simp_all add: settlements_append calls_append reports_append)
    ultimately have "\<exists>l1 l2. xhrJson other watched tok es = l1 @ on_phase watched (final_phase (xhr_outcome other e))
               @ [Settles (as_failure (xhr_outcome other e))] @ l2 \<and> settlements l1 = [] \<and>
               reports l1 = (case xhr_outcome other e of Inr body \<Rightarrow> [] | Inl err \<Rightarrow> if e = Token_Rejected then [] else [err]) \<and>
               calls l1 = signals (xhr_outcome other e) \<and> settlements l2 = [] \<and> calls l2 = [] \<and> reports l2 = []"
      using quiet(3) by blast
    with Some False show ?thesis unfolding http by (auto simp: Let_def split: token_answer.split)
  qed
qed


lemma xhrJson_loaded:
  assumes "find ends es = Some e" "\<And>e. tok \<noteq> Token_Throws e"
  shows "settlements (xhrJson other watched tok es) = [as_failure (xhr_outcome other e)] \<and>
    calls (xhrJson other watched tok es) = calls (final_log other watched e)"
proof -
  obtain l where l: "xhrJson other watched tok es = snd (foldl (xhr_step other watched) (False, l) es)"
      "filter loud l = []"
    using xhrJson_sent assms(2) by blast
  then show ?thesis
    using xhr_run [where es = es and other = other and watched = watched and l = l] assms(1)
    by (auto simp: settlements_append calls_append quiet_logs final_log_facts)
qed

text \<open>C18: one transport or the other. Given the same response (other than 204, which has no body to read), an upload settles as
  the gateway client's signed fetch does, error for error, calls the same callbacks of the session, and signed its
  request with the same header.\<close>

theorem upload_agrees_with_client:
  assumes "find ends es = Some (Xhr_Load res)" "rs_status res \<noteq> 204" "\<not> fo_asText opts"
  shows "let log = xhrJson other watched (Token_Now t) es;
      (seams, answer) = createAuthedFetch (Inr t) (apiFetch other (\<lambda>_. Fetch_Responds res) url) opts
    in calls log = seams \<and> settlements log = [answer] \<and> hd log = Sends (auth_header t) \<and>
       (\<exists>rest. wr_headers (fetch_request url (opts\<lparr>fo_token := t\<rparr>)) = auth_header t @ rest)"
proof -
  have first: "hd (xhrJson other watched (Token_Now t) es) = Sends (auth_header t)"
  proof -
    have "\<exists>l'. snd (foldl (xhr_step other watched) (b, h # l) es) = h # l'" for b h l
    proof (induction es arbitrary: b l)
      case (Cons e es)
      have "\<exists>b' l'. xhr_step other watched (b, h # l) e = (b', h # l')"
        by (cases e) (auto simp: xhr_onload_def xhr_fail_def split: option.splits)
      with Cons.IH show ?case by force
    qed simp
    from this [of False "Sends (auth_header t)" "[]"] show ?thesis by (auto simp: xhrJson_def)
  qed
  have "apiFetch other (\<lambda>_. Fetch_Responds res) url (opts\<lparr>fo_token := t\<rparr>) = xhr_outcome other (Xhr_Load res)"
    using assms(2,3) by (auto simp: apiFetch_def res_ok_def xhr_http_error_def split: option.splits)
  then have "createAuthedFetch (Inr t) (apiFetch other (\<lambda>_. Fetch_Responds res) url) opts =
      (case xhr_outcome other (Xhr_Load res) of Inr b \<Rightarrow> [] | Inl err \<Rightarrow> refusal_seams err,
       as_failure (xhr_outcome other (Xhr_Load res)))"
    by (simp add: createAuthedFetch_def as_failure_def refusal_seams_def split: sum.split)
  moreover have "(if ae_kind err = Http then refusal_seams err else []) = refusal_seams err" for err
    by (simp add: refusal_seams_def isUnauthorized_def isSuspended_def isWorkspaceLocked_def)
  moreover have "\<exists>rest. wr_headers (fetch_request url (opts\<lparr>fo_token := t\<rparr>)) = auth_header t @ rest"
    by (simp add: fetch_request_def auth_header_def)
  ultimately show ?thesis
    using xhrJson_loaded [OF assms(1), of "Token_Now t" other watched] first
    unfolding final_log_facts Let_def by (simp del: xhr_outcome.simps cong: sum.case_cong)
qed

definition sample_response :: response where
  "sample_response = \<lparr>rs_status = 403, rs_statusText = ''Forbidden'',
     rs_json = Some (JObj [(''error'', JStr WORKSPACE_LOCKED_MESSAGE)]), rs_text = None\<rparr>"

theorem upload_agrees_witness:
  "calls (xhrJson (\<lambda>_. []) True (Token_Now (Some ''t'')) [Upload_Progress 1 2 True, Xhr_Load sample_response]) = [On_Locked]"
  using upload_agrees_with_client [of "[Upload_Progress 1 2 True, Xhr_Load sample_response]" sample_response
      "\<lparr>fo_method = None, fo_body = None, fo_token = None, fo_asText = False\<rparr>" "\<lambda>_. []" True "Some ''t''" "''u''"]
  by (simp add: sample_response_def createAuthedFetch_def apiFetch_def res_ok_def error_field_def js_String_def isUnauthorized_def
      isSuspended_def isWorkspaceLocked_def NOT_ACTIVE_MEMBER_MESSAGE_def WORKSPACE_LOCKED_MESSAGE_def api_error_def Let_def)

text \<open>\<open>normalizeReport\<close>: what it changes and what it keeps, and that a text is spread into its characters.\<close>

lemma normalizeReport_keys:
  "get (normalizeReport (JObj fs)) ''errors'' = array_or_empty (get fs ''errors'')"
  "get (normalizeReport (JObj fs)) ''invoice_violations'' = array_or_empty (get fs ''invoice_violations'')"
  "get (normalizeReport (JObj fs)) ''rule_set_version'' = or_null (get fs ''rule_set_version'')"
  by (simp_all add: normalizeReport_def spread_def spread_source_def field_of_def get_def)

lemma normalizeReport_rest:
  "k \<notin> {''errors'', ''invoice_violations'', ''rule_set_version''} \<Longrightarrow>
   get (normalizeReport (JObj fs)) k = get fs k"
  by (simp add: normalizeReport_def spread_def spread_source_def get_def)

lemma normalizeReport_of_text:
  "normalizeReport (JStr ''no'') = [(''0'', JStr ''n''), (''1'', JStr ''o''), (''errors'', JArr []),
     (''invoice_violations'', JArr []), (''rule_set_version'', JNull)]"
  by (simp add: normalizeReport_def spread_def spread_source_def field_of_def array_or_empty_def or_null_def
      show_nat.simps digit_char_values)

end
