(* ===== verification/Import_Wizard.thy ===== *)
theory Import_Wizard
  imports Workspace_Nav Import_Run Draft_Filing Import_Transport
begin

text \<open>
  The create view of the workspace (\<open>App.tsx\<close>): the draft and its filing, the picked files, the mapping step, the
  runs and where they land, over the navigation of the workspace. Four round trips share one lock. A handler is split at
  each \<open>await\<close>; what waits for an answer is a task, and any task may be answered next. The three lookups of the mapping
  step answer together.
\<close>

subsection \<open>State\<close>

datatype lock_op = Op_Preview | Op_Run | Op_Filing

text \<open>An error slot: the one refusal, matched by identity, or an error of the gateway.\<close>

datatype slot_error = Still_Working | Slot_Error api_error

text \<open>What the app asks of the gateway. A request of a run carries the number of the run.\<close>

datatype wizard_request =
    Preview_Request js_file
  | Import_Request nat create_import_request
  | Documents_Request nat string "picked_file list"
  | Sole_Request nat string
  | File_Request body
  | Supply_Request "(string \<times> string) list"
  | Reading_Request string

datatype task =
    Await_Preview "picked_file list" "picked_file list" "(string \<times> import_preview) list" "string option"
  | Await_Mapping "(string \<times> import_preview) list" "string option"
  | Await_Import nat string "picked_file list" "mapping_group list" "run_file list" import_run closure
  | Await_Documents nat string "picked_file list" import_run closure
  | Await_Sole nat import_run closure
  | Await_Filing closure
  | Await_Reading nat bool closure string

datatype wizard_answer =
    Previewed "failure + import_preview"
  | Mappings "nat \<Rightarrow> string" "string \<Rightarrow> saved_mapping option option" "string \<Rightarrow> suggest_mapping option"
      "string \<Rightarrow> (string \<times> string) list \<Rightarrow> string list option option"
  | Import_Phase upload_phase
  | Import_Settled "failure + import_report"
  | Document_Stage string row_state
  | Documents_Settled "file_outcome list"
  | Sole_Found "string option"
  | Filed "api_error + string"
  | Reading_Found "json option"

text \<open>An entity of the portfolio with the profile that fills a draft.\<close>

type_synonym entity = "filing_entity \<times> (string \<Rightarrow> string option)"

text \<open>What a mount does not change: whether there is a gateway, whether the session came from a hand-off, and the sector
  of a company: its first buyer and its second item.\<close>

record wizard_env =
  we_gateway :: bool
  we_handoff :: bool
  we_sector :: "string option \<Rightarrow> string \<times> string option"

record wizard = nav +
  wz_entities :: "entity list"
  wz_draft :: draft
  wz_filledFor :: "string option"
  wz_handOffDocumentId :: "string option"
  wz_handOffReading :: "json option"
  wz_handOffReadSeq :: nat
  wz_groups :: "mapping_group list"
  wz_groupIndex :: nat
  wz_armedField :: "string option"
  wz_dragField :: "string option"
  wz_entityId :: "string option"
  wz_pickedFiles :: "picked_file list"
  wz_filesRefusal :: "string option"
  wz_run :: import_run
  wz_documentStages :: "string \<rightharpoonup> row_state"
  wz_importError :: "slot_error option"
  wz_filing :: bool
  wz_filingError :: "slot_error option"
  wz_reqInFlight :: bool
  wz_lockBy :: "lock_op \<times> nat"
  wz_runSeq :: nat
  wz_tasks :: "task list"
  wz_sent :: "wizard_request list"

subsection \<open>The draft\<close>

definition draftLine :: "string \<Rightarrow> string \<Rightarrow> string \<Rightarrow> draft_line" where
  "draftLine desc qty price = \<lparr>li_desc = desc, li_qty = qty, li_price = price, li_tax_category = [], li_hsn_code = [],
     li_isic_code = [], li_product_category = [], li_service_category = [], li_sellers_item_identification = [],
     li_price_unit = [], li_tax_percent = []\<rparr>"

definition DRAFT_NRS_BLANK :: "string \<Rightarrow> string" where
  "DRAFT_NRS_BLANK k = (if k = ''tax_currency_code'' then ''NGN'' else [])"

definition defaultDraft :: "string \<times> string option \<Rightarrow> draft" where
  "defaultDraft sector =
     \<lparr>dr_field = DRAFT_NRS_BLANK(''number'' := ''INV-2026-00482'', ''buyer'' := fst sector, ''buyerTin'' := [],
        ''date'' := ''2026-06-16'', ''currency'' := ''NGN''),
      dr_items = [draftLine (''Logistics consulting '' @ em_dash @ '' Q2'') ''1'' ''2500000'',
        draftLine (case snd sector of Some t \<Rightarrow> if t = [] then ''Supply'' else t | None \<Rightarrow> ''Supply'') ''12'' ''85000'']\<rparr>"

definition startingDraft :: "string \<times> string option \<Rightarrow> bool \<Rightarrow> draft" where
  "startingDraft sector handoff =
    (if \<not> handoff then defaultDraft sector
     else \<lparr>dr_field = DRAFT_NRS_BLANK(''number'' := [], ''buyer'' := [], ''buyerTin'' := [], ''date'' := [],
             ''currency'' := ''NGN''), dr_items = [draftLine [] ''1'' ''0'']\<rparr>)"

definition seedDraft :: "wizard_env \<Rightarrow> string option \<Rightarrow> entity option \<Rightarrow> draft" where
  "seedDraft env client entity =
    (let d = startingDraft (we_sector env client) (we_handoff env)
     in case entity of None \<Rightarrow> d | Some e \<Rightarrow> withSupplierDefaults d (snd e))"

definition entity_id :: "entity \<Rightarrow> string" where "entity_id e = fe_id (fst e)"

definition activeEntity :: "wizard \<Rightarrow> entity option" where
  "activeEntity s = find (\<lambda>e. Some (entity_id e) = active_id s) (wz_entities s)"

definition map_at :: "nat \<Rightarrow> ('a \<Rightarrow> 'a) \<Rightarrow> 'a list \<Rightarrow> 'a list" where
  "map_at i f xs = map (\<lambda>(j, x). if j = i then f x else x) (zip [0..<length xs] xs)"

text \<open>The edits of the form. \<open>number_text\<close> is \<open>String(Number(val))\<close>.\<close>

datatype draft_edit =
    Update_Draft string string
  | Update_Qty nat string
  | Update_Price nat string
  | Update_Desc nat string
  | Update_Item_Field nat string string
  | Update_Fields "(string \<times> string) list"
  | Add_Item
  | Remove_Item nat

definition updateDraft :: "string \<Rightarrow> string \<Rightarrow> draft \<Rightarrow> draft" where
  "updateDraft k v d = put_field k v d"

definition on_item :: "nat \<Rightarrow> (draft_line \<Rightarrow> draft_line) \<Rightarrow> draft \<Rightarrow> draft" where
  "on_item i f d = d\<lparr>dr_items := map_at i f (dr_items d)\<rparr>"

definition put_line_key :: "string \<Rightarrow> string \<Rightarrow> draft_line \<Rightarrow> draft_line" where
  "put_line_key k v it =
    (if k = ''tax_category'' then it\<lparr>li_tax_category := v\<rparr>
     else if k = ''hsn_code'' then it\<lparr>li_hsn_code := v\<rparr>
     else if k = ''isic_code'' then it\<lparr>li_isic_code := v\<rparr>
     else if k = ''product_category'' then it\<lparr>li_product_category := v\<rparr>
     else if k = ''service_category'' then it\<lparr>li_service_category := v\<rparr>
     else if k = ''sellers_item_identification'' then it\<lparr>li_sellers_item_identification := v\<rparr>
     else if k = ''price_unit'' then it\<lparr>li_price_unit := v\<rparr>
     else if k = ''tax_percent'' then it\<lparr>li_tax_percent := v\<rparr> else it)"

definition item_number :: "(string \<Rightarrow> string) \<Rightarrow> string \<Rightarrow> string" where
  "item_number number_text v = (if v = [] then ''0'' else number_text v)"

definition updateDraftFields :: "(string \<times> string) list \<Rightarrow> draft \<Rightarrow> draft" where
  "updateDraftFields patch d = foldl (\<lambda>d (k, v). put_field k v d) d patch"

definition addItem :: "draft \<Rightarrow> draft" where
  "addItem d = d\<lparr>dr_items := dr_items d @ [draftLine [] ''1'' ''0'']\<rparr>"

definition removeItem :: "nat \<Rightarrow> draft \<Rightarrow> draft" where
  "removeItem i d = (if length (dr_items d) \<le> 1 then d else d\<lparr>dr_items := remove_at i (dr_items d)\<rparr>)"

fun edit_draft :: "(string \<Rightarrow> string) \<Rightarrow> draft_edit \<Rightarrow> draft \<Rightarrow> draft" where
  "edit_draft number_text (Update_Draft k v) d = updateDraft k v d"
| "edit_draft number_text (Update_Qty i v) d = on_item i (\<lambda>it. it\<lparr>li_qty := item_number number_text v\<rparr>) d"
| "edit_draft number_text (Update_Price i v) d = on_item i (\<lambda>it. it\<lparr>li_price := item_number number_text v\<rparr>) d"
| "edit_draft number_text (Update_Desc i v) d = on_item i (\<lambda>it. it\<lparr>li_desc := v\<rparr>) d"
| "edit_draft number_text (Update_Item_Field i k v) d = on_item i (put_line_key k v) d"
| "edit_draft number_text (Update_Fields patch) d = updateDraftFields patch d"
| "edit_draft number_text Add_Item d = addItem d"
| "edit_draft number_text (Remove_Item i) d = removeItem i d"


subsection \<open>The lock and its refusal\<close>

definition showStillWorking :: "create_step \<Rightarrow> wizard \<Rightarrow> wizard" where
  "showStillWorking step s =
    (if step = Step_Form \<and> \<not> runIsActive (wz_run s) then s\<lparr>wz_filingError := Some Still_Working\<rparr>
     else s\<lparr>wz_importError := Some Still_Working\<rparr>)"

text \<open>\<^const>\<open>None\<close> when the lock is free; otherwise what the refused click leaves.\<close>

definition lockHeld :: "lock_op \<Rightarrow> wizard \<Rightarrow> wizard option" where
  "lockHeld op s =
    (if \<not> wz_reqInFlight s then None
     else Some (if fst (wz_lockBy s) \<noteq> op \<or> snd (wz_lockBy s) \<noteq> wz_runSeq s then showStillWorking (nv_step s) s else s))"

definition drop_refusal :: "slot_error option \<Rightarrow> slot_error option" where
  "drop_refusal e = (if e = Some Still_Working then None else e)"

definition releaseStillWorking :: "wizard \<Rightarrow> wizard" where
  "releaseStillWorking s = s\<lparr>wz_importError := drop_refusal (wz_importError s), wz_filingError := drop_refusal (wz_filingError s)\<rparr>"

definition release :: "wizard \<Rightarrow> wizard" where
  "release s = releaseStillWorking (s\<lparr>wz_reqInFlight := False\<rparr>)"

definition ask :: "wizard_request \<Rightarrow> task \<Rightarrow> wizard \<Rightarrow> wizard" where
  "ask req t s = s\<lparr>wz_sent := wz_sent s @ [req], wz_tasks := wz_tasks s @ [t]\<rparr>"

subsection \<open>Opening and leaving\<close>

definition resetImport :: "string option \<Rightarrow> wizard \<Rightarrow> wizard" where
  "resetImport target s =
     s\<lparr>wz_runSeq := wz_runSeq s + 1, wz_entityId := target, wz_pickedFiles := [], wz_filesRefusal := None, wz_groups := [],
       wz_groupIndex := 0, wz_run := idle_run, wz_importError := None, nv_batches := []\<rparr>"

definition clear_handoff :: "wizard \<Rightarrow> wizard" where
  "clear_handoff s = s\<lparr>wz_handOffDocumentId := None, wz_handOffReading := None, wz_handOffReadSeq := wz_handOffReadSeq s + 1\<rparr>"

definition openCreate :: "wizard_env \<Rightarrow> wizard \<Rightarrow> wizard" where
  "openCreate env s =
    (if wz_reqInFlight s \<and> snd (wz_lockBy s) = wz_runSeq s then
       (let s' = (navigate (closure_of s) V_Create no_params s)\<lparr>nv_switcher := False\<rparr> in
        if nv_step s = Step_Review \<and> \<not> runIsActive (wz_run s) then
          (let step = (if fst (wz_lockBy s) = Op_Filing then Step_Form else Step_Upload)
           in showStillWorking step (s'\<lparr>nv_step := step\<rparr>))
        else showStillWorking (nv_step s) s')
     else
       resetImport (active_id s)
         ((clear_handoff ((navigate (closure_of s) V_Create no_params s)
            \<lparr>nv_step := Step_Upload, wz_draft := seedDraft env (active_id s) (activeEntity s)\<rparr>))
          \<lparr>wz_filingError := None, nv_switcher := False\<rparr>))"

definition find_entity :: "string \<Rightarrow> wizard \<Rightarrow> entity option" where
  "find_entity i s = find (\<lambda>e. entity_id e = i) (wz_entities s)"

definition switch_company :: "wizard_env \<Rightarrow> string \<Rightarrow> wizard \<Rightarrow> wizard" where
  "switch_company env i s =
    (let client = (if i \<in> set (nv_clients s) then Some i else active_id s) in
     resetImport (Some i)
       ((clear_handoff ((switchClient i s)\<lparr>wz_draft := seedDraft env client (find_entity i s)\<rparr>))
        \<lparr>wz_filingError := None\<rparr>))"

definition closeCreate :: "wizard \<Rightarrow> wizard" where
  "closeCreate s = navigate (closure_of s) V_Invoices no_params s"

definition backToImport :: "wizard \<Rightarrow> wizard" where
  "backToImport s = s\<lparr>nv_step := Step_Upload\<rparr>"

definition restartImport :: "wizard \<Rightarrow> wizard" where
  "restartImport s = (resetImport (active_id s) s)\<lparr>nv_step := Step_Upload\<rparr>"

definition skipUpload :: "wizard \<Rightarrow> wizard" where
  "skipUpload s = (clear_handoff s)\<lparr>nv_step := Step_Form\<rparr>"

subsection \<open>Picking and mapping\<close>

definition addPickedFiles :: "(nat \<Rightarrow> string) \<Rightarrow> js_file list \<Rightarrow> wizard \<Rightarrow> wizard" where
  "addPickedFiles uuid files s =
    (let (picked, refusal) = addFiles uuid (wz_pickedFiles s) files
     in s\<lparr>wz_pickedFiles := picked, wz_filesRefusal := refusal\<rparr>)"

definition removePickedFile :: "string \<Rightarrow> wizard \<Rightarrow> wizard" where
  "removePickedFile i s = s\<lparr>wz_pickedFiles := removeFile (wz_pickedFiles s) i, wz_filesRefusal := None\<rparr>"

text \<open>\<open>readAllColumns\<close>: one preview at a time, all or nothing.\<close>

definition readAllColumns :: "wizard_env \<Rightarrow> wizard \<Rightarrow> wizard" where
  "readAllColumns env s =
    (if \<not> we_gateway env \<or> \<not> canReadColumnsAll (wz_pickedFiles s) then s
     else case lockHeld Op_Preview s of
       Some s' \<Rightarrow> s'
     | None \<Rightarrow>
         (let files = wz_pickedFiles s in
          ask (Preview_Request (pk_file (hd files))) (Await_Preview files files [] (wz_entityId s))
            (s\<lparr>wz_reqInFlight := True, wz_lockBy := (Op_Preview, wz_runSeq s), wz_importError := None\<rparr>)))"

definition preview_answered ::
  "picked_file list \<Rightarrow> picked_file list \<Rightarrow> (string \<times> import_preview) list \<Rightarrow> string option \<Rightarrow> failure + import_preview \<Rightarrow> wizard \<Rightarrow> wizard"
where
  "preview_answered files left previewed target result s =
    (case result of
       Inl err \<Rightarrow>
         (let w = toApiError err in
          release (s\<lparr>wz_importError := Some (Slot_Error (api_error (ae_kind w)
            (fi_name (pk_file (hd left)) @ '': '' @ ae_message w) (ae_status w) (ae_body w)))\<rparr>))
     | Inr p \<Rightarrow>
         (let previewed' = previewed @ [(pk_id (hd left), p)] in
          case tl left of
            [] \<Rightarrow> s\<lparr>wz_pickedFiles := attachDocumentIds (wz_pickedFiles s) previewed',
                    wz_tasks := wz_tasks s @ [Await_Mapping previewed' target]\<rparr>
          | f # rest \<Rightarrow> ask (Preview_Request (pk_file f)) (Await_Preview files (f # rest) previewed' target) s))"

definition if_target :: "string option \<Rightarrow> 'a \<Rightarrow> 'a option" where
  "if_target target x = (if target = None \<or> target = Some [] then None else Some x)"

definition mappings_answered ::
  "(string \<times> import_preview) list \<Rightarrow> string option \<Rightarrow> (nat \<Rightarrow> string) \<Rightarrow> (string \<Rightarrow> saved_mapping option option)
     \<Rightarrow> (string \<Rightarrow> suggest_mapping option) \<Rightarrow> (string \<Rightarrow> (string \<times> string) list \<Rightarrow> string list option option) \<Rightarrow> wizard \<Rightarrow> wizard"
where
  "mappings_answered previewed target uuid lookup suggest check s =
    (let restored = restoreGroups (groupByLayout uuid previewed) (if_target target lookup)
     in release (s\<lparr>wz_groups := checkGroups (suggestGroups restored (if_target target suggest)) (if_target target check),
          wz_groupIndex := 0, nv_step := Step_Mapping, wz_run := idle_run\<rparr>))"

definition activeGroup :: "wizard \<Rightarrow> mapping_group option" where
  "activeGroup s = (if wz_groupIndex s < length (wz_groups s) then Some (wz_groups s ! wz_groupIndex s) else None)"

definition on_group :: "(mapping_group \<Rightarrow> mapping_group) \<Rightarrow> wizard \<Rightarrow> wizard" where
  "on_group f s = s\<lparr>wz_groups := map_at (wz_groupIndex s) f (wz_groups s)\<rparr>"

definition unplace :: "string \<Rightarrow> field_mapping \<Rightarrow> field_mapping" where
  "unplace header m = map (\<lambda>(k, v). (k, if v = Some header then None else v)) m"

definition assign :: "string \<Rightarrow> string \<Rightarrow> wizard \<Rightarrow> wizard" where
  "assign fld header s =
    (on_group (\<lambda>g. g\<lparr>mg_mapping := al_set fld (Some header) (unplace header (mg_mapping g))\<rparr>) s)
    \<lparr>wz_armedField := None, wz_dragField := None\<rparr>"

definition armField :: "string \<Rightarrow> wizard \<Rightarrow> wizard" where
  "armField k s = s\<lparr>wz_armedField := (if wz_armedField s = Some k then None else Some k)\<rparr>"

definition setDrag :: "string \<Rightarrow> wizard \<Rightarrow> wizard" where "setDrag k s = s\<lparr>wz_dragField := Some k\<rparr>"

definition endDrag :: "wizard \<Rightarrow> wizard" where "endDrag s = s\<lparr>wz_dragField := None\<rparr>"

definition dropOn :: "string \<Rightarrow> wizard \<Rightarrow> wizard" where
  "dropOn header s = (case wz_dragField s of
     None \<Rightarrow> s\<lparr>wz_dragField := None\<rparr>
   | Some k \<Rightarrow> if k = [] then s\<lparr>wz_dragField := None\<rparr> else assign k header s)"

definition clickCol :: "string \<Rightarrow> wizard \<Rightarrow> wizard" where
  "clickCol header s = (case wz_armedField s of None \<Rightarrow> s | Some k \<Rightarrow> if k = [] then s else assign k header s)"

definition unmap :: "string \<Rightarrow> wizard \<Rightarrow> wizard" where
  "unmap header s = on_group (\<lambda>g. g\<lparr>mg_mapping := unplace header (mg_mapping g)\<rparr>) s"

definition splitOutFile :: "string \<Rightarrow> string \<Rightarrow> wizard \<Rightarrow> wizard" where
  "splitOutFile uuid fileId s = s\<lparr>wz_groups := splitOut uuid (wz_groups s) fileId\<rparr>"

definition setInvoiceKind :: "string \<Rightarrow> invoice_kind option \<Rightarrow> wizard \<Rightarrow> wizard" where
  "setInvoiceKind groupId kind s =
     s\<lparr>wz_groups := map (\<lambda>g. if mg_id g = groupId then g\<lparr>mg_invoiceKind := kind\<rparr> else g) (wz_groups s)\<rparr>"

definition resetGroupToAutomatic :: "wizard \<Rightarrow> wizard" where
  "resetGroupToAutomatic s = on_group returnToAutomatic s"


subsection \<open>Runs\<close>

text \<open>\<open>applyRoute\<close>; \<open>cl\<close> is what the render of the click closed over.\<close>

definition applyRoute :: "closure \<Rightarrow> run_route \<Rightarrow> wizard \<Rightarrow> wizard" where
  "applyRoute cl route s = (case route of
     To_Single i \<Rightarrow> (openImportedInvoice cl i None s)\<lparr>wz_run := idle_run\<rparr>
   | To_Extraction job invoice \<Rightarrow>
       (openExtraction cl job
         (s\<lparr>nv_jobInvoices := (case invoice of Some v \<Rightarrow> (job, v) # nv_jobInvoices s | None \<Rightarrow> nv_jobInvoices s)\<rparr>))
       \<lparr>wz_run := idle_run\<rparr>
   | To_Review ids \<Rightarrow> s\<lparr>nv_batches := ids, nv_step := Step_Review, wz_run := markRunRouted (wz_run s)\<rparr>
   | Nowhere \<Rightarrow> s\<lparr>wz_run := markRunFailed (wz_run s)\<rparr>)"

text \<open>The batch whose one invoice \<open>resolveSoleInvoiceId\<close> looks up.\<close>

definition soleReport :: "import_run \<Rightarrow> string option" where
  "soleReport run =
    (if length (im_files run) = 1 then
       (case rn_outcome (hd (im_files run)) of
          Imported _ report _ \<Rightarrow>
            if ir_status report = Completed \<and> ir_ready_invoices report = 1 then Some (ir_id report) else None
        | _ \<Rightarrow> None)
     else None)"

definition resolveSoleInvoiceId :: "nat \<Rightarrow> import_run \<Rightarrow> closure \<Rightarrow> wizard \<Rightarrow> wizard" where
  "resolveSoleInvoiceId seq run cl s =
    (case soleReport run of
       None \<Rightarrow> s\<lparr>wz_tasks := wz_tasks s @ [Await_Sole seq run cl]\<rparr>
     | Some i \<Rightarrow> ask (Sole_Request seq i) (Await_Sole seq run cl) s)"

definition sole_answered :: "nat \<Rightarrow> import_run \<Rightarrow> closure \<Rightarrow> string option \<Rightarrow> wizard \<Rightarrow> wizard" where
  "sole_answered seq run cl found s =
    (let soleId = (if soleReport run = None then None else found)
     in if seq = wz_runSeq s then applyRoute cl (routeAfterRun run soleId) s else s)"

definition show_run :: "nat \<Rightarrow> import_run \<Rightarrow> wizard \<Rightarrow> wizard" where
  "show_run seq run s = (if seq = wz_runSeq s then s\<lparr>wz_run := run\<rparr> else s)"

definition run_files :: "mapping_group list \<Rightarrow> picked_file list \<Rightarrow> run_file list" where
  "run_files groups picked = map (\<lambda>pf. \<lparr>rn_id = pk_id pf, rn_name = fi_name (pk_file pf),
     rn_groupId = (case groupOfFile groups (pk_id pf) of Some g \<Rightarrow> mg_id g | None \<Rightarrow> []),
     rn_outcome = Outcome_Pending\<rparr>) picked"

definition kind_name :: "invoice_kind \<Rightarrow> string" where
  "kind_name k = (case k of B2B \<Rightarrow> ''B2B'' | B2G \<Rightarrow> ''B2G'' | B2C \<Rightarrow> ''B2C'')"

definition import_of :: "string \<Rightarrow> string \<Rightarrow> mapping_group \<Rightarrow> create_import_request" where
  "import_of entity documentId g =
     \<lparr>ci_documentId = documentId, ci_entityId = entity, ci_mapping = toImportMapping (mg_mapping g),
      ci_rememberMapping = rememberMapping g, ci_headerRow = Some (mg_headerRow g),
      ci_defaultInvoiceKind = map_option kind_name (defaultInvoiceKindFor g)\<rparr>"

definition document_of :: "picked_file list \<Rightarrow> string \<Rightarrow> string option" where
  "document_of picked fileId = Option.bind (find (\<lambda>pf. pk_id pf = fileId) picked)
     (\<lambda>pf. if pk_documentId pf = Some [] then None else pk_documentId pf)"

definition missing_outcome :: "string option \<Rightarrow> file_outcome" where
  "missing_outcome documentId = Outcome_Failed
     (if documentId \<noteq> None then ''no mapping found for this file''
      else ''this file was not uploaded '' @ em_dash @ '' read its columns again'') None"

text \<open>The loop of \<open>startRun\<close> up to its next \<open>await\<close>.\<close>

fun run_loop ::
  "nat \<Rightarrow> string \<Rightarrow> picked_file list \<Rightarrow> mapping_group list \<Rightarrow> closure \<Rightarrow> run_file list \<Rightarrow> import_run \<Rightarrow> wizard \<Rightarrow> wizard"
where
  "run_loop seq entity picked groups cl [] run s = resolveSoleInvoiceId seq run cl (release s)"
| "run_loop seq entity picked groups cl (rf # rest) run s =
    (case (document_of picked (rn_id rf), groupOfFile groups (rn_id rf)) of
       (Some d, Some g) \<Rightarrow>
         ask (Import_Request seq (import_of entity d g)) (Await_Import seq entity picked groups (rf # rest) run cl) s
     | (d, _) \<Rightarrow>
         (let run' = runReducer run (Settled (missing_outcome d))
          in run_loop seq entity picked groups cl rest run' (show_run seq run' s)))"

definition startRun :: "wizard_env \<Rightarrow> wizard \<Rightarrow> wizard" where
  "startRun env s =
    (if \<not> we_gateway env \<or> wz_entityId s = None \<or> wz_entityId s = Some [] \<or> \<not> canSubmitAllMappings (wz_groups s) then s
     else case lockHeld Op_Run s of
       Some s' \<Rightarrow> s'
     | None \<Rightarrow>
         (let seq = wz_runSeq s + 1;
              files = run_files (wz_groups s) (wz_pickedFiles s);
              run = runReducer idle_run (Start files)
          in run_loop seq (the (wz_entityId s)) (wz_pickedFiles s) (wz_groups s) (closure_of s) files run
               (s\<lparr>wz_reqInFlight := True, wz_runSeq := seq, wz_lockBy := (Op_Run, seq), wz_importError := None,
                  wz_run := run\<rparr>)))"

definition import_settled ::
  "nat \<Rightarrow> string \<Rightarrow> picked_file list \<Rightarrow> mapping_group list \<Rightarrow> run_file list \<Rightarrow> import_run \<Rightarrow> closure \<Rightarrow> failure + import_report
     \<Rightarrow> wizard \<Rightarrow> wizard"
where
  "import_settled seq entity picked groups left run cl result s =
    (let run' = runReducer run (Settled (case result of
           Inr report \<Rightarrow> Imported (ir_id report) report None
         | Inl err \<Rightarrow> Outcome_Failed (ae_message (toApiError err)) None))
     in run_loop seq entity picked groups cl (tl left) run' (show_run seq run' s))"

definition document_files :: "picked_file list \<Rightarrow> run_file list" where
  "document_files picked = map (\<lambda>pf. \<lparr>rn_id = pk_id pf, rn_name = fi_name (pk_file pf), rn_groupId = [],
     rn_outcome = Outcome_Pending\<rparr>) picked"

definition start_documents :: "wizard_env \<Rightarrow> wizard \<Rightarrow> wizard" where
  "start_documents env s =
    (if \<not> we_gateway env \<or> wz_entityId s = None \<or> wz_entityId s = Some [] \<or> \<not> canStartDocumentRun (wz_pickedFiles s) then s
     else case lockHeld Op_Run s of
       Some s' \<Rightarrow> s'
     | None \<Rightarrow>
         (let seq = wz_runSeq s + 1;
              run = runReducer idle_run (Start (document_files (wz_pickedFiles s)));
              entity = the (wz_entityId s)
          in ask (Documents_Request seq entity (wz_pickedFiles s)) (Await_Documents seq entity (wz_pickedFiles s) run (closure_of s))
               (s\<lparr>wz_reqInFlight := True, wz_runSeq := seq, wz_lockBy := (Op_Run, seq), wz_importError := None,
                  wz_run := run, wz_documentStages := Map.empty, nv_step := Step_Documents\<rparr>)))"

fun settle_outcome :: "nat \<Rightarrow> import_run \<times> wizard \<Rightarrow> file_outcome \<Rightarrow> import_run \<times> wizard" where
  "settle_outcome seq (run, s) oc =
    (case oc of
       Outcome_Pending \<Rightarrow> (run, s)
     | Uploading _ \<Rightarrow> (run, s)
     | _ \<Rightarrow> (let run' = runReducer run (Settled oc) in (run', show_run seq run' s)))"

definition documents_settled :: "nat \<Rightarrow> import_run \<Rightarrow> closure \<Rightarrow> file_outcome list \<Rightarrow> wizard \<Rightarrow> wizard" where
  "documents_settled seq run cl outcomes s =
    (case foldl (settle_outcome seq) (run, s) outcomes of (run', s') \<Rightarrow> resolveSoleInvoiceId seq run' cl (release s'))"

definition continueMapping :: "wizard_env \<Rightarrow> wizard \<Rightarrow> wizard" where
  "continueMapping env s =
    (if \<not> canSubmitMapping (map_option mg_mapping (activeGroup s)) then s\<lparr>wz_armedField := Some ''invoice_number''\<rparr>
     else if int (wz_groupIndex s) < int (length (wz_groups s)) - 1 then s\<lparr>wz_groupIndex := wz_groupIndex s + 1\<rparr>
     else startRun env s)"

subsection \<open>Typing instead, and filing\<close>

definition land_reading :: "nat \<Rightarrow> bool \<Rightarrow> closure \<Rightarrow> string \<Rightarrow> json option \<Rightarrow> wizard \<Rightarrow> wizard" where
  "land_reading seq fromReview cl documentId reading s =
    (if seq \<noteq> wz_handOffReadSeq s then s
     else (if fromReview then navigate cl V_Create no_params s else s)
       \<lparr>wz_handOffDocumentId := Some documentId, wz_handOffReading := reading,
        wz_draft := (if reading \<noteq> None then put_field ''number'' [] (wz_draft s) else wz_draft s), nv_step := Step_Form\<rparr>)"

definition enterByHand :: "wizard_env \<Rightarrow> string \<Rightarrow> wizard \<Rightarrow> wizard" where
  "enterByHand env documentId s =
    (let seq = wz_handOffReadSeq s + 1;
         fromReview = (nv_view s = V_Extraction);
         s' = s\<lparr>wz_handOffReadSeq := seq\<rparr>
     in if \<not> we_gateway env then land_reading seq fromReview (closure_of s) documentId None s'
        else ask (Reading_Request documentId) (Await_Reading seq fromReview (closure_of s) documentId) s')"

text \<open>What the callbacks of a filing do to the page.\<close>

fun observe :: "('req \<Rightarrow> wizard_request) \<Rightarrow> closure \<Rightarrow> wizard \<Rightarrow> ('req, api_error) observation \<Rightarrow> wizard" where
  "observe mk cl s (OnError e) = s\<lparr>wz_filingError := map_option Slot_Error e\<rparr>"
| "observe mk cl s (OnPending b) =
     (let s' = s\<lparr>wz_filing := b\<rparr> in if b then s' else releaseStillWorking s')"
| "observe mk cl s (Request r) = ask (mk r) (Await_Filing cl) s"
| "observe mk cl s (OnCreated i) = openImportedInvoice cl i None s"

definition run_filing ::
  "('req \<Rightarrow> wizard_request) \<Rightarrow> closure \<Rightarrow> (('req, api_error) filing \<Rightarrow> ('req, api_error) filing) \<Rightarrow> wizard \<Rightarrow> wizard"
where
  "run_filing mk cl act s =
    (let f = act \<lparr>fl_inFlight = wz_reqInFlight s, fl_open = 0, fl_log = []\<rparr>
     in foldl (observe mk cl) (s\<lparr>wz_reqInFlight := fl_inFlight f\<rparr>) (fl_log f))"

definition fileDraft :: "wizard_env \<Rightarrow> wizard \<Rightarrow> wizard" where
  "fileDraft env s =
    (case activeEntity s of
       None \<Rightarrow> s
     | Some e \<Rightarrow>
         if \<not> we_gateway env \<or> fileDraftGate (wz_draft s) (Some (fst e)) \<noteq> None then s
         else case lockHeld Op_Filing s of
           Some s' \<Rightarrow> s'
         | None \<Rightarrow>
             (let s' = s\<lparr>wz_lockBy := (Op_Filing, wz_runSeq s)\<rparr> in
              case (wz_handOffReading s, wz_handOffDocumentId s) of
                (Some _, Some d) \<Rightarrow>
                  run_filing Supply_Request (closure_of s) (fileSuppliedNumber (dr_field (wz_draft s) ''number'') (entity_id e) d) s'
              | (_, d) \<Rightarrow> run_filing File_Request (closure_of s) (fileDraftInvoice (wz_draft s) (fst e) d) s'))"

text \<open>The answer reports to the same callbacks, whichever request was made.\<close>

definition filing_answered :: "closure \<Rightarrow> api_error + string \<Rightarrow> wizard \<Rightarrow> wizard" where
  "filing_answered cl r s = run_filing File_Request cl (file_answer r) s"

subsection \<open>The page\<close>

datatype wizard_event =
    Browse nav_event
  | Entities "entity list"
  | Company string
  | Open_Wizard
  | Leave_Wizard
  | Back_To_Import
  | Restart_Import
  | Skip_Upload
  | Pick "nat \<Rightarrow> string" "js_file list"
  | Unpick string
  | Read_Columns
  | Arm string
  | Drag string
  | End_Drag
  | Drop_On string
  | Click_Column string
  | Unmap_Column string
  | Split_Out string string
  | Kind_Set string "invoice_kind option"
  | Group_Automatic
  | Continue
  | Read_Documents
  | By_Hand string
  | Edit "string \<Rightarrow> string" draft_edit
  | File_Draft
  | Answered nat wizard_answer

text \<open>The clicks that only navigate; the others move the wizard too.\<close>

fun browsing :: "nav_event \<Rightarrow> bool" where
  "browsing (Entities_Landed _) = False"
| "browsing (Switch_Client _) = False"
| "browsing Open_Create = False"
| "browsing (Open_Create_Locked _) = False"
| "browsing (Entered_By_Hand _ _) = False"
| "browsing Close_Create = False"
| "browsing (Step_To _) = False"
| "browsing Import_Reset = False"
| "browsing (Review_Lands _) = False"
| "browsing _ = True"

text \<open>The answer to the \<open>k\<close>th task; a task takes only answers of its own kind. The phases of an upload and the stages of a
  reading leave their task waiting.\<close>

definition take_answer :: "nat \<Rightarrow> task \<Rightarrow> wizard_answer \<Rightarrow> wizard \<Rightarrow> wizard" where
  "take_answer k t a s =
    (let s' = s\<lparr>wz_tasks := remove_at k (wz_tasks s)\<rparr> in
     case (t, a) of
       (Await_Preview files left previewed target, Previewed r) \<Rightarrow> preview_answered files left previewed target r s'
     | (Await_Mapping previewed target, Mappings uuid lookup suggest check) \<Rightarrow>
         mappings_answered previewed target uuid lookup suggest check s'
     | (Await_Import seq entity picked groups left run cl, Import_Phase phase) \<Rightarrow>
         (let run' = runReducer run (Phase phase)
          in show_run seq run' (s\<lparr>wz_tasks := (wz_tasks s)[k := Await_Import seq entity picked groups left run' cl]\<rparr>))
     | (Await_Import seq entity picked groups left run cl, Import_Settled r) \<Rightarrow>
         import_settled seq entity picked groups left run cl r s'
     | (Await_Documents seq entity picked run cl, Document_Stage i state) \<Rightarrow>
         s\<lparr>wz_documentStages := setStage (wz_documentStages s) (i, state)\<rparr>
     | (Await_Documents seq entity picked run cl, Documents_Settled outcomes) \<Rightarrow> documents_settled seq run cl outcomes s'
     | (Await_Sole seq run cl, Sole_Found found) \<Rightarrow> sole_answered seq run cl found s'
     | (Await_Filing cl, Filed r) \<Rightarrow> filing_answered cl r s'
     | (Await_Reading seq fromReview cl documentId, Reading_Found reading) \<Rightarrow>
         land_reading seq fromReview cl documentId reading s'
     | _ \<Rightarrow> s)"

definition answered :: "nat \<Rightarrow> wizard_answer \<Rightarrow> wizard \<Rightarrow> wizard" where
  "answered k a s = (if length (wz_tasks s) \<le> k then s else take_answer k (wz_tasks s ! k) a s)"

fun wizard_act :: "wizard_env \<Rightarrow> wizard \<Rightarrow> wizard_event \<Rightarrow> wizard" where
  "wizard_act env s (Browse e) = (if browsing e then nav_act s e else s)"
| "wizard_act env s (Entities es) = (nav_act s (Entities_Landed (map entity_id es)))\<lparr>wz_entities := es\<rparr>"
| "wizard_act env s (Company i) = switch_company env i s"
| "wizard_act env s Open_Wizard = openCreate env s"
| "wizard_act env s Leave_Wizard = closeCreate s"
| "wizard_act env s Back_To_Import = backToImport s"
| "wizard_act env s Restart_Import = restartImport s"
| "wizard_act env s Skip_Upload = skipUpload s"
| "wizard_act env s (Pick uuid files) = addPickedFiles uuid files s"
| "wizard_act env s (Unpick i) = removePickedFile i s"
| "wizard_act env s Read_Columns = readAllColumns env s"
| "wizard_act env s (Arm k) = armField k s"
| "wizard_act env s (Drag k) = setDrag k s"
| "wizard_act env s End_Drag = endDrag s"
| "wizard_act env s (Drop_On h) = dropOn h s"
| "wizard_act env s (Click_Column h) = clickCol h s"
| "wizard_act env s (Unmap_Column h) = unmap h s"
| "wizard_act env s (Split_Out uuid i) = splitOutFile uuid i s"
| "wizard_act env s (Kind_Set g k) = setInvoiceKind g k s"
| "wizard_act env s Group_Automatic = resetGroupToAutomatic s"
| "wizard_act env s Continue = continueMapping env s"
| "wizard_act env s Read_Documents = start_documents env s"
| "wizard_act env s (By_Hand d) = enterByHand env d s"
| "wizard_act env s (Edit number_text e) = s\<lparr>wz_draft := edit_draft number_text e (wz_draft s)\<rparr>"
| "wizard_act env s File_Draft = fileDraft env s"
| "wizard_act env s (Answered k a) = answered k a s"

text \<open>The effects of a render: a company that resolves fills the blank supplier fields of the draft, and the target of an
  upload that was opened before it resolved.\<close>

definition fill_supplier :: "wizard \<Rightarrow> wizard" where
  "fill_supplier s =
    (let i = map_option entity_id (activeEntity s) in
     if i = wz_filledFor s then s
     else (case activeEntity s of
         None \<Rightarrow> s
       | Some e \<Rightarrow> s\<lparr>wz_draft := withSupplierDefaults (wz_draft s) (snd e)\<rparr>)\<lparr>wz_filledFor := i\<rparr>)"

definition fill_target :: "wizard \<Rightarrow> wizard" where
  "fill_target s =
    (if nv_step s = Step_Upload \<and> wz_entityId s = None \<and> active_id s \<noteq> None then s\<lparr>wz_entityId := active_id s\<rparr> else s)"

definition rendered :: "wizard \<Rightarrow> wizard" where
  "rendered s = fill_target (fill_supplier (commit s))"

definition wizard_step :: "wizard_env \<Rightarrow> wizard \<Rightarrow> wizard_event \<Rightarrow> wizard" where
  "wizard_step env s e = rendered (wizard_act env s e)"

definition wizard_boot :: "wizard_env \<Rightarrow> nav \<Rightarrow> wizard" where
  "wizard_boot env b = nav.extend b
     \<lparr>wz_entities = [], wz_draft = seedDraft env None None, wz_filledFor = None, wz_handOffDocumentId = None,
      wz_handOffReading = None, wz_handOffReadSeq = 0, wz_groups = [], wz_groupIndex = 0, wz_armedField = None,
      wz_dragField = None, wz_entityId = None, wz_pickedFiles = [], wz_filesRefusal = None, wz_run = idle_run,
      wz_documentStages = Map.empty, wz_importError = None, wz_filing = False, wz_filingError = None,
      wz_reqInFlight = False, wz_lockBy = (Op_Run, 0), wz_runSeq = 0, wz_tasks = [], wz_sent = []\<rparr>"

subsection \<open>The wizard moves as the navigation does\<close>

text \<open>The moves of the navigation that an event of the page makes. A refused click moves nothing.\<close>

definition route_moves :: "closure \<Rightarrow> run_route \<Rightarrow> nav_event list" where
  "route_moves cl route = (case route of
     To_Single i \<Rightarrow> [Open_Invoice (Some cl) i None]
   | To_Extraction job invoice \<Rightarrow> [Open_Extraction (Some cl) job invoice]
   | To_Review ids \<Rightarrow> [Review_Lands ids]
   | Nowhere \<Rightarrow> [])"

definition task_moves :: "wizard \<Rightarrow> task \<Rightarrow> wizard_answer \<Rightarrow> nav_event list" where
  "task_moves s t a = (case (t, a) of
     (Await_Mapping _ _, Mappings _ _ _ _) \<Rightarrow> [Step_To Step_Mapping]
   | (Await_Sole seq run cl, Sole_Found found) \<Rightarrow>
       if seq = wz_runSeq s then route_moves cl (routeAfterRun run (if soleReport run = None then None else found)) else []
   | (Await_Filing cl, Filed r) \<Rightarrow> (case r of Inr i \<Rightarrow> [Open_Invoice (Some cl) i None] | Inl _ \<Rightarrow> [])
   | (Await_Reading seq fromReview cl _, Reading_Found _) \<Rightarrow>
       if seq = wz_handOffReadSeq s then [Entered_By_Hand (Some cl) fromReview] else []
   | _ \<Rightarrow> [])"

fun moves :: "wizard_env \<Rightarrow> wizard \<Rightarrow> wizard_event \<Rightarrow> nav_event list" where
  "moves env s (Browse e) = (if browsing e then [e] else [])"
| "moves env s (Entities es) = [Entities_Landed (map entity_id es)]"
| "moves env s (Company i) = [Switch_Client i]"
| "moves env s Open_Wizard =
    (if wz_reqInFlight s \<and> snd (wz_lockBy s) = wz_runSeq s then
       [Open_Create_Locked
          (if nv_step s = Step_Review \<and> \<not> runIsActive (wz_run s)
           then Some (if fst (wz_lockBy s) = Op_Filing then Step_Form else Step_Upload) else None)]
     else [Open_Create])"
| "moves env s Leave_Wizard = [Close_Create]"
| "moves env s Back_To_Import = [Step_To Step_Upload]"
| "moves env s Restart_Import = [Import_Reset, Step_To Step_Upload]"
| "moves env s Skip_Upload = [Step_To Step_Form]"
| "moves env s Read_Documents =
    (if we_gateway env \<and> wz_entityId s \<noteq> None \<and> wz_entityId s \<noteq> Some [] \<and> canStartDocumentRun (wz_pickedFiles s)
        \<and> \<not> wz_reqInFlight s then [Step_To Step_Documents] else [])"
| "moves env s (By_Hand d) = (if we_gateway env then [] else [Entered_By_Hand None (nv_view s = V_Extraction)])"
| "moves env s (Answered k a) = (if length (wz_tasks s) \<le> k then [] else task_moves s (wz_tasks s ! k) a)"
| "moves env s _ = []"

text \<open>The navigation of the page.\<close>

definition nav_of :: "wizard \<Rightarrow> nav" where "nav_of s = nav.truncate s"

lemma nav_of_sel [simp]:
  "nv_mode (nav_of s) = nv_mode s" "nv_mount (nav_of s) = nv_mount s" "nv_clients (nav_of s) = nv_clients s"
  "nv_pick (nav_of s) = nv_pick s" "nv_hereRef (nav_of s) = nv_hereRef s" "nv_bootRef (nav_of s) = nv_bootRef s"
  "nv_view (nav_of s) = nv_view s" "nv_settingsTab (nav_of s) = nv_settingsTab s" "nv_q (nav_of s) = nv_q s"
  "nv_audit (nav_of s) = nv_audit s" "nv_policy (nav_of s) = nv_policy s" "nv_detail (nav_of s) = nv_detail s"
  "nv_line (nav_of s) = nv_line s" "nv_job (nav_of s) = nv_job s" "nv_jobInvoices (nav_of s) = nv_jobInvoices s"
  "nv_batches (nav_of s) = nv_batches s" "nv_step (nav_of s) = nv_step s" "nv_switcher (nav_of s) = nv_switcher s"
  "nv_entries (nav_of s) = nv_entries s" "nv_at (nav_of s) = nv_at s" "nv_mirrored (nav_of s) = nv_mirrored s"
  by (simp_all add: nav_of_def nav.defs)

lemma nav_of_upd [simp]:
  "nav_of (s\<lparr>nv_clients := x1\<rparr>) = (nav_of s)\<lparr>nv_clients := x1\<rparr>" "nav_of (s\<lparr>nv_pick := x2\<rparr>) = (nav_of s)\<lparr>nv_pick := x2\<rparr>"
  "nav_of (s\<lparr>nv_hereRef := x2\<rparr>) = (nav_of s)\<lparr>nv_hereRef := x2\<rparr>" "nav_of (s\<lparr>nv_bootRef := x2\<rparr>) = (nav_of s)\<lparr>nv_bootRef := x2\<rparr>"
  "nav_of (s\<lparr>nv_view := x3\<rparr>) = (nav_of s)\<lparr>nv_view := x3\<rparr>" "nav_of (s\<lparr>nv_settingsTab := x4\<rparr>) = (nav_of s)\<lparr>nv_settingsTab := x4\<rparr>"
  "nav_of (s\<lparr>nv_q := x5\<rparr>) = (nav_of s)\<lparr>nv_q := x5\<rparr>" "nav_of (s\<lparr>nv_audit := x6\<rparr>) = (nav_of s)\<lparr>nv_audit := x6\<rparr>"
  "nav_of (s\<lparr>nv_policy := x2\<rparr>) = (nav_of s)\<lparr>nv_policy := x2\<rparr>" "nav_of (s\<lparr>nv_detail := x2\<rparr>) = (nav_of s)\<lparr>nv_detail := x2\<rparr>"
  "nav_of (s\<lparr>nv_line := x7\<rparr>) = (nav_of s)\<lparr>nv_line := x7\<rparr>" "nav_of (s\<lparr>nv_job := x2\<rparr>) = (nav_of s)\<lparr>nv_job := x2\<rparr>"
  "nav_of (s\<lparr>nv_jobInvoices := x8\<rparr>) = (nav_of s)\<lparr>nv_jobInvoices := x8\<rparr>" "nav_of (s\<lparr>nv_batches := x1\<rparr>) = (nav_of s)\<lparr>nv_batches := x1\<rparr>"
  "nav_of (s\<lparr>nv_step := x9\<rparr>) = (nav_of s)\<lparr>nv_step := x9\<rparr>" "nav_of (s\<lparr>nv_switcher := b\<rparr>) = (nav_of s)\<lparr>nv_switcher := b\<rparr>"
  "nav_of (s\<lparr>nv_entries := x10\<rparr>) = (nav_of s)\<lparr>nv_entries := x10\<rparr>" "nav_of (s\<lparr>nv_at := x11\<rparr>) = (nav_of s)\<lparr>nv_at := x11\<rparr>"
  "nav_of (s\<lparr>nv_mirrored := x12\<rparr>) = (nav_of s)\<lparr>nv_mirrored := x12\<rparr>"
  by (simp_all add: nav_of_def nav.defs)

lemma nav_of_wizard [simp]:
  "nav_of (s\<lparr>wz_entities := y1\<rparr>) = nav_of s" "nav_of (s\<lparr>wz_draft := y2\<rparr>) = nav_of s" "nav_of (s\<lparr>wz_filledFor := y3\<rparr>) = nav_of s"
  "nav_of (s\<lparr>wz_handOffDocumentId := y3\<rparr>) = nav_of s" "nav_of (s\<lparr>wz_handOffReading := y4\<rparr>) = nav_of s"
  "nav_of (s\<lparr>wz_handOffReadSeq := n\<rparr>) = nav_of s" "nav_of (s\<lparr>wz_groups := y5\<rparr>) = nav_of s" "nav_of (s\<lparr>wz_groupIndex := n\<rparr>) = nav_of s"
  "nav_of (s\<lparr>wz_armedField := y3\<rparr>) = nav_of s" "nav_of (s\<lparr>wz_dragField := y3\<rparr>) = nav_of s" "nav_of (s\<lparr>wz_entityId := y3\<rparr>) = nav_of s"
  "nav_of (s\<lparr>wz_pickedFiles := y6\<rparr>) = nav_of s" "nav_of (s\<lparr>wz_filesRefusal := y3\<rparr>) = nav_of s" "nav_of (s\<lparr>wz_run := y7\<rparr>) = nav_of s"
  "nav_of (s\<lparr>wz_documentStages := y8\<rparr>) = nav_of s" "nav_of (s\<lparr>wz_importError := y9\<rparr>) = nav_of s" "nav_of (s\<lparr>wz_filing := b\<rparr>) = nav_of s"
  "nav_of (s\<lparr>wz_filingError := y9\<rparr>) = nav_of s" "nav_of (s\<lparr>wz_reqInFlight := b\<rparr>) = nav_of s" "nav_of (s\<lparr>wz_lockBy := y10\<rparr>) = nav_of s"
  "nav_of (s\<lparr>wz_runSeq := n\<rparr>) = nav_of s" "nav_of (s\<lparr>wz_tasks := y11\<rparr>) = nav_of s" "nav_of (s\<lparr>wz_sent := y12\<rparr>) = nav_of s"
  by (simp_all add: nav_of_def nav.defs)

lemma nav_of_active [simp]:
  "active_id (nav_of s) = active_id s" "closure_of (nav_of s) = closure_of s" "current_entry (nav_of s) = current_entry s"
  "current_url (nav_of s) = current_url s" "audit_id (nav_of s) = audit_id s" "replaceStamp (nav_of s) = replaceStamp s"
  by (simp_all add: active_id_def closure_of_def current_entry_def current_url_def audit_id_def replaceStamp_def)

lemma nav_of_history [simp]:
  "nav_of (pushState st url s) = pushState st url (nav_of s)" "nav_of (replaceState st url s) = replaceState st url (nav_of s)"
  by (simp_all add: pushState_def replaceState_def)

lemma nav_of_navigate [simp]: "nav_of (navigate cl v p s) = navigate cl v p (nav_of s)"
  by (simp add: navigate_def Let_def cong: option.case_cong)

lemma nav_of_if: "nav_of (if c then s else t) = (if c then nav_of s else nav_of t)"
  by simp

lemma nav_of_stamp: "nav_of (stamp_window s) = stamp_window (nav_of s)"
  unfolding stamp_window_def Let_def nav_of_if by (simp add: current_entry_def cong: if_cong split del: if_split)

lemma nav_of_mirror: "nav_of (mirror_review s) = mirror_review (nav_of s)"
  unfolding mirror_review_def Let_def nav_of_if by (simp add: replaceStamp_def current_entry_def cong: if_cong split del: if_split)

lemma nav_of_commit [simp]: "nav_of (commit s) = commit (nav_of s)"
  by (simp add: commit_def nav_of_stamp nav_of_mirror)

lemma nav_of_popstate: "nav_of (onPopState s) = onPopState (nav_of s)"
  unfolding onPopState_def Let_def nav_of_if
  by (simp add: nav_of_if if_distrib [of nv_mode] if_distrib [of nv_audit] if_distrib [of nv_step] cong: if_cong split del: if_split)

lemma nav_of_act: "nav_of (nav_act s e) = nav_act (nav_of s) e"
  by (cases e) (simp_all add: nav_to_def searchInvoices_def setInvoiceQuery_def adoptBatchClient_def switchClient_def
    openImportedInvoice_def openAuditForInvoice_def setAuditInvoiceFilter_def openExtraction_def setSettingsTab_def openPolicy_def
    deletePolicy_def fresh_create_def nav_of_popstate cong: option.case_cong)

lemma nav_of_render: "nav_of (rendered s) = commit (nav_of s)"
  by (simp add: rendered_def fill_target_def fill_supplier_def Let_def split: option.split)

lemma nav_of_quiet [simp]:
  "nav_of (showStillWorking st s) = nav_of s" "nav_of (releaseStillWorking s) = nav_of s" "nav_of (release s) = nav_of s"
  "nav_of (ask req t s) = nav_of s" "nav_of (clear_handoff s) = nav_of s" "nav_of (show_run seq run s) = nav_of s"
  "nav_of (resolveSoleInvoiceId seq run cl s) = nav_of s" "nav_of (on_group f s) = nav_of s" "nav_of (assign k h s) = nav_of s"
  "nav_of (resetImport target s) = (nav_of s)\<lparr>nv_batches := []\<rparr>"
  by (simp_all add: showStillWorking_def releaseStillWorking_def release_def ask_def clear_handoff_def show_run_def
    resolveSoleInvoiceId_def on_group_def assign_def resetImport_def split: option.split)

lemma nav_of_locked: "lockHeld op s = Some s' \<Longrightarrow> nav_of s' = nav_of s"
  by (auto simp: lockHeld_def split: if_splits)

lemma nav_of_run_loop [simp]: "nav_of (run_loop seq entity picked groups cl left run s) = nav_of s"
  by (induction left arbitrary: run s) (simp_all add: Let_def del: runReducer.simps split: option.split)

lemma nav_of_settle: "nav_of (snd (foldl (settle_outcome seq) rs ocs)) = nav_of (snd rs)"
proof (induction ocs arbitrary: rs)
  case (Cons oc ocs)
  have "nav_of (snd (settle_outcome seq rs oc)) = nav_of (snd rs)"
    by (cases rs; cases oc) (simp_all add: Let_def)
  with Cons show ?case by simp
qed simp

lemma nav_of_startRun [simp]: "nav_of (startRun env s) = nav_of s"
  by (auto simp: startRun_def Let_def nav_of_locked split: option.split)

lemma nav_of_filing:
  "nav_of (run_filing mk cl (file_click req) s) = nav_of s"
  "nav_of (run_filing mk cl (file_answer r) s) =
     (case r of Inl _ \<Rightarrow> nav_of s | Inr i \<Rightarrow> openImportedInvoice cl i None (nav_of s))"
  by (simp_all add: run_filing_def file_click_def file_answer_def Let_def openImportedInvoice_def split: sum.split)

lemma nav_of_route: "nav_of (applyRoute cl route s) = foldl nav_act (nav_of s) (route_moves cl route)"
  by (cases route) (simp_all add: applyRoute_def route_moves_def openImportedInvoice_def openExtraction_def cong: option.case_cong)

lemma nav_of_answer:
  assumes "k < length (wz_tasks s)"
  shows "nav_of (answered k a s) = foldl nav_act (nav_of s) (task_moves s (wz_tasks s ! k) a)"
proof -
  define t s' where t: "t = wz_tasks s ! k" and s': "s' = s\<lparr>wz_tasks := remove_at k (wz_tasks s)\<rparr>"
  have keep [simp]: "nav_of s' = nav_of s" "wz_runSeq s' = wz_runSeq s" "wz_handOffReadSeq s' = wz_handOffReadSeq s"
    by (simp_all add: s')
  have settled: "nav_of (documents_settled seq run cl ocs s') = nav_of s" for seq run cl ocs
    using nav_of_settle [of seq "(run, s')" ocs] by (simp add: documents_settled_def case_prod_beta)
  show ?thesis
    using assms settled unfolding answered_def take_answer_def task_moves_def t [symmetric] s' [symmetric] Let_def
    by (cases t; cases a) (auto simp: preview_answered_def mappings_answered_def import_settled_def sole_answered_def
        nav_of_route filing_answered_def nav_of_filing land_reading_def Let_def split: sum.split list.split)
qed

text \<open>One event moves the navigation by its moves.\<close>

lemma act_moves: "nav_of (wizard_act env s e) = foldl nav_act (nav_of s) (moves env s e)"
proof (cases e)
  case (Answered k a)
  show ?thesis
  proof (cases "k < length (wz_tasks s)")
    case True
    then show ?thesis using Answered nav_of_answer [OF True] by simp
  next
    case False
    then show ?thesis using Answered by (simp add: answered_def)
  qed
next
  case Open_Wizard
  then show ?thesis by (simp add: openCreate_def fresh_create_def Let_def)
next
  case (Company i)
  then show ?thesis by (simp add: switch_company_def switchClient_def Let_def)
next
  case Read_Columns
  then show ?thesis by (auto simp: readAllColumns_def Let_def nav_of_locked split: option.split)
next
  case Read_Documents
  then show ?thesis by (cases "wz_reqInFlight s") (simp_all add: start_documents_def Let_def lockHeld_def del: runReducer.simps)
next
  case File_Draft
  have "nav_of (fileDraft env s) = nav_of s"
    by (auto simp: fileDraft_def Let_def nav_of_locked nav_of_filing fileSuppliedNumber_def fileDraftInvoice_def
        split: option.split prod.split)
  then show ?thesis using File_Draft by simp
next
  case (By_Hand d)
  then show ?thesis by (simp add: enterByHand_def land_reading_def Let_def)
next
  case Continue
  then show ?thesis by (simp add: continueMapping_def)
qed (simp_all add: nav_of_act closeCreate_def backToImport_def restartImport_def skipUpload_def
    addPickedFiles_def removePickedFile_def armField_def setDrag_def endDrag_def dropOn_def clickCol_def unmap_def splitOutFile_def
    setInvoiceKind_def resetGroupToAutomatic_def Let_def split: option.split prod.split)

text \<open>The navigation after one round: the moves of an event, then the effects of the render.\<close>

definition nav_round :: "nav \<Rightarrow> nav_event list \<Rightarrow> nav" where
  "nav_round n es = commit (foldl nav_act n es)"

fun rounds :: "wizard_env \<Rightarrow> wizard \<Rightarrow> wizard_event list \<Rightarrow> nav_event list list" where
  "rounds env s [] = []"
| "rounds env s (e # es) = moves env s e # rounds env (wizard_step env s e) es"

text \<open>C6: the import wizard moves the workspace only as its navigation allows. Whatever is clicked, whichever
  answers arrive and in whatever order, the navigation of the page (its view, its records, the company and the history) is
  that of the navigation alone driven by the moves of the events: a run that lands, a filing that is answered
  and a reading that arrives open a screen by the same moves as a click does.\<close>

theorem wizard_refines_navigation:
  "nav_of (foldl (wizard_step env) s es) = foldl nav_round (nav_of s) (rounds env s es)"
  by (induction es arbitrary: s) (simp_all add: wizard_step_def nav_of_render act_moves nav_round_def)

subsection \<open>One round trip at a time\<close>

text \<open>Navigation leaves the wizard alone.\<close>

lemma more_history:
  "nav.more (pushState st url s) = nav.more s" "nav.more (replaceState st url s) = nav.more s"
  "nav.more (navigate cl v p s) = nav.more s"
  by (simp_all add: pushState_def replaceState_def navigate_def Let_def)

lemma more_commit: "nav.more (commit s) = nav.more s"
proof -
  have "nav.more (stamp_window s) = nav.more s" by (simp add: stamp_window_def more_history Let_def)
  moreover have "nav.more (mirror_review t) = nav.more t" for t :: "'a nav_scheme"
    by (simp add: mirror_review_def more_history Let_def)
  ultimately show ?thesis by (simp add: commit_def)
qed

lemma more_act: "nav.more (nav_act s e) = nav.more s"
proof -
  have "nav.more (onPopState t) = nav.more t" for t :: "'a nav_scheme"
    unfolding onPopState_def Let_def by (simp add: more_history)
  then show ?thesis
    by (cases e) (simp_all add: more_history nav_to_def searchInvoices_def setInvoiceQuery_def adoptBatchClient_def switchClient_def
      openImportedInvoice_def openAuditForInvoice_def setAuditInvoiceFilter_def openExtraction_def setSettingsTab_def openPolicy_def
      deletePolicy_def fresh_create_def)
qed

lemma wz_same:
  assumes "nav.more s' = nav.more (s :: wizard)"
  shows "wz_entities s' = wz_entities s" "wz_draft s' = wz_draft s" "wz_filledFor s' = wz_filledFor s"
    "wz_handOffDocumentId s' = wz_handOffDocumentId s" "wz_handOffReading s' = wz_handOffReading s"
    "wz_handOffReadSeq s' = wz_handOffReadSeq s" "wz_groups s' = wz_groups s" "wz_groupIndex s' = wz_groupIndex s"
    "wz_entityId s' = wz_entityId s" "wz_pickedFiles s' = wz_pickedFiles s" "wz_run s' = wz_run s"
    "wz_importError s' = wz_importError s" "wz_filing s' = wz_filing s" "wz_filingError s' = wz_filingError s"
    "wz_reqInFlight s' = wz_reqInFlight s" "wz_lockBy s' = wz_lockBy s" "wz_runSeq s' = wz_runSeq s"
    "wz_tasks s' = wz_tasks s" "wz_sent s' = wz_sent s" "wz_armedField s' = wz_armedField s" "wz_dragField s' = wz_dragField s"
    "wz_filesRefusal s' = wz_filesRefusal s" "wz_documentStages s' = wz_documentStages s"
  using assms by (cases s; cases s'; simp)+

lemmas wz_act [simp] = wz_same [OF more_act]
lemmas wz_commit [simp] = wz_same [OF more_commit]
lemmas wz_navigate [simp] = wz_same [OF more_history(3)]

lemma wz_open [simp]:
  "wz_importError (openImportedInvoice cl i l s) = wz_importError s" "wz_filing (openImportedInvoice cl i l s) = wz_filing s"
  "wz_filingError (openImportedInvoice cl i l s) = wz_filingError s" "wz_reqInFlight (openImportedInvoice cl i l s) = wz_reqInFlight s"
  "wz_lockBy (openImportedInvoice cl i l s) = wz_lockBy s" "wz_tasks (openImportedInvoice cl i l s) = wz_tasks s"
  "wz_runSeq (openImportedInvoice cl i l s) = wz_runSeq s" "wz_sent (openImportedInvoice cl i l s) = wz_sent s"
  for s :: wizard
  by (simp_all add: openImportedInvoice_def)

fun op_of :: "task \<Rightarrow> lock_op option" where
  "op_of (Await_Preview _ _ _ _) = Some Op_Preview"
| "op_of (Await_Mapping _ _) = Some Op_Preview"
| "op_of (Await_Import _ _ _ _ _ _ _) = Some Op_Run"
| "op_of (Await_Documents _ _ _ _ _) = Some Op_Run"
| "op_of (Await_Filing _) = Some Op_Filing"
| "op_of _ = None"

definition lock_holders :: "task list \<Rightarrow> lock_op list" where
  "lock_holders ts = concat (map (\<lambda>t. case op_of t of None \<Rightarrow> [] | Some op \<Rightarrow> [op]) ts)"

text \<open>The number of a run that is under way.\<close>

fun running :: "task \<Rightarrow> nat option" where
  "running (Await_Import seq _ _ _ _ _ _) = Some seq"
| "running (Await_Documents seq _ _ _ _) = Some seq"
| "running _ = None"

text \<open>The lock is taken exactly while one round trip waits, and names it; the form spins exactly while a filing waits; the refusal
  is on the screen only while the lock is taken.\<close>

definition one_at_a_time :: "task list \<Rightarrow> bool \<Rightarrow> lock_op \<times> nat \<Rightarrow> bool \<Rightarrow> bool" where
  "one_at_a_time ts locked by spinning \<longleftrightarrow>
     lock_holders ts = (if locked then [fst by] else []) \<and>
     list_all (\<lambda>t. running t = None \<or> running t = Some (snd by)) ts \<and>
     spinning = (locked \<and> fst by = Op_Filing)"

definition refused_only :: "bool \<Rightarrow> slot_error option \<Rightarrow> slot_error option \<Rightarrow> bool" where
  "refused_only locked e f \<longleftrightarrow> Some Still_Working \<in> {e, f} \<longrightarrow> locked"

definition lock_ok :: "wizard \<Rightarrow> bool" where
  "lock_ok s \<longleftrightarrow> one_at_a_time (wz_tasks s) (wz_reqInFlight s) (wz_lockBy s) (wz_filing s) \<and>
     refused_only (wz_reqInFlight s) (wz_importError s) (wz_filingError s)"

lemma holders_simps [simp]:
  "lock_holders [] = []" "lock_holders (ts @ us) = lock_holders ts @ lock_holders us"
  "lock_holders (t # ts) = (case op_of t of None \<Rightarrow> [] | Some op \<Rightarrow> [op]) @ lock_holders ts"
  by (simp_all add: lock_holders_def)

text \<open>Taking a task out of the list, and putting another in its place.\<close>

lemma split_at: "k < length ts \<Longrightarrow> ts = take k ts @ ts ! k # drop (Suc k) ts"
  by (simp add: Cons_nth_drop_Suc)

lemma holders_removed:
  assumes "k < length ts"
  shows "\<exists>a b. lock_holders ts = a @ (case op_of (ts ! k) of None \<Rightarrow> [] | Some op \<Rightarrow> [op]) @ b \<and> lock_holders (remove_at k ts) = a @ b"
  by (rule exI [of _ "lock_holders (take k ts)"], rule exI [of _ "lock_holders (drop (Suc k) ts)"])
    (subst split_at [OF assms], simp add: remove_at_def)

lemma holders_one:
  assumes "k < length ts" "op_of (ts ! k) = Some op" "lock_holders ts = (if locked then [x] else [])"
  shows "locked" "x = op" "lock_holders (remove_at k ts) = []"
proof -
  obtain a b where "lock_holders ts = a @ [op] @ b" "lock_holders (remove_at k ts) = a @ b"
    using holders_removed [OF assms(1)] assms(2) by auto
  then show "locked" "x = op" "lock_holders (remove_at k ts) = []"
    using assms(3) by (auto simp: Cons_eq_append_conv split: if_splits)
qed

lemma holders_other:
  assumes "k < length ts" "op_of (ts ! k) = None"
  shows "lock_holders (remove_at k ts) = lock_holders ts"
proof -
  obtain a b where "lock_holders ts = a @ b" "lock_holders (remove_at k ts) = a @ b"
    using holders_removed [OF assms(1)] assms(2) by auto
  then show ?thesis by simp
qed

lemma holders_put:
  assumes "k < length ts" "op_of t = op_of (ts ! k)"
  shows "lock_holders (ts[k := t]) = lock_holders ts"
proof -
  have "lock_holders (ts[k := t]) = lock_holders (take k ts) @ (case op_of t of None \<Rightarrow> [] | Some op \<Rightarrow> [op]) @ lock_holders (drop (Suc k) ts)"
    using assms(1) by (simp add: upd_conv_take_nth_drop)
  also have "\<dots> = lock_holders (take k ts @ ts ! k # drop (Suc k) ts)" by (simp add: assms(2))
  finally show ?thesis using split_at [OF assms(1)] by simp
qed

lemma running_removed: "list_all P ts \<Longrightarrow> list_all P (remove_at k ts)"
  by (auto simp: list_all_iff dest: set_remove_at [THEN subsetD])

lemma refused_simps [simp]:
  "refused_only True e f" "refused_only b (drop_refusal e) (drop_refusal f)"
  "refused_only b (Some (Slot_Error x)) f = refused_only b None f" "refused_only b e (Some (Slot_Error x)) = refused_only b e None"
  "refused_only b (drop_refusal e) None" "refused_only b None (drop_refusal f)"
  by (auto simp: refused_only_def drop_refusal_def)

lemma refused_cleared: "refused_only b e f \<Longrightarrow> refused_only b None f" "refused_only b e f \<Longrightarrow> refused_only b e None"
  by (auto simp: refused_only_def)

text \<open>An operation that leaves the lock, the tasks and the slots alone.\<close>

definition lock_part :: "wizard \<Rightarrow> task list \<times> bool \<times> (lock_op \<times> nat) \<times> bool \<times> slot_error option \<times> slot_error option" where
  "lock_part s = (wz_tasks s, wz_reqInFlight s, wz_lockBy s, wz_filing s, wz_importError s, wz_filingError s)"

lemma lock_same: "lock_part s' = lock_part s \<Longrightarrow> lock_ok s \<Longrightarrow> lock_ok s'"
  by (simp add: lock_part_def lock_ok_def)

lemma lock_nav [simp]: "lock_part (nav_act s e) = lock_part s" "lock_part (commit s) = lock_part s" "lock_part (navigate cl v p s) = lock_part s"
    "lock_part (openImportedInvoice cl i l s) = lock_part s"
  by (simp_all add: lock_part_def)

lemma lock_render [simp]: "lock_part (rendered s) = lock_part s"
proof -
  have "lock_part (fill_target (fill_supplier t)) = lock_part t" for t
    by (simp add: fill_target_def fill_supplier_def lock_part_def Let_def split: option.split)
  then show ?thesis by (simp add: rendered_def)
qed

text \<open>The part of the state a refused click may change.\<close>

lemma lock_shown: "lock_ok s \<Longrightarrow> wz_reqInFlight s \<Longrightarrow> lock_ok (showStillWorking st s)"
  by (simp add: lock_ok_def showStillWorking_def)

lemma lock_refused: "lockHeld op s = Some s' \<Longrightarrow> lock_ok s \<Longrightarrow> lock_ok s'"
  by (auto simp: lockHeld_def lock_shown split: if_splits)

lemma lock_free: "lockHeld op s = None \<longleftrightarrow> \<not> wz_reqInFlight s"
  by (simp add: lockHeld_def)

lemma lock_taken:
  assumes "lock_ok s" "\<not> wz_reqInFlight s" "op_of t = Some op" "op \<noteq> Op_Filing" "running t = None \<or> running t = Some seq"
    and "wz_tasks s' = wz_tasks s @ [t]" "wz_reqInFlight s'" "wz_lockBy s' = (op, seq)" "wz_filing s' = wz_filing s"
  shows "lock_ok s'"
proof -
  have none: "lock_holders (wz_tasks s) = []" using assms(1,2) by (simp add: lock_ok_def one_at_a_time_def)
  have "running u = None" if "u \<in> set (wz_tasks s)" for u
    using none that by (cases u) (auto simp: lock_holders_def)
  then show ?thesis using assms none by (auto simp: lock_ok_def one_at_a_time_def list_all_iff)
qed

lemma lock_asked:
  assumes "lock_ok s" "\<not> wz_reqInFlight s" "op_of t = Some op" "op \<noteq> Op_Filing" "running t = None \<or> running t = Some seq"
    and "wz_tasks s' = wz_tasks s" "wz_reqInFlight s'" "wz_lockBy s' = (op, seq)" "wz_filing s' = wz_filing s"
  shows "lock_ok (ask r t s')"
  by (rule lock_taken [OF assms(1-5)]) (simp_all add: ask_def assms(6-9))

text \<open>Inside a handler that holds the lock, between two tasks.\<close>

definition held :: "lock_op \<Rightarrow> nat \<Rightarrow> wizard \<Rightarrow> bool" where
  "held op seq s \<longleftrightarrow> lock_holders (wz_tasks s) = [] \<and> wz_reqInFlight s \<and> wz_lockBy s = (op, seq) \<and> wz_filing s = (op = Op_Filing)"

lemma no_holders: "lock_holders ts = [] \<Longrightarrow> list_all (\<lambda>t. running t = None \<or> running t = Some n) ts"
proof (unfold list_all_iff, rule ballI)
  fix t assume "lock_holders ts = []" "t \<in> set ts"
  then show "running t = None \<or> running t = Some n" by (cases t) (auto simp: lock_holders_def)
qed

lemma held_release: "held op seq s \<Longrightarrow> op \<noteq> Op_Filing \<Longrightarrow> lock_ok (release s)"
  by (simp add: held_def lock_ok_def one_at_a_time_def release_def releaseStillWorking_def no_holders)

lemma held_next:
  assumes "held op seq s" "op_of t = Some op" "running t = None \<or> running t = Some seq"
  shows "lock_ok (s\<lparr>wz_tasks := wz_tasks s @ [t]\<rparr>)" "lock_ok (ask r t s)"
  using assms by (auto simp: held_def lock_ok_def one_at_a_time_def ask_def no_holders)

lemma held_same: "lock_part s' = lock_part s \<Longrightarrow> held op seq s \<Longrightarrow> held op seq s'"
  by (simp add: held_def lock_part_def)

lemma held_frame [simp]:
  "held op n (s\<lparr>wz_importError := e\<rparr>) = held op n s" "held op n (s\<lparr>wz_pickedFiles := p\<rparr>) = held op n s"
  "held op n (s\<lparr>wz_groups := g\<rparr>) = held op n s" "held op n (s\<lparr>wz_groupIndex := i\<rparr>) = held op n s"
  "held op n (s\<lparr>wz_run := r\<rparr>) = held op n s" "held op n (s\<lparr>nv_step := st\<rparr>) = held op n s"
  by (simp_all add: held_def)

lemma held_preview:
  assumes "held Op_Preview n s"
  shows "lock_ok (preview_answered files left previewed target r s)"
proof (cases r)
  case (Inl e)
  then show ?thesis using assms by (simp add: preview_answered_def Let_def held_release [of Op_Preview n])
next
  case (Inr p)
  show ?thesis
  proof (cases "tl left")
    case Nil
    have "lock_ok (s'\<lparr>wz_tasks := wz_tasks s' @ [Await_Mapping q target]\<rparr>)" if "held Op_Preview n s'" for q s'
      by (rule held_next(1) [OF that]) simp_all
    from this [of "s\<lparr>wz_pickedFiles := attachDocumentIds (wz_pickedFiles s) (previewed @ [(pk_id (hd left), p)])\<rparr>"]
    show ?thesis using Inr Nil assms by (simp add: preview_answered_def Let_def)
  next
    case (Cons f fs)
    then show ?thesis using Inr assms by (simp add: preview_answered_def Let_def held_next(2) [OF assms])
  qed
qed

lemma held_mappings: "held Op_Preview n s \<Longrightarrow> lock_ok (mappings_answered previewed target uuid lookup suggest check s)"
  by (simp add: mappings_answered_def Let_def held_release [of Op_Preview n])

lemma lock_show_run [simp]: "lock_part (show_run seq run s) = lock_part s"
  by (simp add: show_run_def lock_part_def)

lemma lock_sole: "lock_ok s \<Longrightarrow> lock_ok (resolveSoleInvoiceId seq run cl s)"
  by (auto simp: resolveSoleInvoiceId_def ask_def lock_ok_def one_at_a_time_def split: option.split)

lemma held_run_loop: "held Op_Run seq s \<Longrightarrow> lock_ok (run_loop seq entity picked groups cl left run s)"
proof (induction left arbitrary: run s)
  case Nil
  then show ?case by (simp add: lock_sole held_release)
next
  case (Cons rf rest)
  show ?case
  proof (cases "document_of picked (rn_id rf) \<noteq> None \<and> groupOfFile groups (rn_id rf) \<noteq> None")
    case True
    then show ?thesis using held_next(2) [OF Cons.prems] by auto
  next
    case False
    have "held Op_Run seq (show_run seq run' s)" for run' by (rule held_same [OF _ Cons.prems]) simp
    then show ?thesis using False Cons.IH by (auto simp: Let_def simp del: runReducer.simps split: option.split)
  qed
qed

lemma lock_settle: "lock_part (snd (foldl (settle_outcome seq) rs ocs)) = lock_part (snd rs)"
proof (induction ocs arbitrary: rs)
  case (Cons oc ocs)
  have "lock_part (snd (settle_outcome seq rs oc)) = lock_part (snd rs)"
    by (cases rs; cases oc) (simp_all add: Let_def del: runReducer.simps)
  with Cons show ?case by simp
qed simp

lemma lock_filing:
  assumes "lock_ok s" "\<not> wz_reqInFlight s"
  shows "lock_ok (run_filing mk cl (file_click req) (s\<lparr>wz_lockBy := (Op_Filing, n)\<rparr>))"
proof -
  have "lock_holders (wz_tasks s) = []" using assms by (simp add: lock_ok_def one_at_a_time_def)
  then show ?thesis using assms(2)
    by (simp add: run_filing_def file_click_def ask_def lock_ok_def one_at_a_time_def no_holders)
qed

lemma held_filing: "held Op_Filing n s \<Longrightarrow> lock_ok (filing_answered cl r s)"
  by (cases r) (simp_all add: filing_answered_def run_filing_def file_answer_def releaseStillWorking_def held_def lock_ok_def
    one_at_a_time_def no_holders Let_def)

text \<open>Taking the task that holds the lock leaves the handler with it.\<close>

lemma held_taken:
  assumes "lock_ok s" "k < length (wz_tasks s)" "op_of (wz_tasks s ! k) = Some op"
  shows "held op (snd (wz_lockBy s)) (s\<lparr>wz_tasks := remove_at k (wz_tasks s)\<rparr>)"
proof -
  have h: "lock_holders (wz_tasks s) = (if wz_reqInFlight s then [fst (wz_lockBy s)] else [])"
    and f: "wz_filing s = (wz_reqInFlight s \<and> fst (wz_lockBy s) = Op_Filing)"
    using assms(1) by (simp_all add: lock_ok_def one_at_a_time_def)
  from holders_one [OF assms(2,3) h] f show ?thesis by (cases "wz_lockBy s") (simp add: held_def)
qed

lemma running_seq:
  "lock_ok s \<Longrightarrow> k < length (wz_tasks s) \<Longrightarrow> running (wz_tasks s ! k) = Some seq \<Longrightarrow> snd (wz_lockBy s) = seq"
  by (fastforce simp: lock_ok_def one_at_a_time_def list_all_length)

lemma lock_answered:
  assumes "lock_ok s"
  shows "lock_ok (answered k a s)"
proof (cases "k < length (wz_tasks s)")
  case False
  then show ?thesis using assms by (simp add: answered_def)
next
  case True
  let ?t = "wz_tasks s ! k" and ?s = "s\<lparr>wz_tasks := remove_at k (wz_tasks s)\<rparr>" and ?n = "snd (wz_lockBy s)"
  have holding: "held op ?n ?s" if "op_of ?t = Some op" for op
    using held_taken [OF assms True] that by simp
  have free: "lock_ok ?s" if "op_of ?t = None"
    using assms that holders_other [OF True] running_removed [of _ "wz_tasks s" k]
    by (simp add: lock_ok_def one_at_a_time_def)
  have seq: "running ?t = Some m \<Longrightarrow> ?n = m" for m using running_seq [OF assms True] by simp
  have ans: "answered k a' s = take_answer k ?t a' s" for a'
    using True by (simp add: answered_def)
  show ?thesis
  proof (cases ?t)
    case (Await_Preview files left previewed target)
    then have h: "held Op_Preview ?n ?s" by (simp add: holding)
    have "lock_ok (preview_answered files left previewed target r ?s)" for r
      by (rule held_preview [OF h])
    then show ?thesis using Await_Preview assms by (cases a) (simp_all add: ans take_answer_def Let_def)
  next
    case (Await_Mapping previewed target)
    then have h: "held Op_Preview ?n ?s" by (simp add: holding)
    have "lock_ok (mappings_answered previewed target uuid lookup suggest check ?s)" for uuid lookup suggest check
      by (rule held_mappings [OF h])
    then show ?thesis using Await_Mapping assms by (cases a) (simp_all add: ans take_answer_def Let_def)
  next
    case (Await_Import seq entity picked groups left run cl)
    then have h: "held Op_Run seq ?s" using holding seq by simp
    have "lock_ok (import_settled seq entity picked groups left run cl r ?s)" for r
      unfolding import_settled_def Let_def by (rule held_run_loop [OF held_same [OF _ h]]) simp
    moreover have "lock_ok (show_run seq run' (s\<lparr>wz_tasks := (wz_tasks s)[k := Await_Import seq entity picked groups left run' cl]\<rparr>))" for run'
    proof (rule lock_same [OF lock_show_run])
      have same: "op_of (Await_Import seq entity picked groups left run' cl) = op_of (wz_tasks s ! k)"
        using Await_Import by simp
      have "list_all (\<lambda>u. running u = None \<or> running u = Some ?n) ((wz_tasks s)[k := Await_Import seq entity picked groups left run' cl])"
        using assms seq Await_Import by (auto simp: lock_ok_def one_at_a_time_def list_all_iff dest!: set_update_subset_insert [THEN subsetD])
      then show "lock_ok (s\<lparr>wz_tasks := (wz_tasks s)[k := Await_Import seq entity picked groups left run' cl]\<rparr>)"
        using assms holders_put [OF True same] by (simp add: lock_ok_def one_at_a_time_def)
    qed
    ultimately show ?thesis using Await_Import assms by (cases a) (simp_all add: ans take_answer_def Let_def del: runReducer.simps)
  next
    case (Await_Documents seq entity picked run cl)
    then have h: "held Op_Run seq ?s" using holding seq by simp
    have "lock_ok (documents_settled seq run cl ocs ?s)" for ocs
      unfolding documents_settled_def case_prod_beta
      by (rule lock_sole, rule held_release [OF held_same [OF _ h]]) (simp_all add: lock_settle)
    moreover have "lock_ok (s\<lparr>wz_documentStages := m\<rparr>)" for m by (rule lock_same [OF _ assms]) (simp add: lock_part_def)
    ultimately show ?thesis using Await_Documents assms by (cases a) (simp_all add: ans take_answer_def Let_def)
  next
    case (Await_Sole seq run cl)
    have "lock_part (sole_answered seq run cl found ?s) = lock_part ?s" for found
      by (simp add: sole_answered_def applyRoute_def openImportedInvoice_def openExtraction_def lock_part_def Let_def split: run_route.split)
    then have "lock_ok (sole_answered seq run cl found ?s)" for found
      using lock_same free Await_Sole by simp
    then show ?thesis using Await_Sole assms by (cases a) (simp_all add: ans take_answer_def Let_def)
  next
    case (Await_Filing cl)
    then have "lock_ok (filing_answered cl r ?s)" for r using held_filing holding by simp
    then show ?thesis using Await_Filing assms by (cases a) (simp_all add: ans take_answer_def Let_def)
  next
    case (Await_Reading seq fromReview cl documentId)
    have "lock_part (land_reading seq fromReview cl documentId reading ?s) = lock_part ?s" for reading
      by (simp add: land_reading_def lock_part_def)
    then have "lock_ok (land_reading seq fromReview cl documentId reading ?s)" for reading
      using lock_same free Await_Reading by simp
    then show ?thesis using Await_Reading assms by (cases a) (simp_all add: ans take_answer_def Let_def)
  qed
qed

lemma lock_frame [simp]:
  "lock_ok (s\<lparr>nv_switcher := b\<rparr>) = lock_ok s" "lock_ok (s\<lparr>nv_step := st\<rparr>) = lock_ok s"
  "lock_ok (s\<lparr>wz_draft := d\<rparr>) = lock_ok s" "lock_ok (clear_handoff s) = lock_ok s"
  "lock_ok (navigate cl v p s) = lock_ok s" "lock_ok (switchClient i s) = lock_ok s"
  by (simp_all add: lock_ok_def clear_handoff_def switchClient_def wz_same [OF more_history(2)])

lemma lock_cleared:
  "lock_ok s \<Longrightarrow> lock_ok (resetImport target s)" "lock_ok s \<Longrightarrow> lock_ok (s\<lparr>wz_filingError := None\<rparr>)"
  by (auto simp: resetImport_def lock_ok_def refused_only_def)

lemma lock_act:
  assumes "lock_ok s"
  shows "lock_ok (wizard_act env s e)"
proof (cases e)
  case (Answered k a)
  then show ?thesis using lock_answered [OF assms] by simp
next
  case Open_Wizard
  have reset: "lock_ok (openCreate env s)" if "\<not> (wz_reqInFlight s \<and> snd (wz_lockBy s) = wz_runSeq s)"
    using assms lock_cleared unfolding openCreate_def if_not_P [OF that] by simp
  have "lock_ok (openCreate env s)" if locked: "wz_reqInFlight s" "snd (wz_lockBy s) = wz_runSeq s"
  proof -
    have "lock_ok ((navigate (closure_of s) V_Create no_params s)\<lparr>nv_switcher := False\<rparr>)" using assms by simp
    then show ?thesis using locked by (simp add: openCreate_def Let_def lock_shown)
  qed
  then show ?thesis using reset Open_Wizard by auto
next
  case (Company i)
  then show ?thesis using assms by (simp add: switch_company_def lock_cleared Let_def)
next
  case Restart_Import
  then show ?thesis using assms by (simp add: restartImport_def lock_cleared)
next
  case Read_Columns
  have "lock_ok (readAllColumns env s)"
  proof (cases "lockHeld Op_Preview s")
    case None
    then have "\<not> wz_reqInFlight s" by (simp add: lock_free)
    then show ?thesis using assms by (simp add: readAllColumns_def None Let_def lock_asked [OF assms])
  next
    case (Some s')
    then show ?thesis using assms lock_refused [OF Some] by (simp add: readAllColumns_def)
  qed
  then show ?thesis using Read_Columns by simp
next
  case Read_Documents
  have "lock_ok (start_documents env s)"
  proof (cases "lockHeld Op_Run s")
    case None
    then have "\<not> wz_reqInFlight s" by (simp add: lock_free)
    then show ?thesis using assms by (simp add: start_documents_def None Let_def lock_asked [OF assms] del: runReducer.simps)
  next
    case (Some s')
    then show ?thesis using assms lock_refused [OF Some] by (simp add: start_documents_def)
  qed
  then show ?thesis using Read_Documents by simp
next
  case Continue
  have start: "lock_ok (startRun env s)"
  proof (cases "lockHeld Op_Run s")
    case None
    then have "held Op_Run n (s\<lparr>wz_reqInFlight := True, wz_runSeq := n, wz_lockBy := (Op_Run, n), wz_importError := None, wz_run := r\<rparr>)" for n r
      using assms by (simp add: held_def lock_free lock_ok_def one_at_a_time_def)
    then show ?thesis using assms None by (simp add: startRun_def Let_def held_run_loop del: runReducer.simps)
  next
    case (Some s')
    then show ?thesis using assms lock_refused [OF Some] by (simp add: startRun_def)
  qed
  have "lock_ok (s\<lparr>wz_armedField := x\<rparr>)" "lock_ok (s\<lparr>wz_groupIndex := i\<rparr>)" for x i
    by (rule lock_same [OF _ assms], simp add: lock_part_def)+
  with start show ?thesis using Continue by (simp add: continueMapping_def)
next
  case File_Draft
  have "lock_ok (fileDraft env s)"
  proof (cases "lockHeld Op_Filing s")
    case None
    then have "\<not> wz_reqInFlight s" by (simp add: lock_free)
    note sent = lock_filing [OF assms this]
    show ?thesis using assms None
      by (simp add: fileDraft_def fileSuppliedNumber_def fileDraftInvoice_def Let_def sent split: option.split)
  next
    case (Some s')
    then show ?thesis using assms lock_refused [OF Some] by (simp add: fileDraft_def split: option.split)
  qed
  then show ?thesis using File_Draft by simp
next
  case (By_Hand d)
  have "lock_ok (s\<lparr>wz_tasks := wz_tasks s @ [Await_Reading n b cl d], wz_sent := r, wz_handOffReadSeq := n\<rparr>)"
      "lock_ok (s\<lparr>wz_handOffReadSeq := n, wz_sent := r, wz_tasks := wz_tasks s @ [Await_Reading n b cl d]\<rparr>)" for n b cl r
    using assms by (simp_all add: lock_ok_def one_at_a_time_def)
  moreover have "lock_part (land_reading n b cl d r (s\<lparr>wz_handOffReadSeq := n\<rparr>)) = lock_part s" for n b cl r
    by (simp add: land_reading_def lock_part_def)
  ultimately show ?thesis using By_Hand assms lock_same [OF _ assms] by (simp add: enterByHand_def ask_def Let_def)
qed (use assms in \<open>auto intro!: lock_same [OF _ assms] simp: lock_part_def closeCreate_def backToImport_def skipUpload_def clear_handoff_def
    addPickedFiles_def removePickedFile_def armField_def setDrag_def endDrag_def dropOn_def clickCol_def unmap_def splitOutFile_def
    setInvoiceKind_def resetGroupToAutomatic_def on_group_def assign_def Let_def split: option.split prod.split\<close>)

interpretation wizard_machine: machine "wizard_boot env b" "wizard_step env" lock_ok for env b
proof
  show "lock_ok (wizard_boot env b)"
    by (simp add: lock_ok_def one_at_a_time_def refused_only_def wizard_boot_def nav.defs)
next
  fix s e
  assume "lock_ok s"
  then have "lock_ok (wizard_act env s e)" by (rule lock_act)
  then show "lock_ok (wizard_step env s e)"
    unfolding wizard_step_def by (rule lock_same [OF lock_render])
qed

text \<open>C2: one round trip at a time, however the operator clicks and leaves. Previews, both kinds of run and filings share one
  lock: at any moment at most one of them waits for an answer, the lock is taken exactly then and names it with the number
  of its run, the form spins exactly while a filing waits, and the refusal to start another one is on the screen only
  while the lock is taken, whichever slot it was written to.\<close>

theorem one_round_trip_at_a_time:
  "lock_ok (foldl (wizard_step env) (wizard_boot env b) es)"
  by (rule wizard_machine.good_run)

subsection \<open>A run that was left lands nowhere\<close>

text \<open>Two states with the same page. The second may have the lock freed and with it the refusal to start another round trip taken down from
  both error slots; what is awaited and was sent may differ, and so may the stages of documents, which are compared apart.\<close>

definition freed :: "slot_error option \<Rightarrow> slot_error option \<Rightarrow> bool" where
  "freed e f \<longleftrightarrow> f = e \<or> f = drop_refusal e"

definition same_page :: "wizard \<Rightarrow> wizard \<Rightarrow> bool" where
  "same_page s t \<longleftrightarrow> nav_of t = nav_of s \<and> wz_entities t = wz_entities s \<and> wz_draft t = wz_draft s \<and>
     wz_filledFor t = wz_filledFor s \<and> wz_handOffDocumentId t = wz_handOffDocumentId s \<and>
     wz_handOffReading t = wz_handOffReading s \<and> wz_handOffReadSeq t = wz_handOffReadSeq s \<and> wz_groups t = wz_groups s \<and>
     wz_groupIndex t = wz_groupIndex s \<and> wz_entityId t = wz_entityId s \<and> wz_pickedFiles t = wz_pickedFiles s \<and>
     wz_run t = wz_run s \<and> wz_runSeq t = wz_runSeq s \<and> wz_filing t = wz_filing s \<and>
     wz_armedField t = wz_armedField s \<and> wz_dragField t = wz_dragField s \<and> wz_filesRefusal t = wz_filesRefusal s \<and>
     wz_lockBy t = wz_lockBy s \<and> wz_reqInFlight t \<le> wz_reqInFlight s \<and>
     freed (wz_importError s) (wz_importError t) \<and> freed (wz_filingError s) (wz_filingError t) \<and>
     (wz_reqInFlight t \<longrightarrow> wz_importError t = wz_importError s \<and> wz_filingError t = wz_filingError s)"

lemma freed_simps [simp]: "freed e e" "freed e (drop_refusal e)"
  by (simp_all add: freed_def)

lemma freed_trans: "freed e f \<Longrightarrow> freed f g \<Longrightarrow> freed e g"
  by (auto simp: freed_def drop_refusal_def)

lemma same_page_refl [simp]: "same_page s s" by (simp add: same_page_def)

lemma same_page_trans: "same_page s t \<Longrightarrow> same_page t u \<Longrightarrow> same_page s u"
  by (auto simp: same_page_def intro: freed_trans)

lemma same_page_active: "same_page s t \<Longrightarrow> active_id t = active_id s" "same_page s t \<Longrightarrow> nv_step t = nv_step s"
  by (metis nav_of_active(1) same_page_def) (metis nav_of_sel(17) same_page_def)

lemma same_page_quiet [simp]:
  "same_page s (s\<lparr>wz_tasks := ts\<rparr>)" "same_page s (ask r t s)" "same_page s (release s)"
  "same_page s (resolveSoleInvoiceId seq run cl s)" "same_page s (s\<lparr>wz_documentStages := m\<rparr>)"
  by (simp_all add: same_page_def ask_def release_def releaseStillWorking_def resolveSoleInvoiceId_def split: option.split)

lemma same_page_show: "seq \<noteq> wz_runSeq s \<Longrightarrow> show_run seq run s = s"
  by (simp add: show_run_def)

lemma same_page_seq: "same_page s t \<Longrightarrow> wz_runSeq t = wz_runSeq s"
  by (simp add: same_page_def)

lemma same_page_loop: "seq \<noteq> wz_runSeq s \<Longrightarrow> same_page s (run_loop seq entity picked groups cl left run s)"
proof (induction left arbitrary: run)
  case Nil
  show ?case using same_page_trans [OF same_page_quiet(3) same_page_quiet(4)] by simp
next
  case (Cons rf rest)
  then show ?case by (simp add: same_page_show Let_def del: runReducer.simps split: option.split)
qed

lemma same_page_settle: "seq \<noteq> wz_runSeq (snd rs) \<Longrightarrow> snd (foldl (settle_outcome seq) rs ocs) = snd rs"
proof (induction ocs arbitrary: rs)
  case (Cons oc ocs)
  have "snd (settle_outcome seq rs oc) = snd rs"
    using Cons.prems by (cases rs; cases oc) (simp_all add: same_page_show Let_def del: runReducer.simps)
  with Cons.IH [of "settle_outcome seq rs oc"] Cons.prems show ?case by simp
qed simp

fun run_of :: "task \<Rightarrow> nat option" where
  "run_of (Await_Import seq _ _ _ _ _ _) = Some seq"
| "run_of (Await_Documents seq _ _ _ _) = Some seq"
| "run_of (Await_Sole seq _ _) = Some seq"
| "run_of _ = None"

lemma stale_answer:
  assumes "k < length (wz_tasks s)" "run_of (wz_tasks s ! k) = Some seq" "seq \<noteq> wz_runSeq s"
  shows "same_page s (answered k a s)"
proof -
  let ?s = "s\<lparr>wz_tasks := remove_at k (wz_tasks s)\<rparr>"
  have loop: "same_page s (run_loop seq entity picked groups cl left run ?s)" for entity picked groups cl left run
    by (rule same_page_trans [OF same_page_quiet(1) same_page_loop]) (simp add: assms(3))
  have docs: "same_page s (documents_settled seq run cl ocs ?s)" for run cl ocs
    unfolding documents_settled_def case_prod_beta using same_page_settle [of seq "(run, ?s)" ocs] assms(3)
      same_page_trans [OF same_page_quiet(1) same_page_trans [OF same_page_quiet(3) same_page_quiet(4)]] by simp
  have ans: "answered k a s = take_answer k (wz_tasks s ! k) a s" using assms(1) by (simp add: answered_def)
  show ?thesis
    using assms(2,3) loop docs unfolding ans
    by (cases "wz_tasks s ! k"; cases a)
      (simp_all add: take_answer_def import_settled_def sole_answered_def same_page_show Let_def del: runReducer.simps)
qed

lemma commit_again: "commit (commit (n :: nav)) = commit n"
proof -
  define m where "m = commit n"
  have "active_id (stamp_window n) = nv_hereRef (stamp_window n)" by (simp add: stamp_window_def Let_def)
  then have "active_id m = nv_hereRef m" by (simp add: m_def commit_def mirror_review_def Let_def)
  then have "stamp_window m = m" by (simp add: stamp_window_def)
  moreover have "nv_mirrored m = mirror_deps m" by (simp add: m_def commit_def mirror_keeps_rest)
  then have "mirror_review m = m" by (simp add: mirror_review_def mirror_deps_def)
  ultimately have "commit m = m" by (simp add: commit_def)
  then show ?thesis by (simp add: m_def)
qed

lemma entity_same: "same_page s t \<Longrightarrow> activeEntity t = activeEntity s"
  by (simp add: activeEntity_def same_page_active) (simp add: same_page_def)

lemma render_same:
  assumes "same_page s t"
  shows "same_page (rendered s) (rendered t)"
proof -
  have c: "same_page (commit s) (commit t)" using assms by (simp add: same_page_def)
  have f: "same_page (fill_supplier s') (fill_supplier t')" if "same_page s' t'" for s' t'
    using that entity_same [OF that] by (auto simp: fill_supplier_def same_page_def Let_def split: option.split)
  have g: "same_page (fill_target s') (fill_target t')" if "same_page s' t'" for s' t'
    using that same_page_active [OF that] by (auto simp: fill_target_def same_page_def)
  show ?thesis unfolding rendered_def by (rule g, rule f, rule c)
qed

lemma render_again: "same_page (rendered s) (rendered (rendered s))"
proof -
  define r where "r = rendered s"
  have nav: "nav_of r = commit (nav_of s)" by (simp add: r_def nav_of_render)
  have c: "same_page r (commit r)" by (simp add: same_page_def nav commit_again)
  have filled: "map_option entity_id (activeEntity (fill_supplier t)) = wz_filledFor (fill_supplier t)" for t
    by (auto simp: fill_supplier_def activeEntity_def active_id_def Let_def split: option.split)
  have "wz_filledFor r = map_option entity_id (activeEntity r)"
    using filled [of "commit s"] by (auto simp: r_def rendered_def fill_target_def activeEntity_def active_id_def)
  then have s1: "fill_supplier (commit r) = commit r"
    using entity_same [OF c] by (simp add: fill_supplier_def)
  have "\<not> (nv_step r = Step_Upload \<and> wz_entityId r = None \<and> active_id r \<noteq> None)"
    by (simp add: r_def rendered_def fill_target_def active_id_def)
  then have "fill_target (commit r) = commit r"
    using same_page_active [OF c] by (auto simp: fill_target_def)
  with s1 c have "same_page r (rendered r)" by (simp add: rendered_def)
  then show ?thesis by (simp add: r_def)
qed

lemma seq_quiet [simp]:
  "wz_runSeq (showStillWorking st s) = wz_runSeq s" "wz_runSeq (release s) = wz_runSeq s" "wz_runSeq (ask r t s) = wz_runSeq s"
  "wz_runSeq (resolveSoleInvoiceId seq run cl s) = wz_runSeq s" "wz_runSeq (show_run seq run s) = wz_runSeq s"
  "wz_runSeq (releaseStillWorking s) = wz_runSeq s" "wz_runSeq (clear_handoff s) = wz_runSeq s"
  "wz_runSeq (resetImport target s) = wz_runSeq s + 1" "wz_runSeq (on_group f s) = wz_runSeq s" "wz_runSeq (assign k h s) = wz_runSeq s"
  by (simp_all add: showStillWorking_def release_def releaseStillWorking_def ask_def resolveSoleInvoiceId_def show_run_def
    clear_handoff_def resetImport_def on_group_def assign_def split: option.split)

lemma seq_locked: "lockHeld op s = Some s' \<Longrightarrow> wz_runSeq s' = wz_runSeq s"
  by (auto simp: lockHeld_def split: if_splits)

lemma seq_loop [simp]: "wz_runSeq (run_loop seq entity picked groups cl left run s) = wz_runSeq s"
  by (induction left arbitrary: run s) (simp_all add: Let_def del: runReducer.simps split: option.split)

lemma seq_settle: "wz_runSeq (snd (foldl (settle_outcome seq) rs ocs)) = wz_runSeq (snd rs)"
proof (induction ocs arbitrary: rs)
  case (Cons oc ocs)
  have "wz_runSeq (snd (settle_outcome seq rs oc)) = wz_runSeq (snd rs)"
    by (cases rs; cases oc) (simp_all add: Let_def del: runReducer.simps)
  with Cons show ?case by simp
qed simp

lemma seq_filing [simp]: "wz_runSeq (run_filing mk cl (file_click req) s) = wz_runSeq s" "wz_runSeq (run_filing mk cl (file_answer r) s) = wz_runSeq s"
  by (simp_all add: run_filing_def file_click_def file_answer_def Let_def split: sum.split)

lemma seq_answered: "wz_runSeq (answered k a s) = wz_runSeq s"
proof (cases "k < length (wz_tasks s)")
  case True
  have docs: "wz_runSeq (documents_settled seq run cl ocs t) = wz_runSeq t" for seq run cl ocs t
    using seq_settle [of seq "(run, t)" ocs] by (simp add: documents_settled_def case_prod_beta)
  have route: "wz_runSeq (applyRoute cl route t) = wz_runSeq t" for cl route t
    by (simp add: applyRoute_def openExtraction_def split: run_route.split)
  show ?thesis using True unfolding answered_def take_answer_def Let_def
    by (cases "wz_tasks s ! k"; cases a) (simp_all add: docs route preview_answered_def mappings_answered_def import_settled_def
        sole_answered_def filing_answered_def land_reading_def Let_def del: runReducer.simps split: sum.split list.split)
qed (simp add: answered_def)

lemma seq_render [simp]: "wz_runSeq (rendered s) = wz_runSeq s"
  by (simp add: rendered_def fill_target_def fill_supplier_def Let_def split: option.split)

lemma seq_mono: "wz_runSeq s \<le> wz_runSeq (wizard_act env s e)"
proof (cases e)
  case (Answered k a)
  then show ?thesis by (simp add: seq_answered)
next
  case Open_Wizard
  then show ?thesis by (auto simp: openCreate_def Let_def)
next
  case (Company i)
  then show ?thesis by (simp add: switch_company_def switchClient_def wz_same [OF more_history(2)] Let_def)
next
  case Read_Columns
  then show ?thesis by (auto simp: readAllColumns_def Let_def dest: seq_locked split: option.split)
next
  case Read_Documents
  then show ?thesis by (auto simp: start_documents_def Let_def simp del: runReducer.simps dest: seq_locked split: option.split)
next
  case Continue
  have "wz_runSeq s \<le> wz_runSeq (startRun env s)"
    by (auto simp: startRun_def Let_def simp del: runReducer.simps dest: seq_locked split: option.split)
  then show ?thesis using Continue by (simp add: continueMapping_def)
next
  case File_Draft
  have "wz_runSeq (fileDraft env s) = wz_runSeq s"
    by (auto simp: fileDraft_def Let_def fileSuppliedNumber_def fileDraftInvoice_def dest: seq_locked split: option.split prod.split)
  then show ?thesis using File_Draft by simp
next
  case (By_Hand d)
  then show ?thesis by (simp add: enterByHand_def land_reading_def Let_def)
qed (simp_all add: closeCreate_def backToImport_def restartImport_def skipUpload_def
    addPickedFiles_def removePickedFile_def armField_def setDrag_def endDrag_def dropOn_def clickCol_def unmap_def splitOutFile_def
    setInvoiceKind_def resetGroupToAutomatic_def Let_def split: option.split prod.split)

text \<open>The ways out of a run: another company, a fresh start of the import, and a new invoice when the run is not the
  one the lock names any more.\<close>

fun leaves :: "wizard \<Rightarrow> wizard_event \<Rightarrow> bool" where
  "leaves s (Company i) = True"
| "leaves s Restart_Import = True"
| "leaves s Open_Wizard = (\<not> wz_reqInFlight s \<or> snd (wz_lockBy s) \<noteq> wz_runSeq s)"
| "leaves s _ = False"

lemma seq_left: "leaves s e \<Longrightarrow> wz_runSeq (wizard_step env s e) = wz_runSeq s + 1"
  by (cases e) (auto simp: wizard_step_def switch_company_def switchClient_def restartImport_def openCreate_def
    wz_same [OF more_history(2)] Let_def)

lemma stages_quiet [simp]:
  "wz_documentStages (release s) = wz_documentStages s" "wz_documentStages (ask r t s) = wz_documentStages s"
  "wz_documentStages (resolveSoleInvoiceId seq run cl s) = wz_documentStages s"
  "wz_documentStages (show_run seq run s) = wz_documentStages s" "wz_documentStages (rendered s) = wz_documentStages s"
  by (simp_all add: release_def releaseStillWorking_def ask_def resolveSoleInvoiceId_def show_run_def rendered_def fill_target_def
      fill_supplier_def Let_def split: option.split)

lemma stages_loop: "wz_documentStages (run_loop seq entity picked groups cl left run s) = wz_documentStages s"
  by (induction left arbitrary: run s) (simp_all add: Let_def del: runReducer.simps split: option.split)

text \<open>A late answer to an import or to the sole invoice of a run touches no stage; one to a document run only the stage it reports.\<close>

definition late_stage :: "wizard_answer \<Rightarrow> (string \<rightharpoonup> row_state) \<Rightarrow> (string \<rightharpoonup> row_state)" where
  "late_stage a m = (case a of Document_Stage i state \<Rightarrow> setStage m (i, state) | _ \<Rightarrow> m)"

fun reading_run :: "task \<Rightarrow> bool" where
  "reading_run (Await_Documents _ _ _ _ _) = True"
| "reading_run _ = False"

lemma stale_stage:
  assumes "k < length (wz_tasks s)" "run_of (wz_tasks s ! k) = Some seq" "seq \<noteq> wz_runSeq s"
  shows "wz_documentStages (answered k a s) =
    (if reading_run (wz_tasks s ! k) then late_stage a (wz_documentStages s) else wz_documentStages s)"
proof -
  let ?s = "s\<lparr>wz_tasks := remove_at k (wz_tasks s)\<rparr>"
  have docs: "wz_documentStages (documents_settled seq run cl ocs ?s) = wz_documentStages s" for run cl ocs
    unfolding documents_settled_def case_prod_beta using same_page_settle [of seq "(run, ?s)" ocs] assms(3) by simp
  have ans: "answered k a s = take_answer k (wz_tasks s ! k) a s" using assms(1) by (simp add: answered_def)
  show ?thesis
    using assms(2,3) docs unfolding ans
    by (cases "wz_tasks s ! k"; simp; cases a)
      (simp_all add: take_answer_def import_settled_def sole_answered_def late_stage_def stages_loop Let_def del: runReducer.simps)
qed

text \<open>C3: a run that was left lands nowhere. Once the operator switches company, starts the import afresh or opens a new
  invoice, the answers that still arrive to the runs begun before change nothing on the page, whatever else was clicked
  meanwhile: not the screen or the address, not the run shown, nor the files, the mappings, the draft, a refusal of files or an
  error of what was begun since. They may only free the lock, with which the refusal to start another round trip goes from
  its slot, and a document run still records the stage of its own document.\<close>

theorem left_run_lands_nowhere:
  assumes "leaves s e"
    and "s' = foldl (wizard_step env) (wizard_step env s e) es"
    and "k < length (wz_tasks s')" "run_of (wz_tasks s' ! k) = Some seq" "seq \<le> wz_runSeq s"
  shows "same_page s' (wizard_step env s' (Answered k a)) \<and>
    wz_documentStages (wizard_step env s' (Answered k a)) =
      (if reading_run (wz_tasks s' ! k) then late_stage a (wz_documentStages s') else wz_documentStages s')"
proof -
  have mono: "wz_runSeq t \<le> wz_runSeq (foldl (wizard_step env) t es)" for t
    by (induction es arbitrary: t) (simp, metis seq_mono seq_render foldl_Cons le_trans wizard_step_def)
  have "wz_runSeq s < wz_runSeq s'"
    using mono [of "wizard_step env s e"] seq_left [OF assms(1), of env] by (simp add: assms(2))
  then have late: "seq \<noteq> wz_runSeq s'" using assms(5) by simp
  obtain r where r: "s' = rendered r"
    using assms(2) by (cases es rule: rev_cases) (auto simp: wizard_step_def)
  have "same_page s' (rendered s')" unfolding r by (rule render_again)
  then have "same_page s' (wizard_step env s' (Answered k a))"
    using same_page_trans [OF _ render_same [OF stale_answer [OF assms(3,4) late]]] by (simp add: wizard_step_def)
  moreover have "wz_documentStages (wizard_step env s' (Answered k a)) =
      (if reading_run (wz_tasks s' ! k) then late_stage a (wz_documentStages s') else wz_documentStages s')"
    using stale_stage [OF assms(3,4) late, of a] by (simp add: wizard_step_def)
  ultimately show ?thesis ..
qed

subsection \<open>What a run sends\<close>

text \<open>The imports a run still has to send for the files left, and those it sent.\<close>

definition post_of :: "nat \<Rightarrow> string \<Rightarrow> picked_file list \<Rightarrow> mapping_group list \<Rightarrow> run_file \<Rightarrow> wizard_request list" where
  "post_of n entity picked groups rf =
    (case (document_of picked (rn_id rf), groupOfFile groups (rn_id rf)) of
       (Some d, Some g) \<Rightarrow> [Import_Request n (import_of entity d g)] | _ \<Rightarrow> [])"

definition posts :: "nat \<Rightarrow> string \<Rightarrow> picked_file list \<Rightarrow> mapping_group list \<Rightarrow> run_file list \<Rightarrow> wizard_request list" where
  "posts n entity picked groups left = concat (map (post_of n entity picked groups) left)"

fun is_import :: "nat \<Rightarrow> wizard_request \<Rightarrow> bool" where
  "is_import n (Import_Request m _) = (m = n)"
| "is_import n _ = False"

fun importing :: "nat \<Rightarrow> task \<Rightarrow> bool" where
  "importing n (Await_Import m _ _ _ _ _ _) = (m = n)"
| "importing n _ = False"

definition imports_sent :: "nat \<Rightarrow> wizard \<Rightarrow> wizard_request list" where
  "imports_sent n s = filter (is_import n) (wz_sent s)"

definition imports_open :: "nat \<Rightarrow> wizard \<Rightarrow> task list" where
  "imports_open n s = filter (importing n) (wz_tasks s)"

lemma imports_same:
  "wz_tasks s' = wz_tasks s \<Longrightarrow> imports_open n s' = imports_open n s" "wz_sent s' = wz_sent s \<Longrightarrow> imports_sent n s' = imports_sent n s"
  by (simp_all add: imports_open_def imports_sent_def)

lemma imports_quiet [simp]:
  "imports_open n (showStillWorking st s) = imports_open n s" "imports_sent n (showStillWorking st s) = imports_sent n s"
  "imports_open n (release s) = imports_open n s" "imports_sent n (release s) = imports_sent n s"
  "imports_open n (show_run q r s) = imports_open n s" "imports_sent n (show_run q r s) = imports_sent n s"
  "imports_open n (clear_handoff s) = imports_open n s" "imports_sent n (clear_handoff s) = imports_sent n s"
  "imports_open n (resetImport target s) = imports_open n s" "imports_sent n (resetImport target s) = imports_sent n s"
  "imports_open n (on_group f s) = imports_open n s" "imports_sent n (on_group f s) = imports_sent n s"
  "imports_open n (assign fl h s) = imports_open n s" "imports_sent n (assign fl h s) = imports_sent n s"
  "imports_open n (switchClient i s) = imports_open n s" "imports_sent n (switchClient i s) = imports_sent n s"
  "imports_open n (navigate cl v p s) = imports_open n s" "imports_sent n (navigate cl v p s) = imports_sent n s"
  "imports_open n (nav_act s e) = imports_open n s" "imports_sent n (nav_act s e) = imports_sent n s"
  "imports_open n (openImportedInvoice cl j l s) = imports_open n s" "imports_sent n (openImportedInvoice cl j l s) = imports_sent n s"
  "imports_open n (releaseStillWorking s) = imports_open n s" "imports_sent n (releaseStillWorking s) = imports_sent n s"
  by (rule imports_same, simp add: showStillWorking_def release_def releaseStillWorking_def show_run_def clear_handoff_def
    resetImport_def on_group_def assign_def switchClient_def wz_same [OF more_history(2)])+

lemma imports_ask [simp]:
  "imports_open n (ask r t s) = imports_open n s @ (if importing n t then [t] else [])"
  "imports_sent n (ask r t s) = imports_sent n s @ (if is_import n r then [r] else [])"
  by (simp_all add: imports_open_def imports_sent_def ask_def)

lemma imports_sole [simp]:
  "imports_open n (resolveSoleInvoiceId q r cl s) = imports_open n s" "imports_sent n (resolveSoleInvoiceId q r cl s) = imports_sent n s"
  by (simp_all add: resolveSoleInvoiceId_def split: option.split) (simp add: imports_open_def imports_sent_def)+

lemma imports_frame [simp]:
  "imports_open n (s\<lparr>wz_sent := x\<rparr>) = imports_open n s" "imports_sent n (s\<lparr>wz_tasks := ts\<rparr>) = imports_sent n s"
  "imports_open n (s\<lparr>wz_draft := d\<rparr>) = imports_open n s" "imports_sent n (s\<lparr>wz_draft := d\<rparr>) = imports_sent n s"
  "imports_open n (s\<lparr>wz_groups := g\<rparr>) = imports_open n s" "imports_sent n (s\<lparr>wz_groups := g\<rparr>) = imports_sent n s"
  "imports_open n (s\<lparr>wz_groupIndex := i\<rparr>) = imports_open n s" "imports_sent n (s\<lparr>wz_groupIndex := i\<rparr>) = imports_sent n s"
  "imports_open n (s\<lparr>wz_documentStages := mp\<rparr>) = imports_open n s" "imports_sent n (s\<lparr>wz_documentStages := mp\<rparr>) = imports_sent n s"
  "imports_open n (s\<lparr>wz_runSeq := q\<rparr>) = imports_open n s" "imports_sent n (s\<lparr>wz_runSeq := q\<rparr>) = imports_sent n s"
  "imports_open n (s\<lparr>wz_filing := b\<rparr>) = imports_open n s" "imports_sent n (s\<lparr>wz_filing := b\<rparr>) = imports_sent n s"
  "imports_open n (s\<lparr>wz_reqInFlight := b\<rparr>) = imports_open n s" "imports_sent n (s\<lparr>wz_reqInFlight := b\<rparr>) = imports_sent n s"
  "imports_open n (s\<lparr>wz_filingError := e\<rparr>) = imports_open n s" "imports_sent n (s\<lparr>wz_filingError := e\<rparr>) = imports_sent n s"
  "imports_open n (s\<lparr>wz_importError := e\<rparr>) = imports_open n s" "imports_sent n (s\<lparr>wz_importError := e\<rparr>) = imports_sent n s"
  "imports_open n (s\<lparr>wz_lockBy := l\<rparr>) = imports_open n s" "imports_sent n (s\<lparr>wz_lockBy := l\<rparr>) = imports_sent n s"
  "imports_open n (s\<lparr>wz_run := r\<rparr>) = imports_open n s" "imports_sent n (s\<lparr>wz_run := r\<rparr>) = imports_sent n s"
  "imports_open n (s\<lparr>nv_switcher := b\<rparr>) = imports_open n s" "imports_sent n (s\<lparr>nv_switcher := b\<rparr>) = imports_sent n s"
  "imports_open n (s\<lparr>nv_step := st\<rparr>) = imports_open n s" "imports_sent n (s\<lparr>nv_step := st\<rparr>) = imports_sent n s"
  "imports_open n (s\<lparr>nv_job := j\<rparr>) = imports_open n s" "imports_sent n (s\<lparr>nv_job := j\<rparr>) = imports_sent n s"
  "imports_open n (s\<lparr>nv_jobInvoices := ji\<rparr>) = imports_open n s" "imports_sent n (s\<lparr>nv_jobInvoices := ji\<rparr>) = imports_sent n s"
  "imports_open n (s\<lparr>nv_batches := bs\<rparr>) = imports_open n s" "imports_sent n (s\<lparr>nv_batches := bs\<rparr>) = imports_sent n s"
  by (simp_all add: imports_open_def imports_sent_def)

lemma imports_locked: "lockHeld op s = Some s' \<Longrightarrow> imports_open n s' = imports_open n s \<and> imports_sent n s' = imports_sent n s"
  by (auto simp: lockHeld_def split: if_splits)

lemma imports_filing:
  "imports_open n (run_filing Supply_Request cl (file_click r1) s) = imports_open n s"
  "imports_sent n (run_filing Supply_Request cl (file_click r1) s) = imports_sent n s"
  "imports_open n (run_filing File_Request cl (file_click r2) s) = imports_open n s"
  "imports_sent n (run_filing File_Request cl (file_click r2) s) = imports_sent n s"
  "imports_open n (filing_answered cl r s) = imports_open n s" "imports_sent n (filing_answered cl r s) = imports_sent n s"
  by (simp_all add: run_filing_def filing_answered_def file_click_def file_answer_def Let_def split: sum.split)

lemma imports_settle:
  "imports_open n (snd (foldl (settle_outcome q) rs ocs)) = imports_open n (snd rs) \<and>
   imports_sent n (snd (foldl (settle_outcome q) rs ocs)) = imports_sent n (snd rs)"
proof (induction ocs arbitrary: rs)
  case (Cons oc ocs)
  have "imports_open n (snd (settle_outcome q rs oc)) = imports_open n (snd rs) \<and>
      imports_sent n (snd (settle_outcome q rs oc)) = imports_sent n (snd rs)"
    by (cases rs; cases oc) (simp_all add: Let_def del: runReducer.simps)
  with Cons show ?case by simp
qed simp

lemma imports_render [simp]: "imports_open n (rendered s) = imports_open n s" "imports_sent n (rendered s) = imports_sent n s"
  by (rule imports_same, simp add: rendered_def fill_target_def fill_supplier_def Let_def split: option.split)+

text \<open>The loop sends the first import it can and waits for it, or sends nothing more.\<close>

lemma loop_sends:
  "imports_sent n (run_loop n entity picked groups cl left run s) @
     (case imports_open n (run_loop n entity picked groups cl left run s) of
        [] \<Rightarrow> [] | t # ts \<Rightarrow> posts n entity picked groups (case t of Await_Import _ _ _ _ left' _ _ \<Rightarrow> tl left' | _ \<Rightarrow> []))
   = imports_sent n s @ posts n entity picked groups left \<and>
   (imports_open n (run_loop n entity picked groups cl left run s) = [] \<or>
    (\<exists>left' run'. imports_open n (run_loop n entity picked groups cl left run s) = [Await_Import n entity picked groups left' run' cl]))"
  if "imports_open n s = []"
  using that
proof (induction left arbitrary: run s)
  case Nil
  then show ?case by (simp add: posts_def)
next
  case (Cons rf rest)
  show ?case
  proof (cases "document_of picked (rn_id rf) \<noteq> None \<and> groupOfFile groups (rn_id rf) \<noteq> None")
    case True
    then show ?thesis using Cons.prems by (auto simp: posts_def post_of_def)
  next
    case False
    have ih: "imports_open n (show_run n run' s) = []" for run' using Cons.prems by simp
    have none: "post_of n entity picked groups rf = []" using False by (auto simp: post_of_def split: option.split)
    show ?thesis using False Cons.IH [OF ih] none
      by (auto simp: Let_def posts_def simp del: runReducer.simps split: option.split)
  qed
qed

lemma loop_others: "m \<noteq> n \<Longrightarrow> imports_open m (run_loop n entity picked groups cl left run s) = imports_open m s \<and>
    imports_sent m (run_loop n entity picked groups cl left run s) = imports_sent m s"
  by (induction left arbitrary: run s) (auto simp: Let_def simp del: runReducer.simps split: option.split)

definition sends :: "nat \<Rightarrow> string \<Rightarrow> picked_file list \<Rightarrow> mapping_group list \<Rightarrow> wizard_request list \<Rightarrow> wizard \<Rightarrow> bool" where
  "sends n entity picked groups plan s \<longleftrightarrow>
     imports_open n s = [] \<and> imports_sent n s = plan \<or>
     (\<exists>left run cl. imports_open n s = [Await_Import n entity picked groups left run cl] \<and>
        imports_sent n s @ posts n entity picked groups (tl left) = plan)"

lemma sends_same:
  "imports_open n s' = imports_open n s \<Longrightarrow> imports_sent n s' = imports_sent n s \<Longrightarrow> sends n entity picked groups plan s
     \<Longrightarrow> sends n entity picked groups plan s'"
  by (simp add: sends_def)

lemma sends_loop:
  "imports_open n s = [] \<Longrightarrow> imports_sent n s @ posts n entity picked groups left = plan \<Longrightarrow>
   sends n entity picked groups plan (run_loop n entity picked groups cl left run s)"
  using loop_sends [of n s entity picked groups cl left run] by (auto simp: sends_def)

lemma open_removed:
  assumes "k < length (wz_tasks s)"
  shows "imports_open n s = filter (importing n) (take k (wz_tasks s)) @ (if importing n (wz_tasks s ! k) then [wz_tasks s ! k] else [])
      @ filter (importing n) (drop (Suc k) (wz_tasks s))"
    "imports_open n (s\<lparr>wz_tasks := remove_at k (wz_tasks s)\<rparr>) =
       filter (importing n) (take k (wz_tasks s)) @ filter (importing n) (drop (Suc k) (wz_tasks s))"
    "imports_open n (s\<lparr>wz_tasks := (wz_tasks s)[k := t]\<rparr>) =
       filter (importing n) (take k (wz_tasks s)) @ (if importing n t then [t] else []) @ filter (importing n) (drop (Suc k) (wz_tasks s))"
proof -
  have "imports_open n s = filter (importing n) (take k (wz_tasks s) @ wz_tasks s ! k # drop (Suc k) (wz_tasks s))"
    using split_at [OF assms] by (simp add: imports_open_def)
  then show "imports_open n s = filter (importing n) (take k (wz_tasks s)) @ (if importing n (wz_tasks s ! k) then [wz_tasks s ! k] else [])
      @ filter (importing n) (drop (Suc k) (wz_tasks s))" by simp
qed (use assms in \<open>simp_all add: imports_open_def remove_at_def upd_conv_take_nth_drop\<close>)

lemma sends_answered:
  assumes "sends n entity picked groups plan s"
  shows "sends n entity picked groups plan (answered k a s)"
proof (cases "k < length (wz_tasks s)")
  case False
  then show ?thesis using assms by (simp add: answered_def)
next
  case True
  let ?t = "wz_tasks s ! k" and ?s = "s\<lparr>wz_tasks := remove_at k (wz_tasks s)\<rparr>"
  note open_k = open_removed [OF True, of n]
  have ans: "answered k a' s = take_answer k ?t a' s" for a' using True by (simp add: answered_def)
  have keep: "sends n entity picked groups plan s'"
    if "\<not> importing n ?t" "imports_open n s' = imports_open n ?s" "imports_sent n s' = imports_sent n s" for s'
    using sends_same [OF _ _ assms] that open_k by simp
  show ?thesis
  proof (cases "importing n ?t")
    case False
    have docs: "imports_open n (documents_settled q r cl ocs ?s) = imports_open n ?s \<and>
        imports_sent n (documents_settled q r cl ocs ?s) = imports_sent n s" for q r cl ocs
      using imports_settle [of n q "(r, ?s)" ocs] by (simp add: documents_settled_def case_prod_beta)
    have route: "imports_open n (applyRoute cl r s') = imports_open n s' \<and> imports_sent n (applyRoute cl r s') = imports_sent n s'" for cl r s'
      by (simp add: applyRoute_def openExtraction_def split: run_route.split)
    show ?thesis
    proof (cases ?t)
      case (Await_Import m e p g left run cl)
      then have "m \<noteq> n" using False by auto
      have "sends n entity picked groups plan (import_settled m e p g left run cl r ?s)" for r
        by (rule keep [OF False]) (simp_all add: import_settled_def loop_others [OF \<open>m \<noteq> n\<close> [symmetric]] Let_def del: runReducer.simps)
      moreover have "sends n entity picked groups plan (show_run m run' (s\<lparr>wz_tasks := (wz_tasks s)[k := Await_Import m e p g left run' cl]\<rparr>))" for run'
        by (rule keep [OF False]) (simp_all add: open_k \<open>m \<noteq> n\<close>)
      ultimately show ?thesis using assms Await_Import by (cases a) (simp_all add: ans take_answer_def Let_def del: runReducer.simps)
    next
      case (Await_Preview files left previewed target)
      have "sends n entity picked groups plan (preview_answered files left previewed target r ?s)" for r
        by (rule keep [OF False]) (auto simp: preview_answered_def Let_def imports_open_def imports_sent_def ask_def release_def releaseStillWorking_def
          split: sum.split list.split)
      then show ?thesis using assms Await_Preview by (cases a) (simp_all add: ans take_answer_def Let_def)
    next
      case (Await_Mapping previewed target)
      have "sends n entity picked groups plan (mappings_answered previewed target u l sg c ?s)" for u l sg c
        by (rule keep [OF False]) (simp_all add: mappings_answered_def Let_def)
      then show ?thesis using assms Await_Mapping by (cases a) (simp_all add: ans take_answer_def Let_def)
    next
      case (Await_Documents m e p run cl)
      have "sends n entity picked groups plan (documents_settled m run cl ocs ?s)" for ocs
        by (rule keep [OF False]) (simp_all add: docs)
      moreover have "sends n entity picked groups plan (s\<lparr>wz_documentStages := mp\<rparr>)" for mp
        by (rule sends_same [OF _ _ assms]) simp_all
      ultimately show ?thesis using assms Await_Documents by (cases a) (simp_all add: ans take_answer_def Let_def)
    next
      case (Await_Sole m run cl)
      have "sends n entity picked groups plan (sole_answered m run cl f ?s)" for f
        by (rule keep [OF False]) (simp_all add: sole_answered_def route)
      then show ?thesis using assms Await_Sole by (cases a) (simp_all add: ans take_answer_def Let_def)
    next
      case (Await_Filing cl)
      have "sends n entity picked groups plan (filing_answered cl r ?s)" for r
        by (rule keep [OF False]) (simp_all add: imports_filing)
      then show ?thesis using assms Await_Filing by (cases a) (simp_all add: ans take_answer_def Let_def)
    next
      case (Await_Reading q b cl d)
      have "sends n entity picked groups plan (land_reading q b cl d r ?s)" for r
        by (rule keep [OF False]) (simp_all add: land_reading_def imports_open_def imports_sent_def)
      then show ?thesis using assms Await_Reading by (cases a) (simp_all add: ans take_answer_def Let_def)
    qed
  next
    case True
    then obtain left run cl where t: "?t = Await_Import n entity picked groups left run cl"
      and others: "filter (importing n) (take k (wz_tasks s)) = []" "filter (importing n) (drop (Suc k) (wz_tasks s)) = []"
      and plan: "imports_sent n s @ posts n entity picked groups (tl left) = plan"
      using assms open_k(1) by (auto simp: sends_def Cons_eq_append_conv append_eq_Cons_conv)
    have "sends n entity picked groups plan (import_settled n entity picked groups left run cl r ?s)" for r
      unfolding import_settled_def Let_def by (rule sends_loop) (simp_all add: open_k others plan)
    moreover have "sends n entity picked groups plan (show_run n run' (s\<lparr>wz_tasks := (wz_tasks s)[k := Await_Import n entity picked groups left run' cl]\<rparr>))" for run'
      using plan by (simp add: sends_def open_k others)
    ultimately show ?thesis using assms t by (cases a) (simp_all add: ans take_answer_def Let_def del: runReducer.simps)
  qed
qed

lemma sends_act:
  assumes "sends n entity picked groups plan s" "n \<le> wz_runSeq s \<or> wz_runSeq (wizard_act env s e) < n"
  shows "sends n entity picked groups plan (wizard_act env s e)"
proof (cases e)
  case (Answered k a)
  then show ?thesis using sends_answered [OF assms(1)] by simp
next
  case Continue
  have "sends n entity picked groups plan (startRun env s)" if "n \<le> wz_runSeq s \<or> wz_runSeq (startRun env s) < n"
  proof (cases "\<not> we_gateway env \<or> wz_entityId s = None \<or> wz_entityId s = Some [] \<or> \<not> canSubmitAllMappings (wz_groups s)")
    case True
    then show ?thesis using assms(1) by (simp add: startRun_def)
  next
    case gates: False
    show ?thesis
    proof (cases "lockHeld Op_Run s")
      case None
      then have "wz_runSeq (startRun env s) = Suc (wz_runSeq s)" using gates by (auto simp: startRun_def Let_def simp del: runReducer.simps)
      then have "n \<noteq> Suc (wz_runSeq s)" using that by auto
      then show ?thesis using None gates
        by (intro sends_same [OF _ _ assms(1)]) (auto simp: startRun_def Let_def loop_others simp del: runReducer.simps)
    next
      case (Some s')
      then show ?thesis using gates sends_same [OF _ _ assms(1)] imports_locked [OF Some] by (auto simp: startRun_def)
    qed
  qed
  moreover have "sends n entity picked groups plan (s\<lparr>wz_armedField := x\<rparr>)" "sends n entity picked groups plan (s\<lparr>wz_groupIndex := i\<rparr>)" for x i
    by (rule sends_same [OF _ _ assms(1)], simp_all add: imports_open_def imports_sent_def)+
  ultimately show ?thesis using assms(2) Continue by (auto simp: continueMapping_def)
next
  case Open_Wizard
  then show ?thesis by (intro sends_same [OF _ _ assms(1)]) (simp_all add: openCreate_def Let_def)
next
  case (Company i)
  then show ?thesis by (intro sends_same [OF _ _ assms(1)]) (simp_all add: switch_company_def Let_def)
next
  case Read_Columns
  then show ?thesis
    by (intro sends_same [OF _ _ assms(1)]) (auto simp: readAllColumns_def Let_def dest: imports_locked split: option.split)
next
  case Read_Documents
  then show ?thesis
    by (intro sends_same [OF _ _ assms(1)])
      (auto simp: start_documents_def Let_def simp del: runReducer.simps dest: imports_locked split: option.split)
next
  case File_Draft
  have "imports_open n (fileDraft env s) = imports_open n s \<and> imports_sent n (fileDraft env s) = imports_sent n s"
    by (auto simp: fileDraft_def Let_def fileSuppliedNumber_def fileDraftInvoice_def imports_filing dest: imports_locked
      split: option.split prod.split)
  then show ?thesis using File_Draft by (intro sends_same [OF _ _ assms(1)]) simp_all
next
  case (By_Hand d)
  then show ?thesis
    by (intro sends_same [OF _ _ assms(1)]) (simp_all add: enterByHand_def land_reading_def Let_def imports_open_def imports_sent_def ask_def)
qed (rule sends_same [OF _ _ assms(1)]; simp add: closeCreate_def backToImport_def restartImport_def skipUpload_def
    addPickedFiles_def removePickedFile_def armField_def setDrag_def endDrag_def dropOn_def clickCol_def unmap_def splitOutFile_def
    setInvoiceKind_def resetGroupToAutomatic_def imports_open_def imports_sent_def resetImport_def clear_handoff_def on_group_def
    assign_def Let_def split: option.split prod.split)+

text \<open>No request bears the number of a run that has not begun.\<close>

definition unused :: "nat \<Rightarrow> wizard \<Rightarrow> bool" where
  "unused n s \<longleftrightarrow> imports_open n s = [] \<and> imports_sent n s = []"

lemma unused_sends: "unused n s \<longleftrightarrow> (\<forall>entity. sends n entity [] [] [] s)"
proof
  assume all: "\<forall>entity. sends n entity [] [] [] s"
  then have "sends n ''a'' [] [] [] s" "sends n ''b'' [] [] [] s" by blast+
  then show "unused n s" by (auto simp: sends_def unused_def)
qed (simp add: sends_def unused_def)

lemma unused_reached: "wz_runSeq (foldl (wizard_step env) (wizard_boot env b) es) < n \<Longrightarrow>
    unused n (foldl (wizard_step env) (wizard_boot env b) es)"
proof (induction es rule: rev_induct)
  case Nil
  show ?case by (simp add: unused_def imports_open_def imports_sent_def wizard_boot_def nav.defs)
next
  case (snoc e es)
  define s where "s = foldl (wizard_step env) (wizard_boot env b) es"
  have seq: "wz_runSeq (wizard_step env t e) = wz_runSeq (wizard_act env t e)" for t by (simp add: wizard_step_def)
  have late: "wz_runSeq (wizard_act env s e) < n" using snoc.prems by (simp add: s_def seq)
  then have "unused n s" using snoc.IH le_less_trans [OF seq_mono late] by (simp add: s_def)
  then have "unused n (wizard_act env s e)" using sends_act late by (auto simp: unused_sends)
  then have "unused n (wizard_step env s e)" by (simp add: unused_def wizard_step_def)
  then show ?case by (simp add: s_def)
qed

text \<open>The click that starts a run: everything it needs is there, and the group on the screen is the last one.\<close>

definition ready_to_run :: "wizard_env \<Rightarrow> wizard \<Rightarrow> bool" where
  "ready_to_run env s \<longleftrightarrow> we_gateway env \<and> wz_entityId s \<noteq> None \<and> wz_entityId s \<noteq> Some [] \<and> canSubmitAllMappings (wz_groups s) \<and>
     \<not> wz_reqInFlight s \<and> Suc (wz_groupIndex s) = length (wz_groups s)"

definition planned :: "wizard \<Rightarrow> wizard_request list" where
  "planned s = posts (Suc (wz_runSeq s)) (the (wz_entityId s)) (wz_pickedFiles s) (wz_groups s) (run_files (wz_groups s) (wz_pickedFiles s))"

lemma ready_starts: "ready_to_run env s \<Longrightarrow> wizard_act env s Continue = startRun env s"
  by (auto simp: ready_to_run_def continueMapping_def activeGroup_def canSubmitAllMappings_def list_all_length)

lemma start_sends:
  assumes "ready_to_run env s" "unused (Suc (wz_runSeq s)) s"
  shows "sends (Suc (wz_runSeq s)) (the (wz_entityId s)) (wz_pickedFiles s) (wz_groups s) (planned s) (startRun env s)"
    "wz_runSeq (startRun env s) = Suc (wz_runSeq s)"
proof -
  have free: "lockHeld Op_Run s = None" using assms(1) by (simp add: ready_to_run_def lockHeld_def)
  show "sends (Suc (wz_runSeq s)) (the (wz_entityId s)) (wz_pickedFiles s) (wz_groups s) (planned s) (startRun env s)"
    using assms free unfolding startRun_def ready_to_run_def
    by (auto simp: Let_def planned_def unused_def simp del: runReducer.simps intro!: sends_loop)
  show "wz_runSeq (startRun env s) = Suc (wz_runSeq s)"
    using assms free unfolding startRun_def ready_to_run_def by (auto simp: Let_def simp del: runReducer.simps)
qed

text \<open>C4: a run sends each file once, in order, one at a time. After the click that starts it, and whatever else is clicked or
  answered, either every import planned at the click was sent under its number and none waits, or exactly one waits, and
  what was sent so far and what that one still has to send after it make up the plan. The plan lists, for every picked
  file with a stored document and a group and in the order of the files, the document, the company of the click and the
  mapping of its group.\<close>

theorem run_posts_in_order:
  assumes "s = foldl (wizard_step env) (wizard_boot env b) before" "ready_to_run env s"
    and "s' = foldl (wizard_step env) (wizard_step env s Continue) after"
  shows "imports_open (Suc (wz_runSeq s)) s' = [] \<and> imports_sent (Suc (wz_runSeq s)) s' = planned s \<or>
    (\<exists>left run cl. imports_open (Suc (wz_runSeq s)) s' =
         [Await_Import (Suc (wz_runSeq s)) (the (wz_entityId s)) (wz_pickedFiles s) (wz_groups s) left run cl] \<and>
       imports_sent (Suc (wz_runSeq s)) s' @
         posts (Suc (wz_runSeq s)) (the (wz_entityId s)) (wz_pickedFiles s) (wz_groups s) (tl left) = planned s)"
proof -
  let ?n = "Suc (wz_runSeq s)"
  define inv where "inv t \<longleftrightarrow> sends ?n (the (wz_entityId s)) (wz_pickedFiles s) (wz_groups s) (planned s) t \<and> ?n \<le> wz_runSeq t" for t
  have "unused ?n s" using unused_reached [of env b before ?n] by (simp add: assms(1))
  then have "inv (wizard_step env s Continue)"
    using start_sends [OF assms(2)] ready_starts [OF assms(2)]
    by (auto simp: inv_def wizard_step_def intro: sends_same [OF imports_render])
  moreover have "inv (wizard_step env t e)" if "inv t" for t e
    using that sends_act [of ?n _ _ _ _ t env e] seq_mono [of t env e]
    by (auto simp: inv_def wizard_step_def intro: sends_same [OF imports_render])
  ultimately have "inv (foldl (wizard_step env) (wizard_step env s Continue) es)" for es
    by (induction es rule: rev_induct) auto
  then have "inv s'" by (simp add: assms(3))
  then show ?thesis by (simp add: inv_def sends_def)
qed

lemma wz_render [simp]:
  "wz_tasks (rendered s) = wz_tasks s" "wz_groups (rendered s) = wz_groups s" "wz_groupIndex (rendered s) = wz_groupIndex s"
  "wz_reqInFlight (rendered s) = wz_reqInFlight s" "wz_armedField (rendered s) = wz_armedField s" "wz_pickedFiles (rendered s) = wz_pickedFiles s"
  by (simp_all add: rendered_def fill_target_def fill_supplier_def Let_def split: option.split)

lemma entity_render: "wz_entityId s = Some i \<Longrightarrow> wz_entityId (rendered s) = Some i"
proof -
  assume "wz_entityId s = Some i"
  then have "wz_entityId (fill_supplier (commit s)) = Some i" by (simp add: fill_supplier_def Let_def split: option.split)
  then show ?thesis by (simp add: rendered_def fill_target_def)
qed

lemma unanswered_groups:
  "restoreGroups gs (Some (\<lambda>_. Some None)) = gs" "suggestGroups gs (Some (\<lambda>_. None)) = gs" "checkGroups gs (Some (\<lambda>_ _. None)) = gs"
  by (simp_all add: restoreGroups_def suggestGroups_def checkGroups_def applySavedMapping_def map_idI Let_def)

definition demo_env :: wizard_env where
  "demo_env = \<lparr>we_gateway = True, we_handoff = True, we_sector = (\<lambda>_. ([], None))\<rparr>"

definition demo_company :: entity where
  "demo_company = (\<lparr>fe_id = ''a'', fe_name = ''A'', fe_tin = None\<rparr>, \<lambda>_. None)"

definition demo_preview :: "string \<Rightarrow> import_preview" where
  "demo_preview d = \<lparr>ip_document_id = d, ip_format = ''csv'', ip_delimiter = None, ip_encoding = None, ip_columns = [''No''],
     ip_sample_rows = [], ip_rows_total = 1\<rparr>"

definition demo_file :: "string \<Rightarrow> js_file" where
  "demo_file n = \<lparr>fi_name = n, fi_type = [], fi_size = 1\<rparr>"

definition demo_picks :: "wizard_event list" where
  "demo_picks = [Entities [demo_company], Open_Wizard,
     Pick (\<lambda>n. if n = 0 then ''f'' else ''g'') [demo_file ''x.csv'', demo_file ''y.csv''],
     Read_Columns, Answered 0 (Previewed (Inr (demo_preview ''d''))), Answered 0 (Previewed (Inr (demo_preview ''e'')))]"

definition demo_boot :: wizard where
  "demo_boot = wizard_boot demo_env (workspace_boot Firm_Mode ''m'' demo_history 0 (''/'', []))"

definition demo_read :: wizard where
  "demo_read = foldl (wizard_step demo_env) demo_boot demo_picks"

lemma demo_read_tasks: "wz_tasks demo_read = [Await_Mapping [(''f'', demo_preview ''d''), (''g'', demo_preview ''e'')] (Some ''a'')]"
  by code_simp

lemma demo_read_entity: "wz_entityId demo_read = Some ''a''" "wz_armedField demo_read = None"
  by code_simp+

definition demo_placed :: "wizard_event list" where
  "demo_placed = [Answered 0 (Mappings (\<lambda>_. ''m'') (\<lambda>_. Some None) (\<lambda>_. None) (\<lambda>_ _. None)), Arm ''invoice_number'', Click_Column ''No'']"

definition demo_ready :: wizard where
  "demo_ready = foldl (wizard_step demo_env) demo_read demo_placed"

lemma demo_groups: "groupByLayout (\<lambda>_. ''m'') [(''f'', demo_preview ''d''), (''g'', demo_preview ''e'')] =
    [\<lparr>mg_id = ''m'', mg_signature = columnSignature [''No''], mg_fileIds = [''f'', ''g''], mg_preview = demo_preview ''d'', mg_headerRow = 1,
      mg_mapping = initMappingFromHeaders [''No''], mg_restored = None, mg_suggested = None, mg_invoiceKind = None\<rparr>]"
  by (simp add: groupByLayout_def add_to_group_def demo_preview_def Let_def)

lemma demo_ready_ok: "ready_to_run demo_env demo_ready"
proof -
  define s where "s = wizard_step demo_env demo_read (hd demo_placed)"
  have s: "wz_groups s = groupByLayout (\<lambda>_. ''m'') [(''f'', demo_preview ''d''), (''g'', demo_preview ''e'')]"
    "wz_groupIndex s = 0" "wz_entityId s = Some ''a''" "\<not> wz_reqInFlight s" "wz_armedField s = None"
    by (simp_all add: s_def demo_placed_def wizard_step_def answered_def take_answer_def demo_read_tasks demo_read_entity mappings_answered_def
      if_target_def unanswered_groups release_def releaseStillWorking_def entity_render Let_def)
  define t where "t = wizard_step demo_env (wizard_step demo_env s (Arm ''invoice_number'')) (Click_Column ''No'')"
  have "ready_to_run demo_env t"
    using s by (simp add: t_def ready_to_run_def wizard_step_def armField_def clickCol_def assign_def on_group_def map_at_def demo_groups
      canSubmitAllMappings_def canSubmitMapping_def entity_render demo_env_def)
  moreover have "demo_ready = t" by (simp add: demo_ready_def demo_placed_def s_def t_def)
  ultimately show ?thesis by simp
qed

definition demo_sent :: wizard where
  "demo_sent = foldl (wizard_step demo_env) (wizard_step demo_env demo_ready Continue)
      [Answered 0 (Import_Settled (Inr (sample_report ''b'' 1))), Company ''b'']"

theorem run_posts_witness:
  "imports_open (Suc (wz_runSeq demo_ready)) demo_sent = [] \<and> imports_sent (Suc (wz_runSeq demo_ready)) demo_sent = planned demo_ready \<or>
    (\<exists>left run cl. imports_open (Suc (wz_runSeq demo_ready)) demo_sent =
         [Await_Import (Suc (wz_runSeq demo_ready)) (the (wz_entityId demo_ready)) (wz_pickedFiles demo_ready) (wz_groups demo_ready) left run cl] \<and>
       imports_sent (Suc (wz_runSeq demo_ready)) demo_sent @
         posts (Suc (wz_runSeq demo_ready)) (the (wz_entityId demo_ready)) (wz_pickedFiles demo_ready) (wz_groups demo_ready) (tl left)
         = planned demo_ready)"
proof -
  have "demo_ready = foldl (wizard_step demo_env) (wizard_boot demo_env (workspace_boot Firm_Mode ''m'' demo_history 0 (''/'', [])))
      (demo_picks @ demo_placed)"
    by (simp add: demo_ready_def demo_read_def demo_boot_def)
  from run_posts_in_order [OF this demo_ready_ok demo_sent_def] show ?thesis .
qed

definition demo_documents :: wizard where
  "demo_documents = foldl (wizard_step demo_env) demo_boot
     [Entities [demo_company], Open_Wizard, Pick (\<lambda>_. ''f'') [demo_file ''x.pdf''], Read_Documents]"

definition demo_restarted :: wizard where
  "demo_restarted = foldl (wizard_step demo_env) (wizard_step demo_env demo_documents Restart_Import) [Skip_Upload]"

theorem left_run_witness:
  "same_page demo_restarted (wizard_step demo_env demo_restarted (Answered 0 (Documents_Settled [Outcome_Failed ''no'' None])))"
proof -
  have "leaves demo_documents Restart_Import" by simp
  moreover have "0 < length (wz_tasks demo_restarted)" "run_of (wz_tasks demo_restarted ! 0) = Some 2" "2 \<le> wz_runSeq demo_documents"
    by code_simp+
  ultimately show ?thesis using left_run_lands_nowhere [THEN conjunct1] demo_restarted_def by blast
qed

text \<open>A filing is not a run: a switch does not stop it. When it is answered, its invoice opens while the header keeps the company
  switched to, and the entry it writes is stamped with the company it was filed for.\<close>

lemma filing_lands_after_switch:
  assumes "k < length (wz_tasks s)" "wz_tasks s ! k = Await_Filing cl" "nv_at s < length (nv_entries s)"
  shows "nv_view (answered k (Filed (Inr i)) s) = V_Detail" "nv_detail (answered k (Filed (Inr i)) s) = Some i"
    "active_id (answered k (Filed (Inr i)) s) = active_id s"
    "Option.bind (en_stamp (current_entry (answered k (Filed (Inr i)) s))) st_e = cl_active cl"
proof -
  define n where "n = openImportedInvoice cl i None (nav_of s)"
  have nav: "nav_of (answered k (Filed (Inr i)) s) = n"
    using assms(1,2) by (simp add: nav_of_answer task_moves_def n_def)
  have "nv_view n = V_Detail" "nv_detail n = Some i" "active_id n = active_id s" by (simp_all add: n_def openImportedInvoice_def)
  moreover have "Option.bind (en_stamp (current_entry n)) st_e = cl_active cl"
    using assms(3) by (simp add: n_def openImportedInvoice_def current_entry_def navigate_entries nth_append)
  ultimately show "nv_view (answered k (Filed (Inr i)) s) = V_Detail" "nv_detail (answered k (Filed (Inr i)) s) = Some i"
    "active_id (answered k (Filed (Inr i)) s) = active_id s"
    "Option.bind (en_stamp (current_entry (answered k (Filed (Inr i)) s))) st_e = cl_active cl"
    unfolding nav [symmetric] by simp_all
qed

end
