(* ===== verification/Spec2Isabelle.thy ===== *)
theory Spec2Isabelle
  imports Draft_Filing Line_Items Review_Submit Renewal Route Workflow_Edits Roles Approvals Extraction_Save
    App_Boot Import_Wizard
begin

text \<open>
  A verification development for the workspace application of Invoice OS: the TypeScript libraries under
  \<open>src/frontend/app/src/lib\<close>, the outer component and the workspace of \<open>src/frontend/app/src/App.tsx\<close>, the handlers
  of the screens that carry logic of their own, and the gateway client \<open>src/packages/api-client\<close>. The server (Go) is on the
  other side of \<open>fetch\<close>.

  \<^bold>\<open>The program.\<close> A firm's operator comes from a landing page with a code, which the app exchanges for a session; the tab's
  storage carries what must survive the bounce. Every request goes through one client that signs it, retries it once after a
  refused token, and reports the failure as a value; a renewer replaces the session before it expires. The workspace shows one
  company at a time and keeps view, record and address in step. Invoices enter by the create form or by an import: files are
  picked, their columns are mapped (or documents are read), a run settles each file, and the review of the run lists what
  arrived, what did not, and lets the operator submit. A document that was read is reviewed field by field, and a save posts the corrections. A
  workspace also has members, the seats (workflow roles) they hold, approval policies (a tree of steps edited in a builder)
  and the queue of invoices that await an approval. The theories follow these parts, in the order the code's imports have them.

  \<^bold>\<open>Theories and sources\<close> (paths below \<open>src/frontend/app/src/lib\<close> unless given; \<open>components\<close> is its sibling).
  \<^item> \<open>Prelude\<close>: strings as UTF-8 bytes, JSON values, digits, list lemmas, lookups, and the interfaces (locales)
    \<open>partial_codec\<close> (what parses is what prints), \<open>machine\<close> (a start, a step, an invariant kept) and
    \<open>row_selection\<close> (ticking rows of a page).
  \<^item> \<open>Decimals\<close>: the bigint decimals of \<open>invoices.ts\<close> and \<open>lineItems.ts\<close>.
  \<^item> \<open>Invoice_Fields\<close>: \<open>invoiceFields.gen.ts\<close>, \<open>invoiceFields.ts\<close> and the edit form of \<open>invoices.ts\<close>.
  \<^item> \<open>Draft_Totals\<close>, \<open>Draft_Filing\<close>: the create form of \<open>invoiceDraft.ts\<close>; filing is a state machine of clicks and
    answers over the record \<open>filing\<close>.
  \<^item> \<open>Line_Items\<close>: the rows read from a document (\<open>lineItems.ts\<close>).
  \<^item> \<open>Uri\<close>: the platform's percent and form encoders and UTF-8 decoder, which addresses and requests use.
  \<^item> \<open>Invoices\<close>: wire types, requests, normalisation, selection, labels and paging of \<open>invoices.ts\<close>. Its \<open>serve_pages\<close> is
    not a translation: it states what the listing endpoint of the server does with a limit and an offset.
  \<^item> \<open>Import_Flow\<close>: \<open>importFlow.ts\<close>, \<open>importReport.ts\<close> and the types of \<open>importApi.ts\<close>; \<open>Import_Transport\<close>: the requests of
    \<open>importApi.ts\<close> and its upload (\<open>xhrJson\<close>), whose events may come in any order.
  \<^item> \<open>Mapping_Groups\<close>: \<open>mapping.ts\<close> and \<open>mappingGroups.ts\<close>.
  \<^item> \<open>Import_Run\<close>: \<open>importRun.ts\<close>, \<open>documentRun.ts\<close> and the loop of \<open>App.tsx\<close> that settles a document run.
  \<^item> \<open>Import_Wizard\<close>: the create view (\<open>Workspace\<close> in \<open>App.tsx\<close>): draft and filing, picked files, previews, the mapping step, both
    runs and where they land, under the one lock. What waits for an answer is a task of the state.
  \<^item> \<open>Review_Batch\<close>: the review of a run (\<open>reviewBatch.ts\<close>); \<open>Review_Submit\<close>: its bulk bar and the handlers of
    \<open>components/ReviewInvoicesTab.tsx\<close> as a machine of clicks and answers.
  \<^item> \<open>Extraction_Review\<close>: \<open>extractionReview.ts\<close>; \<open>Extraction_Save\<close>: the review screen of a read document
    (\<open>components/ExtractionReview.tsx\<close>, \<open>components/ExtractionFields.tsx\<close>) as a machine over the record \<open>shell\<close>, with the requests of a save.
  \<^item> \<open>Api_Client\<close>: \<open>client.ts\<close>, \<open>apiFailure.ts\<close>, \<open>async-state.ts\<close> of the client package and \<open>authedFetch.ts\<close>.
  \<^item> \<open>Session\<close>: \<open>session.ts\<close> and the personas of \<open>auth.ts\<close>; \<open>Renewal\<close>: \<open>renewal.ts\<close> as a step relation over the
    references to sessions, the request in flight, storage and the clock.
  \<^item> \<open>Tab_Storage\<close>: \<open>signInState.ts\<close>, \<open>pendingInvite.ts\<close>, \<open>verifyBounce.ts\<close>, \<open>deepLink.ts\<close> and the cancel link of
    \<open>workspaceDeletion.ts\<close>, over a storage that may be full or blocked; \<open>Sign_In\<close>: \<open>sessionHandoff.ts\<close>; \<open>App_Boot\<close>: the outer
    component \<open>App\<close> of \<open>App.tsx\<close>, \<open>consoleHandoff.ts\<close> and \<open>revoke.ts\<close>.
  \<^item> \<open>Route\<close>: \<open>route.ts\<close>; \<open>Workspace_Nav\<close>: the navigation of \<open>Workspace\<close> in \<open>App.tsx\<close> and \<open>clients.ts\<close>, with the browser's history as a list
    of entries in the state.
  \<^item> \<open>Workflows\<close>: \<open>workflows.ts\<close> and \<open>policies.ts\<close>; \<open>Workflow_Edits\<close>: what the edits do to the tree, and the
    handlers of \<open>components/WorkflowBuilder.tsx\<close> as \<open>apply_edit\<close>.
  \<^item> \<open>Members\<close>: \<open>members.ts\<close>; \<open>Roles\<close>: \<open>roles.ts\<close>; \<open>Approvals\<close>: \<open>approvals.ts\<close> and the confirmation of
    \<open>components/ApprovalsView.tsx\<close>.

  \<^bold>\<open>How state and operations correspond.\<close> An interface or object type is a record, a string union a datatype (with
  a constructor for any other text where the code lets one through), \<open>null\<close> and \<open>undefined\<close> are \<open>None\<close>, counts are
  \<open>nat\<close> or \<open>int\<close>, bigints \<open>int\<close>, and a JavaScript number is an exact rational or \<open>None\<close> for NaN. A reducer is a
  function of state and action. A handler with an \<open>await\<close> is split at it: one step for the click, one for the answer,
  so that any interleaving of clicks and answers is a sequence of steps. What a handler reads from an earlier render is passed
  to it as a \<open>closure\<close>. An effect runs on the state of the render whose dependencies changed. A rejected promise or a thrown
  error is a value (\<open>Inl\<close> or \<open>None\<close>). Module counters are threaded through the operations that bump them.

  \<^bold>\<open>What the lemmas show.\<close>
  \<^item> Money: decimals parse exactly the grammar and print canonically; line taxes sum to the rounded tax of their
    group, each within a kobo.
  \<^item> Machines of clicks and answers: at most one round trip of the create view is under way, and one submit; a submit is sent only
    when armed; of the refresh requests at most one is for the session in use, and late answers to the others are discarded; an
    answer to an import that was left touches nothing on the page; an upload settles once; a screen never shows the answer of an
    earlier read.
  \<^item> Navigation: the record shown belongs to the company in the header and a reload shows the same screen. Both have exceptions, which the
    flags \<open>strayed\<close> and \<open>drifted\<close> of a run of events delimit. The create view refines the navigation.
  \<^item> Sign-in: one exchange of the code of the address, with a state this tab minted; a session only if its own token reads it back; one
    exit per failed redemption; the tab storage refines five independent slots; a deep link survives the bounce.
  \<^item> Import and review: the requests of a run in order, poll termination, agreement of the rows reported concurrently with the rows
    of the run (a refinement), and no row error lost or shown twice; the requests of a save, and what it keeps of the typing.
  \<^item> Round trips: addresses, stored sessions, CSV downloads, saved policies.
  \<^item> Editing: no condition ever stands inside a branch; a dropped step lands where it was dropped.
  \<^item> Access: flags fail closed; the last admin is kept; the warnings about seats are exact; exactly the approvable
    selected rows are posted, and what is reported of each is what the server answered.

  \<^bold>\<open>Bounds and fuel.\<close> Polling gets 62 ticks, the budget of the code divided by its interval: the termination property
  shows a verdict within them. The search text is cut at 200 bytes, a run holds five files, the register reads at most ten
  pages of 200. The loop that strips encoded characters, the loop that trims a name and the address splitter recurse on a
  shorter text, so their fuel, the length of the text, cannot run out. All other loops are structural recursion or folds.

  \<^bold>\<open>Parameters.\<close> \<open>fetch\<close>, \<open>JSON.parse\<close> and \<open>JSON.stringify\<close>, clocks, random identifiers, locale dates and money,
  and the number conversions \<open>String\<close> and \<open>Number\<close> are arguments. Laws used of them are hypotheses of the properties that
  need them: a printed number reads back, and JSON reads back what was stringified, for the stored session record and for the
  flat records the tab stores (distinct keys, values \<open>null\<close>, text or a whole number of a clock's range), not for every value. Each such
  property has a witness. Where the code takes a text of an answer on trust (the \<open>access_token\<close> of a redemption), the model reads any
  other value as the empty text, which the gateway's contract excludes.

  \<^bold>\<open>Not modelled.\<close> React markup, styles and static copy; the invoice screen (\<open>components/InvoiceDetail.tsx\<close>), whose requests and
  flags are in \<open>Invoices\<close>; the page viewer of a document; dashboard aggregates, the audit log and its export, customers,
  connectors, rules and notes; the support console and the landing site; lower-casing beyond ASCII. Leaving the document (a
  full page load) ends a run of the models of \<open>App\<close> and \<open>Workspace\<close>. Of \<open>NodePatch\<close> the builder's edits use the fields the
  screens pass.
\<close>

end
